(* ===== verification/Prov_Prelude.thy ===== *)
theory Prov_Prelude
  imports Main "HOL-Library.Word" "HOL-Library.Monad_Syntax"
begin

text \<open>
  Shared vocabulary of the development: the machine types of the device library, error
  codes as values, bounded memory copies whose out-of-range case is a value, and the
  collections of facts the component theories add to.

  Conventions used by every component theory.
  \<^item> A C function whose execution may be undefined (a null pointer handed to
    \<^verbatim>\<open>strlen\<close>, a copy past the end of an array, a read of a dead stack frame)
    returns an \<open>option\<close>; \<open>None\<close> is the undefined execution, never an error code.
  \<^item> An error code is a value of type \<open>rc\<close>: \<open>None\<close> is \<^verbatim>\<open>0\<close>, \<open>Some e\<close> is \<^verbatim>\<open>-e\<close>.
  \<^item> \<^verbatim>\<open>size_t\<close> lengths of objects in memory are natural numbers; integers that come off
    the wire or that the code lets wrap keep their width.
\<close>

type_synonym u8 = "8 word"
type_synonym u16 = "16 word"
type_synonym u32 = "32 word"
type_synonym bytes = "8 word list"

named_theorems sim_intros \<open>simulation of the codec primitives by the reference machine\<close>
named_theorems codec_defs \<open>definitions of the wire codec\<close>
named_theorems ref_defs \<open>definitions of the reference machine\<close>
named_theorems inv_defs \<open>definitions of the component invariants\<close>
named_theorems keeps \<open>operations keep an invariant or a field\<close>

subsection \<open>Error codes\<close>

text \<open>The errno values the library returns or tests; \<open>EXT\<close> is any other value of a callee.\<close>

datatype errno =
    EINVAL | EALREADY | EBADMSG | EMSGSIZE | ENOMEM | EIO | ENODEV | ENOENT | EAGAIN | ETIMEDOUT | EXT int

type_synonym rc = "errno option"

abbreviation (input) rc_ok :: rc where
  "rc_ok \<equiv> None"

abbreviation (input) rc_err :: "errno \<Rightarrow> rc" where
  "rc_err e \<equiv> Some e"

subsection \<open>Memory\<close>

text \<open>\<open>memcpy_at dst off src\<close> copies \<open>src\<close> to \<open>dst + off\<close>; outside \<open>dst\<close> it is undefined.\<close>

definition memcpy_at :: "bytes \<Rightarrow> nat \<Rightarrow> bytes \<Rightarrow> bytes option" where
  "memcpy_at dst off src =
     (if off + length src \<le> length dst
      then Some (take off dst @ src @ drop (off + length src) dst) else None)"

text \<open>\<open>mem_read buf off n\<close> is the \<open>n\<close> bytes at \<open>buf + off\<close>; outside \<open>buf\<close> it is undefined.\<close>

definition mem_read :: "bytes \<Rightarrow> nat \<Rightarrow> nat \<Rightarrow> bytes option" where
  "mem_read buf off n = (if off + n \<le> length buf then Some (take n (drop off buf)) else None)"

text \<open>\<open>byte_at buf i\<close> is \<^verbatim>\<open>buf[i]\<close>; outside \<open>buf\<close> it is undefined.\<close>

definition byte_at :: "bytes \<Rightarrow> nat \<Rightarrow> u8 option" where
  "byte_at buf i = (if i < length buf then Some (buf ! i) else None)"

text \<open>A string literal as the bytes of its characters, without the terminating zero.\<close>

definition str_bytes :: "string \<Rightarrow> bytes" where
  "str_bytes s = map of_char s"

definition assert_opt :: "bool \<Rightarrow> unit option" where
  "assert_opt b = (if b then Some () else None)"

lemma assert_opt_simps [simp]:
  "assert_opt True = Some ()"
  "assert_opt False = None"
  "(assert_opt b = Some u) = b"
  "(assert_opt b = None) = (\<not> b)"
  by (simp_all add: assert_opt_def)

lemma bind_assert [simp]: "(assert_opt b \<bind> f) = (if b then f () else None)"
  by (simp add: assert_opt_def)

lemma length_str_bytes [simp]: "length (str_bytes s) = length s"
  by (simp add: str_bytes_def)

lemma memcpy_at_ok [simp]:
  "off + length src \<le> length dst \<Longrightarrow>
   memcpy_at dst off src = Some (take off dst @ src @ drop (off + length src) dst)"
  by (simp add: memcpy_at_def)

lemma memcpy_at_length:
  "memcpy_at dst off src = Some dst' \<Longrightarrow> length dst' = length dst"
  by (auto simp: memcpy_at_def split: if_splits)

lemma memcpy_at_prefix:
  "memcpy_at dst off src = Some dst' \<Longrightarrow> take (off + length src) dst' = take off dst @ src"
  by (auto simp: memcpy_at_def split: if_splits)

lemma memcpy_at_eq_Some:
  "(\<exists>dst'. memcpy_at dst off src = Some dst') \<longleftrightarrow> off + length src \<le> length dst"
  by (simp add: memcpy_at_def)

lemma mem_read_ok [simp]:
  "off + n \<le> length buf \<Longrightarrow> mem_read buf off n = Some (take n (drop off buf))"
  by (simp add: mem_read_def)

lemma byte_at_ok [simp]: "i < length buf \<Longrightarrow> byte_at buf i = Some (buf ! i)"
  by (simp add: byte_at_def)

lemma mem_read_length: "mem_read buf off n = Some bs \<Longrightarrow> length bs = n"
  by (auto simp: mem_read_def split: if_splits)

subsection \<open>Sequences of option-valued steps\<close>

text \<open>Running a state transformer over a list, stopping at the first undefined step.\<close>

fun foldM :: "('a \<Rightarrow> 's \<Rightarrow> 's option) \<Rightarrow> 'a list \<Rightarrow> 's \<Rightarrow> 's option" where
  "foldM f [] s = Some s"
| "foldM f (x # xs) s = f x s \<bind> foldM f xs"

lemma foldM_append: "foldM f (xs @ ys) s = foldM f xs s \<bind> foldM f ys"
  by (induction xs arbitrary: s) (auto simp: bind_assoc split: bind_splits)

lemma foldM_invariant:
  assumes "foldM f xs s = Some s'" and "P s"
    and "\<And>x t t'. x \<in> set xs \<Longrightarrow> P t \<Longrightarrow> f x t = Some t' \<Longrightarrow> P t'"
  shows "P s'"
  using assms
proof (induction xs arbitrary: s)
  case Nil
  then show ?case by simp
next
  case (Cons x xs)
  from Cons.prems(1) obtain t where t: "f x s = Some t" "foldM f xs t = Some s'"
    by (auto split: bind_splits)
  then have "P t" using Cons.prems(2,3) by auto
  with t(2) show ?case by (rule Cons.IH) (auto intro: Cons.prems(3))
qed

lemma foldM_total:
  assumes "P s" and "\<And>x t. x \<in> set xs \<Longrightarrow> P t \<Longrightarrow> \<exists>t'. f x t = Some t' \<and> P t'"
  shows "\<exists>s'. foldM f xs s = Some s' \<and> P s'"
  using assms
proof (induction xs arbitrary: s)
  case Nil
  then show ?case by simp
next
  case (Cons x xs)
  from Cons.prems(2)[of x s] Cons.prems(1) obtain t where "f x s = Some t" "P t"
    by auto
  with Cons.IH[of t] Cons.prems(2) show ?case by simp
qed

subsection \<open>Words\<close>

lemma unat_lt_u32: "unat (x :: u32) < 4294967296"
  using unsigned_less[of x, where 'a=nat] by simp

lemma unat_lt_u8: "unat (x :: u8) < 256"
  using unsigned_less[of x, where 'a=nat] by simp

lemma unat_of_nat_small: "n < 2 ^ LENGTH('a) \<Longrightarrow> unat (of_nat n :: 'a::len word) = n"
  by (simp add: unat_of_nat take_bit_nat_eq_self)

end
