(* ===== verification/Cbor_Tokens.thy ===== *)
theory Cbor_Tokens
  imports Prov_Prelude
begin

text \<open>
  The data items of RFC 8949 that the protocol uses, as tokens, with their shortest-form
  (canonical) byte encoding and a lexer. A definite-length array or map contributes the token
  of its header; its elements follow. This is the documented wire format that the contract of
  the CBOR library in theory \<open>Zcbor\<close> refers to.
\<close>

datatype tok =
    T_uint nat
  | T_nint nat
  | T_bstr bytes
  | T_tstr bytes
  | T_list nat
  | T_map nat
  | T_bool bool

text \<open>Big-endian bytes: \<open>be_bytes k n\<close> is \<open>n\<close> in \<open>k\<close> bytes.\<close>

fun be_bytes :: "nat \<Rightarrow> nat \<Rightarrow> bytes" where
  "be_bytes 0 n = []"
| "be_bytes (Suc k) n = be_bytes k (n div 256) @ [of_nat (n mod 256)]"

definition be_value :: "bytes \<Rightarrow> nat" where
  "be_value bs = foldl (\<lambda>a b. a * 256 + unat b) 0 bs"

text \<open>Initial byte and argument of an item of major type \<open>m\<close> with argument \<open>n\<close>.\<close>

definition cbor_head :: "nat \<Rightarrow> nat \<Rightarrow> bytes" where
  "cbor_head m n =
     (if n < 24 then [of_nat (32 * m + n)]
      else if n < 256 then of_nat (32 * m + 24) # be_bytes 1 n
      else if n < 65536 then of_nat (32 * m + 25) # be_bytes 2 n
      else if n < 4294967296 then of_nat (32 * m + 26) # be_bytes 4 n
      else of_nat (32 * m + 27) # be_bytes 8 n)"

fun tok_bytes :: "tok \<Rightarrow> bytes" where
  "tok_bytes (T_uint n) = cbor_head 0 n"
| "tok_bytes (T_nint n) = cbor_head 1 n"
| "tok_bytes (T_bstr b) = cbor_head 2 (length b) @ b"
| "tok_bytes (T_tstr b) = cbor_head 3 (length b) @ b"
| "tok_bytes (T_list n) = cbor_head 4 n"
| "tok_bytes (T_map n) = cbor_head 5 n"
| "tok_bytes (T_bool b) = [if b then 0xf5 else 0xf4]"

definition toks_bytes :: "tok list \<Rightarrow> bytes" where
  "toks_bytes ts = concat (map tok_bytes ts)"

text \<open>Arguments have at most 64 bits.\<close>

fun wf_tok :: "tok \<Rightarrow> bool" where
  "wf_tok (T_uint n) = (n < 18446744073709551616)"
| "wf_tok (T_nint n) = (n < 18446744073709551616)"
| "wf_tok (T_bstr b) = (length b < 18446744073709551616)"
| "wf_tok (T_tstr b) = (length b < 18446744073709551616)"
| "wf_tok (T_list n) = (n < 18446744073709551616)"
| "wf_tok (T_map n) = (n < 18446744073709551616)"
| "wf_tok (T_bool b) = True"

text \<open>The lexer: initial byte, argument, then the payload of a string.\<close>

definition lex_arg :: "nat \<Rightarrow> bytes \<Rightarrow> (nat \<times> bytes) option" where
  "lex_arg k bs = (if k \<le> length bs then Some (be_value (take k bs), drop k bs) else None)"

definition lex_head :: "bytes \<Rightarrow> (nat \<times> nat \<times> bytes) option" where
  "lex_head bs = (case bs of [] \<Rightarrow> None | b # rest \<Rightarrow>
     (let m = unat b div 32; a = unat b mod 32 in
      if a < 24 then Some (m, a, rest)
      else if a = 24 then map_option (\<lambda>(n, r). (m, n, r)) (lex_arg 1 rest)
      else if a = 25 then map_option (\<lambda>(n, r). (m, n, r)) (lex_arg 2 rest)
      else if a = 26 then map_option (\<lambda>(n, r). (m, n, r)) (lex_arg 4 rest)
      else if a = 27 then map_option (\<lambda>(n, r). (m, n, r)) (lex_arg 8 rest)
      else None))"

definition lex_tok :: "bytes \<Rightarrow> (tok \<times> bytes) option" where
  "lex_tok bs = (case lex_head bs of None \<Rightarrow> None | Some (m, n, r) \<Rightarrow>
     (if m = 0 then Some (T_uint n, r)
      else if m = 1 then Some (T_nint n, r)
      else if m = 2 then (if n \<le> length r then Some (T_bstr (take n r), drop n r) else None)
      else if m = 3 then (if n \<le> length r then Some (T_tstr (take n r), drop n r) else None)
      else if m = 4 then Some (T_list n, r)
      else if m = 5 then Some (T_map n, r)
      else if m = 7 \<and> n = 20 then Some (T_bool False, r)
      else if m = 7 \<and> n = 21 then Some (T_bool True, r)
      else None))"

text \<open>All tokens up to the end of the input or the first malformed item.\<close>

fun lex_fuel :: "nat \<Rightarrow> bytes \<Rightarrow> tok list" where
  "lex_fuel 0 bs = []"
| "lex_fuel (Suc k) bs = (case lex_tok bs of None \<Rightarrow> [] | Some (t, r) \<Rightarrow> t # lex_fuel k r)"

text \<open>Every item takes at least one byte, so the length of the input is enough fuel.\<close>

definition lex_toks :: "bytes \<Rightarrow> tok list" where
  "lex_toks bs = lex_fuel (length bs) bs"

subsection \<open>Encoding and lexing are inverse\<close>

lemma length_be_bytes [simp]: "length (be_bytes k n) = k"
  by (induction k arbitrary: n) auto

lemma be_value_append: "be_value (bs @ [b]) = be_value bs * 256 + unat b"
  by (simp add: be_value_def)

lemma unat_of_nat_mod256: "unat (of_nat (n mod 256) :: u8) = n mod 256"
  by (simp add: unat_of_nat_small)

lemma be_value_be_bytes: "n < 256 ^ k \<Longrightarrow> be_value (be_bytes k n) = n"
proof (induction k arbitrary: n)
  case 0
  then show ?case by (simp add: be_value_def)
next
  case (Suc k)
  then have "n div 256 < 256 ^ k" by (simp add: div_less_iff_less_mult mult.commute)
  then show ?case
    using Suc.IH by (simp add: be_value_append unat_of_nat_mod256)
qed

lemma lex_arg_be_bytes: "n < 256 ^ k \<Longrightarrow> lex_arg k (be_bytes k n @ r) = Some (n, r)"
  by (simp add: lex_arg_def be_value_be_bytes)

lemma head_byte:
  assumes "m < 8" and "a < 32"
  shows "unat (of_nat (32 * m + a) :: u8) div 32 = m" and "unat (of_nat (32 * m + a) :: u8) mod 32 = a"
proof -
  have "unat (of_nat (32 * m + a) :: u8) = 32 * m + a"
    using assms by (intro unat_of_nat_small) simp
  then show "unat (of_nat (32 * m + a) :: u8) div 32 = m" "unat (of_nat (32 * m + a) :: u8) mod 32 = a"
    using assms by simp_all
qed

lemma lex_head_byte:
  assumes "m < 8" and "a < 32"
  shows "lex_head (of_nat (32 * m + a) # rest) =
     (if a < 24 then Some (m, a, rest)
      else if a = 24 then map_option (\<lambda>(n, r). (m, n, r)) (lex_arg 1 rest)
      else if a = 25 then map_option (\<lambda>(n, r). (m, n, r)) (lex_arg 2 rest)
      else if a = 26 then map_option (\<lambda>(n, r). (m, n, r)) (lex_arg 4 rest)
      else if a = 27 then map_option (\<lambda>(n, r). (m, n, r)) (lex_arg 8 rest)
      else None)"
  unfolding lex_head_def list.case Let_def head_byte[OF assms] ..

lemma lex_head_cbor_head:
  assumes "m < 8" and "n < 18446744073709551616"
  shows "lex_head (cbor_head m n @ r) = Some (m, n, r)"
proof -
  consider "n < 24" | "24 \<le> n" "n < 256" | "256 \<le> n" "n < 65536" | "65536 \<le> n" "n < 4294967296"
    | "4294967296 \<le> n" by linarith
  then show ?thesis
  proof cases
    case 1
    then show ?thesis
      unfolding cbor_head_def using lex_head_byte[of m n r] assms(1) by simp
  next
    case 2
    then show ?thesis
      unfolding cbor_head_def using lex_head_byte[of m 24] lex_arg_be_bytes[of n 1 r] assms(1) by simp
  next
    case 3
    then show ?thesis
      unfolding cbor_head_def using lex_head_byte[of m 25] lex_arg_be_bytes[of n 2 r] assms(1) by simp
  next
    case 4
    then show ?thesis
      unfolding cbor_head_def using lex_head_byte[of m 26] lex_arg_be_bytes[of n 4 r] assms(1) by simp
  next
    case 5
    then show ?thesis
      unfolding cbor_head_def using lex_head_byte[of m 27] lex_arg_be_bytes[of n 8 r] assms by simp
  qed
qed

lemma lex_tok_bytes: "wf_tok t \<Longrightarrow> lex_tok (tok_bytes t @ r) = Some (t, r)"
proof (cases t)
  case (T_bool b)
  have "lex_head (of_nat (32 * 7 + (if b then 21 else 20)) # r) = Some (7, if b then 21 else 20, r)"
    by (subst lex_head_byte) auto
  with T_bool show ?thesis by (cases b) (simp_all add: lex_tok_def)
qed (simp_all add: lex_tok_def lex_head_cbor_head)

lemma cbor_head_nonempty [simp]: "cbor_head m n \<noteq> []"
  by (simp add: cbor_head_def)

lemma tok_bytes_nonempty: "tok_bytes t \<noteq> []"
  by (cases t) auto

lemma toks_bytes_simps [simp]:
  "toks_bytes [] = []"
  "toks_bytes (t # ts) = tok_bytes t @ toks_bytes ts"
  "toks_bytes (ts @ us) = toks_bytes ts @ toks_bytes us"
  by (simp_all add: toks_bytes_def)

lemma length_toks_bytes_ge: "length ts \<le> length (toks_bytes ts)"
proof (induction ts)
  case (Cons t ts)
  have "1 \<le> length (tok_bytes t)" using tok_bytes_nonempty[of t] by (cases "tok_bytes t") auto
  with Cons show ?case by simp
qed simp

lemma lex_fuel_toks:
  "list_all wf_tok ts \<Longrightarrow> length ts \<le> k \<Longrightarrow> lex_fuel k (toks_bytes ts) = ts"
proof (induction ts arbitrary: k)
  case Nil
  then show ?case by (cases k) (auto simp: lex_tok_def lex_head_def)
next
  case (Cons t ts)
  then obtain k' where "k = Suc k'" by (cases k) auto
  with Cons show ?case by (simp add: lex_tok_bytes)
qed

lemma lex_toks_bytes: "list_all wf_tok ts \<Longrightarrow> lex_toks (toks_bytes ts) = ts"
  by (simp add: lex_toks_def lex_fuel_toks length_toks_bytes_ge)

subsection \<open>Sizes\<close>

lemma length_cbor_head:
  "length (cbor_head m n) =
     (if n < 24 then 1 else if n < 256 then 2 else if n < 65536 then 3
      else if n < 4294967296 then 5 else 9)"
  by (simp add: cbor_head_def)

lemma length_cbor_head_u32: "n < 4294967296 \<Longrightarrow> length (cbor_head m n) \<le> 5"
  by (simp add: length_cbor_head)

lemma length_cbor_head_pos: "1 \<le> length (cbor_head m n)"
  by (simp add: length_cbor_head)

end
