(* ===== verification/Prov_Types.thy ===== *)
theory Prov_Types
  imports Prov_Prelude
begin

text \<open>
  The message types of the wire protocol (\<^verbatim>\<open>src/codec/include/prov_types.h\<close>).

  A C struct is a record, a struct holding a union and its \<^verbatim>\<open>_choice\<close> tag is a datatype
  with one constructor per choice, a member with a \<^verbatim>\<open>_present\<close> flag is an \<open>option\<close>, and an
  array with its \<^verbatim>\<open>_count\<close> is a list. \<^verbatim>\<open>struct zcbor_string\<close> is the bytes it points at.
  Enumerations that the code passes around as \<^verbatim>\<open>uint32_t\<close> stay 32-bit values, with the
  enumerators as named constants, so that a value outside the enumeration exists.
\<close>

subsection \<open>Enumerators\<close>

abbreviation (input) prov_status_status_ok_m_c :: u32 where "prov_status_status_ok_m_c \<equiv> 0"
abbreviation (input) prov_status_status_invalid_proto_m_c :: u32 where
  "prov_status_status_invalid_proto_m_c \<equiv> 1"
abbreviation (input) prov_status_status_invalid_argument_m_c :: u32 where
  "prov_status_status_invalid_argument_m_c \<equiv> 2"
abbreviation (input) prov_status_status_internal_error_m_c :: u32 where
  "prov_status_status_internal_error_m_c \<equiv> 3"
abbreviation (input) prov_status_status_unauthorized_m_c :: u32 where
  "prov_status_status_unauthorized_m_c \<equiv> 4"
abbreviation (input) prov_status_status_invalid_state_m_c :: u32 where
  "prov_status_status_invalid_state_m_c \<equiv> 5"
abbreviation (input) prov_status_status_busy_m_c :: u32 where "prov_status_status_busy_m_c \<equiv> 6"

abbreviation (input) sta_state_sta_connected_m_c :: u32 where "sta_state_sta_connected_m_c \<equiv> 0"
abbreviation (input) sta_state_sta_connecting_m_c :: u32 where "sta_state_sta_connecting_m_c \<equiv> 1"
abbreviation (input) sta_state_sta_disconnected_m_c :: u32 where "sta_state_sta_disconnected_m_c \<equiv> 2"
abbreviation (input) sta_state_sta_failed_m_c :: u32 where "sta_state_sta_failed_m_c \<equiv> 3"

abbreviation (input) fail_reason_fail_auth_error_m_c :: u32 where "fail_reason_fail_auth_error_m_c \<equiv> 0"
abbreviation (input) fail_reason_fail_network_not_found_m_c :: u32 where
  "fail_reason_fail_network_not_found_m_c \<equiv> 1"

abbreviation (input) cred_kind_cred_device_cert_m_c :: nat where "cred_kind_cred_device_cert_m_c \<equiv> 0"
abbreviation (input) cred_kind_cred_private_key_m_c :: nat where "cred_kind_cred_private_key_m_c \<equiv> 1"
abbreviation (input) cred_kind_cred_ca_cert_m_c :: nat where "cred_kind_cred_ca_cert_m_c \<equiv> 2"

subsection \<open>Requests\<close>

datatype auth_req_r =
    auth_req_auth_challenge_m bytes
  | auth_req_auth_proof_m bytes

record wifi_config =
  wifi_config_ssid :: bytes
  wifi_config_pass :: "bytes option"
  wifi_config_bssid :: "bytes option"
  wifi_config_ch :: "u32 option"

datatype config_req_r =
    config_req_config_get_status_m
  | config_req_config_set_m wifi_config
  | config_req_config_apply_m

record scan_params =
  scan_params_passive :: "bool option"
  scan_params_period_ms :: "u32 option"

datatype scan_req_r =
    scan_req_scan_start_m scan_params
  | scan_req_scan_get_status_m
  | scan_req_scan_get_results_m u32 u32

datatype ctrl_req_r =
    ctrl_req_ctrl_reset_m
  | ctrl_req_ctrl_reprovision_m
  | ctrl_req_ctrl_end_m

record cred_chunk =
  cred_chunk_kind :: nat
  cred_chunk_off :: u32
  cred_chunk_total :: u32
  cred_chunk_data :: bytes

datatype cred_req_r =
    cred_req_cred_write_m cred_chunk
  | cred_req_cred_finalize_m
  | cred_req_cred_get_status_m

subsection \<open>Responses\<close>

record ver_info =
  ver_info_proto :: u32
  ver_info_caps_tstr :: "bytes list"
  ver_info_blk :: u32
  ver_info_lib :: bytes
  ver_info_pop :: "bool option"

record ver_rsp =
  ver_rsp_prov_status_m :: u32
  ver_rsp_ver_info_m :: ver_info

text \<open>\<open>auth_rsp_auth_challenge_rsp_m status dev_nonce dev_proof\<close>, \<open>auth_rsp_auth_proof_rsp_m status\<close>.\<close>

datatype auth_rsp_r =
    auth_rsp_auth_challenge_rsp_m u32 bytes bytes
  | auth_rsp_auth_proof_rsp_m u32

record connected_info =
  connected_info_ip4 :: bytes
  connected_info_ssid :: bytes
  connected_info_rssi :: "u32 option"

datatype config_detail_r =
    config_detail_fail_reason_m u32
  | config_detail_connected_info_m connected_info

record config_status_rsp =
  config_status_rsp_prov_status_m :: u32
  config_status_rsp_sta_state_m :: u32
  config_status_rsp_config_detail_m :: "config_detail_r option"

datatype config_rsp_r =
    config_rsp_config_status_rsp_m config_status_rsp
  | config_rsp_config_set_rsp_m u32
  | config_rsp_config_apply_rsp_m u32

record scan_entry =
  scan_entry_ssid :: bytes
  scan_entry_bssid :: bytes
  scan_entry_ch :: u32
  scan_entry_rssi :: u32
  scan_entry_auth :: u32

text \<open>\<open>scan_rsp_scan_status_rsp_m status finished total\<close>, \<open>scan_rsp_scan_results_rsp_m status entries\<close>.\<close>

datatype scan_rsp_r =
    scan_rsp_scan_start_rsp_m u32
  | scan_rsp_scan_status_rsp_m u32 bool u32
  | scan_rsp_scan_results_rsp_m u32 "scan_entry list"

record map_tstruint =
  cred_status_rsp_map_tstruint_key :: bytes
  map_tstruint :: u32

datatype cred_rsp_r =
    cred_rsp_cred_write_rsp_m u32 u32
  | cred_rsp_cred_finalize_rsp_m u32
  | cred_rsp_cred_status_rsp_m u32 "map_tstruint list"

record ctrl_rsp =
  ctrl_rsp_ctrl_op_m :: u32
  ctrl_rsp_prov_status_m :: u32

end
