(* ===== verification/Zcbor.thy ===== *)
theory Zcbor
  imports Cbor_Tokens Prov_Types
begin

text \<open>
  The CBOR library zcbor is not part of the repository. The generated codec calls it through
  \<^verbatim>\<open>zcbor_encode.h\<close> and \<^verbatim>\<open>zcbor_decode.h\<close>; here those entry points are the fields of two
  records, \<open>zcbor_enc\<close> and \<open>zcbor_dec\<close>, which every codec definition takes as an argument.

  \<^item> A library call returns \<^verbatim>\<open>bool\<close> and updates the state. It is a function to \<open>option\<close>:
    \<open>None\<close> is \<^verbatim>\<open>false\<close>. What the state holds after \<^verbatim>\<open>false\<close> is not kept: the codec hands such
    a state only to \<^verbatim>\<open>zcbor_list_map_end_force_encode\<close>/\<^verbatim>\<open>_decode\<close>, to
    \<^verbatim>\<open>zcbor_union_elem_code\<close> and to \<^verbatim>\<open>zcbor_union_end_code\<close>, which rewind to the state saved
    at the start of the container or union. The one exception, the optional union of the Wi-Fi
    status response, goes on after a union none of whose alternatives decoded:
    \<open>zcbor_union_failed\<close> is the state that union leaves, of the state it began in.
  \<^item> \<^verbatim>\<open>void *result\<close> is a value of \<open>zobj\<close>, the objects the codec passes through the generic
    decoder pointer type.

  The locales \<open>zcbor_encoder\<close> and \<open>zcbor_decoder\<close> state what the codec relies on: each call
  simulates the corresponding call of a reference machine that appends to, or consumes from, a
  sequence of canonical tokens (theory \<open>Cbor_Tokens\<close>), with the size of the output buffer, the
  element counts of the open containers and the number of backup states made explicit.
\<close>

subsection \<open>Library entry points used by the codec\<close>

record 'e zcbor_enc =
  zcbor_uint32_put :: "u32 \<Rightarrow> 'e \<Rightarrow> 'e option"
  zcbor_uint32_encode :: "u32 \<Rightarrow> 'e \<Rightarrow> 'e option"
  zcbor_int32_encode :: "u32 \<Rightarrow> 'e \<Rightarrow> 'e option"
  zcbor_bool_encode :: "bool \<Rightarrow> 'e \<Rightarrow> 'e option"
  zcbor_bstr_encode :: "bytes \<Rightarrow> 'e \<Rightarrow> 'e option"
  zcbor_tstr_encode :: "bytes \<Rightarrow> 'e \<Rightarrow> 'e option"
  zcbor_list_start_encode :: "nat \<Rightarrow> 'e \<Rightarrow> 'e option"
  zcbor_list_end_encode :: "nat \<Rightarrow> 'e \<Rightarrow> 'e option"
  zcbor_map_start_encode :: "nat \<Rightarrow> 'e \<Rightarrow> 'e option"
  zcbor_map_end_encode :: "nat \<Rightarrow> 'e \<Rightarrow> 'e option"
  zcbor_multi_encode_minmax :: "nat \<Rightarrow> nat \<Rightarrow> ('e \<Rightarrow> 'e option) list \<Rightarrow> 'e \<Rightarrow> 'e option"
  zcbor_entry_encode :: "('e \<Rightarrow> 'e option) \<Rightarrow> nat \<Rightarrow> nat \<Rightarrow> nat \<Rightarrow> bytes option"

datatype zobj =
    Z_void
  | Z_bool bool
  | Z_u32 u32
  | Z_str bytes
  | Z_auth_req auth_req_r
  | Z_config_req config_req_r
  | Z_scan_req scan_req_r
  | Z_cred_req cred_req_r
  | Z_ctrl_req ctrl_req_r
  | Z_scan_entry scan_entry
  | Z_map_tstruint map_tstruint
  | Z_ver_rsp ver_rsp
  | Z_auth_rsp auth_rsp_r
  | Z_scan_rsp scan_rsp_r
  | Z_cred_rsp cred_rsp_r
  | Z_ctrl_rsp ctrl_rsp
  | Z_config_rsp config_rsp_r

record 'd zcbor_dec =
  zcbor_uint32_expect :: "u32 \<Rightarrow> 'd \<Rightarrow> 'd option"
  zcbor_tstr_expect :: "bytes \<Rightarrow> 'd \<Rightarrow> 'd option"
  zcbor_uint_decode :: "nat \<Rightarrow> 'd \<Rightarrow> (nat \<times> 'd) option"
  zcbor_uint32_decode :: "'d \<Rightarrow> (u32 \<times> 'd) option"
  zcbor_bool_decode :: "'d \<Rightarrow> (bool \<times> 'd) option"
  zcbor_int32_decode :: "'d \<Rightarrow> (u32 \<times> 'd) option"
  zcbor_bstr_decode :: "'d \<Rightarrow> (bytes \<times> 'd) option"
  zcbor_tstr_decode :: "'d \<Rightarrow> (bytes \<times> 'd) option"
  zcbor_list_start_decode :: "'d \<Rightarrow> 'd option"
  zcbor_list_end_decode :: "'d \<Rightarrow> 'd option"
  zcbor_map_start_decode :: "'d \<Rightarrow> 'd option"
  zcbor_map_end_decode :: "'d \<Rightarrow> 'd option"
  zcbor_present_decode :: "('d \<Rightarrow> (zobj \<times> 'd) option) \<Rightarrow> 'd \<Rightarrow> (zobj option \<times> 'd) option"
  zcbor_multi_decode :: "nat \<Rightarrow> nat \<Rightarrow> ('d \<Rightarrow> (zobj \<times> 'd) option) \<Rightarrow> 'd \<Rightarrow> (zobj list \<times> 'd) option"
  zcbor_union_start_code :: "'d \<Rightarrow> 'd option"
  zcbor_union_elem_code :: "'d \<Rightarrow> 'd option"
  zcbor_union_end_code :: "'d \<Rightarrow> 'd"
  zcbor_union_failed :: "'d \<Rightarrow> 'd"
  zcbor_entry_decode ::
    "('d \<Rightarrow> (zobj \<times> 'd) option) \<Rightarrow> bytes \<Rightarrow> nat \<Rightarrow> nat \<Rightarrow> (zobj \<times> nat) option"

subsection \<open>The reference encoder\<close>

text \<open>
  Open containers, innermost first, each with the tokens written to it and its element count;
  the bytes left in the buffer; the backup states left. In canonical mode a container reserves
  the header for its maximal size and takes a backup until it is closed. An array of \<open>n\<close>
  \<^verbatim>\<open>zcbor_state_t\<close> has \<open>n - 2\<close> backups.
\<close>

record est =
  frames :: "(tok list \<times> nat) list"
  room :: nat
  ebaks :: nat

definition ref_emit :: "tok \<Rightarrow> est \<Rightarrow> est option" where
  "ref_emit t s = (case frames s of [] \<Rightarrow> None | (ts, n) # fs \<Rightarrow>
     (if length (tok_bytes t) \<le> room s
      then Some (s\<lparr>frames := (ts @ [t], Suc n) # fs, room := room s - length (tok_bytes t)\<rparr>)
      else None))"

definition int_tok :: "u32 \<Rightarrow> tok" where
  "int_tok x = (if 0 \<le> sint x then T_uint (nat (sint x)) else T_nint (nat (- 1 - sint x)))"

definition ref_open :: "nat \<Rightarrow> nat \<Rightarrow> est \<Rightarrow> est option" where
  "ref_open m mx s =
     (if 0 < ebaks s \<and> length (cbor_head m mx) \<le> room s
      then Some (s\<lparr>frames := ([], 0) # frames s, room := room s - length (cbor_head m mx),
                   ebaks := ebaks s - 1\<rparr>)
      else None)"

definition ref_close :: "nat \<Rightarrow> (nat \<Rightarrow> nat) \<Rightarrow> (nat \<Rightarrow> tok) \<Rightarrow> nat \<Rightarrow> est \<Rightarrow> est option" where
  "ref_close m cnt hd_tok mx s = (case frames s of
     (ts, n) # (ts0, n0) # fs \<Rightarrow>
       (if cnt n \<le> mx
        then Some (s\<lparr>frames := (ts0 @ hd_tok (cnt n) # ts, Suc n0) # fs,
                     room := room s + length (cbor_head m mx) - length (cbor_head m (cnt n)),
                     ebaks := Suc (ebaks s)\<rparr>)
        else None)
   | _ \<Rightarrow> None)"

fun ref_seq :: "('s \<Rightarrow> 's option) list \<Rightarrow> 's \<Rightarrow> 's option" where
  "ref_seq [] s = Some s"
| "ref_seq (f # fs) s = f s \<bind> ref_seq fs"

definition ref_multi :: "nat \<Rightarrow> nat \<Rightarrow> (est \<Rightarrow> est option) list \<Rightarrow> est \<Rightarrow> est option" where
  "ref_multi lo hi fs s = (if lo \<le> length fs \<and> length fs \<le> hi then ref_seq fs s else None)"

definition ref_entry_enc :: "(est \<Rightarrow> est option) \<Rightarrow> nat \<Rightarrow> nat \<Rightarrow> nat \<Rightarrow> bytes option" where
  "ref_entry_enc f len n_states elem_count =
     (case f \<lparr>frames = [([], 0)], room = len, ebaks = n_states - 2\<rparr> of
        None \<Rightarrow> None
      | Some s \<Rightarrow> (case frames s of [(ts, n)] \<Rightarrow> Some (toks_bytes ts) | _ \<Rightarrow> None))"

definition zref_enc :: "est zcbor_enc" where
  "zref_enc = \<lparr>
     zcbor_uint32_put = (\<lambda>x. ref_emit (T_uint (unat x))),
     zcbor_uint32_encode = (\<lambda>x. ref_emit (T_uint (unat x))),
     zcbor_int32_encode = (\<lambda>x. ref_emit (int_tok x)),
     zcbor_bool_encode = (\<lambda>b. ref_emit (T_bool b)),
     zcbor_bstr_encode = (\<lambda>b. ref_emit (T_bstr b)),
     zcbor_tstr_encode = (\<lambda>b. ref_emit (T_tstr b)),
     zcbor_list_start_encode = ref_open 4,
     zcbor_list_end_encode = ref_close 4 (\<lambda>n. n) T_list,
     zcbor_map_start_encode = ref_open 5,
     zcbor_map_end_encode = ref_close 5 (\<lambda>n. n div 2) T_map,
     zcbor_multi_encode_minmax = ref_multi,
     zcbor_entry_encode = ref_entry_enc\<rparr>"

subsection \<open>The reference decoder\<close>

text \<open>
  The tokens not yet consumed, the elements left in the innermost container, the saved states
  (innermost first: for a container the count of the container around it, for a union the
  position to return to) and the backup states left.
\<close>

record dst =
  dtoks :: "tok list"
  cnt :: nat
  saved :: "(tok list \<times> nat) list"
  dbaks :: nat

definition ref_take :: "(tok \<Rightarrow> 'a option) \<Rightarrow> dst \<Rightarrow> ('a \<times> dst) option" where
  "ref_take p s = (case dtoks s of [] \<Rightarrow> None | t # ts \<Rightarrow>
     (if cnt s = 0 then None else
        (case p t of None \<Rightarrow> None | Some v \<Rightarrow> Some (v, s\<lparr>dtoks := ts, cnt := cnt s - 1\<rparr>))))"

definition ref_expect :: "tok \<Rightarrow> dst \<Rightarrow> dst option" where
  "ref_expect t s = map_option snd (ref_take (\<lambda>t'. if t' = t then Some () else None) s)"

definition uint_of_tok :: "nat \<Rightarrow> tok \<Rightarrow> nat option" where
  "uint_of_tok bound t = (case t of T_uint n \<Rightarrow> (if n < bound then Some n else None) | _ \<Rightarrow> None)"

definition u32_of_tok :: "tok \<Rightarrow> u32 option" where
  "u32_of_tok t = map_option of_nat (uint_of_tok 4294967296 t)"

definition bool_of_tok :: "tok \<Rightarrow> bool option" where
  "bool_of_tok t = (case t of T_bool b \<Rightarrow> Some b | _ \<Rightarrow> None)"

definition int32_of_tok :: "tok \<Rightarrow> u32 option" where
  "int32_of_tok t = (case t of T_uint n \<Rightarrow> (if n < 2147483648 then Some (of_nat n) else None)
     | T_nint n \<Rightarrow> (if n < 2147483648 then Some (- 1 - of_nat n) else None) | _ \<Rightarrow> None)"

definition tstr_of_tok :: "tok \<Rightarrow> bytes option" where
  "tstr_of_tok t = (case t of T_tstr b \<Rightarrow> Some b | _ \<Rightarrow> None)"

definition bstr_of_tok :: "tok \<Rightarrow> bytes option" where
  "bstr_of_tok t = (case t of T_bstr b \<Rightarrow> Some b | _ \<Rightarrow> None)"

definition list_of_tok :: "tok \<Rightarrow> nat option" where
  "list_of_tok t = (case t of T_list n \<Rightarrow> Some n | _ \<Rightarrow> None)"

definition map_of_tok :: "tok \<Rightarrow> nat option" where
  "map_of_tok t = (case t of T_map n \<Rightarrow> Some (2 * n) | _ \<Rightarrow> None)"

definition ref_enter :: "(tok \<Rightarrow> nat option) \<Rightarrow> dst \<Rightarrow> dst option" where
  "ref_enter p s =
     (if dbaks s = 0 then None else
        (case ref_take p s of None \<Rightarrow> None
         | Some (n, s') \<Rightarrow>
             Some (s'\<lparr>cnt := n, saved := ([], cnt s') # saved s', dbaks := dbaks s' - 1\<rparr>)))"

definition ref_leave :: "dst \<Rightarrow> dst option" where
  "ref_leave s = (case saved s of [] \<Rightarrow> None | (ts, c) # sv \<Rightarrow>
     (if cnt s = 0 then Some (s\<lparr>cnt := c, saved := sv, dbaks := Suc (dbaks s)\<rparr>) else None))"

definition ref_present :: "(dst \<Rightarrow> (zobj \<times> dst) option) \<Rightarrow> dst \<Rightarrow> (zobj option \<times> dst) option" where
  "ref_present f s = (case f s of None \<Rightarrow> Some (None, s) | Some (v, s') \<Rightarrow> Some (Some v, s'))"

text \<open>At most \<open>n\<close> elements; the first one that does not decode is left.\<close>

fun ref_many :: "(dst \<Rightarrow> (zobj \<times> dst) option) \<Rightarrow> nat \<Rightarrow> dst \<Rightarrow> zobj list \<times> dst" where
  "ref_many f 0 s = ([], s)"
| "ref_many f (Suc n) s = (case f s of None \<Rightarrow> ([], s) | Some (v, s') \<Rightarrow> (let (vs, s'') = ref_many f n s' in (v # vs, s'')))"

definition ref_multi_dec :: "nat \<Rightarrow> nat \<Rightarrow> (dst \<Rightarrow> (zobj \<times> dst) option) \<Rightarrow> dst \<Rightarrow> (zobj list \<times> dst) option" where
  "ref_multi_dec lo hi f s = (let (vs, s') = ref_many f hi s in if length vs < lo then None else Some (vs, s'))"

definition ref_union_start :: "dst \<Rightarrow> dst option" where
  "ref_union_start s =
     (if dbaks s = 0 then None
      else Some (s\<lparr>saved := (dtoks s, cnt s) # saved s, dbaks := dbaks s - 1\<rparr>))"

definition ref_union_elem :: "dst \<Rightarrow> dst option" where
  "ref_union_elem s = (case saved s of [] \<Rightarrow> None
     | (ts, c) # sv \<Rightarrow> Some (s\<lparr>dtoks := ts, cnt := c\<rparr>))"

definition ref_union_end :: "dst \<Rightarrow> dst" where
  "ref_union_end s = s\<lparr>saved := tl (saved s), dbaks := Suc (dbaks s)\<rparr>"

definition ref_entry_toks ::
  "(dst \<Rightarrow> (zobj \<times> dst) option) \<Rightarrow> tok list \<Rightarrow> nat \<Rightarrow> nat \<Rightarrow> (zobj \<times> nat) option" where
  "ref_entry_toks f ts n_states elem_count =
     (case f \<lparr>dtoks = ts, cnt = elem_count, saved = [], dbaks = n_states - 2\<rparr> of
        None \<Rightarrow> None
      | Some (v, s) \<Rightarrow> Some (v, length (toks_bytes ts) - length (toks_bytes (dtoks s))))"

definition zref_dec :: "dst zcbor_dec" where
  "zref_dec = \<lparr>
     zcbor_uint32_expect = (\<lambda>x. ref_expect (T_uint (unat x))),
     zcbor_tstr_expect = (\<lambda>b. ref_expect (T_tstr b)),
     zcbor_uint_decode = (\<lambda>size. ref_take (uint_of_tok (256 ^ size))),
     zcbor_uint32_decode = ref_take u32_of_tok,
     zcbor_bool_decode = ref_take bool_of_tok,
     zcbor_int32_decode = ref_take int32_of_tok,
     zcbor_bstr_decode = ref_take bstr_of_tok,
     zcbor_tstr_decode = ref_take tstr_of_tok,
     zcbor_list_start_decode = ref_enter list_of_tok,
     zcbor_list_end_decode = ref_leave,
     zcbor_map_start_decode = ref_enter map_of_tok,
     zcbor_map_end_decode = ref_leave,
     zcbor_present_decode = ref_present,
     zcbor_multi_decode = ref_multi_dec,
     zcbor_union_start_code = ref_union_start,
     zcbor_union_elem_code = ref_union_elem,
     zcbor_union_end_code = ref_union_end,
     zcbor_union_failed = (\<lambda>s. s),
     zcbor_entry_decode = (\<lambda>f bs. ref_entry_toks f (lex_toks bs))\<rparr>"

lemmas [ref_defs] =
  ref_emit_def ref_open_def ref_close_def ref_multi_def ref_entry_enc_def zref_enc_def
  ref_take_def ref_expect_def uint_of_tok_def u32_of_tok_def bool_of_tok_def int32_of_tok_def bstr_of_tok_def
  tstr_of_tok_def ref_multi_dec_def list_of_tok_def map_of_tok_def ref_enter_def ref_leave_def ref_present_def ref_union_start_def
  ref_union_elem_def ref_union_end_def ref_entry_toks_def zref_dec_def

subsection \<open>Simulation\<close>

definition esim :: "('e \<Rightarrow> est \<Rightarrow> bool) \<Rightarrow> ('e \<Rightarrow> 'e option) \<Rightarrow> (est \<Rightarrow> est option) \<Rightarrow> bool" where
  "esim R f g \<longleftrightarrow> (\<forall>e s. R e s \<longrightarrow> rel_option R (f e) (g s))"

definition dsim ::
  "('d \<Rightarrow> dst \<Rightarrow> bool) \<Rightarrow> ('d \<Rightarrow> ('a \<times> 'd) option) \<Rightarrow> (dst \<Rightarrow> ('a \<times> dst) option) \<Rightarrow> bool" where
  "dsim R f g \<longleftrightarrow> (\<forall>d s. R d s \<longrightarrow> rel_option (rel_prod (=) R) (f d) (g s))"

definition usim :: "('d \<Rightarrow> dst \<Rightarrow> bool) \<Rightarrow> ('d \<Rightarrow> 'd option) \<Rightarrow> (dst \<Rightarrow> dst option) \<Rightarrow> bool" where
  "usim R f g \<longleftrightarrow> (\<forall>d s. R d s \<longrightarrow> rel_option R (f d) (g s))"

lemma esim_bind [sim_intros]:
  "esim R f f' \<Longrightarrow> esim R g g' \<Longrightarrow> esim R (\<lambda>e. f e \<bind> g) (\<lambda>s. f' s \<bind> g')"
  unfolding esim_def
proof (intro allI impI)
  fix e s
  assume f: "\<forall>e s. R e s \<longrightarrow> rel_option R (f e) (f' s)" and g: "\<forall>e s. R e s \<longrightarrow> rel_option R (g e) (g' s)"
    and r: "R e s"
  from f r have "rel_option R (f e) (f' s)" by blast
  then show "rel_option R (f e \<bind> g) (f' s \<bind> g')" using g by cases auto
qed

lemma esim_if [sim_intros]:
  "(b \<Longrightarrow> esim R f f') \<Longrightarrow> (\<not> b \<Longrightarrow> esim R g g') \<Longrightarrow>
   esim R (\<lambda>e. if b then f e else g e) (\<lambda>s. if b then f' s else g' s)"
  by (simp add: esim_def)

lemma esim_None [sim_intros]: "esim R (\<lambda>e. None) (\<lambda>s. None)"
  by (simp add: esim_def)

lemma esim_case_option [sim_intros]:
  "esim R f f' \<Longrightarrow> (\<And>v. esim R (g v) (g' v)) \<Longrightarrow>
   esim R (\<lambda>e. case x of None \<Rightarrow> f e | Some v \<Rightarrow> g v e) (\<lambda>s. case x of None \<Rightarrow> f' s | Some v \<Rightarrow> g' v s)"
  by (cases x) (simp_all add: esim_def)

lemma esim_map [sim_intros]:
  "(\<And>x. esim R (f x) (g x)) \<Longrightarrow> list_all2 (esim R) (map f xs) (map g xs)"
  by (simp add: list_all2_map1 list_all2_map2 list.rel_refl)

lemma esim_Some [sim_intros]: "esim R Some Some"
  by (simp add: esim_def)

lemma esim_seq:
  "list_all2 (esim R) fs gs \<Longrightarrow> esim R (ref_seq fs) (ref_seq gs)"
proof (induction fs gs rule: list_all2_induct)
  case Nil
  then show ?case by (simp add: esim_def)
next
  case (Cons f fs g gs)
  from esim_bind[OF Cons(1,3)] show ?case by (simp add: esim_def)
qed

lemma dsim_bind [sim_intros]:
  assumes "dsim R f f'" and "\<And>v. dsim R (g v) (g' v)"
  shows "dsim R (\<lambda>d. f d \<bind> (\<lambda>(v, d). g v d)) (\<lambda>s. f' s \<bind> (\<lambda>(v, s). g' v s))"
  unfolding dsim_def
proof (intro allI impI)
  fix d s
  assume "R d s"
  with assms(1) have "rel_option (rel_prod (=) R) (f d) (f' s)" by (simp add: dsim_def)
  then show "rel_option (rel_prod (=) R) (f d \<bind> (\<lambda>(v, d). g v d)) (f' s \<bind> (\<lambda>(v, s). g' v s))"
  proof cases
    case (Some x y)
    then show ?thesis using assms(2) by (cases x; cases y) (auto simp: dsim_def)
  qed simp
qed

lemma dsim_then [sim_intros]:
  assumes "usim R f f'" and "dsim R g g'"
  shows "dsim R (\<lambda>d. f d \<bind> g) (\<lambda>s. f' s \<bind> g')"
  unfolding dsim_def
proof (intro allI impI)
  fix d s
  assume "R d s"
  with assms(1) have "rel_option R (f d) (f' s)" by (simp add: usim_def)
  then show "rel_option (rel_prod (=) R) (f d \<bind> g) (f' s \<bind> g')"
    using assms(2) by cases (auto simp: dsim_def)
qed

lemma dsim_return [sim_intros]: "dsim R (\<lambda>d. Some (v, d)) (\<lambda>s. Some (v, s))"
  by (simp add: dsim_def)

lemma dsim_if [sim_intros]:
  "(b \<Longrightarrow> dsim R f f') \<Longrightarrow> (\<not> b \<Longrightarrow> dsim R g g') \<Longrightarrow>
   dsim R (\<lambda>d. if b then f d else g d) (\<lambda>s. if b then f' s else g' s)"
  by (simp add: dsim_def)

lemma dsim_None [sim_intros]: "dsim R (\<lambda>d. None) (\<lambda>s. None)"
  by (simp add: dsim_def)

subsection \<open>Casts through \<open>void *\<close> and unions\<close>

text \<open>\<open>zcbor_cast c f\<close> is the decoder \<open>f\<close> seen through \<^verbatim>\<open>(zcbor_decoder_t *)\<close>.\<close>

definition zcbor_cast :: "('a \<Rightarrow> 'b) \<Rightarrow> ('d \<Rightarrow> ('a \<times> 'd) option) \<Rightarrow> 'd \<Rightarrow> ('b \<times> 'd) option" where
  "zcbor_cast c f d = f d \<bind> (\<lambda>(v, d). Some (c v, d))"

text \<open>\<open>zcbor_void f\<close> is a decoder without result, called with \<^verbatim>\<open>result = NULL\<close>.\<close>

definition zcbor_void :: "('d \<Rightarrow> 'd option) \<Rightarrow> 'd \<Rightarrow> (unit \<times> 'd) option" where
  "zcbor_void f d = f d \<bind> (\<lambda>d. Some ((), d))"

text \<open>\<^verbatim>\<open>f || (zcbor_union_elem_code(state) && g)\<close>\<close>

definition zcbor_or :: "'d zcbor_dec \<Rightarrow> ('d \<Rightarrow> ('a \<times> 'd) option) \<Rightarrow> ('d \<Rightarrow> ('a \<times> 'd) option) \<Rightarrow>
    'd \<Rightarrow> ('a \<times> 'd) option" where
  "zcbor_or Z f g d = (case f d of Some r \<Rightarrow> Some r | None \<Rightarrow> zcbor_union_elem_code Z d \<bind> g)"

text \<open>\<^verbatim>\<open>zcbor_union_start_code(state) && (int_res = f, zcbor_union_end_code(state), int_res)\<close>\<close>

definition zcbor_union :: "'d zcbor_dec \<Rightarrow> ('d \<Rightarrow> ('a \<times> 'd) option) \<Rightarrow> 'd \<Rightarrow> ('a \<times> 'd) option" where
  "zcbor_union Z f d =
     zcbor_union_start_code Z d \<bind>
       (\<lambda>d. f d \<bind> (\<lambda>(v, d). Some (v, zcbor_union_end_code Z d)))"

lemma dsim_cast [sim_intros]:
  "dsim R f g \<Longrightarrow> dsim R (zcbor_cast c f) (zcbor_cast c g)"
  unfolding zcbor_cast_def[abs_def] by (rule dsim_bind) (auto intro: dsim_return)

lemma dsim_void [sim_intros]:
  "usim R f g \<Longrightarrow> dsim R (zcbor_void f) (zcbor_void g)"
  unfolding zcbor_void_def[abs_def] by (rule dsim_then) (auto intro: dsim_return)

lemma usim_bind [sim_intros]:
  assumes "usim R f f'" and "usim R g g'"
  shows "usim R (\<lambda>d. f d \<bind> g) (\<lambda>s. f' s \<bind> g')"
  unfolding usim_def
proof (intro allI impI)
  fix d s
  assume "R d s"
  with assms(1) have "rel_option R (f d) (f' s)" by (simp add: usim_def)
  then show "rel_option R (f d \<bind> g) (f' s \<bind> g')"
    using assms(2) by cases (auto simp: usim_def)
qed

subsection \<open>The contract of the library\<close>

text \<open>The contract of the encoder: every call simulates the reference call.\<close>

locale zcbor_encoder =
  fixes Z :: "'e zcbor_enc" and R :: "'e \<Rightarrow> est \<Rightarrow> bool"
  assumes uint32_put [sim_intros]: "esim R (zcbor_uint32_put Z x) (zcbor_uint32_put zref_enc x)"
    and uint32_encode [sim_intros]: "esim R (zcbor_uint32_encode Z x) (zcbor_uint32_encode zref_enc x)"
    and int32_encode [sim_intros]: "esim R (zcbor_int32_encode Z x) (zcbor_int32_encode zref_enc x)"
    and bool_encode [sim_intros]: "esim R (zcbor_bool_encode Z b) (zcbor_bool_encode zref_enc b)"
    and bstr_encode [sim_intros]: "esim R (zcbor_bstr_encode Z bs) (zcbor_bstr_encode zref_enc bs)"
    and tstr_encode [sim_intros]: "esim R (zcbor_tstr_encode Z bs) (zcbor_tstr_encode zref_enc bs)"
    and list_start [sim_intros]: "esim R (zcbor_list_start_encode Z n) (zcbor_list_start_encode zref_enc n)"
    and list_end [sim_intros]: "esim R (zcbor_list_end_encode Z n) (zcbor_list_end_encode zref_enc n)"
    and map_start [sim_intros]: "esim R (zcbor_map_start_encode Z n) (zcbor_map_start_encode zref_enc n)"
    and map_end [sim_intros]: "esim R (zcbor_map_end_encode Z n) (zcbor_map_end_encode zref_enc n)"
    and multi [sim_intros]: "list_all2 (esim R) fs gs \<Longrightarrow>
      esim R (zcbor_multi_encode_minmax Z lo hi fs) (zcbor_multi_encode_minmax zref_enc lo hi gs)"
    and entry: "esim R f g \<Longrightarrow>
      zcbor_entry_encode Z f len n_states k = zcbor_entry_encode zref_enc g len n_states k"

text \<open>
  The contract of the decoder: every call simulates the reference call on canonical input. A union
  that fails for want of an item leaves the position where it was; nothing is said about one that
  fails on an item. The entry function runs its decoder once, on the start of the payload.
\<close>

definition at_start :: "tok list \<Rightarrow> nat \<Rightarrow> nat \<Rightarrow> dst" where
  "at_start ts n_states k = \<lparr>dtoks = ts, cnt = k, saved = [], dbaks = n_states - 2\<rparr>"

locale zcbor_decoder =
  fixes Z :: "'d zcbor_dec" and R :: "'d \<Rightarrow> dst \<Rightarrow> bool"
  assumes uint32_expect [sim_intros]: "usim R (zcbor_uint32_expect Z x) (zcbor_uint32_expect zref_dec x)"
    and tstr_expect [sim_intros]: "usim R (zcbor_tstr_expect Z bs) (zcbor_tstr_expect zref_dec bs)"
    and uint_decode [sim_intros]: "dsim R (zcbor_uint_decode Z n) (zcbor_uint_decode zref_dec n)"
    and uint32_decode [sim_intros]: "dsim R (zcbor_uint32_decode Z) (zcbor_uint32_decode zref_dec)"
    and bool_decode [sim_intros]: "dsim R (zcbor_bool_decode Z) (zcbor_bool_decode zref_dec)"
    and int32_decode [sim_intros]: "dsim R (zcbor_int32_decode Z) (zcbor_int32_decode zref_dec)"
    and bstr_decode [sim_intros]: "dsim R (zcbor_bstr_decode Z) (zcbor_bstr_decode zref_dec)"
    and tstr_decode [sim_intros]: "dsim R (zcbor_tstr_decode Z) (zcbor_tstr_decode zref_dec)"
    and list_start [sim_intros]: "usim R (zcbor_list_start_decode Z) (zcbor_list_start_decode zref_dec)"
    and list_end [sim_intros]: "usim R (zcbor_list_end_decode Z) (zcbor_list_end_decode zref_dec)"
    and map_start [sim_intros]: "usim R (zcbor_map_start_decode Z) (zcbor_map_start_decode zref_dec)"
    and map_end [sim_intros]: "usim R (zcbor_map_end_decode Z) (zcbor_map_end_decode zref_dec)"
    and present [sim_intros]: "dsim R f g \<Longrightarrow>
      dsim R (zcbor_present_decode Z f) (zcbor_present_decode zref_dec g)"
    and multi [sim_intros]: "dsim R f g \<Longrightarrow>
      dsim R (zcbor_multi_decode Z lo hi f) (zcbor_multi_decode zref_dec lo hi g)"
    and union_start: "usim R (zcbor_union_start_code Z) (zcbor_union_start_code zref_dec)"
    and union_elem: "usim R (zcbor_union_elem_code Z) (zcbor_union_elem_code zref_dec)"
    and union_end: "R d s \<Longrightarrow> R (zcbor_union_end_code Z d) (zcbor_union_end_code zref_dec s)"
    and union_failed: "R d s \<Longrightarrow> cnt s = 0 \<Longrightarrow> R (zcbor_union_failed Z d) (zcbor_union_failed zref_dec s)"
    and entry_at: "(\<And>d. R d (at_start ts n_states k) \<Longrightarrow> rel_option (rel_prod (=) R) (f d) (g (at_start ts n_states k))) \<Longrightarrow>
      list_all wf_tok ts \<Longrightarrow>
      zcbor_entry_decode Z f (toks_bytes ts) n_states k =
      zcbor_entry_decode zref_dec g (toks_bytes ts) n_states k"
begin

lemma entry: "dsim R f g \<Longrightarrow> list_all wf_tok ts \<Longrightarrow>
    zcbor_entry_decode Z f (toks_bytes ts) n_states k = zcbor_entry_decode zref_dec g (toks_bytes ts) n_states k"
  by (rule entry_at) (simp_all add: dsim_def)

lemma or_at:
  assumes "rel_option (rel_prod (=) R) (f d) (f' s)" and "dsim R g g'" and "R d s"
  shows "rel_option (rel_prod (=) R) (zcbor_or Z f g d) (zcbor_or zref_dec f' g' s)"
  using assms(1)
proof cases
  case None
  with dsim_then[OF union_elem assms(2)] assms(3) show ?thesis by (simp add: zcbor_or_def dsim_def)
qed (simp add: zcbor_or_def)

lemma dsim_or [sim_intros]: "dsim R f f' \<Longrightarrow> dsim R g g' \<Longrightarrow> dsim R (zcbor_or Z f g) (zcbor_or zref_dec f' g')"
  by (simp add: dsim_def or_at)

lemma dsim_union [sim_intros]:
  assumes "dsim R f f'"
  shows "dsim R (zcbor_union Z f) (zcbor_union zref_dec f')"
  unfolding zcbor_union_def[abs_def]
  by (intro dsim_then[OF union_start] dsim_bind[OF assms]) (simp add: dsim_def union_end)

end

text \<open>The reference machine meets its own contract, with equality as the relation.\<close>

lemma esim_eq: "esim (=) = (=)"
  by (auto simp: fun_eq_iff esim_def option.rel_eq)

lemma usim_eq: "usim (=) f g \<longleftrightarrow> f = g"
  by (auto simp: usim_def option.rel_eq)

lemma dsim_eq: "dsim (=) f g \<longleftrightarrow> f = g"
  by (auto simp: dsim_def option.rel_eq prod.rel_eq)

interpretation zref_enc: zcbor_encoder zref_enc "(=)"
  by unfold_locales (auto simp: esim_eq list.rel_eq)

interpretation zref_dec: zcbor_decoder zref_dec "(=)"
proof unfold_locales
  fix ts n_states k and f g :: "dst \<Rightarrow> (zobj \<times> dst) option"
  assume "\<And>d. d = at_start ts n_states k \<Longrightarrow> rel_option (rel_prod (=) (=)) (f d) (g (at_start ts n_states k))"
    and wf: "list_all wf_tok ts"
  then have "f (at_start ts n_states k) = g (at_start ts n_states k)" by (simp add: prod.rel_eq option.rel_eq)
  then show "zcbor_entry_decode zref_dec f (toks_bytes ts) n_states k = zcbor_entry_decode zref_dec g (toks_bytes ts) n_states k"
    by (simp add: zref_dec_def ref_entry_toks_def at_start_def lex_toks_bytes[OF wf])
qed (auto simp: usim_eq dsim_eq)

end
