(* ===== verification/Prov_Encode.thy ===== *)
theory Prov_Encode
  imports Zcbor
begin

text \<open>
  The generated encoder, \<^verbatim>\<open>src/codec/prov_encode.c\<close>: one definition per function, over an
  arbitrary library \<open>Z\<close>. A chain of \<^verbatim>\<open>&&\<close> is a sequence of binds. The alternative
  \<^verbatim>\<open>|| (zcbor_list_map_end_force_encode(state), false)\<close> of a container is \<open>None\<close>, and so is a
  failed range check. \<open>cbor_encode_*\<close> returns the bytes written, or \<open>None\<close> for a nonzero return
  code. The lemmas of the first part say that the codec over a library that meets its contract
  is the codec over the reference machine.
\<close>

definition encode_prov_status :: "'e zcbor_enc \<Rightarrow> u32 \<Rightarrow> 'e \<Rightarrow> 'e option" where
  "encode_prov_status Z c e = 
     (if c = prov_status_status_ok_m_c then zcbor_uint32_put Z 0 e
      else if c = prov_status_status_invalid_proto_m_c then zcbor_uint32_put Z 1 e
      else if c = prov_status_status_invalid_argument_m_c then zcbor_uint32_put Z 2 e
      else if c = prov_status_status_internal_error_m_c then zcbor_uint32_put Z 3 e
      else if c = prov_status_status_unauthorized_m_c then zcbor_uint32_put Z 4 e
      else if c = prov_status_status_invalid_state_m_c then zcbor_uint32_put Z 5 e
      else if c = prov_status_status_busy_m_c then zcbor_uint32_put Z 6 e
      else None)"

definition encode_repeated_ver_info_pop :: "'e zcbor_enc \<Rightarrow> bool \<Rightarrow> 'e \<Rightarrow> 'e option" where
  "encode_repeated_ver_info_pop Z b e = do {
     e \<leftarrow> zcbor_tstr_encode Z (str_bytes ''pop'') e;
     zcbor_bool_encode Z b e
   }"

definition encode_ver_info :: "'e zcbor_enc \<Rightarrow> ver_info \<Rightarrow> 'e \<Rightarrow> 'e option" where
  "encode_ver_info Z v e = do {
     e \<leftarrow> zcbor_map_start_encode Z 5 e;
     e \<leftarrow> zcbor_tstr_encode Z (str_bytes ''proto'') e;
     e \<leftarrow> zcbor_uint32_encode Z (ver_info_proto v) e;
     e \<leftarrow> zcbor_tstr_encode Z (str_bytes ''caps'') e;
     e \<leftarrow> zcbor_list_start_encode Z 8 e;
     e \<leftarrow> zcbor_multi_encode_minmax Z 0 8 (map (zcbor_tstr_encode Z) (ver_info_caps_tstr v)) e;
     e \<leftarrow> zcbor_list_end_encode Z 8 e;
     e \<leftarrow> zcbor_tstr_encode Z (str_bytes ''blk'') e;
     e \<leftarrow> zcbor_uint32_encode Z (ver_info_blk v) e;
     e \<leftarrow> zcbor_tstr_encode Z (str_bytes ''lib'') e;
     e \<leftarrow> zcbor_tstr_encode Z (ver_info_lib v) e;
     e \<leftarrow> (case ver_info_pop v of None \<Rightarrow> Some e | Some v \<Rightarrow> encode_repeated_ver_info_pop Z v e);
     zcbor_map_end_encode Z 5 e
   }"

definition encode_auth_challenge :: "'e zcbor_enc \<Rightarrow> bytes \<Rightarrow> 'e \<Rightarrow> 'e option" where
  "encode_auth_challenge Z cli_nonce e = do {
     e \<leftarrow> zcbor_list_start_encode Z 2 e;
     e \<leftarrow> zcbor_uint32_put Z 0 e;
     assert_opt (length cli_nonce = 16);
     e \<leftarrow> zcbor_bstr_encode Z cli_nonce e;
     zcbor_list_end_encode Z 2 e
   }"

definition encode_auth_proof :: "'e zcbor_enc \<Rightarrow> bytes \<Rightarrow> 'e \<Rightarrow> 'e option" where
  "encode_auth_proof Z cli_proof e = do {
     e \<leftarrow> zcbor_list_start_encode Z 2 e;
     e \<leftarrow> zcbor_uint32_put Z 1 e;
     assert_opt (length cli_proof = 32);
     e \<leftarrow> zcbor_bstr_encode Z cli_proof e;
     zcbor_list_end_encode Z 2 e
   }"

definition encode_config_get_status :: "'e zcbor_enc \<Rightarrow> 'e \<Rightarrow> 'e option" where
  "encode_config_get_status Z e = do {
     e \<leftarrow> zcbor_list_start_encode Z 1 e;
     e \<leftarrow> zcbor_uint32_put Z 0 e;
     zcbor_list_end_encode Z 1 e
   }"

definition encode_repeated_wifi_config_pass :: "'e zcbor_enc \<Rightarrow> bytes \<Rightarrow> 'e \<Rightarrow> 'e option" where
  "encode_repeated_wifi_config_pass Z b e = do {
     e \<leftarrow> zcbor_tstr_encode Z (str_bytes ''pass'') e;
     assert_opt (0 \<le> length b \<and> length b \<le> 64);
     zcbor_bstr_encode Z b e
   }"

definition encode_repeated_wifi_config_bssid :: "'e zcbor_enc \<Rightarrow> bytes \<Rightarrow> 'e \<Rightarrow> 'e option" where
  "encode_repeated_wifi_config_bssid Z b e = do {
     e \<leftarrow> zcbor_tstr_encode Z (str_bytes ''bssid'') e;
     assert_opt (length b = 6);
     zcbor_bstr_encode Z b e
   }"

definition encode_repeated_wifi_config_ch :: "'e zcbor_enc \<Rightarrow> u32 \<Rightarrow> 'e \<Rightarrow> 'e option" where
  "encode_repeated_wifi_config_ch Z x e = do {
     e \<leftarrow> zcbor_tstr_encode Z (str_bytes ''ch'') e;
     zcbor_uint32_encode Z x e
   }"

definition encode_wifi_config :: "'e zcbor_enc \<Rightarrow> wifi_config \<Rightarrow> 'e \<Rightarrow> 'e option" where
  "encode_wifi_config Z v e = do {
     e \<leftarrow> zcbor_map_start_encode Z 4 e;
     e \<leftarrow> zcbor_tstr_encode Z (str_bytes ''ssid'') e;
     assert_opt (1 \<le> length (wifi_config_ssid v) \<and> length (wifi_config_ssid v) \<le> 32);
     e \<leftarrow> zcbor_bstr_encode Z (wifi_config_ssid v) e;
     e \<leftarrow> (case wifi_config_pass v of None \<Rightarrow> Some e | Some v \<Rightarrow> encode_repeated_wifi_config_pass Z v e);
     e \<leftarrow> (case wifi_config_bssid v of None \<Rightarrow> Some e | Some v \<Rightarrow> encode_repeated_wifi_config_bssid Z v e);
     e \<leftarrow> (case wifi_config_ch v of None \<Rightarrow> Some e | Some v \<Rightarrow> encode_repeated_wifi_config_ch Z v e);
     zcbor_map_end_encode Z 4 e
   }"

definition encode_config_set :: "'e zcbor_enc \<Rightarrow> wifi_config \<Rightarrow> 'e \<Rightarrow> 'e option" where
  "encode_config_set Z v e = do {
     e \<leftarrow> zcbor_list_start_encode Z 2 e;
     e \<leftarrow> zcbor_uint32_put Z 1 e;
     e \<leftarrow> encode_wifi_config Z v e;
     zcbor_list_end_encode Z 2 e
   }"

definition encode_config_apply :: "'e zcbor_enc \<Rightarrow> 'e \<Rightarrow> 'e option" where
  "encode_config_apply Z e = do {
     e \<leftarrow> zcbor_list_start_encode Z 1 e;
     e \<leftarrow> zcbor_uint32_put Z 2 e;
     zcbor_list_end_encode Z 1 e
   }"

definition encode_repeated_scan_params_passive :: "'e zcbor_enc \<Rightarrow> bool \<Rightarrow> 'e \<Rightarrow> 'e option" where
  "encode_repeated_scan_params_passive Z b e = do {
     e \<leftarrow> zcbor_tstr_encode Z (str_bytes ''passive'') e;
     zcbor_bool_encode Z b e
   }"

definition encode_repeated_scan_params_period_ms :: "'e zcbor_enc \<Rightarrow> u32 \<Rightarrow> 'e \<Rightarrow> 'e option" where
  "encode_repeated_scan_params_period_ms Z x e = do {
     e \<leftarrow> zcbor_tstr_encode Z (str_bytes ''period-ms'') e;
     zcbor_uint32_encode Z x e
   }"

definition encode_scan_params :: "'e zcbor_enc \<Rightarrow> scan_params \<Rightarrow> 'e \<Rightarrow> 'e option" where
  "encode_scan_params Z v e = do {
     e \<leftarrow> zcbor_map_start_encode Z 2 e;
     e \<leftarrow> (case scan_params_passive v of None \<Rightarrow> Some e | Some v \<Rightarrow> encode_repeated_scan_params_passive Z v e);
     e \<leftarrow> (case scan_params_period_ms v of None \<Rightarrow> Some e | Some v \<Rightarrow> encode_repeated_scan_params_period_ms Z v e);
     zcbor_map_end_encode Z 2 e
   }"

definition encode_scan_start :: "'e zcbor_enc \<Rightarrow> scan_params \<Rightarrow> 'e \<Rightarrow> 'e option" where
  "encode_scan_start Z v e = do {
     e \<leftarrow> zcbor_list_start_encode Z 2 e;
     e \<leftarrow> zcbor_uint32_put Z 0 e;
     e \<leftarrow> encode_scan_params Z v e;
     zcbor_list_end_encode Z 2 e
   }"

definition encode_scan_get_status :: "'e zcbor_enc \<Rightarrow> 'e \<Rightarrow> 'e option" where
  "encode_scan_get_status Z e = do {
     e \<leftarrow> zcbor_list_start_encode Z 1 e;
     e \<leftarrow> zcbor_uint32_put Z 1 e;
     zcbor_list_end_encode Z 1 e
   }"

definition encode_scan_get_results :: "'e zcbor_enc \<Rightarrow> u32 \<Rightarrow> u32 \<Rightarrow> 'e \<Rightarrow> 'e option" where
  "encode_scan_get_results Z start count e = do {
     e \<leftarrow> zcbor_list_start_encode Z 3 e;
     e \<leftarrow> zcbor_uint32_put Z 2 e;
     e \<leftarrow> zcbor_uint32_encode Z start e;
     e \<leftarrow> zcbor_uint32_encode Z count e;
     zcbor_list_end_encode Z 3 e
   }"

definition encode_ctrl_reset :: "'e zcbor_enc \<Rightarrow> 'e \<Rightarrow> 'e option" where
  "encode_ctrl_reset Z e = do {
     e \<leftarrow> zcbor_list_start_encode Z 1 e;
     e \<leftarrow> zcbor_uint32_put Z 0 e;
     zcbor_list_end_encode Z 1 e
   }"

definition encode_ctrl_reprovision :: "'e zcbor_enc \<Rightarrow> 'e \<Rightarrow> 'e option" where
  "encode_ctrl_reprovision Z e = do {
     e \<leftarrow> zcbor_list_start_encode Z 1 e;
     e \<leftarrow> zcbor_uint32_put Z 1 e;
     zcbor_list_end_encode Z 1 e
   }"

definition encode_ctrl_end :: "'e zcbor_enc \<Rightarrow> 'e \<Rightarrow> 'e option" where
  "encode_ctrl_end Z e = do {
     e \<leftarrow> zcbor_list_start_encode Z 1 e;
     e \<leftarrow> zcbor_uint32_put Z 2 e;
     zcbor_list_end_encode Z 1 e
   }"

definition encode_auth_challenge_rsp :: "'e zcbor_enc \<Rightarrow> u32 \<Rightarrow> bytes \<Rightarrow> bytes \<Rightarrow> 'e \<Rightarrow> 'e option" where
  "encode_auth_challenge_rsp Z status dev_nonce dev_proof e = do {
     e \<leftarrow> zcbor_list_start_encode Z 4 e;
     e \<leftarrow> zcbor_uint32_put Z 0 e;
     e \<leftarrow> encode_prov_status Z status e;
     assert_opt (length dev_nonce = 16);
     e \<leftarrow> zcbor_bstr_encode Z dev_nonce e;
     assert_opt (length dev_proof = 32);
     e \<leftarrow> zcbor_bstr_encode Z dev_proof e;
     zcbor_list_end_encode Z 4 e
   }"

definition encode_auth_proof_rsp :: "'e zcbor_enc \<Rightarrow> u32 \<Rightarrow> 'e \<Rightarrow> 'e option" where
  "encode_auth_proof_rsp Z status e = do {
     e \<leftarrow> zcbor_list_start_encode Z 2 e;
     e \<leftarrow> zcbor_uint32_put Z 1 e;
     e \<leftarrow> encode_prov_status Z status e;
     zcbor_list_end_encode Z 2 e
   }"

definition encode_scan_start_rsp :: "'e zcbor_enc \<Rightarrow> u32 \<Rightarrow> 'e \<Rightarrow> 'e option" where
  "encode_scan_start_rsp Z status e = do {
     e \<leftarrow> zcbor_list_start_encode Z 2 e;
     e \<leftarrow> zcbor_uint32_put Z 0 e;
     e \<leftarrow> encode_prov_status Z status e;
     zcbor_list_end_encode Z 2 e
   }"

definition encode_scan_status_rsp :: "'e zcbor_enc \<Rightarrow> u32 \<Rightarrow> bool \<Rightarrow> u32 \<Rightarrow> 'e \<Rightarrow> 'e option" where
  "encode_scan_status_rsp Z status finished tot e = do {
     e \<leftarrow> zcbor_list_start_encode Z 4 e;
     e \<leftarrow> zcbor_uint32_put Z 1 e;
     e \<leftarrow> encode_prov_status Z status e;
     e \<leftarrow> zcbor_bool_encode Z finished e;
     e \<leftarrow> zcbor_uint32_encode Z tot e;
     zcbor_list_end_encode Z 4 e
   }"

definition encode_scan_entry :: "'e zcbor_enc \<Rightarrow> scan_entry \<Rightarrow> 'e \<Rightarrow> 'e option" where
  "encode_scan_entry Z v e = do {
     e \<leftarrow> zcbor_map_start_encode Z 5 e;
     e \<leftarrow> zcbor_tstr_encode Z (str_bytes ''ssid'') e;
     assert_opt (0 \<le> length (scan_entry_ssid v) \<and> length (scan_entry_ssid v) \<le> 32);
     e \<leftarrow> zcbor_bstr_encode Z (scan_entry_ssid v) e;
     e \<leftarrow> zcbor_tstr_encode Z (str_bytes ''bssid'') e;
     assert_opt (length (scan_entry_bssid v) = 6);
     e \<leftarrow> zcbor_bstr_encode Z (scan_entry_bssid v) e;
     e \<leftarrow> zcbor_tstr_encode Z (str_bytes ''ch'') e;
     e \<leftarrow> zcbor_uint32_encode Z (scan_entry_ch v) e;
     e \<leftarrow> zcbor_tstr_encode Z (str_bytes ''rssi'') e;
     e \<leftarrow> zcbor_int32_encode Z (scan_entry_rssi v) e;
     e \<leftarrow> zcbor_tstr_encode Z (str_bytes ''auth'') e;
     e \<leftarrow> zcbor_uint32_encode Z (scan_entry_auth v) e;
     zcbor_map_end_encode Z 5 e
   }"

definition encode_scan_results_rsp :: "'e zcbor_enc \<Rightarrow> u32 \<Rightarrow> scan_entry list \<Rightarrow> 'e \<Rightarrow> 'e option" where
  "encode_scan_results_rsp Z status entries e = do {
     e \<leftarrow> zcbor_list_start_encode Z 3 e;
     e \<leftarrow> zcbor_uint32_put Z 2 e;
     e \<leftarrow> encode_prov_status Z status e;
     e \<leftarrow> zcbor_list_start_encode Z 8 e;
     e \<leftarrow> zcbor_multi_encode_minmax Z 0 8 (map (encode_scan_entry Z) entries) e;
     e \<leftarrow> zcbor_list_end_encode Z 8 e;
     zcbor_list_end_encode Z 3 e
   }"

definition encode_cred_write_rsp :: "'e zcbor_enc \<Rightarrow> u32 \<Rightarrow> u32 \<Rightarrow> 'e \<Rightarrow> 'e option" where
  "encode_cred_write_rsp Z status received e = do {
     e \<leftarrow> zcbor_list_start_encode Z 3 e;
     e \<leftarrow> zcbor_uint32_put Z 0 e;
     e \<leftarrow> encode_prov_status Z status e;
     e \<leftarrow> zcbor_uint32_encode Z received e;
     zcbor_list_end_encode Z 3 e
   }"

definition encode_cred_finalize_rsp :: "'e zcbor_enc \<Rightarrow> u32 \<Rightarrow> 'e \<Rightarrow> 'e option" where
  "encode_cred_finalize_rsp Z status e = do {
     e \<leftarrow> zcbor_list_start_encode Z 2 e;
     e \<leftarrow> zcbor_uint32_put Z 1 e;
     e \<leftarrow> encode_prov_status Z status e;
     zcbor_list_end_encode Z 2 e
   }"

definition encode_repeated_map_tstruint :: "'e zcbor_enc \<Rightarrow> map_tstruint \<Rightarrow> 'e \<Rightarrow> 'e option" where
  "encode_repeated_map_tstruint Z v e = do {
     e \<leftarrow> zcbor_tstr_encode Z (cred_status_rsp_map_tstruint_key v) e;
     zcbor_uint32_encode Z (map_tstruint v) e
   }"

definition encode_cred_status_rsp :: "'e zcbor_enc \<Rightarrow> u32 \<Rightarrow> map_tstruint list \<Rightarrow> 'e \<Rightarrow> 'e option" where
  "encode_cred_status_rsp Z status kvs e = do {
     e \<leftarrow> zcbor_list_start_encode Z 3 e;
     e \<leftarrow> zcbor_uint32_put Z 2 e;
     e \<leftarrow> encode_prov_status Z status e;
     e \<leftarrow> zcbor_map_start_encode Z 8 e;
     e \<leftarrow> zcbor_multi_encode_minmax Z 0 8 (map (encode_repeated_map_tstruint Z) kvs) e;
     e \<leftarrow> zcbor_map_end_encode Z 8 e;
     zcbor_list_end_encode Z 3 e
   }"

definition encode_sta_state :: "'e zcbor_enc \<Rightarrow> u32 \<Rightarrow> 'e \<Rightarrow> 'e option" where
  "encode_sta_state Z c e = 
     (if c = sta_state_sta_connected_m_c then zcbor_uint32_put Z 0 e
      else if c = sta_state_sta_connecting_m_c then zcbor_uint32_put Z 1 e
      else if c = sta_state_sta_disconnected_m_c then zcbor_uint32_put Z 2 e
      else if c = sta_state_sta_failed_m_c then zcbor_uint32_put Z 3 e
      else None)"

definition encode_fail_reason :: "'e zcbor_enc \<Rightarrow> u32 \<Rightarrow> 'e \<Rightarrow> 'e option" where
  "encode_fail_reason Z c e = 
     (if c = fail_reason_fail_auth_error_m_c then zcbor_uint32_put Z 0 e
      else if c = fail_reason_fail_network_not_found_m_c then zcbor_uint32_put Z 1 e
      else None)"

definition encode_repeated_connected_info_rssi :: "'e zcbor_enc \<Rightarrow> u32 \<Rightarrow> 'e \<Rightarrow> 'e option" where
  "encode_repeated_connected_info_rssi Z x e = do {
     e \<leftarrow> zcbor_tstr_encode Z (str_bytes ''rssi'') e;
     zcbor_int32_encode Z x e
   }"

definition encode_connected_info :: "'e zcbor_enc \<Rightarrow> connected_info \<Rightarrow> 'e \<Rightarrow> 'e option" where
  "encode_connected_info Z v e = do {
     e \<leftarrow> zcbor_map_start_encode Z 3 e;
     e \<leftarrow> zcbor_tstr_encode Z (str_bytes ''ip4'') e;
     assert_opt (length (connected_info_ip4 v) = 4);
     e \<leftarrow> zcbor_bstr_encode Z (connected_info_ip4 v) e;
     e \<leftarrow> zcbor_tstr_encode Z (str_bytes ''ssid'') e;
     assert_opt (1 \<le> length (connected_info_ssid v) \<and> length (connected_info_ssid v) \<le> 32);
     e \<leftarrow> zcbor_bstr_encode Z (connected_info_ssid v) e;
     e \<leftarrow> (case connected_info_rssi v of None \<Rightarrow> Some e | Some v \<Rightarrow> encode_repeated_connected_info_rssi Z v e);
     zcbor_map_end_encode Z 3 e
   }"

definition encode_config_detail :: "'e zcbor_enc \<Rightarrow> config_detail_r \<Rightarrow> 'e \<Rightarrow> 'e option" where
  "encode_config_detail Z v e = 
     (case v of config_detail_fail_reason_m c \<Rightarrow> encode_fail_reason Z c e
      | config_detail_connected_info_m i \<Rightarrow> encode_connected_info Z i e)"

definition encode_config_status_rsp :: "'e zcbor_enc \<Rightarrow> config_status_rsp \<Rightarrow> 'e \<Rightarrow> 'e option" where
  "encode_config_status_rsp Z v e = do {
     e \<leftarrow> zcbor_list_start_encode Z 4 e;
     e \<leftarrow> zcbor_uint32_put Z 0 e;
     e \<leftarrow> encode_prov_status Z (config_status_rsp_prov_status_m v) e;
     e \<leftarrow> encode_sta_state Z (config_status_rsp_sta_state_m v) e;
     e \<leftarrow> (case config_status_rsp_config_detail_m v of None \<Rightarrow> Some e | Some v \<Rightarrow> encode_config_detail Z v e);
     zcbor_list_end_encode Z 4 e
   }"

definition encode_config_set_rsp :: "'e zcbor_enc \<Rightarrow> u32 \<Rightarrow> 'e \<Rightarrow> 'e option" where
  "encode_config_set_rsp Z status e = do {
     e \<leftarrow> zcbor_list_start_encode Z 2 e;
     e \<leftarrow> zcbor_uint32_put Z 1 e;
     e \<leftarrow> encode_prov_status Z status e;
     zcbor_list_end_encode Z 2 e
   }"

definition encode_config_apply_rsp :: "'e zcbor_enc \<Rightarrow> u32 \<Rightarrow> 'e \<Rightarrow> 'e option" where
  "encode_config_apply_rsp Z status e = do {
     e \<leftarrow> zcbor_list_start_encode Z 2 e;
     e \<leftarrow> zcbor_uint32_put Z 2 e;
     e \<leftarrow> encode_prov_status Z status e;
     zcbor_list_end_encode Z 2 e
   }"

definition encode_cred_kind :: "'e zcbor_enc \<Rightarrow> nat \<Rightarrow> 'e \<Rightarrow> 'e option" where
  "encode_cred_kind Z c e = 
     (if c = cred_kind_cred_device_cert_m_c then zcbor_uint32_put Z 0 e
      else if c = cred_kind_cred_private_key_m_c then zcbor_uint32_put Z 1 e
      else if c = cred_kind_cred_ca_cert_m_c then zcbor_uint32_put Z 2 e
      else None)"

definition encode_cred_chunk :: "'e zcbor_enc \<Rightarrow> cred_chunk \<Rightarrow> 'e \<Rightarrow> 'e option" where
  "encode_cred_chunk Z v e = do {
     e \<leftarrow> zcbor_map_start_encode Z 4 e;
     e \<leftarrow> zcbor_tstr_encode Z (str_bytes ''kind'') e;
     e \<leftarrow> encode_cred_kind Z (cred_chunk_kind v) e;
     e \<leftarrow> zcbor_tstr_encode Z (str_bytes ''off'') e;
     e \<leftarrow> zcbor_uint32_encode Z (cred_chunk_off v) e;
     e \<leftarrow> zcbor_tstr_encode Z (str_bytes ''total'') e;
     e \<leftarrow> zcbor_uint32_encode Z (cred_chunk_total v) e;
     e \<leftarrow> zcbor_tstr_encode Z (str_bytes ''data'') e;
     e \<leftarrow> zcbor_bstr_encode Z (cred_chunk_data v) e;
     zcbor_map_end_encode Z 4 e
   }"

definition encode_cred_write :: "'e zcbor_enc \<Rightarrow> cred_chunk \<Rightarrow> 'e \<Rightarrow> 'e option" where
  "encode_cred_write Z v e = do {
     e \<leftarrow> zcbor_list_start_encode Z 2 e;
     e \<leftarrow> zcbor_uint32_put Z 0 e;
     e \<leftarrow> encode_cred_chunk Z v e;
     zcbor_list_end_encode Z 2 e
   }"

definition encode_cred_finalize :: "'e zcbor_enc \<Rightarrow> 'e \<Rightarrow> 'e option" where
  "encode_cred_finalize Z e = do {
     e \<leftarrow> zcbor_list_start_encode Z 1 e;
     e \<leftarrow> zcbor_uint32_put Z 1 e;
     zcbor_list_end_encode Z 1 e
   }"

definition encode_cred_get_status :: "'e zcbor_enc \<Rightarrow> 'e \<Rightarrow> 'e option" where
  "encode_cred_get_status Z e = do {
     e \<leftarrow> zcbor_list_start_encode Z 1 e;
     e \<leftarrow> zcbor_uint32_put Z 2 e;
     zcbor_list_end_encode Z 1 e
   }"

definition encode_ctrl_rsp :: "'e zcbor_enc \<Rightarrow> ctrl_rsp \<Rightarrow> 'e \<Rightarrow> 'e option" where
  "encode_ctrl_rsp Z v e = do {
     e \<leftarrow> zcbor_list_start_encode Z 2 e;
     assert_opt (ctrl_rsp_ctrl_op_m v \<le> 2);
     e \<leftarrow> zcbor_uint32_encode Z (ctrl_rsp_ctrl_op_m v) e;
     e \<leftarrow> encode_prov_status Z (ctrl_rsp_prov_status_m v) e;
     zcbor_list_end_encode Z 2 e
   }"

definition encode_ctrl_req :: "'e zcbor_enc \<Rightarrow> ctrl_req_r \<Rightarrow> 'e \<Rightarrow> 'e option" where
  "encode_ctrl_req Z v e = 
     (case v of ctrl_req_ctrl_reset_m \<Rightarrow> encode_ctrl_reset Z e
      | ctrl_req_ctrl_reprovision_m \<Rightarrow> encode_ctrl_reprovision Z e
      | ctrl_req_ctrl_end_m \<Rightarrow> encode_ctrl_end Z e)"

definition encode_cred_rsp :: "'e zcbor_enc \<Rightarrow> cred_rsp_r \<Rightarrow> 'e \<Rightarrow> 'e option" where
  "encode_cred_rsp Z v e = 
     (case v of cred_rsp_cred_write_rsp_m st n \<Rightarrow> encode_cred_write_rsp Z st n e
      | cred_rsp_cred_finalize_rsp_m st \<Rightarrow> encode_cred_finalize_rsp Z st e
      | cred_rsp_cred_status_rsp_m st kvs \<Rightarrow> encode_cred_status_rsp Z st kvs e)"

definition encode_cred_req :: "'e zcbor_enc \<Rightarrow> cred_req_r \<Rightarrow> 'e \<Rightarrow> 'e option" where
  "encode_cred_req Z v e = 
     (case v of cred_req_cred_write_m c \<Rightarrow> encode_cred_write Z c e
      | cred_req_cred_finalize_m \<Rightarrow> encode_cred_finalize Z e
      | cred_req_cred_get_status_m \<Rightarrow> encode_cred_get_status Z e)"

definition encode_scan_rsp :: "'e zcbor_enc \<Rightarrow> scan_rsp_r \<Rightarrow> 'e \<Rightarrow> 'e option" where
  "encode_scan_rsp Z v e = 
     (case v of scan_rsp_scan_start_rsp_m st \<Rightarrow> encode_scan_start_rsp Z st e
      | scan_rsp_scan_status_rsp_m st fin n \<Rightarrow> encode_scan_status_rsp Z st fin n e
      | scan_rsp_scan_results_rsp_m st es \<Rightarrow> encode_scan_results_rsp Z st es e)"

definition encode_scan_req :: "'e zcbor_enc \<Rightarrow> scan_req_r \<Rightarrow> 'e \<Rightarrow> 'e option" where
  "encode_scan_req Z v e = 
     (case v of scan_req_scan_start_m p \<Rightarrow> encode_scan_start Z p e
      | scan_req_scan_get_status_m \<Rightarrow> encode_scan_get_status Z e
      | scan_req_scan_get_results_m a b \<Rightarrow> encode_scan_get_results Z a b e)"

definition encode_config_rsp :: "'e zcbor_enc \<Rightarrow> config_rsp_r \<Rightarrow> 'e \<Rightarrow> 'e option" where
  "encode_config_rsp Z v e = 
     (case v of config_rsp_config_status_rsp_m s \<Rightarrow> encode_config_status_rsp Z s e
      | config_rsp_config_set_rsp_m st \<Rightarrow> encode_config_set_rsp Z st e
      | config_rsp_config_apply_rsp_m st \<Rightarrow> encode_config_apply_rsp Z st e)"

definition encode_config_req :: "'e zcbor_enc \<Rightarrow> config_req_r \<Rightarrow> 'e \<Rightarrow> 'e option" where
  "encode_config_req Z v e = 
     (case v of config_req_config_get_status_m \<Rightarrow> encode_config_get_status Z e
      | config_req_config_set_m c \<Rightarrow> encode_config_set Z c e
      | config_req_config_apply_m \<Rightarrow> encode_config_apply Z e)"

definition encode_auth_rsp :: "'e zcbor_enc \<Rightarrow> auth_rsp_r \<Rightarrow> 'e \<Rightarrow> 'e option" where
  "encode_auth_rsp Z v e = 
     (case v of auth_rsp_auth_challenge_rsp_m st n p \<Rightarrow> encode_auth_challenge_rsp Z st n p e
      | auth_rsp_auth_proof_rsp_m st \<Rightarrow> encode_auth_proof_rsp Z st e)"

definition encode_auth_req :: "'e zcbor_enc \<Rightarrow> auth_req_r \<Rightarrow> 'e \<Rightarrow> 'e option" where
  "encode_auth_req Z v e = 
     (case v of auth_req_auth_challenge_m n \<Rightarrow> encode_auth_challenge Z n e
      | auth_req_auth_proof_m p \<Rightarrow> encode_auth_proof Z p e)"

definition encode_ver_rsp :: "'e zcbor_enc \<Rightarrow> ver_rsp \<Rightarrow> 'e \<Rightarrow> 'e option" where
  "encode_ver_rsp Z v e = do {
     e \<leftarrow> zcbor_list_start_encode Z 3 e;
     e \<leftarrow> zcbor_uint32_put Z 0 e;
     e \<leftarrow> encode_prov_status Z (ver_rsp_prov_status_m v) e;
     e \<leftarrow> encode_ver_info Z (ver_rsp_ver_info_m v) e;
     zcbor_list_end_encode Z 3 e
   }"

definition encode_ver_req :: "'e zcbor_enc \<Rightarrow> 'e \<Rightarrow> 'e option" where
  "encode_ver_req Z e = do {
     e \<leftarrow> zcbor_list_start_encode Z 1 e;
     e \<leftarrow> zcbor_uint32_put Z 0 e;
     zcbor_list_end_encode Z 1 e
   }"

definition cbor_encode_ver_req :: "'e zcbor_enc \<Rightarrow> nat \<Rightarrow> bytes option" where
  "cbor_encode_ver_req Z payload_len = zcbor_entry_encode Z (encode_ver_req Z) payload_len 3 1"

definition cbor_encode_ver_rsp :: "'e zcbor_enc \<Rightarrow> nat \<Rightarrow> ver_rsp \<Rightarrow> bytes option" where
  "cbor_encode_ver_rsp Z payload_len v = zcbor_entry_encode Z (encode_ver_rsp Z v) payload_len 5 1"

definition cbor_encode_auth_req :: "'e zcbor_enc \<Rightarrow> nat \<Rightarrow> auth_req_r \<Rightarrow> bytes option" where
  "cbor_encode_auth_req Z payload_len v = zcbor_entry_encode Z (encode_auth_req Z v) payload_len 4 1"

definition cbor_encode_auth_rsp :: "'e zcbor_enc \<Rightarrow> nat \<Rightarrow> auth_rsp_r \<Rightarrow> bytes option" where
  "cbor_encode_auth_rsp Z payload_len v = zcbor_entry_encode Z (encode_auth_rsp Z v) payload_len 5 1"

definition cbor_encode_config_req :: "'e zcbor_enc \<Rightarrow> nat \<Rightarrow> config_req_r \<Rightarrow> bytes option" where
  "cbor_encode_config_req Z payload_len v = zcbor_entry_encode Z (encode_config_req Z v) payload_len 5 1"

definition cbor_encode_config_rsp :: "'e zcbor_enc \<Rightarrow> nat \<Rightarrow> config_rsp_r \<Rightarrow> bytes option" where
  "cbor_encode_config_rsp Z payload_len v = zcbor_entry_encode Z (encode_config_rsp Z v) payload_len 6 1"

definition cbor_encode_scan_req :: "'e zcbor_enc \<Rightarrow> nat \<Rightarrow> scan_req_r \<Rightarrow> bytes option" where
  "cbor_encode_scan_req Z payload_len v = zcbor_entry_encode Z (encode_scan_req Z v) payload_len 5 1"

definition cbor_encode_scan_rsp :: "'e zcbor_enc \<Rightarrow> nat \<Rightarrow> scan_rsp_r \<Rightarrow> bytes option" where
  "cbor_encode_scan_rsp Z payload_len v = zcbor_entry_encode Z (encode_scan_rsp Z v) payload_len 6 1"

definition cbor_encode_cred_req :: "'e zcbor_enc \<Rightarrow> nat \<Rightarrow> cred_req_r \<Rightarrow> bytes option" where
  "cbor_encode_cred_req Z payload_len v = zcbor_entry_encode Z (encode_cred_req Z v) payload_len 6 1"

definition cbor_encode_cred_rsp :: "'e zcbor_enc \<Rightarrow> nat \<Rightarrow> cred_rsp_r \<Rightarrow> bytes option" where
  "cbor_encode_cred_rsp Z payload_len v = zcbor_entry_encode Z (encode_cred_rsp Z v) payload_len 5 1"

definition cbor_encode_ctrl_req :: "'e zcbor_enc \<Rightarrow> nat \<Rightarrow> ctrl_req_r \<Rightarrow> bytes option" where
  "cbor_encode_ctrl_req Z payload_len v = zcbor_entry_encode Z (encode_ctrl_req Z v) payload_len 4 1"

definition cbor_encode_ctrl_rsp :: "'e zcbor_enc \<Rightarrow> nat \<Rightarrow> ctrl_rsp \<Rightarrow> bytes option" where
  "cbor_encode_ctrl_rsp Z payload_len v = zcbor_entry_encode Z (encode_ctrl_rsp Z v) payload_len 4 1"

lemmas encode_defs [codec_defs] =
  encode_prov_status_def
  encode_repeated_ver_info_pop_def
  encode_ver_info_def
  encode_auth_challenge_def
  encode_auth_proof_def
  encode_config_get_status_def
  encode_repeated_wifi_config_pass_def
  encode_repeated_wifi_config_bssid_def
  encode_repeated_wifi_config_ch_def
  encode_wifi_config_def
  encode_config_set_def
  encode_config_apply_def
  encode_repeated_scan_params_passive_def
  encode_repeated_scan_params_period_ms_def
  encode_scan_params_def
  encode_scan_start_def
  encode_scan_get_status_def
  encode_scan_get_results_def
  encode_ctrl_reset_def
  encode_ctrl_reprovision_def
  encode_ctrl_end_def
  encode_auth_challenge_rsp_def
  encode_auth_proof_rsp_def
  encode_scan_start_rsp_def
  encode_scan_status_rsp_def
  encode_scan_entry_def
  encode_scan_results_rsp_def
  encode_cred_write_rsp_def
  encode_cred_finalize_rsp_def
  encode_repeated_map_tstruint_def
  encode_cred_status_rsp_def
  encode_sta_state_def
  encode_fail_reason_def
  encode_repeated_connected_info_rssi_def
  encode_connected_info_def
  encode_config_detail_def
  encode_config_status_rsp_def
  encode_config_set_rsp_def
  encode_config_apply_rsp_def
  encode_cred_kind_def
  encode_cred_chunk_def
  encode_cred_write_def
  encode_cred_finalize_def
  encode_cred_get_status_def
  encode_ctrl_rsp_def
  encode_ctrl_req_def
  encode_cred_rsp_def
  encode_cred_req_def
  encode_scan_rsp_def
  encode_scan_req_def
  encode_config_rsp_def
  encode_config_req_def
  encode_auth_rsp_def
  encode_auth_req_def
  encode_ver_rsp_def
  encode_ver_req_def

subsection \<open>The codec over a conforming library\<close>

context zcbor_encoder begin

lemma encode_repeated_ver_info_pop_sim [sim_intros]: "esim R (encode_repeated_ver_info_pop Z v) (encode_repeated_ver_info_pop zref_enc v)"
  by (simp add: encode_repeated_ver_info_pop_def[abs_def]; intro sim_intros)

lemma encode_repeated_wifi_config_pass_sim [sim_intros]: "esim R (encode_repeated_wifi_config_pass Z v) (encode_repeated_wifi_config_pass zref_enc v)"
  by (simp add: encode_repeated_wifi_config_pass_def[abs_def]; intro sim_intros)

lemma encode_repeated_wifi_config_bssid_sim [sim_intros]: "esim R (encode_repeated_wifi_config_bssid Z v) (encode_repeated_wifi_config_bssid zref_enc v)"
  by (simp add: encode_repeated_wifi_config_bssid_def[abs_def]; intro sim_intros)

lemma encode_repeated_wifi_config_ch_sim [sim_intros]: "esim R (encode_repeated_wifi_config_ch Z v) (encode_repeated_wifi_config_ch zref_enc v)"
  by (simp add: encode_repeated_wifi_config_ch_def[abs_def]; intro sim_intros)

lemma encode_repeated_scan_params_passive_sim [sim_intros]: "esim R (encode_repeated_scan_params_passive Z v) (encode_repeated_scan_params_passive zref_enc v)"
  by (simp add: encode_repeated_scan_params_passive_def[abs_def]; intro sim_intros)

lemma encode_repeated_scan_params_period_ms_sim [sim_intros]: "esim R (encode_repeated_scan_params_period_ms Z v) (encode_repeated_scan_params_period_ms zref_enc v)"
  by (simp add: encode_repeated_scan_params_period_ms_def[abs_def]; intro sim_intros)

lemma encode_repeated_connected_info_rssi_sim [sim_intros]: "esim R (encode_repeated_connected_info_rssi Z v) (encode_repeated_connected_info_rssi zref_enc v)"
  by (simp add: encode_repeated_connected_info_rssi_def[abs_def]; intro sim_intros)

lemma encode_config_detail_sim [sim_intros]:
  "esim R (encode_config_detail Z v) (encode_config_detail zref_enc v)"
  by (cases v; simp add: encode_config_detail_def[abs_def] encode_fail_reason_def[abs_def]
        encode_connected_info_def[abs_def]; intro sim_intros)

lemma cbor_encode_ver_req_ref:
  "cbor_encode_ver_req Z len = cbor_encode_ver_req zref_enc len"
  unfolding cbor_encode_ver_req_def
  by (rule entry) (simp add: encode_defs[abs_def]; intro sim_intros)

lemma cbor_encode_ver_rsp_ref:
  "cbor_encode_ver_rsp Z len v = cbor_encode_ver_rsp zref_enc len v"
  unfolding cbor_encode_ver_rsp_def
  by (rule entry) (simp add: encode_defs[abs_def]; intro sim_intros)

lemma cbor_encode_auth_req_ref:
  "cbor_encode_auth_req Z len v = cbor_encode_auth_req zref_enc len v"
  unfolding cbor_encode_auth_req_def
  by (rule entry) (cases v; simp add: encode_defs[abs_def]; intro sim_intros)

lemma cbor_encode_auth_rsp_ref:
  "cbor_encode_auth_rsp Z len v = cbor_encode_auth_rsp zref_enc len v"
  unfolding cbor_encode_auth_rsp_def
  by (rule entry) (cases v; simp add: encode_defs[abs_def]; intro sim_intros)

lemma cbor_encode_config_req_ref:
  "cbor_encode_config_req Z len v = cbor_encode_config_req zref_enc len v"
  unfolding cbor_encode_config_req_def
  by (rule entry) (cases v; simp add: encode_defs[abs_def]; intro sim_intros)

lemma cbor_encode_config_rsp_ref:
  "cbor_encode_config_rsp Z len v = cbor_encode_config_rsp zref_enc len v"
  unfolding cbor_encode_config_rsp_def
  by (rule entry) (cases v; simp add: encode_defs[abs_def]; intro sim_intros)

lemma cbor_encode_scan_req_ref:
  "cbor_encode_scan_req Z len v = cbor_encode_scan_req zref_enc len v"
  unfolding cbor_encode_scan_req_def
  by (rule entry) (cases v; simp add: encode_defs[abs_def]; intro sim_intros)

lemma cbor_encode_scan_rsp_ref:
  "cbor_encode_scan_rsp Z len v = cbor_encode_scan_rsp zref_enc len v"
  unfolding cbor_encode_scan_rsp_def
  by (rule entry) (cases v; simp add: encode_defs[abs_def]; intro sim_intros)

lemma cbor_encode_cred_req_ref:
  "cbor_encode_cred_req Z len v = cbor_encode_cred_req zref_enc len v"
  unfolding cbor_encode_cred_req_def
  by (rule entry) (cases v; simp add: encode_defs[abs_def]; intro sim_intros)

lemma cbor_encode_cred_rsp_ref:
  "cbor_encode_cred_rsp Z len v = cbor_encode_cred_rsp zref_enc len v"
  unfolding cbor_encode_cred_rsp_def
  by (rule entry) (cases v; simp add: encode_defs[abs_def]; intro sim_intros)

lemma cbor_encode_ctrl_req_ref:
  "cbor_encode_ctrl_req Z len v = cbor_encode_ctrl_req zref_enc len v"
  unfolding cbor_encode_ctrl_req_def
  by (rule entry) (cases v; simp add: encode_defs[abs_def]; intro sim_intros)

lemma cbor_encode_ctrl_rsp_ref:
  "cbor_encode_ctrl_rsp Z len v = cbor_encode_ctrl_rsp zref_enc len v"
  unfolding cbor_encode_ctrl_rsp_def
  by (rule entry) (simp add: encode_defs[abs_def]; intro sim_intros)

end

end
