(* ===== verification/Prov_Decode.thy ===== *)
theory Prov_Decode
  imports Prov_Encode
begin

text \<open>
  The request half of the generated decoder, \<^verbatim>\<open>src/codec/prov_decode.c\<close>: the functions the
  device runs on what the client sends. The member a decoder fills is its result; a union
  decoder tries its alternatives in order from the same saved position. \<open>cbor_decode_*\<close> returns
  the decoded request and the bytes consumed, or \<open>None\<close> for a nonzero return code.
\<close>

text \<open>Reading back an object written through a \<^verbatim>\<open>void\<close> pointer of the same type.\<close>

fun as_str :: "zobj \<Rightarrow> bytes" where
  "as_str (Z_str b) = b"
| "as_str _ = []"

fun as_u32 :: "zobj \<Rightarrow> u32" where
  "as_u32 (Z_u32 x) = x"
| "as_u32 _ = 0"

fun as_bool :: "zobj \<Rightarrow> bool" where
  "as_bool (Z_bool b) = b"
| "as_bool _ = False"

definition decode_auth_challenge :: "'d zcbor_dec \<Rightarrow> 'd \<Rightarrow> (bytes \<times> 'd) option" where
  "decode_auth_challenge Z d = do {
     d \<leftarrow> zcbor_list_start_decode Z d;
     d \<leftarrow> zcbor_uint32_expect Z 0 d;
     (cli_nonce, d) \<leftarrow> zcbor_bstr_decode Z d;
     assert_opt (length cli_nonce = 16);
     d \<leftarrow> zcbor_list_end_decode Z d;
     Some (cli_nonce, d)
   }"

definition decode_auth_proof :: "'d zcbor_dec \<Rightarrow> 'd \<Rightarrow> (bytes \<times> 'd) option" where
  "decode_auth_proof Z d = do {
     d \<leftarrow> zcbor_list_start_decode Z d;
     d \<leftarrow> zcbor_uint32_expect Z 1 d;
     (cli_proof, d) \<leftarrow> zcbor_bstr_decode Z d;
     assert_opt (length cli_proof = 32);
     d \<leftarrow> zcbor_list_end_decode Z d;
     Some (cli_proof, d)
   }"

definition decode_config_get_status :: "'d zcbor_dec \<Rightarrow> 'd \<Rightarrow> 'd option" where
  "decode_config_get_status Z d = do {
     d \<leftarrow> zcbor_list_start_decode Z d;
     d \<leftarrow> zcbor_uint32_expect Z 0 d;
     zcbor_list_end_decode Z d
   }"

definition decode_repeated_wifi_config_pass :: "'d zcbor_dec \<Rightarrow> 'd \<Rightarrow> (bytes \<times> 'd) option" where
  "decode_repeated_wifi_config_pass Z d = do {
     d \<leftarrow> zcbor_tstr_expect Z (str_bytes ''pass'') d;
     (b, d) \<leftarrow> zcbor_bstr_decode Z d;
     assert_opt (0 \<le> length b \<and> length b \<le> 64);
     Some (b, d)
   }"

definition decode_repeated_wifi_config_bssid :: "'d zcbor_dec \<Rightarrow> 'd \<Rightarrow> (bytes \<times> 'd) option" where
  "decode_repeated_wifi_config_bssid Z d = do {
     d \<leftarrow> zcbor_tstr_expect Z (str_bytes ''bssid'') d;
     (b, d) \<leftarrow> zcbor_bstr_decode Z d;
     assert_opt (length b = 6);
     Some (b, d)
   }"

definition decode_repeated_wifi_config_ch :: "'d zcbor_dec \<Rightarrow> 'd \<Rightarrow> (u32 \<times> 'd) option" where
  "decode_repeated_wifi_config_ch Z d = do {
     d \<leftarrow> zcbor_tstr_expect Z (str_bytes ''ch'') d;
     zcbor_uint32_decode Z d
   }"

definition decode_wifi_config :: "'d zcbor_dec \<Rightarrow> 'd \<Rightarrow> (wifi_config \<times> 'd) option" where
  "decode_wifi_config Z d = do {
     d \<leftarrow> zcbor_map_start_decode Z d;
     d \<leftarrow> zcbor_tstr_expect Z (str_bytes ''ssid'') d;
     (ssid, d) \<leftarrow> zcbor_bstr_decode Z d;
     assert_opt (1 \<le> length ssid \<and> length ssid \<le> 32);
     (pass, d) \<leftarrow> zcbor_present_decode Z (zcbor_cast Z_str (decode_repeated_wifi_config_pass Z)) d;
     (bssid, d) \<leftarrow> zcbor_present_decode Z (zcbor_cast Z_str (decode_repeated_wifi_config_bssid Z)) d;
     (ch, d) \<leftarrow> zcbor_present_decode Z (zcbor_cast Z_u32 (decode_repeated_wifi_config_ch Z)) d;
     d \<leftarrow> zcbor_map_end_decode Z d;
     Some (\<lparr>wifi_config_ssid = ssid, wifi_config_pass = map_option as_str pass,
            wifi_config_bssid = map_option as_str bssid, wifi_config_ch = map_option as_u32 ch\<rparr>, d)
   }"

definition decode_config_set :: "'d zcbor_dec \<Rightarrow> 'd \<Rightarrow> (wifi_config \<times> 'd) option" where
  "decode_config_set Z d = do {
     d \<leftarrow> zcbor_list_start_decode Z d;
     d \<leftarrow> zcbor_uint32_expect Z 1 d;
     (c, d) \<leftarrow> decode_wifi_config Z d;
     d \<leftarrow> zcbor_list_end_decode Z d;
     Some (c, d)
   }"

definition decode_config_apply :: "'d zcbor_dec \<Rightarrow> 'd \<Rightarrow> 'd option" where
  "decode_config_apply Z d = do {
     d \<leftarrow> zcbor_list_start_decode Z d;
     d \<leftarrow> zcbor_uint32_expect Z 2 d;
     zcbor_list_end_decode Z d
   }"

definition decode_repeated_scan_params_passive :: "'d zcbor_dec \<Rightarrow> 'd \<Rightarrow> (bool \<times> 'd) option" where
  "decode_repeated_scan_params_passive Z d = do {
     d \<leftarrow> zcbor_tstr_expect Z (str_bytes ''passive'') d;
     zcbor_bool_decode Z d
   }"

definition decode_repeated_scan_params_period_ms :: "'d zcbor_dec \<Rightarrow> 'd \<Rightarrow> (u32 \<times> 'd) option" where
  "decode_repeated_scan_params_period_ms Z d = do {
     d \<leftarrow> zcbor_tstr_expect Z (str_bytes ''period-ms'') d;
     zcbor_uint32_decode Z d
   }"

definition decode_scan_params :: "'d zcbor_dec \<Rightarrow> 'd \<Rightarrow> (scan_params \<times> 'd) option" where
  "decode_scan_params Z d = do {
     d \<leftarrow> zcbor_map_start_decode Z d;
     (passive, d) \<leftarrow> zcbor_present_decode Z (zcbor_cast Z_bool (decode_repeated_scan_params_passive Z)) d;
     (period, d) \<leftarrow> zcbor_present_decode Z (zcbor_cast Z_u32 (decode_repeated_scan_params_period_ms Z)) d;
     d \<leftarrow> zcbor_map_end_decode Z d;
     Some (\<lparr>scan_params_passive = map_option as_bool passive,
            scan_params_period_ms = map_option as_u32 period\<rparr>, d)
   }"

definition decode_scan_start :: "'d zcbor_dec \<Rightarrow> 'd \<Rightarrow> (scan_params \<times> 'd) option" where
  "decode_scan_start Z d = do {
     d \<leftarrow> zcbor_list_start_decode Z d;
     d \<leftarrow> zcbor_uint32_expect Z 0 d;
     (p, d) \<leftarrow> decode_scan_params Z d;
     d \<leftarrow> zcbor_list_end_decode Z d;
     Some (p, d)
   }"

definition decode_scan_get_status :: "'d zcbor_dec \<Rightarrow> 'd \<Rightarrow> 'd option" where
  "decode_scan_get_status Z d = do {
     d \<leftarrow> zcbor_list_start_decode Z d;
     d \<leftarrow> zcbor_uint32_expect Z 1 d;
     zcbor_list_end_decode Z d
   }"

definition decode_scan_get_results :: "'d zcbor_dec \<Rightarrow> 'd \<Rightarrow> ((u32 \<times> u32) \<times> 'd) option" where
  "decode_scan_get_results Z d = do {
     d \<leftarrow> zcbor_list_start_decode Z d;
     d \<leftarrow> zcbor_uint32_expect Z 2 d;
     (start, d) \<leftarrow> zcbor_uint32_decode Z d;
     (count, d) \<leftarrow> zcbor_uint32_decode Z d;
     d \<leftarrow> zcbor_list_end_decode Z d;
     Some ((start, count), d)
   }"

definition decode_ctrl_reset :: "'d zcbor_dec \<Rightarrow> 'd \<Rightarrow> 'd option" where
  "decode_ctrl_reset Z d = do {
     d \<leftarrow> zcbor_list_start_decode Z d;
     d \<leftarrow> zcbor_uint32_expect Z 0 d;
     zcbor_list_end_decode Z d
   }"

definition decode_ctrl_reprovision :: "'d zcbor_dec \<Rightarrow> 'd \<Rightarrow> 'd option" where
  "decode_ctrl_reprovision Z d = do {
     d \<leftarrow> zcbor_list_start_decode Z d;
     d \<leftarrow> zcbor_uint32_expect Z 1 d;
     zcbor_list_end_decode Z d
   }"

definition decode_ctrl_end :: "'d zcbor_dec \<Rightarrow> 'd \<Rightarrow> 'd option" where
  "decode_ctrl_end Z d = do {
     d \<leftarrow> zcbor_list_start_decode Z d;
     d \<leftarrow> zcbor_uint32_expect Z 2 d;
     zcbor_list_end_decode Z d
   }"

definition decode_cred_kind :: "'d zcbor_dec \<Rightarrow> 'd \<Rightarrow> (nat \<times> 'd) option" where
  "decode_cred_kind Z d = do {
     (c, d) \<leftarrow> zcbor_uint_decode Z 4 d;
     assert_opt (c = cred_kind_cred_device_cert_m_c \<or> c = cred_kind_cred_private_key_m_c
       \<or> c = cred_kind_cred_ca_cert_m_c);
     Some (c, d)
   }"

definition decode_cred_chunk :: "'d zcbor_dec \<Rightarrow> 'd \<Rightarrow> (cred_chunk \<times> 'd) option" where
  "decode_cred_chunk Z d = do {
     d \<leftarrow> zcbor_map_start_decode Z d;
     d \<leftarrow> zcbor_tstr_expect Z (str_bytes ''kind'') d;
     (kind, d) \<leftarrow> decode_cred_kind Z d;
     d \<leftarrow> zcbor_tstr_expect Z (str_bytes ''off'') d;
     (off, d) \<leftarrow> zcbor_uint32_decode Z d;
     d \<leftarrow> zcbor_tstr_expect Z (str_bytes ''total'') d;
     (tot, d) \<leftarrow> zcbor_uint32_decode Z d;
     d \<leftarrow> zcbor_tstr_expect Z (str_bytes ''data'') d;
     (data, d) \<leftarrow> zcbor_bstr_decode Z d;
     d \<leftarrow> zcbor_map_end_decode Z d;
     Some (\<lparr>cred_chunk_kind = kind, cred_chunk_off = off, cred_chunk_total = tot,
            cred_chunk_data = data\<rparr>, d)
   }"

definition decode_cred_write :: "'d zcbor_dec \<Rightarrow> 'd \<Rightarrow> (cred_chunk \<times> 'd) option" where
  "decode_cred_write Z d = do {
     d \<leftarrow> zcbor_list_start_decode Z d;
     d \<leftarrow> zcbor_uint32_expect Z 0 d;
     (c, d) \<leftarrow> decode_cred_chunk Z d;
     d \<leftarrow> zcbor_list_end_decode Z d;
     Some (c, d)
   }"

definition decode_cred_finalize :: "'d zcbor_dec \<Rightarrow> 'd \<Rightarrow> 'd option" where
  "decode_cred_finalize Z d = do {
     d \<leftarrow> zcbor_list_start_decode Z d;
     d \<leftarrow> zcbor_uint32_expect Z 1 d;
     zcbor_list_end_decode Z d
   }"

definition decode_cred_get_status :: "'d zcbor_dec \<Rightarrow> 'd \<Rightarrow> 'd option" where
  "decode_cred_get_status Z d = do {
     d \<leftarrow> zcbor_list_start_decode Z d;
     d \<leftarrow> zcbor_uint32_expect Z 2 d;
     zcbor_list_end_decode Z d
   }"

definition decode_ctrl_req :: "'d zcbor_dec \<Rightarrow> 'd \<Rightarrow> (ctrl_req_r \<times> 'd) option" where
  "decode_ctrl_req Z d = 
     zcbor_union Z (zcbor_or Z (zcbor_cast (\<lambda>_. ctrl_req_ctrl_reset_m) (zcbor_void (decode_ctrl_reset Z)))
       (zcbor_or Z (zcbor_cast (\<lambda>_. ctrl_req_ctrl_reprovision_m) (zcbor_void (decode_ctrl_reprovision Z)))
         (zcbor_cast (\<lambda>_. ctrl_req_ctrl_end_m) (zcbor_void (decode_ctrl_end Z))))) d"

definition decode_cred_req :: "'d zcbor_dec \<Rightarrow> 'd \<Rightarrow> (cred_req_r \<times> 'd) option" where
  "decode_cred_req Z d = 
     zcbor_union Z (zcbor_or Z (zcbor_cast cred_req_cred_write_m (decode_cred_write Z))
       (zcbor_or Z (zcbor_cast (\<lambda>_. cred_req_cred_finalize_m) (zcbor_void (decode_cred_finalize Z)))
         (zcbor_cast (\<lambda>_. cred_req_cred_get_status_m) (zcbor_void (decode_cred_get_status Z))))) d"

definition decode_scan_req :: "'d zcbor_dec \<Rightarrow> 'd \<Rightarrow> (scan_req_r \<times> 'd) option" where
  "decode_scan_req Z d = 
     zcbor_union Z (zcbor_or Z (zcbor_cast scan_req_scan_start_m (decode_scan_start Z))
       (zcbor_or Z (zcbor_cast (\<lambda>_. scan_req_scan_get_status_m) (zcbor_void (decode_scan_get_status Z)))
         (zcbor_cast (\<lambda>(a, b). scan_req_scan_get_results_m a b) (decode_scan_get_results Z)))) d"

definition decode_config_req :: "'d zcbor_dec \<Rightarrow> 'd \<Rightarrow> (config_req_r \<times> 'd) option" where
  "decode_config_req Z d = 
     zcbor_union Z (zcbor_or Z (zcbor_cast (\<lambda>_. config_req_config_get_status_m) (zcbor_void (decode_config_get_status Z)))
       (zcbor_or Z (zcbor_cast config_req_config_set_m (decode_config_set Z))
         (zcbor_cast (\<lambda>_. config_req_config_apply_m) (zcbor_void (decode_config_apply Z))))) d"

definition decode_auth_req :: "'d zcbor_dec \<Rightarrow> 'd \<Rightarrow> (auth_req_r \<times> 'd) option" where
  "decode_auth_req Z d = 
     zcbor_union Z (zcbor_or Z (zcbor_cast auth_req_auth_challenge_m (decode_auth_challenge Z))
       (zcbor_cast auth_req_auth_proof_m (decode_auth_proof Z))) d"

definition decode_ver_req :: "'d zcbor_dec \<Rightarrow> 'd \<Rightarrow> 'd option" where
  "decode_ver_req Z d = do {
     d \<leftarrow> zcbor_list_start_decode Z d;
     d \<leftarrow> zcbor_uint32_expect Z 0 d;
     zcbor_list_end_decode Z d
   }"

definition cbor_decode_ver_req :: "'d zcbor_dec \<Rightarrow> bytes \<Rightarrow> nat option" where
  "cbor_decode_ver_req Z payload = 
     (case zcbor_entry_decode Z (zcbor_cast (\<lambda>_. Z_void) (zcbor_void (decode_ver_req Z))) payload 3 1 of
        Some (Z_void, consumed) \<Rightarrow> Some consumed | _ \<Rightarrow> None)"

definition cbor_decode_auth_req :: "'d zcbor_dec \<Rightarrow> bytes \<Rightarrow> (auth_req_r \<times> nat) option" where
  "cbor_decode_auth_req Z payload = 
     (case zcbor_entry_decode Z (zcbor_cast Z_auth_req (decode_auth_req Z)) payload 4 1 of
        Some (Z_auth_req r, consumed) \<Rightarrow> Some (r, consumed) | _ \<Rightarrow> None)"

definition cbor_decode_config_req :: "'d zcbor_dec \<Rightarrow> bytes \<Rightarrow> (config_req_r \<times> nat) option" where
  "cbor_decode_config_req Z payload = 
     (case zcbor_entry_decode Z (zcbor_cast Z_config_req (decode_config_req Z)) payload 5 1 of
        Some (Z_config_req r, consumed) \<Rightarrow> Some (r, consumed) | _ \<Rightarrow> None)"

definition cbor_decode_scan_req :: "'d zcbor_dec \<Rightarrow> bytes \<Rightarrow> (scan_req_r \<times> nat) option" where
  "cbor_decode_scan_req Z payload = 
     (case zcbor_entry_decode Z (zcbor_cast Z_scan_req (decode_scan_req Z)) payload 5 1 of
        Some (Z_scan_req r, consumed) \<Rightarrow> Some (r, consumed) | _ \<Rightarrow> None)"

definition cbor_decode_cred_req :: "'d zcbor_dec \<Rightarrow> bytes \<Rightarrow> (cred_req_r \<times> nat) option" where
  "cbor_decode_cred_req Z payload = 
     (case zcbor_entry_decode Z (zcbor_cast Z_cred_req (decode_cred_req Z)) payload 6 1 of
        Some (Z_cred_req r, consumed) \<Rightarrow> Some (r, consumed) | _ \<Rightarrow> None)"

definition cbor_decode_ctrl_req :: "'d zcbor_dec \<Rightarrow> bytes \<Rightarrow> (ctrl_req_r \<times> nat) option" where
  "cbor_decode_ctrl_req Z payload = 
     (case zcbor_entry_decode Z (zcbor_cast Z_ctrl_req (decode_ctrl_req Z)) payload 4 1 of
        Some (Z_ctrl_req r, consumed) \<Rightarrow> Some (r, consumed) | _ \<Rightarrow> None)"

lemmas decode_defs [codec_defs] =
  decode_auth_challenge_def
  decode_auth_proof_def
  decode_config_get_status_def
  decode_repeated_wifi_config_pass_def
  decode_repeated_wifi_config_bssid_def
  decode_repeated_wifi_config_ch_def
  decode_wifi_config_def
  decode_config_set_def
  decode_config_apply_def
  decode_repeated_scan_params_passive_def
  decode_repeated_scan_params_period_ms_def
  decode_scan_params_def
  decode_scan_start_def
  decode_scan_get_status_def
  decode_scan_get_results_def
  decode_ctrl_reset_def
  decode_ctrl_reprovision_def
  decode_ctrl_end_def
  decode_cred_kind_def
  decode_cred_chunk_def
  decode_cred_write_def
  decode_cred_finalize_def
  decode_cred_get_status_def
  decode_ctrl_req_def
  decode_cred_req_def
  decode_scan_req_def
  decode_config_req_def
  decode_auth_req_def
  decode_ver_req_def

subsection \<open>The codec over a conforming library\<close>

context zcbor_decoder begin

lemma decode_cred_kind_sim [sim_intros]: "dsim R (decode_cred_kind Z) (decode_cred_kind zref_dec)"
  unfolding decode_cred_kind_def[abs_def] bind_assert by (intro sim_intros)

lemma decode_cred_chunk_sim [sim_intros]: "dsim R (decode_cred_chunk Z) (decode_cred_chunk zref_dec)"
  unfolding decode_cred_chunk_def[abs_def] bind_assert by (intro sim_intros)

lemma decode_wifi_config_sim [sim_intros]: "dsim R (decode_wifi_config Z) (decode_wifi_config zref_dec)"
  unfolding decode_wifi_config_def[abs_def] decode_repeated_wifi_config_pass_def[abs_def]
    decode_repeated_wifi_config_bssid_def[abs_def] decode_repeated_wifi_config_ch_def[abs_def] bind_assert
  by (intro sim_intros)

lemma decode_scan_params_sim [sim_intros]: "dsim R (decode_scan_params Z) (decode_scan_params zref_dec)"
  unfolding decode_scan_params_def[abs_def] decode_repeated_scan_params_passive_def[abs_def]
    decode_repeated_scan_params_period_ms_def[abs_def] bind_assert
  by (intro sim_intros)

lemmas decode_list_defs =
  decode_auth_challenge_def decode_auth_proof_def decode_config_get_status_def decode_config_set_def
  decode_config_apply_def decode_scan_start_def decode_scan_get_status_def decode_scan_get_results_def
  decode_ctrl_reset_def decode_ctrl_reprovision_def decode_ctrl_end_def decode_cred_write_def
  decode_cred_finalize_def decode_cred_get_status_def decode_ctrl_req_def decode_cred_req_def
  decode_scan_req_def decode_config_req_def decode_auth_req_def decode_ver_req_def

lemma cbor_decode_ver_req_ref:
  assumes "list_all wf_tok ts"
  shows "cbor_decode_ver_req Z (toks_bytes ts) = cbor_decode_ver_req zref_dec (toks_bytes ts)"
proof -
  have "dsim R (zcbor_cast (\<lambda>_. Z_void) (zcbor_void (decode_ver_req Z)))
          (zcbor_cast (\<lambda>_. Z_void) (zcbor_void (decode_ver_req zref_dec)))"
    unfolding decode_list_defs[abs_def] bind_assert by (intro sim_intros)
  from entry[OF this assms] show ?thesis by (simp add: cbor_decode_ver_req_def)
qed

lemma cbor_decode_auth_req_ref:
  assumes "list_all wf_tok ts"
  shows "cbor_decode_auth_req Z (toks_bytes ts) = cbor_decode_auth_req zref_dec (toks_bytes ts)"
proof -
  have "dsim R (zcbor_cast Z_auth_req (decode_auth_req Z)) (zcbor_cast Z_auth_req (decode_auth_req zref_dec))"
    unfolding decode_list_defs[abs_def] bind_assert by (intro sim_intros)
  from entry[OF this assms] show ?thesis by (simp add: cbor_decode_auth_req_def)
qed

lemma cbor_decode_config_req_ref:
  assumes "list_all wf_tok ts"
  shows "cbor_decode_config_req Z (toks_bytes ts) = cbor_decode_config_req zref_dec (toks_bytes ts)"
proof -
  have "dsim R (zcbor_cast Z_config_req (decode_config_req Z)) (zcbor_cast Z_config_req (decode_config_req zref_dec))"
    unfolding decode_list_defs[abs_def] bind_assert by (intro sim_intros)
  from entry[OF this assms] show ?thesis by (simp add: cbor_decode_config_req_def)
qed

lemma cbor_decode_scan_req_ref:
  assumes "list_all wf_tok ts"
  shows "cbor_decode_scan_req Z (toks_bytes ts) = cbor_decode_scan_req zref_dec (toks_bytes ts)"
proof -
  have "dsim R (zcbor_cast Z_scan_req (decode_scan_req Z)) (zcbor_cast Z_scan_req (decode_scan_req zref_dec))"
    unfolding decode_list_defs[abs_def] bind_assert by (intro sim_intros)
  from entry[OF this assms] show ?thesis by (simp add: cbor_decode_scan_req_def)
qed

lemma cbor_decode_cred_req_ref:
  assumes "list_all wf_tok ts"
  shows "cbor_decode_cred_req Z (toks_bytes ts) = cbor_decode_cred_req zref_dec (toks_bytes ts)"
proof -
  have "dsim R (zcbor_cast Z_cred_req (decode_cred_req Z)) (zcbor_cast Z_cred_req (decode_cred_req zref_dec))"
    unfolding decode_list_defs[abs_def] bind_assert by (intro sim_intros)
  from entry[OF this assms] show ?thesis by (simp add: cbor_decode_cred_req_def)
qed

lemma cbor_decode_ctrl_req_ref:
  assumes "list_all wf_tok ts"
  shows "cbor_decode_ctrl_req Z (toks_bytes ts) = cbor_decode_ctrl_req zref_dec (toks_bytes ts)"
proof -
  have "dsim R (zcbor_cast Z_ctrl_req (decode_ctrl_req Z)) (zcbor_cast Z_ctrl_req (decode_ctrl_req zref_dec))"
    unfolding decode_list_defs[abs_def] bind_assert by (intro sim_intros)
  from entry[OF this assms] show ?thesis by (simp add: cbor_decode_ctrl_req_def)
qed

end

end
