(* ===== verification/Codec_Spec.thy ===== *)
theory Codec_Spec
  imports Prov_Decode
begin

text \<open>
  The wire format of the messages as token sequences, transcribed from \<^verbatim>\<open>cddl/prov.cddl\<close>:
  for each message \<open>m\<close> the tokens \<open>m_toks\<close> and the size and range constraints \<open>m_ok\<close>. Theory
  \<open>Codec_Enc\<close> shows that the generated encoders write exactly these tokens, theory \<open>Codec_Dec\<close>
  that the generated request decoders accept exactly these tokens.
\<close>

subsection \<open>Messages as tokens\<close>

definition opt_toks :: "string \<Rightarrow> ('a \<Rightarrow> tok) \<Rightarrow> 'a option \<Rightarrow> tok list" where
  "opt_toks k f v = (case v of None \<Rightarrow> [] | Some x \<Rightarrow> [T_tstr (str_bytes k), f x])"

definition present :: "'a option \<Rightarrow> nat" where
  "present v = (case v of None \<Rightarrow> 0 | Some _ \<Rightarrow> 1)"

definition u32_tok :: "u32 \<Rightarrow> tok" where
  "u32_tok x = T_uint (unat x)"

fun auth_req_toks :: "auth_req_r \<Rightarrow> tok list" where
  "auth_req_toks (auth_req_auth_challenge_m n) = [T_list 2, T_uint 0, T_bstr n]"
| "auth_req_toks (auth_req_auth_proof_m p) = [T_list 2, T_uint 1, T_bstr p]"

fun auth_req_ok :: "auth_req_r \<Rightarrow> bool" where
  "auth_req_ok (auth_req_auth_challenge_m n) = (length n = 16)"
| "auth_req_ok (auth_req_auth_proof_m p) = (length p = 32)"

definition wifi_config_toks :: "wifi_config \<Rightarrow> tok list" where
  "wifi_config_toks c =
     T_map (1 + present (wifi_config_pass c) + present (wifi_config_bssid c) + present (wifi_config_ch c))
     # [T_tstr (str_bytes ''ssid''), T_bstr (wifi_config_ssid c)]
     @ opt_toks ''pass'' T_bstr (wifi_config_pass c)
     @ opt_toks ''bssid'' T_bstr (wifi_config_bssid c)
     @ opt_toks ''ch'' u32_tok (wifi_config_ch c)"

definition wifi_config_ok :: "wifi_config \<Rightarrow> bool" where
  "wifi_config_ok c \<longleftrightarrow> 1 \<le> length (wifi_config_ssid c) \<and> length (wifi_config_ssid c) \<le> 32
     \<and> (case wifi_config_pass c of None \<Rightarrow> True | Some p \<Rightarrow> length p \<le> 64)
     \<and> (case wifi_config_bssid c of None \<Rightarrow> True | Some b \<Rightarrow> length b = 6)"

fun config_req_toks :: "config_req_r \<Rightarrow> tok list" where
  "config_req_toks config_req_config_get_status_m = [T_list 1, T_uint 0]"
| "config_req_toks (config_req_config_set_m c) = T_list 2 # T_uint 1 # wifi_config_toks c"
| "config_req_toks config_req_config_apply_m = [T_list 1, T_uint 2]"

fun config_req_ok :: "config_req_r \<Rightarrow> bool" where
  "config_req_ok (config_req_config_set_m c) = wifi_config_ok c"
| "config_req_ok _ = True"

definition scan_params_toks :: "scan_params \<Rightarrow> tok list" where
  "scan_params_toks p =
     T_map (present (scan_params_passive p) + present (scan_params_period_ms p))
     # opt_toks ''passive'' T_bool (scan_params_passive p)
     @ opt_toks ''period-ms'' u32_tok (scan_params_period_ms p)"

fun scan_req_toks :: "scan_req_r \<Rightarrow> tok list" where
  "scan_req_toks (scan_req_scan_start_m p) = T_list 2 # T_uint 0 # scan_params_toks p"
| "scan_req_toks scan_req_scan_get_status_m = [T_list 1, T_uint 1]"
| "scan_req_toks (scan_req_scan_get_results_m a b) = [T_list 3, T_uint 2, u32_tok a, u32_tok b]"

fun ctrl_req_toks :: "ctrl_req_r \<Rightarrow> tok list" where
  "ctrl_req_toks ctrl_req_ctrl_reset_m = [T_list 1, T_uint 0]"
| "ctrl_req_toks ctrl_req_ctrl_reprovision_m = [T_list 1, T_uint 1]"
| "ctrl_req_toks ctrl_req_ctrl_end_m = [T_list 1, T_uint 2]"

definition cred_chunk_toks :: "cred_chunk \<Rightarrow> tok list" where
  "cred_chunk_toks c =
     [T_map 4, T_tstr (str_bytes ''kind''), T_uint (cred_chunk_kind c),
      T_tstr (str_bytes ''off''), u32_tok (cred_chunk_off c),
      T_tstr (str_bytes ''total''), u32_tok (cred_chunk_total c),
      T_tstr (str_bytes ''data''), T_bstr (cred_chunk_data c)]"

fun cred_req_toks :: "cred_req_r \<Rightarrow> tok list" where
  "cred_req_toks (cred_req_cred_write_m c) = T_list 2 # T_uint 0 # cred_chunk_toks c"
| "cred_req_toks cred_req_cred_finalize_m = [T_list 1, T_uint 1]"
| "cred_req_toks cred_req_cred_get_status_m = [T_list 1, T_uint 2]"

fun cred_req_ok :: "cred_req_r \<Rightarrow> bool" where
  "cred_req_ok (cred_req_cred_write_m c) \<longleftrightarrow>
     cred_chunk_kind c \<le> 2 \<and> length (cred_chunk_data c) < 18446744073709551616"
| "cred_req_ok _ = True"

definition status_ok :: "u32 \<Rightarrow> bool" where
  "status_ok st \<longleftrightarrow> st \<le> 6"

definition ver_info_toks :: "ver_info \<Rightarrow> tok list" where
  "ver_info_toks v =
     T_map (4 + present (ver_info_pop v))
     # [T_tstr (str_bytes ''proto''), u32_tok (ver_info_proto v),
        T_tstr (str_bytes ''caps''), T_list (length (ver_info_caps_tstr v))]
     @ map T_tstr (ver_info_caps_tstr v)
     @ [T_tstr (str_bytes ''blk''), u32_tok (ver_info_blk v),
        T_tstr (str_bytes ''lib''), T_tstr (ver_info_lib v)]
     @ opt_toks ''pop'' T_bool (ver_info_pop v)"

definition ver_rsp_toks :: "ver_rsp \<Rightarrow> tok list" where
  "ver_rsp_toks v = T_list 3 # T_uint 0 # u32_tok (ver_rsp_prov_status_m v)
     # ver_info_toks (ver_rsp_ver_info_m v)"

definition ver_rsp_ok :: "ver_rsp \<Rightarrow> bool" where
  "ver_rsp_ok v \<longleftrightarrow> status_ok (ver_rsp_prov_status_m v)
     \<and> length (ver_info_caps_tstr (ver_rsp_ver_info_m v)) \<le> 8"

fun auth_rsp_toks :: "auth_rsp_r \<Rightarrow> tok list" where
  "auth_rsp_toks (auth_rsp_auth_challenge_rsp_m st n p) =
     [T_list 4, T_uint 0, u32_tok st, T_bstr n, T_bstr p]"
| "auth_rsp_toks (auth_rsp_auth_proof_rsp_m st) = [T_list 2, T_uint 1, u32_tok st]"

fun auth_rsp_ok :: "auth_rsp_r \<Rightarrow> bool" where
  "auth_rsp_ok (auth_rsp_auth_challenge_rsp_m st n p) \<longleftrightarrow> status_ok st \<and> length n = 16 \<and> length p = 32"
| "auth_rsp_ok (auth_rsp_auth_proof_rsp_m st) \<longleftrightarrow> status_ok st"

definition connected_info_toks :: "connected_info \<Rightarrow> tok list" where
  "connected_info_toks i =
     T_map (2 + present (connected_info_rssi i))
     # [T_tstr (str_bytes ''ip4''), T_bstr (connected_info_ip4 i),
        T_tstr (str_bytes ''ssid''), T_bstr (connected_info_ssid i)]
     @ opt_toks ''rssi'' int_tok (connected_info_rssi i)"

fun config_detail_toks :: "config_detail_r \<Rightarrow> tok list" where
  "config_detail_toks (config_detail_fail_reason_m c) = [u32_tok c]"
| "config_detail_toks (config_detail_connected_info_m i) = connected_info_toks i"

fun config_detail_ok :: "config_detail_r \<Rightarrow> bool" where
  "config_detail_ok (config_detail_fail_reason_m c) \<longleftrightarrow> c \<le> 1"
| "config_detail_ok (config_detail_connected_info_m i) \<longleftrightarrow> length (connected_info_ip4 i) = 4
     \<and> 1 \<le> length (connected_info_ssid i) \<and> length (connected_info_ssid i) \<le> 32"

fun config_rsp_toks :: "config_rsp_r \<Rightarrow> tok list" where
  "config_rsp_toks (config_rsp_config_status_rsp_m s) =
     [T_list (3 + present (config_status_rsp_config_detail_m s)), T_uint 0,
      u32_tok (config_status_rsp_prov_status_m s), u32_tok (config_status_rsp_sta_state_m s)]
     @ (case config_status_rsp_config_detail_m s of None \<Rightarrow> [] | Some d \<Rightarrow> config_detail_toks d)"
| "config_rsp_toks (config_rsp_config_set_rsp_m st) = [T_list 2, T_uint 1, u32_tok st]"
| "config_rsp_toks (config_rsp_config_apply_rsp_m st) = [T_list 2, T_uint 2, u32_tok st]"

fun config_rsp_ok :: "config_rsp_r \<Rightarrow> bool" where
  "config_rsp_ok (config_rsp_config_status_rsp_m s) \<longleftrightarrow>
     status_ok (config_status_rsp_prov_status_m s) \<and> config_status_rsp_sta_state_m s \<le> 3
     \<and> (case config_status_rsp_config_detail_m s of None \<Rightarrow> True | Some d \<Rightarrow> config_detail_ok d)"
| "config_rsp_ok (config_rsp_config_set_rsp_m st) \<longleftrightarrow> status_ok st"
| "config_rsp_ok (config_rsp_config_apply_rsp_m st) \<longleftrightarrow> status_ok st"

definition scan_entry_toks :: "scan_entry \<Rightarrow> tok list" where
  "scan_entry_toks v =
     [T_map 5, T_tstr (str_bytes ''ssid''), T_bstr (scan_entry_ssid v),
      T_tstr (str_bytes ''bssid''), T_bstr (scan_entry_bssid v),
      T_tstr (str_bytes ''ch''), u32_tok (scan_entry_ch v),
      T_tstr (str_bytes ''rssi''), int_tok (scan_entry_rssi v),
      T_tstr (str_bytes ''auth''), u32_tok (scan_entry_auth v)]"

definition scan_entry_ok :: "scan_entry \<Rightarrow> bool" where
  "scan_entry_ok v \<longleftrightarrow> length (scan_entry_ssid v) \<le> 32 \<and> length (scan_entry_bssid v) = 6"

fun scan_rsp_toks :: "scan_rsp_r \<Rightarrow> tok list" where
  "scan_rsp_toks (scan_rsp_scan_start_rsp_m st) = [T_list 2, T_uint 0, u32_tok st]"
| "scan_rsp_toks (scan_rsp_scan_status_rsp_m st fin n) =
     [T_list 4, T_uint 1, u32_tok st, T_bool fin, u32_tok n]"
| "scan_rsp_toks (scan_rsp_scan_results_rsp_m st es) =
     [T_list 3, T_uint 2, u32_tok st, T_list (length es)] @ concat (map scan_entry_toks es)"

fun scan_rsp_ok :: "scan_rsp_r \<Rightarrow> bool" where
  "scan_rsp_ok (scan_rsp_scan_start_rsp_m st) \<longleftrightarrow> status_ok st"
| "scan_rsp_ok (scan_rsp_scan_status_rsp_m st fin n) \<longleftrightarrow> status_ok st"
| "scan_rsp_ok (scan_rsp_scan_results_rsp_m st es) \<longleftrightarrow>
     status_ok st \<and> length es \<le> 8 \<and> list_all scan_entry_ok es"

definition map_tstruint_toks :: "map_tstruint \<Rightarrow> tok list" where
  "map_tstruint_toks v = [T_tstr (cred_status_rsp_map_tstruint_key v), u32_tok (map_tstruint v)]"

fun cred_rsp_toks :: "cred_rsp_r \<Rightarrow> tok list" where
  "cred_rsp_toks (cred_rsp_cred_write_rsp_m st n) = [T_list 3, T_uint 0, u32_tok st, u32_tok n]"
| "cred_rsp_toks (cred_rsp_cred_finalize_rsp_m st) = [T_list 2, T_uint 1, u32_tok st]"
| "cred_rsp_toks (cred_rsp_cred_status_rsp_m st kvs) =
     [T_list 3, T_uint 2, u32_tok st, T_map (length kvs)] @ concat (map map_tstruint_toks kvs)"

fun cred_rsp_ok :: "cred_rsp_r \<Rightarrow> bool" where
  "cred_rsp_ok (cred_rsp_cred_write_rsp_m st n) \<longleftrightarrow> status_ok st"
| "cred_rsp_ok (cred_rsp_cred_finalize_rsp_m st) \<longleftrightarrow> status_ok st"
| "cred_rsp_ok (cred_rsp_cred_status_rsp_m st kvs) \<longleftrightarrow> status_ok st \<and> length kvs \<le> 8"

definition ctrl_rsp_toks :: "ctrl_rsp \<Rightarrow> tok list" where
  "ctrl_rsp_toks v = [T_list 2, u32_tok (ctrl_rsp_ctrl_op_m v), u32_tok (ctrl_rsp_prov_status_m v)]"

definition ctrl_rsp_ok :: "ctrl_rsp \<Rightarrow> bool" where
  "ctrl_rsp_ok v \<longleftrightarrow> ctrl_rsp_ctrl_op_m v \<le> 2 \<and> status_ok (ctrl_rsp_prov_status_m v)"

lemmas toks_defs =
  opt_toks_def present_def wifi_config_toks_def scan_params_toks_def cred_chunk_toks_def
  ver_info_toks_def ver_rsp_toks_def connected_info_toks_def scan_entry_toks_def
  map_tstruint_toks_def ctrl_rsp_toks_def

lemma u32_tok_num [simp]:
  "u32_tok 0 = T_uint 0" "u32_tok 1 = T_uint 1" "u32_tok 2 = T_uint 2"
  by (simp_all add: u32_tok_def)

text \<open>What an encoder with \<open>len\<close> bytes of buffer makes of a token sequence.\<close>

definition emit_toks :: "nat \<Rightarrow> tok list \<Rightarrow> bytes option" where
  "emit_toks len ts = (if length (toks_bytes ts) \<le> len then Some (toks_bytes ts) else None)"

end
