(* ===== verification/Codec_Enc.thy ===== *)
theory Codec_Enc
  imports Codec_Spec
begin

text \<open>
  The generated encoders write the tokens of \<open>Codec_Spec\<close>. A step of the reference encoder is
  described by the open containers before and after and by the bytes it takes (\<open>runs\<close>); each
  encoder function is run symbolically through the rules \<open>runs_intros\<close>, which also shows that the
  number of backup states each \<^verbatim>\<open>cbor_encode_*\<close> declares is enough for its nesting.
\<close>

subsection \<open>Running the reference encoder\<close>

text \<open>
  \<open>runs f p q n\<close>: from the open containers and backups \<open>p\<close> the encoder step \<open>f\<close> goes to \<open>q\<close>,
  taking \<open>n\<close> bytes of the buffer, and fails exactly when fewer are left.
\<close>

definition runs :: "(est \<Rightarrow> est option) \<Rightarrow> (tok list \<times> nat) list \<times> nat \<Rightarrow>
    (tok list \<times> nat) list \<times> nat \<Rightarrow> nat \<Rightarrow> bool" where
  "runs f p q n \<longleftrightarrow> (\<forall>r. f \<lparr>frames = fst p, room = r, ebaks = snd p\<rparr> =
     (if n \<le> r then Some \<lparr>frames = fst q, room = r - n, ebaks = snd q\<rparr> else None))"

lemma runs_bind:
  "runs f p q n \<Longrightarrow> runs g q t m \<Longrightarrow> runs (\<lambda>e. f e \<bind> g) p t (n + m)"
  by (auto simp: runs_def)

lemma runs_Some: "runs Some p p 0"
  by (simp add: runs_def)

lemma runs_emit:
  "runs (ref_emit t) ((us, m) # fs, b) ((us @ [t], Suc m) # fs, b) (length (tok_bytes t))"
  by (simp add: runs_def ref_emit_def)

lemma runs_open:
  "mx < 24 \<Longrightarrow> 0 < b \<Longrightarrow> runs (ref_open k mx) (fs, b) (([], 0) # fs, b - 1) 1"
  by (simp add: runs_def ref_open_def length_cbor_head)

lemma runs_close:
  "mx < 24 \<Longrightarrow> c n \<le> mx \<Longrightarrow>
   runs (ref_close k c h mx) ((ts, n) # (us, m) # fs, b) ((us @ h (c n) # ts, Suc m) # fs, Suc b) 0"
  by (simp add: runs_def ref_close_def length_cbor_head)

lemma runs_seq:
  assumes "\<And>x us m. x \<in> set xs \<Longrightarrow>
    runs (f x) ((us, m) # fs, b) ((us @ ts x, m + k) # fs, b) (length (toks_bytes (ts x)))"
  shows "runs (ref_seq (map f xs)) ((us, m) # fs, b) ((us @ concat (map ts xs), m + k * length xs) # fs, b)
     (length (toks_bytes (concat (map ts xs))))"
  using assms
proof (induction xs arbitrary: us m)
  case Nil
  then show ?case by (simp add: runs_def)
next
  case (Cons x xs)
  have "runs (\<lambda>e. f x e \<bind> ref_seq (map f xs)) ((us, m) # fs, b)
      (((us @ ts x) @ concat (map ts xs), (m + k) + k * length xs) # fs, b)
      (length (toks_bytes (ts x)) + length (toks_bytes (concat (map ts xs))))"
    using Cons.prems by (intro runs_bind[OF _ Cons.IH]) auto
  then show ?case by (simp add: runs_def algebra_simps)
qed

lemma runs_multi:
  assumes "length xs \<le> hi" and "\<And>x us m. x \<in> set xs \<Longrightarrow>
    runs (f x) ((us, m) # fs, b) ((us @ ts x, m + k) # fs, b) (length (toks_bytes (ts x)))"
  shows "runs (ref_multi 0 hi (map f xs)) ((us, m) # fs, b)
     ((us @ concat (map ts xs), m + k * length xs) # fs, b) (length (toks_bytes (concat (map ts xs))))"
  using runs_seq[where f=f and ts=ts and xs=xs, OF assms(2)] assms(1)
  by (simp add: runs_def ref_multi_def)

lemma runs_entry:
  assumes "runs f ([([], 0)], n - 2) q m" and "map fst (fst q) = [ts]" and "m = length (toks_bytes ts)"
  shows "ref_entry_enc f len n k' = emit_toks len ts"
  using assms by (auto simp: runs_def ref_entry_enc_def emit_toks_def)

lemma runs_cong: "runs f p q n \<Longrightarrow> q = q' \<Longrightarrow> n = n' \<Longrightarrow> runs f p q' n'"
  by simp

lemmas runs_intros = runs_bind runs_emit runs_open runs_close runs_Some

subsection \<open>Every encoder writes the tokens of its message\<close>

lemma zref_enc_simps:
  "zcbor_uint32_put zref_enc x = ref_emit (u32_tok x)"
  "zcbor_uint32_encode zref_enc x = ref_emit (u32_tok x)"
  "zcbor_int32_encode zref_enc x = ref_emit (int_tok x)"
  "zcbor_bool_encode zref_enc b = ref_emit (T_bool b)"
  "zcbor_bstr_encode zref_enc bs = ref_emit (T_bstr bs)"
  "zcbor_tstr_encode zref_enc bs = ref_emit (T_tstr bs)"
  "zcbor_list_start_encode zref_enc n = ref_open 4 n"
  "zcbor_list_end_encode zref_enc n = ref_close 4 (\<lambda>n. n) T_list n"
  "zcbor_map_start_encode zref_enc n = ref_open 5 n"
  "zcbor_map_end_encode zref_enc n = ref_close 5 (\<lambda>n. n div 2) T_map n"
  "zcbor_multi_encode_minmax zref_enc = ref_multi"
  "zcbor_entry_encode zref_enc = ref_entry_enc"
  by (simp_all add: zref_enc_def u32_tok_def)

lemma u32_le_6: "(x :: u32) \<le> 6 \<Longrightarrow> x = 0 \<or> x = 1 \<or> x = 2 \<or> x = 3 \<or> x = 4 \<or> x = 5 \<or> x = 6"
proof -
  assume "x \<le> 6"
  then have "unat x \<le> 6" by (simp add: word_le_nat_alt)
  then have "unat x \<in> {0, 1, 2, 3, 4, 5, 6}" by auto
  then show ?thesis by (auto simp: word_unat_eq_iff)
qed

lemma encode_prov_status_ref: "status_ok st \<Longrightarrow> encode_prov_status zref_enc st = ref_emit (u32_tok st)"
  by (auto simp: status_ok_def encode_prov_status_def fun_eq_iff zref_enc_simps dest: u32_le_6)

lemma encode_sta_state_ref: "x \<le> 3 \<Longrightarrow> encode_sta_state zref_enc x = ref_emit (u32_tok x)"
proof -
  assume a: "x \<le> 3"
  then have "x \<le> 6" by (simp add: word_le_nat_alt)
  from u32_le_6[OF this] a show ?thesis
    by (auto simp: encode_sta_state_def fun_eq_iff zref_enc_simps)
qed

lemma encode_fail_reason_ref: "x \<le> 1 \<Longrightarrow> encode_fail_reason zref_enc x = ref_emit (u32_tok x)"
proof -
  assume a: "x \<le> 1"
  then have "x \<le> 6" by (simp add: word_le_nat_alt)
  from u32_le_6[OF this] a show ?thesis
    by (auto simp: encode_fail_reason_def fun_eq_iff zref_enc_simps word_le_nat_alt)
qed

lemma encode_cred_kind_ref: "k \<le> 2 \<Longrightarrow> encode_cred_kind zref_enc k = ref_emit (T_uint k)"
proof -
  assume "k \<le> 2"
  then have "k = 0 \<or> k = 1 \<or> k = 2" by auto
  then show ?thesis by (auto simp: encode_cred_kind_def fun_eq_iff zref_enc_simps)
qed

lemma runs_wifi_config:
  assumes "wifi_config_ok c" and "0 < b"
  shows "runs (encode_wifi_config zref_enc c) ((us, m) # fs, b) ((us @ wifi_config_toks c, Suc m) # fs, b)
     (length (toks_bytes (wifi_config_toks c)))"
  by (insert assms, cases "wifi_config_pass c"; cases "wifi_config_bssid c"; cases "wifi_config_ch c"; 
    (rule runs_cong, simp add: encode_wifi_config_def[abs_def] encode_repeated_wifi_config_pass_def 
       encode_repeated_wifi_config_bssid_def encode_repeated_wifi_config_ch_def wifi_config_ok_def
       zref_enc_simps bind_assoc, 
     (rule runs_intros | simp add: toks_defs length_cbor_head)+))

lemma runs_scan_params:
  assumes "0 < b"
  shows "runs (encode_scan_params zref_enc c) ((us, m) # fs, b) ((us @ scan_params_toks c, Suc m) # fs, b)
     (length (toks_bytes (scan_params_toks c)))"
  by (insert assms, cases "scan_params_passive c"; cases "scan_params_period_ms c";
    (rule runs_cong, simp add: encode_scan_params_def[abs_def] encode_repeated_scan_params_passive_def 
       encode_repeated_scan_params_period_ms_def zref_enc_simps bind_assoc, 
     (rule runs_intros | simp add: toks_defs length_cbor_head)+))

lemma runs_cred_chunk:
  assumes "cred_chunk_kind c \<le> 2" and "0 < b"
  shows "runs (encode_cred_chunk zref_enc c) ((us, m) # fs, b) ((us @ cred_chunk_toks c, Suc m) # fs, b)
     (length (toks_bytes (cred_chunk_toks c)))"
  by (insert assms, rule runs_cong, simp add: encode_cred_chunk_def[abs_def] encode_cred_kind_ref zref_enc_simps,
     (rule runs_intros | simp add: toks_defs length_cbor_head)+)

lemma runs_connected_info:
  assumes "config_detail_ok (config_detail_connected_info_m c)" and "0 < b"
  shows "runs (encode_connected_info zref_enc c) ((us, m) # fs, b) ((us @ connected_info_toks c, Suc m) # fs, b)
     (length (toks_bytes (connected_info_toks c)))"
  by (insert assms, cases "connected_info_rssi c"; (rule runs_cong, 
     simp add: encode_connected_info_def[abs_def] encode_repeated_connected_info_rssi_def zref_enc_simps bind_assoc,
     (rule runs_intros | simp add: toks_defs length_cbor_head)+))

lemma runs_config_detail:
  assumes "config_detail_ok d" and "0 < b"
  shows "runs (encode_config_detail zref_enc d) ((us, m) # fs, b) ((us @ config_detail_toks d, Suc m) # fs, b)
     (length (toks_bytes (config_detail_toks d)))"
  by (insert assms, cases d; (rule runs_cong, 
     simp add: encode_config_detail_def[abs_def] encode_fail_reason_ref,
     (rule runs_intros runs_connected_info | simp)+))

lemma runs_scan_entry:
  assumes "scan_entry_ok c" and "0 < b"
  shows "runs (encode_scan_entry zref_enc c) ((us, m) # fs, b) ((us @ scan_entry_toks c, Suc m) # fs, b)
     (length (toks_bytes (scan_entry_toks c)))"
  by (insert assms, rule runs_cong, simp add: encode_scan_entry_def[abs_def] scan_entry_ok_def zref_enc_simps,
     (rule runs_intros | simp add: toks_defs length_cbor_head)+)

lemma runs_map_tstruint:
  shows "runs (encode_repeated_map_tstruint zref_enc c) ((us, m) # fs, b) ((us @ map_tstruint_toks c, m + 2) # fs, b)
     (length (toks_bytes (map_tstruint_toks c)))"
  by (rule runs_cong, simp add: encode_repeated_map_tstruint_def[abs_def] zref_enc_simps,
     (rule runs_intros | simp add: toks_defs length_cbor_head)+)

lemma runs_caps:
  assumes "length xs \<le> 8"
  shows "runs (ref_multi 0 8 (map (zcbor_tstr_encode zref_enc) xs)) ((us, m) # fs, b)
     ((us @ map T_tstr xs, m + length xs) # fs, b) (length (toks_bytes (map T_tstr xs)))"
proof -
  have "concat (map (\<lambda>b. [T_tstr b]) xs) = map T_tstr xs" by (induction xs) auto
  moreover have "runs (zcbor_tstr_encode zref_enc x) ((us, m) # fs, b) ((us @ [T_tstr x], m + 1) # fs, b)
      (length (toks_bytes [T_tstr x]))" for x us m
    using runs_emit[of "T_tstr x"] by (simp add: zref_enc_simps)
  ultimately show ?thesis
    using runs_multi[OF assms, of "zcbor_tstr_encode zref_enc" fs b "\<lambda>b. [T_tstr b]" 1 us m] by simp
qed

lemma runs_entries:
  assumes "length es \<le> 8" and "list_all scan_entry_ok es" and "0 < b"
  shows "runs (ref_multi 0 8 (map (encode_scan_entry zref_enc) es)) ((us, m) # fs, b)
     ((us @ concat (map scan_entry_toks es), m + length es) # fs, b)
     (length (toks_bytes (concat (map scan_entry_toks es))))"
  using runs_multi[OF assms(1), of "encode_scan_entry zref_enc" fs b scan_entry_toks 1 us m]
    runs_scan_entry assms by (simp add: list_all_iff)

lemma runs_kvs:
  assumes "length es \<le> 8"
  shows "runs (ref_multi 0 8 (map (encode_repeated_map_tstruint zref_enc) es)) ((us, m) # fs, b)
     ((us @ concat (map map_tstruint_toks es), m + 2 * length es) # fs, b)
     (length (toks_bytes (concat (map map_tstruint_toks es))))"
  using runs_multi[OF assms(1), of "encode_repeated_map_tstruint zref_enc" fs b map_tstruint_toks 2 us m]
    runs_map_tstruint by simp

lemma runs_ver_info:
  assumes "length (ver_info_caps_tstr c) \<le> 8" and "1 < b"
  shows "runs (encode_ver_info zref_enc c) ((us, m) # fs, b) ((us @ ver_info_toks c, Suc m) # fs, b)
     (length (toks_bytes (ver_info_toks c)))"
  by (insert assms, cases "ver_info_pop c"; (rule runs_cong, 
     simp add: encode_ver_info_def[abs_def] encode_repeated_ver_info_pop_def zref_enc_simps bind_assoc,
     (rule runs_intros runs_caps | simp add: toks_defs length_cbor_head)+))

lemma enc_ver_req: "cbor_encode_ver_req zref_enc len = emit_toks len [T_list 1, T_uint 0]"
  unfolding cbor_encode_ver_req_def zref_enc_simps
  by (rule runs_entry, simp add: encode_ver_req_def[abs_def] zref_enc_simps,
     (rule runs_intros | simp add: length_cbor_head)+)

lemma enc_ver_rsp: "ver_rsp_ok v \<Longrightarrow> cbor_encode_ver_rsp zref_enc len v = emit_toks len (ver_rsp_toks v)"
  unfolding cbor_encode_ver_rsp_def zref_enc_simps
  by (rule runs_entry, simp add: encode_ver_rsp_def[abs_def] zref_enc_simps encode_prov_status_ref ver_rsp_ok_def,
     (rule runs_intros runs_ver_info | simp add: length_cbor_head ver_rsp_toks_def)+)

lemma enc_ctrl_rsp: "ctrl_rsp_ok v \<Longrightarrow> cbor_encode_ctrl_rsp zref_enc len v = emit_toks len (ctrl_rsp_toks v)"
  unfolding cbor_encode_ctrl_rsp_def zref_enc_simps
  by (rule runs_entry, simp add: encode_ctrl_rsp_def[abs_def] zref_enc_simps encode_prov_status_ref ctrl_rsp_ok_def,
     (rule runs_intros | simp add: length_cbor_head ctrl_rsp_toks_def)+)

lemma enc_auth_req: "auth_req_ok v \<Longrightarrow> cbor_encode_auth_req zref_enc len v = emit_toks len (auth_req_toks v)"
  unfolding cbor_encode_auth_req_def zref_enc_simps
  by (cases v; (rule runs_entry, simp add: encode_auth_req_def[abs_def] encode_auth_challenge_def[abs_def] encode_auth_proof_def[abs_def]
      zref_enc_simps ,
    (rule runs_intros  | simp add: length_cbor_head)+))

lemma enc_auth_rsp: "auth_rsp_ok v \<Longrightarrow> cbor_encode_auth_rsp zref_enc len v = emit_toks len (auth_rsp_toks v)"
  unfolding cbor_encode_auth_rsp_def zref_enc_simps
  by (cases v; (rule runs_entry, simp add: encode_auth_rsp_def[abs_def] encode_auth_challenge_rsp_def[abs_def] encode_auth_proof_rsp_def[abs_def]
      zref_enc_simps encode_prov_status_ref,
    (rule runs_intros  | simp add: length_cbor_head)+))

lemma enc_config_req: "config_req_ok v \<Longrightarrow> cbor_encode_config_req zref_enc len v = emit_toks len (config_req_toks v)"
  unfolding cbor_encode_config_req_def zref_enc_simps
  by (cases v; (rule runs_entry, simp add: encode_config_req_def[abs_def] encode_config_get_status_def[abs_def] encode_config_set_def[abs_def] encode_config_apply_def[abs_def]
      zref_enc_simps ,
    (rule runs_intros runs_wifi_config | simp add: length_cbor_head)+))

lemma enc_scan_req: "cbor_encode_scan_req zref_enc len v = emit_toks len (scan_req_toks v)"
  unfolding cbor_encode_scan_req_def zref_enc_simps
  by (cases v; (rule runs_entry, simp add: encode_scan_req_def[abs_def] encode_scan_start_def[abs_def] encode_scan_get_status_def[abs_def] encode_scan_get_results_def[abs_def]
      zref_enc_simps ,
    (rule runs_intros runs_scan_params | simp add: length_cbor_head)+))

lemma enc_scan_rsp: "scan_rsp_ok v \<Longrightarrow> cbor_encode_scan_rsp zref_enc len v = emit_toks len (scan_rsp_toks v)"
  unfolding cbor_encode_scan_rsp_def zref_enc_simps
  by (cases v; (rule runs_entry, simp add: encode_scan_rsp_def[abs_def] encode_scan_start_rsp_def[abs_def] encode_scan_status_rsp_def[abs_def] encode_scan_results_rsp_def[abs_def]
      zref_enc_simps encode_prov_status_ref,
    (rule runs_intros runs_entries | simp add: length_cbor_head)+))

lemma enc_cred_req: "cred_req_ok v \<Longrightarrow> cbor_encode_cred_req zref_enc len v = emit_toks len (cred_req_toks v)"
  unfolding cbor_encode_cred_req_def zref_enc_simps
  by (cases v; (rule runs_entry, simp add: encode_cred_req_def[abs_def] encode_cred_write_def[abs_def] encode_cred_finalize_def[abs_def] encode_cred_get_status_def[abs_def]
      zref_enc_simps ,
    (rule runs_intros runs_cred_chunk | simp add: length_cbor_head)+))

lemma enc_cred_rsp: "cred_rsp_ok v \<Longrightarrow> cbor_encode_cred_rsp zref_enc len v = emit_toks len (cred_rsp_toks v)"
  unfolding cbor_encode_cred_rsp_def zref_enc_simps
  by (cases v; (rule runs_entry, simp add: encode_cred_rsp_def[abs_def] encode_cred_write_rsp_def[abs_def] encode_cred_finalize_rsp_def[abs_def] encode_cred_status_rsp_def[abs_def]
      zref_enc_simps encode_prov_status_ref,
    (rule runs_intros runs_kvs | simp add: length_cbor_head)+))

lemma enc_ctrl_req: "cbor_encode_ctrl_req zref_enc len v = emit_toks len (ctrl_req_toks v)"
  unfolding cbor_encode_ctrl_req_def zref_enc_simps
  by (cases v; (rule runs_entry, simp add: encode_ctrl_req_def[abs_def] encode_ctrl_reset_def[abs_def] encode_ctrl_reprovision_def[abs_def] encode_ctrl_end_def[abs_def]
      zref_enc_simps ,
    (rule runs_intros  | simp add: length_cbor_head)+))

lemma runs_config_status_rsp:
  assumes "config_rsp_ok (config_rsp_config_status_rsp_m s)" and "1 < b"
  shows "runs (encode_config_status_rsp zref_enc s) ((us, m) # fs, b)
     ((us @ config_rsp_toks (config_rsp_config_status_rsp_m s), Suc m) # fs, b)
     (length (toks_bytes (config_rsp_toks (config_rsp_config_status_rsp_m s))))"
  by (insert assms, cases "config_status_rsp_config_detail_m s"; (rule runs_cong,
      simp add: encode_config_status_rsp_def[abs_def] zref_enc_simps encode_prov_status_ref encode_sta_state_ref,
      (rule runs_intros runs_config_detail | simp add: length_cbor_head toks_defs)+))

lemma enc_config_rsp: "config_rsp_ok v \<Longrightarrow> cbor_encode_config_rsp zref_enc len v = emit_toks len (config_rsp_toks v)"
  unfolding cbor_encode_config_rsp_def zref_enc_simps
  by (cases v; (rule runs_entry, simp add: encode_config_rsp_def[abs_def] encode_config_set_rsp_def[abs_def] encode_config_apply_rsp_def[abs_def]
      zref_enc_simps encode_prov_status_ref,
    (rule runs_intros runs_config_status_rsp | simp add: length_cbor_head)+))
end
