(* ===== verification/Codec_Dec.thy ===== *)
theory Codec_Dec
  imports Codec_Spec
begin

text \<open>
  The generated request decoders accept exactly the tokens of \<open>Codec_Spec\<close>: a decoder returns
  \<open>v\<close> if and only if the input starts with the canonical encoding of \<open>v\<close> and \<open>v\<close> meets the size
  constraints. Every library call of the reference decoder has an \<open>iff\<close> rule; the decoders are
  inverted through \<open>parse_binds\<close> and run forwards through \<open>dec_run\<close>.
\<close>

lemma take_iff: "ref_take p s = Some (v, s') \<longleftrightarrow>
   (\<exists>t r. dtoks s = t # r \<and> 0 < cnt s \<and> p t = Some v \<and> s' = s\<lparr>dtoks := r, cnt := cnt s - 1\<rparr>)"
  by (auto simp: ref_take_def split: list.splits option.splits if_splits)

lemma expect_iff: "ref_expect t s = Some s' \<longleftrightarrow>
   (\<exists>r. dtoks s = t # r \<and> 0 < cnt s \<and> s' = s\<lparr>dtoks := r, cnt := cnt s - 1\<rparr>)"
  by (auto simp: ref_expect_def take_iff split: if_splits)

lemma enter_iff: "ref_enter p s = Some s' \<longleftrightarrow> (\<exists>t r n. dtoks s = t # r \<and> 0 < cnt s \<and> 0 < dbaks s \<and> p t = Some n \<and>
   s' = s\<lparr>dtoks := r, cnt := n, saved := ([], cnt s - 1) # saved s, dbaks := dbaks s - 1\<rparr>)"
  by (auto simp: ref_enter_def ref_take_def split: option.splits if_splits prod.splits list.splits)

lemma leave_iff: "ref_leave s = Some s' \<longleftrightarrow>
   (\<exists>ts c sv. saved s = (ts, c) # sv \<and> cnt s = 0 \<and> s' = s\<lparr>cnt := c, saved := sv, dbaks := Suc (dbaks s)\<rparr>)"
  by (auto simp: ref_leave_def split: list.splits option.splits if_splits)

lemma present_iff: "ref_present f s = Some (v, s') \<longleftrightarrow>
   (case v of None \<Rightarrow> f s = None \<and> s' = s | Some x \<Rightarrow> f s = Some (x, s'))"
  by (auto simp: ref_present_def split: option.splits)

lemma cast_iff: "zcbor_cast c f s = Some (v, s') \<longleftrightarrow> (\<exists>x. f s = Some (x, s') \<and> v = c x)"
  by (auto simp: zcbor_cast_def bind_eq_Some_conv)

lemma void_iff: "zcbor_void f s = Some (u, s') \<longleftrightarrow> f s = Some s'"
  by (auto simp: zcbor_void_def bind_eq_Some_conv)

lemma tok_iffs:
  "uint_of_tok b t = Some n \<longleftrightarrow> t = T_uint n \<and> n < b"
  "bool_of_tok t = Some y \<longleftrightarrow> t = T_bool y"
  "bstr_of_tok t = Some bs \<longleftrightarrow> t = T_bstr bs"
  "list_of_tok t = Some n \<longleftrightarrow> t = T_list n"
  "map_of_tok t = Some m \<longleftrightarrow> (\<exists>n. t = T_map n \<and> m = 2 * n)"
  by (auto simp: uint_of_tok_def bool_of_tok_def bstr_of_tok_def list_of_tok_def map_of_tok_def split: tok.splits)

lemma u32_of_tok_iff: "u32_of_tok t = Some x \<longleftrightarrow> t = u32_tok x"
  using unat_lt_u32[of x] by (auto simp: u32_of_tok_def tok_iffs u32_tok_def unat_of_nat_small)

lemma zref_dec_simps:
  "zcbor_uint32_expect zref_dec x = ref_expect (u32_tok x)"
  "zcbor_tstr_expect zref_dec b = ref_expect (T_tstr b)"
  "zcbor_uint_decode zref_dec k = ref_take (uint_of_tok (256 ^ k))"
  "zcbor_uint32_decode zref_dec = ref_take u32_of_tok"
  "zcbor_bool_decode zref_dec = ref_take bool_of_tok"
  "zcbor_int32_decode zref_dec = ref_take int32_of_tok"
  "zcbor_bstr_decode zref_dec = ref_take bstr_of_tok"
  "zcbor_tstr_decode zref_dec = ref_take tstr_of_tok"
  "zcbor_list_start_decode zref_dec = ref_enter list_of_tok"
  "zcbor_list_end_decode zref_dec = ref_leave"
  "zcbor_map_start_decode zref_dec = ref_enter map_of_tok"
  "zcbor_map_end_decode zref_dec = ref_leave"
  "zcbor_present_decode zref_dec = ref_present"
  "zcbor_multi_decode zref_dec = ref_multi_dec"
  "zcbor_union_start_code zref_dec = ref_union_start"
  "zcbor_union_elem_code zref_dec = ref_union_elem"
  "zcbor_union_end_code zref_dec = ref_union_end"
  "zcbor_union_failed zref_dec s = s"
  "zcbor_entry_decode zref_dec f bs = ref_entry_toks f (lex_toks bs)"
  by (simp_all add: zref_dec_def u32_tok_def)

lemma guard_iff: "(if b then x else None) = Some y \<longleftrightarrow> b \<and> x = Some y" by simp

lemmas parse_iffs = guard_iff bind_eq_Some_conv take_iff expect_iff enter_iff leave_iff present_iff cast_iff void_iff
  tok_iffs u32_of_tok_iff zref_dec_simps

definition parses_field :: "string \<Rightarrow> ('a \<Rightarrow> tok) \<Rightarrow> ('a \<Rightarrow> bool) \<Rightarrow> (dst \<Rightarrow> ('a \<times> dst) option) \<Rightarrow> bool" where
  "parses_field k tk P f \<longleftrightarrow> (\<forall>s v s'. f s = Some (v, s') \<longleftrightarrow> 2 \<le> cnt s \<and> P v \<and>
     (\<exists>r. dtoks s = T_tstr (str_bytes k) # tk v # r \<and> s' = s\<lparr>dtoks := r, cnt := cnt s - 2\<rparr>))"

lemma parse_pass: "parses_field ''pass'' T_bstr (\<lambda>v. length v \<le> 64) (decode_repeated_wifi_config_pass zref_dec)"
  by (auto simp: parses_field_def decode_repeated_wifi_config_pass_def parse_iffs)

lemma parse_bssid: "parses_field ''bssid'' T_bstr (\<lambda>v. length v = 6) (decode_repeated_wifi_config_bssid zref_dec)"
  by (auto simp: parses_field_def decode_repeated_wifi_config_bssid_def parse_iffs)

lemma parse_ch: "parses_field ''ch'' u32_tok (\<lambda>v. True) (decode_repeated_wifi_config_ch zref_dec)"
  by (auto simp: parses_field_def decode_repeated_wifi_config_ch_def parse_iffs)

lemma parse_passive: "parses_field ''passive'' T_bool (\<lambda>v. True) (decode_repeated_scan_params_passive zref_dec)"
  by (auto simp: parses_field_def decode_repeated_scan_params_passive_def parse_iffs)

lemma parse_period: "parses_field ''period-ms'' u32_tok (\<lambda>v. True) (decode_repeated_scan_params_period_ms zref_dec)"
  by (auto simp: parses_field_def decode_repeated_scan_params_period_ms_def parse_iffs)

text \<open>An optional member of a map.\<close>

lemma present_field_sound:
  assumes "parses_field k tk P f" and "ref_present (zcbor_cast c f) s = Some (ov, s')"
    and "\<And>x. un (c x) = x"
  shows "\<exists>r. dtoks s = opt_toks k tk (map_option un ov) @ r \<and> 2 * present ov \<le> cnt s
    \<and> (case map_option un ov of None \<Rightarrow> True | Some x \<Rightarrow> P x)
    \<and> s' = s\<lparr>dtoks := r, cnt := cnt s - 2 * present ov\<rparr>"
  using assms by (cases ov) (auto simp: parses_field_def parse_iffs toks_defs)

lemma parse_wifi_config_sound:
  assumes "decode_wifi_config zref_dec s = Some (v, s')"
  shows "0 < dbaks s \<and> 0 < cnt s \<and> wifi_config_ok v \<and> 
    (\<exists>r. dtoks s = wifi_config_toks v @ r \<and> s' = s\<lparr>dtoks := r, cnt := cnt s - 1\<rparr>)"
proof -
  from assms obtain n ssid r0 p b c s1 s2 s3 where 
    s: "dtoks s = T_map n # T_tstr (str_bytes ''ssid'') # T_bstr ssid # r0" "0 < cnt s" "0 < dbaks s" "0 < n"
    and l: "1 \<le> length ssid" "length ssid \<le> 32"
    and p: "ref_present (zcbor_cast Z_str (decode_repeated_wifi_config_pass zref_dec)) 
      (s\<lparr>saved := ([], cnt s - 1) # saved s, dbaks := dbaks s - 1, dtoks := r0, cnt := 2 * n - 2\<rparr>) = Some (p, s1)"
    and b: "ref_present (zcbor_cast Z_str (decode_repeated_wifi_config_bssid zref_dec)) s1 = Some (b, s2)"
    and c: "ref_present (zcbor_cast Z_u32 (decode_repeated_wifi_config_ch zref_dec)) s2 = Some (c, s3)"
    and e: "ref_leave s3 = Some s'"
    and v: "v = \<lparr>wifi_config_ssid = ssid, wifi_config_pass = map_option as_str p,
            wifi_config_bssid = map_option as_str b, wifi_config_ch = map_option as_u32 c\<rparr>"
    unfolding decode_wifi_config_def
    by (clarsimp simp: bind_eq_Some_conv guard_iff zref_dec_simps enter_iff expect_iff take_iff tok_iffs numeral_2_eq_2)
  show ?thesis
    using present_field_sound[OF parse_pass p, of as_str] present_field_sound[OF parse_bssid b, of as_str] 
      present_field_sound[OF parse_ch c, of as_u32] e s l
    by (auto simp: v wifi_config_ok_def leave_iff wifi_config_toks_def present_def split: option.splits)
qed

lemma parse_scan_params_sound:
  assumes "decode_scan_params zref_dec s = Some (v, s')"
  shows "0 < dbaks s \<and> 0 < cnt s \<and> 
    (\<exists>r. dtoks s = scan_params_toks v @ r \<and> s' = s\<lparr>dtoks := r, cnt := cnt s - 1\<rparr>)"
proof -
  from assms obtain n r0 p b s1 s2 where 
    s: "dtoks s = T_map n # r0" "0 < cnt s" "0 < dbaks s"
    and p: "ref_present (zcbor_cast Z_bool (decode_repeated_scan_params_passive zref_dec)) 
      (s\<lparr>dtoks := r0, cnt := 2 * n, saved := ([], cnt s - 1) # saved s, dbaks := dbaks s - 1\<rparr>) = Some (p, s1)"
    and b: "ref_present (zcbor_cast Z_u32 (decode_repeated_scan_params_period_ms zref_dec)) s1 = Some (b, s2)"
    and e: "ref_leave s2 = Some s'"
    and v: "v = \<lparr>scan_params_passive = map_option as_bool p, scan_params_period_ms = map_option as_u32 b\<rparr>"
    unfolding decode_scan_params_def
    by (clarsimp simp: bind_eq_Some_conv guard_iff zref_dec_simps enter_iff expect_iff take_iff tok_iffs)
  show ?thesis
    using present_field_sound[OF parse_passive p, of as_bool] present_field_sound[OF parse_period b, of as_u32] e s
    by (auto simp: v leave_iff scan_params_toks_def present_def split: option.splits)
qed

lemma parse_cred_kind: "decode_cred_kind zref_dec s = Some (k, s') \<longleftrightarrow> k \<le> 2 \<and> 0 < cnt s \<and> 
    (\<exists>r. dtoks s = T_uint k # r \<and> s' = s\<lparr>dtoks := r, cnt := cnt s - 1\<rparr>)"
  by (auto simp: decode_cred_kind_def parse_iffs)

definition in_union :: "dst \<Rightarrow> dst" where
  "in_union s = s\<lparr>saved := (dtoks s, cnt s) # saved s, dbaks := dbaks s - 1\<rparr>"

lemma in_union_sel: "dtoks (in_union s) = dtoks s" "cnt (in_union s) = cnt s"
  by (simp_all add: in_union_def)

lemma union_iff: "zcbor_union zref_dec f s = Some (v, s') \<longleftrightarrow>
   0 < dbaks s \<and> (\<exists>t. f (in_union s) = Some (v, t) \<and> s' = ref_union_end t)"
  by (cases "dbaks s = 0") (auto simp: zcbor_union_def bind_eq_Some_conv ref_union_start_def zref_dec_simps in_union_def)

lemma or_iff: "zcbor_or zref_dec f g (in_union s) = Some r \<longleftrightarrow>
   f (in_union s) = Some r \<or> f (in_union s) = None \<and> g (in_union s) = Some r"
  by (auto simp: zcbor_or_def ref_union_elem_def zref_dec_simps in_union_def split: option.splits)

lemma expect_bind: "(ref_expect t s \<bind> k) = Some x \<longleftrightarrow>
   (\<exists>r. dtoks s = t # r \<and> 0 < cnt s \<and> k (s\<lparr>dtoks := r, cnt := cnt s - 1\<rparr>) = Some x)"
  by (auto simp: bind_eq_Some_conv expect_iff)

lemma take_bind: "(ref_take p s \<bind> k) = Some x \<longleftrightarrow>
   (\<exists>t r v. dtoks s = t # r \<and> 0 < cnt s \<and> p t = Some v \<and> k (v, s\<lparr>dtoks := r, cnt := cnt s - 1\<rparr>) = Some x)"
  by (auto simp: bind_eq_Some_conv take_iff)

lemma enter_bind: "(ref_enter p s \<bind> k) = Some x \<longleftrightarrow> (\<exists>t r n. dtoks s = t # r \<and> 0 < cnt s \<and> 0 < dbaks s \<and> p t = Some n \<and>
   k (s\<lparr>dtoks := r, cnt := n, saved := ([], cnt s - 1) # saved s, dbaks := dbaks s - 1\<rparr>) = Some x)"
  by (auto simp: bind_eq_Some_conv enter_iff)

lemma leave_bind: "(ref_leave s \<bind> k) = Some x \<longleftrightarrow>
   (\<exists>ts c sv. saved s = (ts, c) # sv \<and> cnt s = 0 \<and> k (s\<lparr>cnt := c, saved := sv, dbaks := Suc (dbaks s)\<rparr>) = Some x)"
  by (auto simp: bind_eq_Some_conv leave_iff)

lemma kind_bind: "(decode_cred_kind zref_dec s \<bind> k) = Some x \<longleftrightarrow>
   (\<exists>v r. v \<le> 2 \<and> 0 < cnt s \<and> dtoks s = T_uint v # r \<and> k (v, s\<lparr>dtoks := r, cnt := cnt s - 1\<rparr>) = Some x)"
  by (auto simp: bind_eq_Some_conv parse_cred_kind)

lemmas parse_binds = expect_bind take_bind enter_bind leave_bind kind_bind guard_iff bind_assert tok_iffs u32_of_tok_iff zref_dec_simps
  expect_iff enter_iff leave_iff take_iff

lemma parse_cred_chunk_sound:
  "decode_cred_chunk zref_dec s = Some (v, s') \<Longrightarrow> 0 < dbaks s \<and> 0 < cnt s \<and> cred_chunk_kind v \<le> 2 \<and>
    (\<exists>r. dtoks s = cred_chunk_toks v @ r \<and> s' = s\<lparr>dtoks := r, cnt := cnt s - 1\<rparr>)"
  unfolding decode_cred_chunk_def
  by (clarsimp simp: parse_binds cred_chunk_toks_def) 

definition parsed :: "dst \<Rightarrow> tok list \<Rightarrow> dst \<Rightarrow> bool" where
  "parsed s ts s' \<longleftrightarrow> 0 < dbaks s \<and> 0 < cnt s \<and> (\<exists>r. dtoks s = ts @ r \<and> s' = s\<lparr>dtoks := r, cnt := cnt s - 1\<rparr>)"

lemma parse_config_get_status: "decode_config_get_status zref_dec s = Some s' \<longleftrightarrow> parsed s [T_list 1, T_uint 0] s'"
  unfolding decode_config_get_status_def parsed_def by (auto simp: parse_binds)

lemma parse_config_apply: "decode_config_apply zref_dec s = Some s' \<longleftrightarrow> parsed s [T_list 1, T_uint 2] s'"
  unfolding decode_config_apply_def parsed_def by (auto simp: parse_binds)

lemma parse_scan_get_status: "decode_scan_get_status zref_dec s = Some s' \<longleftrightarrow> parsed s [T_list 1, T_uint 1] s'"
  unfolding decode_scan_get_status_def parsed_def by (auto simp: parse_binds)

lemma parse_ctrl_reset: "decode_ctrl_reset zref_dec s = Some s' \<longleftrightarrow> parsed s [T_list 1, T_uint 0] s'"
  unfolding decode_ctrl_reset_def parsed_def by (auto simp: parse_binds)

lemma parse_ctrl_reprovision: "decode_ctrl_reprovision zref_dec s = Some s' \<longleftrightarrow> parsed s [T_list 1, T_uint 1] s'"
  unfolding decode_ctrl_reprovision_def parsed_def by (auto simp: parse_binds)

lemma parse_ctrl_end: "decode_ctrl_end zref_dec s = Some s' \<longleftrightarrow> parsed s [T_list 1, T_uint 2] s'"
  unfolding decode_ctrl_end_def parsed_def by (auto simp: parse_binds)

lemma parse_cred_finalize: "decode_cred_finalize zref_dec s = Some s' \<longleftrightarrow> parsed s [T_list 1, T_uint 1] s'"
  unfolding decode_cred_finalize_def parsed_def by (auto simp: parse_binds)

lemma parse_cred_get_status: "decode_cred_get_status zref_dec s = Some s' \<longleftrightarrow> parsed s [T_list 1, T_uint 2] s'"
  unfolding decode_cred_get_status_def parsed_def by (auto simp: parse_binds)

lemma parse_ver_req: "decode_ver_req zref_dec s = Some s' \<longleftrightarrow> parsed s [T_list 1, T_uint 0] s'"
  unfolding decode_ver_req_def parsed_def by (auto simp: parse_binds)

lemma parse_auth_challenge: "decode_auth_challenge zref_dec s = Some (v, s') \<longleftrightarrow> length v = 16 \<and> parsed s [T_list 2, T_uint 0, T_bstr v] s'"
  unfolding decode_auth_challenge_def parsed_def by (auto simp: parse_binds)

lemma parse_auth_proof: "decode_auth_proof zref_dec s = Some (v, s') \<longleftrightarrow> length v = 32 \<and> parsed s [T_list 2, T_uint 1, T_bstr v] s'"
  unfolding decode_auth_proof_def parsed_def by (auto simp: parse_binds)

lemma parse_scan_get_results: "decode_scan_get_results zref_dec s = Some (v, s') \<longleftrightarrow> parsed s [T_list 3, T_uint 2, u32_tok (fst v), u32_tok (snd v)] s'"
  unfolding decode_scan_get_results_def parsed_def by (cases v) (auto simp: parse_binds)

lemma parse_config_set_sound: "decode_config_set zref_dec s = Some (v, s') \<Longrightarrow> wifi_config_ok v \<and> parsed s (T_list 2 # T_uint 1 # wifi_config_toks v) s'"
  unfolding decode_config_set_def parsed_def
  by (clarsimp simp: parse_binds bind_eq_Some_conv dest!: parse_wifi_config_sound)

lemma parse_scan_start_sound: "decode_scan_start zref_dec s = Some (v, s') \<Longrightarrow> parsed s (T_list 2 # T_uint 0 # scan_params_toks v) s'"
  unfolding decode_scan_start_def parsed_def
  by (clarsimp simp: parse_binds bind_eq_Some_conv dest!: parse_scan_params_sound)

lemma parse_cred_write_sound: "decode_cred_write zref_dec s = Some (v, s') \<Longrightarrow> cred_chunk_kind v \<le> 2 \<and> parsed s (T_list 2 # T_uint 0 # cred_chunk_toks v) s'"
  unfolding decode_cred_write_def parsed_def
  by (clarsimp simp: parse_binds bind_eq_Some_conv dest!: parse_cred_chunk_sound)

lemma entry_sound:
  assumes "zcbor_entry_decode zref_dec (zcbor_cast c f) (toks_bytes ts) k 1 = Some (c v, n)" and "list_all wf_tok ts"
    and "\<And>x y. c x = c y \<Longrightarrow> x = y"
    and "\<And>s s'. f s = Some (v, s') \<Longrightarrow> P \<and> (\<exists>r. dtoks s = us @ r \<and> dtoks s' = r)"
  shows "P \<and> n = length (toks_bytes us) \<and> (\<exists>r. ts = us @ r)"
proof -
  from assms(1,2) obtain s' where "zcbor_cast c f \<lparr>dtoks = ts, cnt = 1, saved = [], dbaks = k - 2\<rparr> = Some (c v, s')"
     and n: "n = length (toks_bytes ts) - length (toks_bytes (dtoks s'))"
    by (auto simp: zref_dec_simps lex_toks_bytes ref_entry_toks_def split: option.splits prod.splits)
  then have "f \<lparr>dtoks = ts, cnt = 1, saved = [], dbaks = k - 2\<rparr> = Some (v, s')"
    using assms(3) by (auto simp: cast_iff)
  from assms(4)[OF this] n show ?thesis by auto
qed

lemma decode_auth_req_sound: "decode_auth_req zref_dec s = Some (v, s') \<Longrightarrow> auth_req_ok v \<and> (\<exists>r. dtoks s = auth_req_toks v @ r \<and> dtoks s' = r)"
  unfolding decode_auth_req_def
  by (auto simp: union_iff or_iff cast_iff void_iff parse_auth_challenge parse_auth_proof parsed_def ref_union_end_def in_union_sel)

lemma decode_config_req_sound: "decode_config_req zref_dec s = Some (v, s') \<Longrightarrow> config_req_ok v \<and> (\<exists>r. dtoks s = config_req_toks v @ r \<and> dtoks s' = r)"
  unfolding decode_config_req_def
  by (auto simp: union_iff or_iff cast_iff void_iff parse_config_get_status parse_config_apply parsed_def ref_union_end_def in_union_sel
    dest!: parse_config_set_sound)

lemma decode_scan_req_sound: "decode_scan_req zref_dec s = Some (v, s') \<Longrightarrow> (\<exists>r. dtoks s = scan_req_toks v @ r \<and> dtoks s' = r)"
  unfolding decode_scan_req_def
  by (auto simp: union_iff or_iff cast_iff void_iff parse_scan_get_status parse_scan_get_results parsed_def ref_union_end_def in_union_sel
    dest!: parse_scan_start_sound)

lemma decode_cred_req_sound: "decode_cred_req zref_dec s = Some (v, s') \<Longrightarrow> (case v of cred_req_cred_write_m c \<Rightarrow> cred_chunk_kind c \<le> 2 | _ \<Rightarrow> True) \<and> (\<exists>r. dtoks s = cred_req_toks v @ r \<and> dtoks s' = r)"
  unfolding decode_cred_req_def
  by (auto simp: union_iff or_iff cast_iff void_iff parse_cred_finalize parse_cred_get_status parsed_def ref_union_end_def in_union_sel
    dest!: parse_cred_write_sound)

lemma decode_ctrl_req_sound: "decode_ctrl_req zref_dec s = Some (v, s') \<Longrightarrow> (\<exists>r. dtoks s = ctrl_req_toks v @ r \<and> dtoks s' = r)"
  unfolding decode_ctrl_req_def
  by (auto simp: union_iff or_iff cast_iff void_iff parse_ctrl_reset parse_ctrl_reprovision parse_ctrl_end parsed_def ref_union_end_def in_union_sel)

lemma entry_complete:
  assumes "f \<lparr>dtoks = us @ r, cnt = 1, saved = [], dbaks = k - 2\<rparr> = Some (v, s')" and "dtoks s' = r"
    and "list_all wf_tok (us @ r)"
  shows "zcbor_entry_decode zref_dec (zcbor_cast c f) (toks_bytes (us @ r)) k 1 = Some (c v, length (toks_bytes us))"
  using assms by (simp add: zref_dec_simps ref_entry_toks_def zcbor_cast_def lex_toks_bytes[OF assms(3)] del: toks_bytes_simps(3))
   simp

lemmas dec_run = decode_defs ref_defs zcbor_cast_def zcbor_void_def zcbor_or_def zcbor_union_def

lemma decode_auth_req_complete: "auth_req_ok v \<Longrightarrow>
   \<exists>s'. decode_auth_req zref_dec \<lparr>dtoks = auth_req_toks v @ r, cnt = 1, saved = [], dbaks = 2\<rparr> = Some (v, s') \<and> dtoks s' = r"
  by (cases v) (simp_all add: dec_run)

lemma decode_ctrl_req_complete: 
   "\<exists>s'. decode_ctrl_req zref_dec \<lparr>dtoks = ctrl_req_toks v @ r, cnt = 1, saved = [], dbaks = 2\<rparr> = Some (v, s') \<and> dtoks s' = r"
  by (cases v) (simp_all add: dec_run)

lemma decode_cred_req_complete: "(case v of cred_req_cred_write_m c \<Rightarrow> cred_chunk_kind c \<le> 2 | _ \<Rightarrow> True) \<Longrightarrow>
   \<exists>s'. decode_cred_req zref_dec \<lparr>dtoks = cred_req_toks v @ r, cnt = 1, saved = [], dbaks = 4\<rparr> = Some (v, s') \<and> dtoks s' = r"
  by (cases v) (auto simp add: dec_run toks_defs u32_tok_def unat_lt_u32)

lemma decode_scan_req_complete: 
   "\<exists>s'. decode_scan_req zref_dec \<lparr>dtoks = scan_req_toks v @ r, cnt = 1, saved = [], dbaks = 3\<rparr> = Some (v, s') \<and> dtoks s' = r"
proof (cases v)
  case (scan_req_scan_start_m p)
  then show ?thesis 
    by (cases r; cases p; cases "scan_params_passive p"; cases "scan_params_period_ms p") (auto simp add: dec_run toks_defs u32_tok_def unat_lt_u32 str_bytes_def)
qed (auto simp add: dec_run u32_tok_def unat_lt_u32)

lemma decode_config_req_complete: "config_req_ok v \<Longrightarrow>
   \<exists>s'. decode_config_req zref_dec \<lparr>dtoks = config_req_toks v @ r, cnt = 1, saved = [], dbaks = 3\<rparr> = Some (v, s') \<and> dtoks s' = r"
proof (induct v)
  case (config_req_config_set_m p)
  then show ?case
    by (cases r; cases p; cases "wifi_config_pass p"; cases "wifi_config_bssid p"; cases "wifi_config_ch p")
       (auto simp add: dec_run toks_defs wifi_config_ok_def u32_tok_def unat_lt_u32 str_bytes_def)
qed (auto simp add: dec_run u32_tok_def unat_lt_u32)

lemma entry_iff:
  assumes wf: "list_all wf_tok ts" and c: "\<And>x y. c x = c y \<Longrightarrow> x = y"
    and sound: "\<And>s s'. f s = Some (v, s') \<Longrightarrow> P \<and> (\<exists>r. dtoks s = us @ r \<and> dtoks s' = r)"
    and complete: "\<And>r. P \<Longrightarrow> \<exists>s'. f \<lparr>dtoks = us @ r, cnt = 1, saved = [], dbaks = k - 2\<rparr> = Some (v, s') \<and> dtoks s' = r"
  shows "zcbor_entry_decode zref_dec (zcbor_cast c f) (toks_bytes ts) k 1 = Some (c v, n) \<longleftrightarrow>
    P \<and> n = length (toks_bytes us) \<and> (\<exists>r. ts = us @ r)"
proof
  assume "zcbor_entry_decode zref_dec (zcbor_cast c f) (toks_bytes ts) k 1 = Some (c v, n)"
  from entry_sound[OF this wf c sound] show "P \<and> n = length (toks_bytes us) \<and> (\<exists>r. ts = us @ r)" by blast
next
  assume "P \<and> n = length (toks_bytes us) \<and> (\<exists>r. ts = us @ r)"
  then obtain r where r: "P" "n = length (toks_bytes us)" "ts = us @ r" by blast
  from complete[OF r(1)] obtain s' where "f \<lparr>dtoks = us @ r, cnt = 1, saved = [], dbaks = k - 2\<rparr> = Some (v, s')"
    "dtoks s' = r" by blast
  from entry_complete[of f us r k v s', OF this] wf r show "zcbor_entry_decode zref_dec (zcbor_cast c f) (toks_bytes ts) k 1 = Some (c v, n)"
    by blast
qed

lemma dec_auth_req:
  assumes wf: "list_all wf_tok ts"
  shows "cbor_decode_auth_req zref_dec (toks_bytes ts) = Some (v, n) \<longleftrightarrow>
    auth_req_ok v \<and> n = length (toks_bytes (auth_req_toks v)) \<and> (\<exists>r. ts = auth_req_toks v @ r)"
proof -
  have "cbor_decode_auth_req zref_dec (toks_bytes ts) = Some (v, n) \<longleftrightarrow>
    zcbor_entry_decode zref_dec (zcbor_cast Z_auth_req (decode_auth_req zref_dec)) (toks_bytes ts) 4 1 = Some (Z_auth_req v, n)"
    by (auto simp: cbor_decode_auth_req_def split: option.splits zobj.splits)
  also have "\<dots> \<longleftrightarrow> auth_req_ok v \<and> n = length (toks_bytes (auth_req_toks v)) \<and> (\<exists>r. ts = auth_req_toks v @ r)"
    using wf decode_auth_req_sound[of _ v] decode_auth_req_complete[of v] by (intro entry_iff) auto
  finally show ?thesis by simp
qed

lemma dec_config_req:
  assumes wf: "list_all wf_tok ts"
  shows "cbor_decode_config_req zref_dec (toks_bytes ts) = Some (v, n) \<longleftrightarrow>
    config_req_ok v \<and> n = length (toks_bytes (config_req_toks v)) \<and> (\<exists>r. ts = config_req_toks v @ r)"
proof -
  have "cbor_decode_config_req zref_dec (toks_bytes ts) = Some (v, n) \<longleftrightarrow>
    zcbor_entry_decode zref_dec (zcbor_cast Z_config_req (decode_config_req zref_dec)) (toks_bytes ts) 5 1 = Some (Z_config_req v, n)"
    by (auto simp: cbor_decode_config_req_def split: option.splits zobj.splits)
  also have "\<dots> \<longleftrightarrow> config_req_ok v \<and> n = length (toks_bytes (config_req_toks v)) \<and> (\<exists>r. ts = config_req_toks v @ r)"
    using wf decode_config_req_sound[of _ v] decode_config_req_complete[of v] by (intro entry_iff) auto
  finally show ?thesis by simp
qed

lemma dec_scan_req:
  assumes wf: "list_all wf_tok ts"
  shows "cbor_decode_scan_req zref_dec (toks_bytes ts) = Some (v, n) \<longleftrightarrow>
    n = length (toks_bytes (scan_req_toks v)) \<and> (\<exists>r. ts = scan_req_toks v @ r)"
proof -
  have "cbor_decode_scan_req zref_dec (toks_bytes ts) = Some (v, n) \<longleftrightarrow>
    zcbor_entry_decode zref_dec (zcbor_cast Z_scan_req (decode_scan_req zref_dec)) (toks_bytes ts) 5 1 = Some (Z_scan_req v, n)"
    by (auto simp: cbor_decode_scan_req_def split: option.splits zobj.splits)
  also have "\<dots> \<longleftrightarrow> True \<and> n = length (toks_bytes (scan_req_toks v)) \<and> (\<exists>r. ts = scan_req_toks v @ r)"
    using wf decode_scan_req_sound[of _ v] decode_scan_req_complete[of v] by (intro entry_iff) auto
  finally show ?thesis by simp
qed

lemma dec_ctrl_req:
  assumes wf: "list_all wf_tok ts"
  shows "cbor_decode_ctrl_req zref_dec (toks_bytes ts) = Some (v, n) \<longleftrightarrow>
    n = length (toks_bytes (ctrl_req_toks v)) \<and> (\<exists>r. ts = ctrl_req_toks v @ r)"
proof -
  have "cbor_decode_ctrl_req zref_dec (toks_bytes ts) = Some (v, n) \<longleftrightarrow>
    zcbor_entry_decode zref_dec (zcbor_cast Z_ctrl_req (decode_ctrl_req zref_dec)) (toks_bytes ts) 4 1 = Some (Z_ctrl_req v, n)"
    by (auto simp: cbor_decode_ctrl_req_def split: option.splits zobj.splits)
  also have "\<dots> \<longleftrightarrow> True \<and> n = length (toks_bytes (ctrl_req_toks v)) \<and> (\<exists>r. ts = ctrl_req_toks v @ r)"
    using wf decode_ctrl_req_sound[of _ v] decode_ctrl_req_complete[of v] by (intro entry_iff) auto
  finally show ?thesis by simp
qed

lemma wf_cred_req_toks: "list_all wf_tok (cred_req_toks v @ r) \<Longrightarrow>
   (case v of cred_req_cred_write_m c \<Rightarrow> cred_chunk_kind c \<le> 2 | _ \<Rightarrow> True) \<Longrightarrow> cred_req_ok v"
  by (cases v) (simp_all add: cred_chunk_toks_def)

lemma dec_cred_req:
  assumes wf: "list_all wf_tok ts"
  shows "cbor_decode_cred_req zref_dec (toks_bytes ts) = Some (v, n) \<longleftrightarrow>
    cred_req_ok v \<and> n = length (toks_bytes (cred_req_toks v)) \<and> (\<exists>r. ts = cred_req_toks v @ r)"
proof -
  let ?P = "case v of cred_req_cred_write_m c \<Rightarrow> cred_chunk_kind c \<le> 2 | _ \<Rightarrow> True"
  have "?P \<Longrightarrow> \<exists>s'. decode_cred_req zref_dec \<lparr>dtoks = cred_req_toks v @ r, cnt = 1, saved = [], dbaks = 6 - 2\<rparr> = Some (v, s') \<and> dtoks s' = r" for r
    using decode_cred_req_complete by simp
  from entry_iff[OF wf _ decode_cred_req_sound this, of Z_cred_req n]
  have "zcbor_entry_decode zref_dec (zcbor_cast Z_cred_req (decode_cred_req zref_dec)) (toks_bytes ts) 6 1 = Some (Z_cred_req v, n) \<longleftrightarrow>
    ?P \<and> n = length (toks_bytes (cred_req_toks v)) \<and> (\<exists>r. ts = cred_req_toks v @ r)"
    by simp
  moreover have "cbor_decode_cred_req zref_dec (toks_bytes ts) = Some (v, n) \<longleftrightarrow>
    zcbor_entry_decode zref_dec (zcbor_cast Z_cred_req (decode_cred_req zref_dec)) (toks_bytes ts) 6 1 = Some (Z_cred_req v, n)"
    by (auto simp: cbor_decode_cred_req_def split: option.splits zobj.splits)
  moreover have "ts = cred_req_toks v @ r \<Longrightarrow> ?P \<longleftrightarrow> cred_req_ok v" for r
    using wf wf_cred_req_toks[of v r] by (cases v) auto
  ultimately show ?thesis by blast
qed

lemma dec_ver_req:
  assumes wf: "list_all wf_tok ts"
  shows "cbor_decode_ver_req zref_dec (toks_bytes ts) = Some n \<longleftrightarrow>
    n = length (toks_bytes [T_list 1, T_uint 0]) \<and> (\<exists>r. ts = [T_list 1, T_uint 0] @ r)"
proof -
  have "cbor_decode_ver_req zref_dec (toks_bytes ts) = Some n \<longleftrightarrow>
    zcbor_entry_decode zref_dec (zcbor_cast (\<lambda>_. Z_void) (zcbor_void (decode_ver_req zref_dec))) (toks_bytes ts) 3 1 = Some (Z_void, n)"
    by (auto simp: cbor_decode_ver_req_def split: option.splits zobj.splits)
  also have "\<dots> \<longleftrightarrow> True \<and> n = length (toks_bytes [T_list 1, T_uint 0]) \<and> (\<exists>r. ts = [T_list 1, T_uint 0] @ r)"
  proof (intro entry_iff[where c = "\<lambda>_. Z_void"] wf)
    fix r
    show "\<exists>s'. zcbor_void (decode_ver_req zref_dec) \<lparr>dtoks = [T_list 1, T_uint 0] @ r, cnt = 1, saved = [], dbaks = 3 - 2\<rparr>
      = Some ((), s') \<and> dtoks s' = r" by (simp add: dec_run)
  qed (auto simp: void_iff parse_ver_req parsed_def)
  finally show ?thesis by simp
qed
end
