(* ===== verification/Codec_Round.thy ===== *)
theory Codec_Round
  imports Codec_Enc Codec_Dec "HOL-Library.Sublist"
begin

text \<open>
  Requests survive the wire: what the encoder of \<^verbatim>\<open>prov_encode.c\<close> writes for a request, the decoder
  of \<^verbatim>\<open>prov_decode.c\<close> reads back, over any two CBOR libraries that meet the zcbor contract.
\<close>

text \<open>The tokens of a well-formed request are well-formed.\<close>

lemma wf_u32_tok [simp]: "wf_tok (u32_tok x)"
  using unat_lt_u32[of x] by (simp add: u32_tok_def)

lemma wf_auth_req: "auth_req_ok v \<Longrightarrow> list_all wf_tok (auth_req_toks v)"
  by (cases v) simp_all

lemma wf_config_req: "config_req_ok v \<Longrightarrow> list_all wf_tok (config_req_toks v)"
proof (cases v)
  case (config_req_config_set_m c)
  then show "config_req_ok v \<Longrightarrow> ?thesis"
    by (auto simp: wifi_config_toks_def wifi_config_ok_def opt_toks_def present_def split: option.splits)
qed simp_all

lemma wf_scan_req: "list_all wf_tok (scan_req_toks v)"
  by (cases v) (auto simp: toks_defs split: option.splits)

lemma wf_ctrl_req: "list_all wf_tok (ctrl_req_toks v)"
  by (cases v) simp_all

lemma wf_cred_req: "cred_req_ok v \<Longrightarrow> list_all wf_tok (cred_req_toks v)"
  by (cases v) (auto simp: toks_defs)

lemma emit_toks_Some: "emit_toks len ts = Some bs \<longleftrightarrow> bs = toks_bytes ts \<and> length bs \<le> len"
  by (auto simp: emit_toks_def)

lemma round_auth_req:
  assumes "zcbor_encoder Z R" "zcbor_decoder Z' R'" "auth_req_ok v" and e: "cbor_encode_auth_req Z len v = Some bs"
  shows "cbor_decode_auth_req Z' bs = Some (v, length bs)"
proof -
  note wf = wf_auth_req[OF assms(3)]
  have "bs = toks_bytes (auth_req_toks v)"
    using e by (simp add: zcbor_encoder.cbor_encode_auth_req_ref[OF assms(1)] enc_auth_req[OF assms(3)] emit_toks_Some)
  then show ?thesis
    using dec_auth_req[OF wf, of v "length bs"] assms(3)
    by (auto simp: zcbor_decoder.cbor_decode_auth_req_ref[OF assms(2) wf])
qed

lemma round_config_req:
  assumes "zcbor_encoder Z R" "zcbor_decoder Z' R'" "config_req_ok v" and e: "cbor_encode_config_req Z len v = Some bs"
  shows "cbor_decode_config_req Z' bs = Some (v, length bs)"
proof -
  note wf = wf_config_req[OF assms(3)]
  have "bs = toks_bytes (config_req_toks v)"
    using e by (simp add: zcbor_encoder.cbor_encode_config_req_ref[OF assms(1)] enc_config_req[OF assms(3)] emit_toks_Some)
  then show ?thesis
    using dec_config_req[OF wf, of v "length bs"] assms(3)
    by (auto simp: zcbor_decoder.cbor_decode_config_req_ref[OF assms(2) wf])
qed

lemma round_scan_req:
  assumes "zcbor_encoder Z R" "zcbor_decoder Z' R'" and e: "cbor_encode_scan_req Z len v = Some bs"
  shows "cbor_decode_scan_req Z' bs = Some (v, length bs)"
proof -
  note wf = wf_scan_req[of v]
  have "bs = toks_bytes (scan_req_toks v)"
    using e by (simp add: zcbor_encoder.cbor_encode_scan_req_ref[OF assms(1)] enc_scan_req emit_toks_Some)
  then show ?thesis
    using dec_scan_req[OF wf, of v "length bs"]
    by (auto simp: zcbor_decoder.cbor_decode_scan_req_ref[OF assms(2) wf])
qed

lemma round_ctrl_req:
  assumes "zcbor_encoder Z R" "zcbor_decoder Z' R'" and e: "cbor_encode_ctrl_req Z len v = Some bs"
  shows "cbor_decode_ctrl_req Z' bs = Some (v, length bs)"
proof -
  note wf = wf_ctrl_req[of v]
  have "bs = toks_bytes (ctrl_req_toks v)"
    using e by (simp add: zcbor_encoder.cbor_encode_ctrl_req_ref[OF assms(1)] enc_ctrl_req emit_toks_Some)
  then show ?thesis
    using dec_ctrl_req[OF wf, of v "length bs"]
    by (auto simp: zcbor_decoder.cbor_decode_ctrl_req_ref[OF assms(2) wf])
qed

lemma round_cred_req:
  assumes "zcbor_encoder Z R" "zcbor_decoder Z' R'" "cred_req_ok v" and e: "cbor_encode_cred_req Z len v = Some bs"
  shows "cbor_decode_cred_req Z' bs = Some (v, length bs)"
proof -
  note wf = wf_cred_req[OF assms(3)]
  have "bs = toks_bytes (cred_req_toks v)"
    using e by (simp add: zcbor_encoder.cbor_encode_cred_req_ref[OF assms(1)] enc_cred_req[OF assms(3)] emit_toks_Some)
  then show ?thesis
    using dec_cred_req[OF wf, of v "length bs"] assms(3)
    by (auto simp: zcbor_decoder.cbor_decode_cred_req_ref[OF assms(2) wf])
qed

subsection \<open>What the decoders accept\<close>

lemma exact_auth_req:
  assumes "zcbor_decoder Z R" and wf: "list_all wf_tok ts"
  shows "cbor_decode_auth_req Z (toks_bytes ts) = Some (v, n) \<longleftrightarrow>
    auth_req_ok v \<and> n = length (toks_bytes (auth_req_toks v)) \<and> prefix (auth_req_toks v) ts"
  using dec_auth_req[OF wf] by (auto simp: zcbor_decoder.cbor_decode_auth_req_ref[OF assms] prefix_def)

lemma exact_config_req:
  assumes "zcbor_decoder Z R" and wf: "list_all wf_tok ts"
  shows "cbor_decode_config_req Z (toks_bytes ts) = Some (v, n) \<longleftrightarrow>
    config_req_ok v \<and> n = length (toks_bytes (config_req_toks v)) \<and> prefix (config_req_toks v) ts"
  using dec_config_req[OF wf] by (auto simp: zcbor_decoder.cbor_decode_config_req_ref[OF assms] prefix_def)

lemma exact_cred_req:
  assumes "zcbor_decoder Z R" and wf: "list_all wf_tok ts"
  shows "cbor_decode_cred_req Z (toks_bytes ts) = Some (v, n) \<longleftrightarrow>
    cred_req_ok v \<and> n = length (toks_bytes (cred_req_toks v)) \<and> prefix (cred_req_toks v) ts"
  using dec_cred_req[OF wf] by (auto simp: zcbor_decoder.cbor_decode_cred_req_ref[OF assms] prefix_def)

lemma config_map_keys:
  assumes "prefix (config_req_toks v) (T_list 2 # T_uint 1 # T_map n # a # b # T_tstr k # r)" and "2 \<le> n"
  shows "k \<in> {str_bytes ''pass'', str_bytes ''bssid'', str_bytes ''ch''}"
  using assms
  by (cases v) (auto simp: wifi_config_toks_def opt_toks_def present_def split: option.splits)

end
