(* ===== verification/Prov_Decode_Rsp.thy ===== *)
theory Prov_Decode_Rsp
  imports Prov_Decode
begin

text \<open>
  The response half of the generated decoder, \<^verbatim>\<open>src/codec/prov_decode.c\<close>: the functions a client
  runs on what the device answers.
\<close>

fun as_scan_entry :: "zobj \<Rightarrow> scan_entry" where
  "as_scan_entry (Z_scan_entry v) = v"
| "as_scan_entry _ = \<lparr>scan_entry_ssid = [], scan_entry_bssid = [], scan_entry_ch = 0, scan_entry_rssi = 0, scan_entry_auth = 0\<rparr>"

fun as_map_tstruint :: "zobj \<Rightarrow> map_tstruint" where
  "as_map_tstruint (Z_map_tstruint v) = v"
| "as_map_tstruint _ = \<lparr>cred_status_rsp_map_tstruint_key = [], map_tstruint = 0\<rparr>"

definition decode_prov_status :: "'d zcbor_dec \<Rightarrow> 'd \<Rightarrow> (u32 \<times> 'd) option" where
  "decode_prov_status Z d = do {
     (n, d) \<leftarrow> zcbor_uint_decode Z 4 d;
     let c = (of_nat n :: u32);
     assert_opt (c = prov_status_status_ok_m_c \<or> c = prov_status_status_invalid_proto_m_c
       \<or> c = prov_status_status_invalid_argument_m_c \<or> c = prov_status_status_internal_error_m_c
       \<or> c = prov_status_status_unauthorized_m_c \<or> c = prov_status_status_invalid_state_m_c
       \<or> c = prov_status_status_busy_m_c);
     Some (c, d)
   }"

definition decode_sta_state :: "'d zcbor_dec \<Rightarrow> 'd \<Rightarrow> (u32 \<times> 'd) option" where
  "decode_sta_state Z d = do {
     (n, d) \<leftarrow> zcbor_uint_decode Z 4 d;
     let c = (of_nat n :: u32);
     assert_opt (c = sta_state_sta_connected_m_c \<or> c = sta_state_sta_connecting_m_c
       \<or> c = sta_state_sta_disconnected_m_c \<or> c = sta_state_sta_failed_m_c);
     Some (c, d)
   }"

definition decode_fail_reason :: "'d zcbor_dec \<Rightarrow> 'd \<Rightarrow> (u32 \<times> 'd) option" where
  "decode_fail_reason Z d = do {
     (n, d) \<leftarrow> zcbor_uint_decode Z 4 d;
     let c = (of_nat n :: u32);
     assert_opt (c = fail_reason_fail_auth_error_m_c \<or> c = fail_reason_fail_network_not_found_m_c);
     Some (c, d)
   }"

definition decode_repeated_connected_info_rssi :: "'d zcbor_dec \<Rightarrow> 'd \<Rightarrow> (u32 \<times> 'd) option" where
  "decode_repeated_connected_info_rssi Z d = do {
     d \<leftarrow> zcbor_tstr_expect Z (str_bytes ''rssi'') d;
     zcbor_int32_decode Z d
   }"

definition decode_connected_info :: "'d zcbor_dec \<Rightarrow> 'd \<Rightarrow> (connected_info \<times> 'd) option" where
  "decode_connected_info Z d = do {
     d \<leftarrow> zcbor_map_start_decode Z d;
     d \<leftarrow> zcbor_tstr_expect Z (str_bytes ''ip4'') d;
     (ip4, d) \<leftarrow> zcbor_bstr_decode Z d;
     assert_opt (length ip4 = 4);
     d \<leftarrow> zcbor_tstr_expect Z (str_bytes ''ssid'') d;
     (ssid, d) \<leftarrow> zcbor_bstr_decode Z d;
     assert_opt (1 \<le> length ssid \<and> length ssid \<le> 32);
     (rssi, d) \<leftarrow> zcbor_present_decode Z (zcbor_cast Z_u32 (decode_repeated_connected_info_rssi Z)) d;
     d \<leftarrow> zcbor_map_end_decode Z d;
     Some (\<lparr>connected_info_ip4 = ip4, connected_info_ssid = ssid, connected_info_rssi = map_option as_u32 rssi\<rparr>, d)
   }"

definition decode_config_detail :: "'d zcbor_dec \<Rightarrow> 'd \<Rightarrow> (config_detail_r \<times> 'd) option" where
  "decode_config_detail Z d =
     zcbor_union Z (zcbor_or Z (zcbor_cast config_detail_fail_reason_m (decode_fail_reason Z))
       (zcbor_cast config_detail_connected_info_m (decode_connected_info Z))) d"

text \<open>The detail is optional: the response goes on whether it decoded or not.\<close>

definition decode_config_status_rsp :: "'d zcbor_dec \<Rightarrow> 'd \<Rightarrow> (config_status_rsp \<times> 'd) option" where
  "decode_config_status_rsp Z d = do {
     d \<leftarrow> zcbor_list_start_decode Z d;
     d \<leftarrow> zcbor_uint32_expect Z 0 d;
     (st, d) \<leftarrow> decode_prov_status Z d;
     (sta, d) \<leftarrow> decode_sta_state Z d;
     let (detail, d) = (case decode_config_detail Z d of Some (v, d') \<Rightarrow> (Some v, d') | None \<Rightarrow> (None, zcbor_union_failed Z d));
     d \<leftarrow> zcbor_list_end_decode Z d;
     Some (\<lparr>config_status_rsp_prov_status_m = st, config_status_rsp_sta_state_m = sta, config_status_rsp_config_detail_m = detail\<rparr>, d)
   }"

definition decode_config_set_rsp :: "'d zcbor_dec \<Rightarrow> 'd \<Rightarrow> (u32 \<times> 'd) option" where
  "decode_config_set_rsp Z d = do {
     d \<leftarrow> zcbor_list_start_decode Z d;
     d \<leftarrow> zcbor_uint32_expect Z 1 d;
     (st, d) \<leftarrow> decode_prov_status Z d;
     d \<leftarrow> zcbor_list_end_decode Z d;
     Some (st, d)
   }"

definition decode_config_apply_rsp :: "'d zcbor_dec \<Rightarrow> 'd \<Rightarrow> (u32 \<times> 'd) option" where
  "decode_config_apply_rsp Z d = do {
     d \<leftarrow> zcbor_list_start_decode Z d;
     d \<leftarrow> zcbor_uint32_expect Z 2 d;
     (st, d) \<leftarrow> decode_prov_status Z d;
     d \<leftarrow> zcbor_list_end_decode Z d;
     Some (st, d)
   }"

definition decode_repeated_ver_info_pop :: "'d zcbor_dec \<Rightarrow> 'd \<Rightarrow> (bool \<times> 'd) option" where
  "decode_repeated_ver_info_pop Z d = do {
     d \<leftarrow> zcbor_tstr_expect Z (str_bytes ''pop'') d;
     zcbor_bool_decode Z d
   }"

definition decode_ver_info :: "'d zcbor_dec \<Rightarrow> 'd \<Rightarrow> (ver_info \<times> 'd) option" where
  "decode_ver_info Z d = do {
     d \<leftarrow> zcbor_map_start_decode Z d;
     d \<leftarrow> zcbor_tstr_expect Z (str_bytes ''proto'') d;
     (proto, d) \<leftarrow> zcbor_uint32_decode Z d;
     d \<leftarrow> zcbor_tstr_expect Z (str_bytes ''caps'') d;
     d \<leftarrow> zcbor_list_start_decode Z d;
     (caps, d) \<leftarrow> zcbor_multi_decode Z 0 8 (zcbor_cast Z_str (zcbor_tstr_decode Z)) d;
     d \<leftarrow> zcbor_list_end_decode Z d;
     d \<leftarrow> zcbor_tstr_expect Z (str_bytes ''blk'') d;
     (blk, d) \<leftarrow> zcbor_uint32_decode Z d;
     d \<leftarrow> zcbor_tstr_expect Z (str_bytes ''lib'') d;
     (lib, d) \<leftarrow> zcbor_tstr_decode Z d;
     (p, d) \<leftarrow> zcbor_present_decode Z (zcbor_cast Z_bool (decode_repeated_ver_info_pop Z)) d;
     d \<leftarrow> zcbor_map_end_decode Z d;
     Some (\<lparr>ver_info_proto = proto, ver_info_caps_tstr = map as_str caps, ver_info_blk = blk,
            ver_info_lib = lib, ver_info_pop = map_option as_bool p\<rparr>, d)
   }"

definition decode_auth_challenge_rsp :: "'d zcbor_dec \<Rightarrow> 'd \<Rightarrow> ((u32 \<times> bytes \<times> bytes) \<times> 'd) option" where
  "decode_auth_challenge_rsp Z d = do {
     d \<leftarrow> zcbor_list_start_decode Z d;
     d \<leftarrow> zcbor_uint32_expect Z 0 d;
     (st, d) \<leftarrow> decode_prov_status Z d;
     (dev_nonce, d) \<leftarrow> zcbor_bstr_decode Z d;
     assert_opt (length dev_nonce = 16);
     (dev_proof, d) \<leftarrow> zcbor_bstr_decode Z d;
     assert_opt (length dev_proof = 32);
     d \<leftarrow> zcbor_list_end_decode Z d;
     Some ((st, dev_nonce, dev_proof), d)
   }"

definition decode_auth_proof_rsp :: "'d zcbor_dec \<Rightarrow> 'd \<Rightarrow> (u32 \<times> 'd) option" where
  "decode_auth_proof_rsp Z d = do {
     d \<leftarrow> zcbor_list_start_decode Z d;
     d \<leftarrow> zcbor_uint32_expect Z 1 d;
     (st, d) \<leftarrow> decode_prov_status Z d;
     d \<leftarrow> zcbor_list_end_decode Z d;
     Some (st, d)
   }"

definition decode_scan_start_rsp :: "'d zcbor_dec \<Rightarrow> 'd \<Rightarrow> (u32 \<times> 'd) option" where
  "decode_scan_start_rsp Z d = do {
     d \<leftarrow> zcbor_list_start_decode Z d;
     d \<leftarrow> zcbor_uint32_expect Z 0 d;
     (st, d) \<leftarrow> decode_prov_status Z d;
     d \<leftarrow> zcbor_list_end_decode Z d;
     Some (st, d)
   }"

definition decode_scan_status_rsp :: "'d zcbor_dec \<Rightarrow> 'd \<Rightarrow> ((u32 \<times> bool \<times> u32) \<times> 'd) option" where
  "decode_scan_status_rsp Z d = do {
     d \<leftarrow> zcbor_list_start_decode Z d;
     d \<leftarrow> zcbor_uint32_expect Z 1 d;
     (st, d) \<leftarrow> decode_prov_status Z d;
     (fin, d) \<leftarrow> zcbor_bool_decode Z d;
     (tot, d) \<leftarrow> zcbor_uint32_decode Z d;
     d \<leftarrow> zcbor_list_end_decode Z d;
     Some ((st, fin, tot), d)
   }"

definition decode_scan_entry :: "'d zcbor_dec \<Rightarrow> 'd \<Rightarrow> (scan_entry \<times> 'd) option" where
  "decode_scan_entry Z d = do {
     d \<leftarrow> zcbor_map_start_decode Z d;
     d \<leftarrow> zcbor_tstr_expect Z (str_bytes ''ssid'') d;
     (ssid, d) \<leftarrow> zcbor_bstr_decode Z d;
     assert_opt (0 \<le> length ssid \<and> length ssid \<le> 32);
     d \<leftarrow> zcbor_tstr_expect Z (str_bytes ''bssid'') d;
     (bssid, d) \<leftarrow> zcbor_bstr_decode Z d;
     assert_opt (length bssid = 6);
     d \<leftarrow> zcbor_tstr_expect Z (str_bytes ''ch'') d;
     (ch, d) \<leftarrow> zcbor_uint32_decode Z d;
     d \<leftarrow> zcbor_tstr_expect Z (str_bytes ''rssi'') d;
     (rssi, d) \<leftarrow> zcbor_int32_decode Z d;
     d \<leftarrow> zcbor_tstr_expect Z (str_bytes ''auth'') d;
     (au, d) \<leftarrow> zcbor_uint32_decode Z d;
     d \<leftarrow> zcbor_map_end_decode Z d;
     Some (\<lparr>scan_entry_ssid = ssid, scan_entry_bssid = bssid, scan_entry_ch = ch, scan_entry_rssi = rssi,
            scan_entry_auth = au\<rparr>, d)
   }"

definition decode_scan_results_rsp :: "'d zcbor_dec \<Rightarrow> 'd \<Rightarrow> ((u32 \<times> scan_entry list) \<times> 'd) option" where
  "decode_scan_results_rsp Z d = do {
     d \<leftarrow> zcbor_list_start_decode Z d;
     d \<leftarrow> zcbor_uint32_expect Z 2 d;
     (st, d) \<leftarrow> decode_prov_status Z d;
     d \<leftarrow> zcbor_list_start_decode Z d;
     (es, d) \<leftarrow> zcbor_multi_decode Z 0 8 (zcbor_cast Z_scan_entry (decode_scan_entry Z)) d;
     d \<leftarrow> zcbor_list_end_decode Z d;
     d \<leftarrow> zcbor_list_end_decode Z d;
     Some ((st, map as_scan_entry es), d)
   }"

definition decode_cred_write_rsp :: "'d zcbor_dec \<Rightarrow> 'd \<Rightarrow> ((u32 \<times> u32) \<times> 'd) option" where
  "decode_cred_write_rsp Z d = do {
     d \<leftarrow> zcbor_list_start_decode Z d;
     d \<leftarrow> zcbor_uint32_expect Z 0 d;
     (st, d) \<leftarrow> decode_prov_status Z d;
     (received, d) \<leftarrow> zcbor_uint32_decode Z d;
     d \<leftarrow> zcbor_list_end_decode Z d;
     Some ((st, received), d)
   }"

definition decode_cred_finalize_rsp :: "'d zcbor_dec \<Rightarrow> 'd \<Rightarrow> (u32 \<times> 'd) option" where
  "decode_cred_finalize_rsp Z d = do {
     d \<leftarrow> zcbor_list_start_decode Z d;
     d \<leftarrow> zcbor_uint32_expect Z 1 d;
     (st, d) \<leftarrow> decode_prov_status Z d;
     d \<leftarrow> zcbor_list_end_decode Z d;
     Some (st, d)
   }"

definition decode_repeated_map_tstruint :: "'d zcbor_dec \<Rightarrow> 'd \<Rightarrow> (map_tstruint \<times> 'd) option" where
  "decode_repeated_map_tstruint Z d = do {
     (k, d) \<leftarrow> zcbor_tstr_decode Z d;
     (x, d) \<leftarrow> zcbor_uint32_decode Z d;
     Some (\<lparr>cred_status_rsp_map_tstruint_key = k, map_tstruint = x\<rparr>, d)
   }"

definition decode_cred_status_rsp :: "'d zcbor_dec \<Rightarrow> 'd \<Rightarrow> ((u32 \<times> map_tstruint list) \<times> 'd) option" where
  "decode_cred_status_rsp Z d = do {
     d \<leftarrow> zcbor_list_start_decode Z d;
     d \<leftarrow> zcbor_uint32_expect Z 2 d;
     (st, d) \<leftarrow> decode_prov_status Z d;
     d \<leftarrow> zcbor_map_start_decode Z d;
     (kvs, d) \<leftarrow> zcbor_multi_decode Z 0 8 (zcbor_cast Z_map_tstruint (decode_repeated_map_tstruint Z)) d;
     d \<leftarrow> zcbor_map_end_decode Z d;
     d \<leftarrow> zcbor_list_end_decode Z d;
     Some ((st, map as_map_tstruint kvs), d)
   }"

definition decode_ctrl_rsp :: "'d zcbor_dec \<Rightarrow> 'd \<Rightarrow> (ctrl_rsp \<times> 'd) option" where
  "decode_ctrl_rsp Z d = do {
     d \<leftarrow> zcbor_list_start_decode Z d;
     (op, d) \<leftarrow> zcbor_uint32_decode Z d;
     assert_opt (op \<le> 2);
     (st, d) \<leftarrow> decode_prov_status Z d;
     d \<leftarrow> zcbor_list_end_decode Z d;
     Some (\<lparr>ctrl_rsp_ctrl_op_m = op, ctrl_rsp_prov_status_m = st\<rparr>, d)
   }"

definition decode_cred_rsp :: "'d zcbor_dec \<Rightarrow> 'd \<Rightarrow> (cred_rsp_r \<times> 'd) option" where
  "decode_cred_rsp Z d =
     zcbor_union Z (zcbor_or Z (zcbor_cast (\<lambda>(st, n). cred_rsp_cred_write_rsp_m st n) (decode_cred_write_rsp Z))
       (zcbor_or Z (zcbor_cast cred_rsp_cred_finalize_rsp_m (decode_cred_finalize_rsp Z))
         (zcbor_cast (\<lambda>(st, kvs). cred_rsp_cred_status_rsp_m st kvs) (decode_cred_status_rsp Z)))) d"

definition decode_scan_rsp :: "'d zcbor_dec \<Rightarrow> 'd \<Rightarrow> (scan_rsp_r \<times> 'd) option" where
  "decode_scan_rsp Z d =
     zcbor_union Z (zcbor_or Z (zcbor_cast scan_rsp_scan_start_rsp_m (decode_scan_start_rsp Z))
       (zcbor_or Z (zcbor_cast (\<lambda>(st, fin, tot). scan_rsp_scan_status_rsp_m st fin tot) (decode_scan_status_rsp Z))
         (zcbor_cast (\<lambda>(st, es). scan_rsp_scan_results_rsp_m st es) (decode_scan_results_rsp Z)))) d"

definition decode_config_rsp :: "'d zcbor_dec \<Rightarrow> 'd \<Rightarrow> (config_rsp_r \<times> 'd) option" where
  "decode_config_rsp Z d =
     zcbor_union Z (zcbor_or Z (zcbor_cast config_rsp_config_status_rsp_m (decode_config_status_rsp Z))
       (zcbor_or Z (zcbor_cast config_rsp_config_set_rsp_m (decode_config_set_rsp Z))
         (zcbor_cast config_rsp_config_apply_rsp_m (decode_config_apply_rsp Z)))) d"

definition decode_auth_rsp :: "'d zcbor_dec \<Rightarrow> 'd \<Rightarrow> (auth_rsp_r \<times> 'd) option" where
  "decode_auth_rsp Z d =
     zcbor_union Z (zcbor_or Z (zcbor_cast (\<lambda>(st, n, p). auth_rsp_auth_challenge_rsp_m st n p) (decode_auth_challenge_rsp Z))
       (zcbor_cast auth_rsp_auth_proof_rsp_m (decode_auth_proof_rsp Z))) d"

definition decode_ver_rsp :: "'d zcbor_dec \<Rightarrow> 'd \<Rightarrow> (ver_rsp \<times> 'd) option" where
  "decode_ver_rsp Z d = do {
     d \<leftarrow> zcbor_list_start_decode Z d;
     d \<leftarrow> zcbor_uint32_expect Z 0 d;
     (st, d) \<leftarrow> decode_prov_status Z d;
     (info, d) \<leftarrow> decode_ver_info Z d;
     d \<leftarrow> zcbor_list_end_decode Z d;
     Some (\<lparr>ver_rsp_prov_status_m = st, ver_rsp_ver_info_m = info\<rparr>, d)
   }"

definition cbor_decode_ver_rsp :: "'d zcbor_dec \<Rightarrow> bytes \<Rightarrow> (ver_rsp \<times> nat) option" where
  "cbor_decode_ver_rsp Z payload =
     (case zcbor_entry_decode Z (zcbor_cast Z_ver_rsp (decode_ver_rsp Z)) payload 5 1 of
        Some (Z_ver_rsp r, consumed) \<Rightarrow> Some (r, consumed) | _ \<Rightarrow> None)"

definition cbor_decode_auth_rsp :: "'d zcbor_dec \<Rightarrow> bytes \<Rightarrow> (auth_rsp_r \<times> nat) option" where
  "cbor_decode_auth_rsp Z payload =
     (case zcbor_entry_decode Z (zcbor_cast Z_auth_rsp (decode_auth_rsp Z)) payload 5 1 of
        Some (Z_auth_rsp r, consumed) \<Rightarrow> Some (r, consumed) | _ \<Rightarrow> None)"

definition cbor_decode_config_rsp :: "'d zcbor_dec \<Rightarrow> bytes \<Rightarrow> (config_rsp_r \<times> nat) option" where
  "cbor_decode_config_rsp Z payload =
     (case zcbor_entry_decode Z (zcbor_cast Z_config_rsp (decode_config_rsp Z)) payload 6 1 of
        Some (Z_config_rsp r, consumed) \<Rightarrow> Some (r, consumed) | _ \<Rightarrow> None)"

definition cbor_decode_scan_rsp :: "'d zcbor_dec \<Rightarrow> bytes \<Rightarrow> (scan_rsp_r \<times> nat) option" where
  "cbor_decode_scan_rsp Z payload =
     (case zcbor_entry_decode Z (zcbor_cast Z_scan_rsp (decode_scan_rsp Z)) payload 6 1 of
        Some (Z_scan_rsp r, consumed) \<Rightarrow> Some (r, consumed) | _ \<Rightarrow> None)"

definition cbor_decode_cred_rsp :: "'d zcbor_dec \<Rightarrow> bytes \<Rightarrow> (cred_rsp_r \<times> nat) option" where
  "cbor_decode_cred_rsp Z payload =
     (case zcbor_entry_decode Z (zcbor_cast Z_cred_rsp (decode_cred_rsp Z)) payload 5 1 of
        Some (Z_cred_rsp r, consumed) \<Rightarrow> Some (r, consumed) | _ \<Rightarrow> None)"

definition cbor_decode_ctrl_rsp :: "'d zcbor_dec \<Rightarrow> bytes \<Rightarrow> (ctrl_rsp \<times> nat) option" where
  "cbor_decode_ctrl_rsp Z payload =
     (case zcbor_entry_decode Z (zcbor_cast Z_ctrl_rsp (decode_ctrl_rsp Z)) payload 4 1 of
        Some (Z_ctrl_rsp r, consumed) \<Rightarrow> Some (r, consumed) | _ \<Rightarrow> None)"

lemmas decode_rsp_defs [codec_defs] =
  decode_prov_status_def
  decode_repeated_ver_info_pop_def
  decode_ver_info_def
  decode_auth_challenge_rsp_def
  decode_auth_proof_rsp_def
  decode_scan_start_rsp_def
  decode_scan_status_rsp_def
  decode_scan_entry_def
  decode_scan_results_rsp_def
  decode_cred_write_rsp_def
  decode_cred_finalize_rsp_def
  decode_repeated_map_tstruint_def
  decode_cred_status_rsp_def
  decode_ctrl_rsp_def
  decode_cred_rsp_def
  decode_scan_rsp_def
  decode_auth_rsp_def
  decode_ver_rsp_def

subsection \<open>The codec over a conforming library\<close>

text \<open>
  The status response up to its detail, and the detail. \<open>detail_settled\<close>: where the response gets that
  far, the detail is either well-formed or missing.
\<close>

definition status_prefix :: "'d zcbor_dec \<Rightarrow> 'd \<Rightarrow> ((u32 \<times> u32) \<times> 'd) option" where
  "status_prefix Z d = do {
     d \<leftarrow> zcbor_list_start_decode Z d;
     d \<leftarrow> zcbor_uint32_expect Z 0 d;
     (st, d) \<leftarrow> decode_prov_status Z d;
     (sta, d) \<leftarrow> decode_sta_state Z d;
     Some ((st, sta), d)
   }"

definition status_detail :: "'d zcbor_dec \<Rightarrow> 'd \<Rightarrow> config_detail_r option \<times> 'd" where
  "status_detail Z d = (case decode_config_detail Z d of Some (v, d') \<Rightarrow> (Some v, d') | None \<Rightarrow> (None, zcbor_union_failed Z d))"

definition detail_settled :: "dst \<Rightarrow> bool" where
  "detail_settled s \<longleftrightarrow> (case status_prefix zref_dec s of None \<Rightarrow> True
     | Some (x, s') \<Rightarrow> cnt s' = 0 \<or> decode_config_detail zref_dec s' \<noteq> None)"

lemma status_split:
  "decode_config_status_rsp Z d = status_prefix Z d \<bind> (\<lambda>((st, sta), d). let (detail, d) = status_detail Z d in
     zcbor_list_end_decode Z d \<bind> (\<lambda>d. Some (\<lparr>config_status_rsp_prov_status_m = st, config_status_rsp_sta_state_m = sta,
       config_status_rsp_config_detail_m = detail\<rparr>, d)))"
  unfolding decode_config_status_rsp_def status_prefix_def status_detail_def[symmetric] by (simp add: bind_assoc case_prod_unfold)

context zcbor_decoder begin

lemma decode_prov_status_sim [sim_intros]: "dsim R (decode_prov_status Z) (decode_prov_status zref_dec)"
  unfolding decode_prov_status_def[abs_def] bind_assert Let_def by (intro sim_intros)

lemma decode_scan_entry_sim [sim_intros]: "dsim R (decode_scan_entry Z) (decode_scan_entry zref_dec)"
  unfolding decode_scan_entry_def[abs_def] bind_assert by (intro sim_intros)

lemma decode_map_tstruint_sim [sim_intros]:
  "dsim R (decode_repeated_map_tstruint Z) (decode_repeated_map_tstruint zref_dec)"
  unfolding decode_repeated_map_tstruint_def[abs_def] bind_assert by (intro sim_intros)

lemma decode_ver_info_sim [sim_intros]: "dsim R (decode_ver_info Z) (decode_ver_info zref_dec)"
  unfolding decode_ver_info_def[abs_def] decode_repeated_ver_info_pop_def[abs_def] bind_assert by (intro sim_intros)

lemma decode_sta_state_sim [sim_intros]: "dsim R (decode_sta_state Z) (decode_sta_state zref_dec)"
  unfolding decode_sta_state_def[abs_def] bind_assert Let_def by (intro sim_intros)

lemma decode_config_detail_sim: "dsim R (decode_config_detail Z) (decode_config_detail zref_dec)"
  unfolding decode_config_detail_def[abs_def] decode_fail_reason_def[abs_def] decode_connected_info_def[abs_def]
    decode_repeated_connected_info_rssi_def[abs_def] bind_assert Let_def by (intro sim_intros)

lemma status_prefix_sim: "dsim R (status_prefix Z) (status_prefix zref_dec)"
  unfolding status_prefix_def[abs_def] by (intro sim_intros)

lemma status_at:
  assumes "R d s" and "detail_settled s"
  shows "rel_option (rel_prod (=) R) (decode_config_status_rsp Z d) (decode_config_status_rsp zref_dec s)"
proof -
  have "rel_option (rel_prod (=) R) (status_prefix Z d) (status_prefix zref_dec s)"
    using status_prefix_sim assms(1) by (simp add: dsim_def)
  then show ?thesis
  proof cases
    case None
    then show ?thesis by (simp add: status_split)
  next
    case (Some x y)
    obtain st sta d1 s1 where x: "x = ((st, sta), d1)" "y = ((st, sta), s1)" "R d1 s1" using Some(3) by (cases x; cases y) auto
    have c: "cnt s1 = 0 \<or> decode_config_detail zref_dec s1 \<noteq> None" using assms(2) Some(2) x(2) by (simp add: detail_settled_def)
    have "rel_option (rel_prod (=) R) (decode_config_detail Z d1) (decode_config_detail zref_dec s1)"
      using decode_config_detail_sim x(3) by (simp add: dsim_def)
    then obtain v d2 s2 where v: "status_detail Z d1 = (v, d2)" "status_detail zref_dec s1 = (v, s2)" "R d2 s2"
    proof cases
      case None
      then show thesis using that[of None "zcbor_union_failed Z d1" "zcbor_union_failed zref_dec s1"] c x(3) union_failed
        by (simp add: status_detail_def)
    next
      case (Some a b)
      then show thesis using that by (cases a; cases b) (auto simp: status_detail_def)
    qed
    have "rel_option R (zcbor_list_end_decode Z d2) (zcbor_list_end_decode zref_dec s2)" using list_end v(3) by (simp add: usim_def)
    then show ?thesis using Some(1,2) x v by cases (simp_all add: status_split)
  qed
qed

lemma config_rsp_at:
  assumes "R d s" and "\<And>s1. zcbor_union_start_code zref_dec s = Some s1 \<Longrightarrow> detail_settled s1"
  shows "rel_option (rel_prod (=) R) (zcbor_cast Z_config_rsp (decode_config_rsp Z) d) (zcbor_cast Z_config_rsp (decode_config_rsp zref_dec) s)"
proof -
  let ?f = "\<lambda>Z. zcbor_or Z (zcbor_cast config_rsp_config_status_rsp_m (decode_config_status_rsp Z))
       (zcbor_or Z (zcbor_cast config_rsp_config_set_rsp_m (decode_config_set_rsp Z))
         (zcbor_cast config_rsp_config_apply_rsp_m (decode_config_apply_rsp Z)))"
  have o: "dsim R (zcbor_or Z (zcbor_cast config_rsp_config_set_rsp_m (decode_config_set_rsp Z))
         (zcbor_cast config_rsp_config_apply_rsp_m (decode_config_apply_rsp Z)))
     (zcbor_or zref_dec (zcbor_cast config_rsp_config_set_rsp_m (decode_config_set_rsp zref_dec))
         (zcbor_cast config_rsp_config_apply_rsp_m (decode_config_apply_rsp zref_dec)))"
    unfolding decode_config_set_rsp_def[abs_def] decode_config_apply_rsp_def[abs_def] by (intro sim_intros)
  have "rel_option R (zcbor_union_start_code Z d) (zcbor_union_start_code zref_dec s)" using union_start assms(1) by (simp add: usim_def)
  then show ?thesis
  proof cases
    case (Some d1 s1)
    have "rel_option (rel_prod (=) R) (decode_config_status_rsp Z d1) (decode_config_status_rsp zref_dec s1)"
      using status_at[OF Some(3)] assms(2)[OF Some(2)] by simp
    then have "rel_option (rel_prod (=) R) (zcbor_cast config_rsp_config_status_rsp_m (decode_config_status_rsp Z) d1)
        (zcbor_cast config_rsp_config_status_rsp_m (decode_config_status_rsp zref_dec) s1)"
      by cases (auto simp: zcbor_cast_def split: prod.split)
    then have "rel_option (rel_prod (=) R) (?f Z d1) (?f zref_dec s1)" using o Some(3) by (rule or_at)
    then show ?thesis using Some(1,2) union_end
      by cases (auto simp: decode_config_rsp_def zcbor_union_def zcbor_cast_def split: prod.split)
  qed (simp add: decode_config_rsp_def zcbor_union_def zcbor_cast_def)
qed

lemma config_rsp_ref:
  assumes "list_all wf_tok ts" and "\<And>s1. zcbor_union_start_code zref_dec (at_start ts 6 1) = Some s1 \<Longrightarrow> detail_settled s1"
  shows "cbor_decode_config_rsp Z (toks_bytes ts) = cbor_decode_config_rsp zref_dec (toks_bytes ts)"
  using entry_at[OF config_rsp_at[OF _ assms(2)] assms(1)] by (simp add: cbor_decode_config_rsp_def)

lemmas decode_rsp_list_defs =
  decode_auth_challenge_rsp_def decode_auth_proof_rsp_def decode_scan_start_rsp_def decode_scan_status_rsp_def
  decode_scan_results_rsp_def decode_cred_write_rsp_def decode_cred_finalize_rsp_def decode_cred_status_rsp_def
  decode_ctrl_rsp_def decode_cred_rsp_def decode_scan_rsp_def decode_auth_rsp_def decode_ver_rsp_def

lemma rsp_sims:
  "dsim R (zcbor_cast Z_ver_rsp (decode_ver_rsp Z)) (zcbor_cast Z_ver_rsp (decode_ver_rsp zref_dec))"
  "dsim R (zcbor_cast Z_auth_rsp (decode_auth_rsp Z)) (zcbor_cast Z_auth_rsp (decode_auth_rsp zref_dec))"
  "dsim R (zcbor_cast Z_scan_rsp (decode_scan_rsp Z)) (zcbor_cast Z_scan_rsp (decode_scan_rsp zref_dec))"
  "dsim R (zcbor_cast Z_cred_rsp (decode_cred_rsp Z)) (zcbor_cast Z_cred_rsp (decode_cred_rsp zref_dec))"
  "dsim R (zcbor_cast Z_ctrl_rsp (decode_ctrl_rsp Z)) (zcbor_cast Z_ctrl_rsp (decode_ctrl_rsp zref_dec))"
  unfolding decode_rsp_list_defs[abs_def] bind_assert by (intro sim_intros)+

lemma rsp_refs:
  assumes "list_all wf_tok ts"
  shows "cbor_decode_ver_rsp Z (toks_bytes ts) = cbor_decode_ver_rsp zref_dec (toks_bytes ts)"
    and "cbor_decode_auth_rsp Z (toks_bytes ts) = cbor_decode_auth_rsp zref_dec (toks_bytes ts)"
    and "cbor_decode_scan_rsp Z (toks_bytes ts) = cbor_decode_scan_rsp zref_dec (toks_bytes ts)"
    and "cbor_decode_cred_rsp Z (toks_bytes ts) = cbor_decode_cred_rsp zref_dec (toks_bytes ts)"
    and "cbor_decode_ctrl_rsp Z (toks_bytes ts) = cbor_decode_ctrl_rsp zref_dec (toks_bytes ts)"
  using rsp_sims[THEN entry, OF assms]
  by (simp_all add: cbor_decode_ver_rsp_def cbor_decode_auth_rsp_def cbor_decode_scan_rsp_def cbor_decode_cred_rsp_def
      cbor_decode_ctrl_rsp_def)

end

end
