(* ===== verification/Codec_Rsp.thy ===== *)
theory Codec_Rsp
  imports Codec_Round Prov_Decode_Rsp
begin

text \<open>
  Responses survive the wire: what the device's encoder writes for a response of any endpoint, a
  client's decoder reads back.
\<close>

subsection \<open>Running the reference decoder\<close>

lemma int32_of_int_tok: "int32_of_tok (int_tok x) = Some x"
proof -
  have b: "- 2147483648 \<le> sint x" "sint x < 2147483648" using sint_greater_eq[of x] sint_less[of x] by simp_all
  show ?thesis
  proof (cases "0 \<le> sint x")
    case True
    then have "(of_nat (nat (sint x)) :: u32) = x" by simp
    with True b show ?thesis by (simp add: int_tok_def int32_of_tok_def)
  next
    case False
    then have "(of_nat (nat (- 1 - sint x)) :: u32) = - 1 - x" by simp
    with False b show ?thesis by (simp add: int_tok_def int32_of_tok_def)
  qed
qed

lemma u32_of_u32_tok: "u32_of_tok (u32_tok x) = Some x"
  by (simp add: u32_of_tok_iff)

lemma run_status:
  assumes "status_ok st" and "0 < c"
  shows "decode_prov_status zref_dec \<lparr>dtoks = u32_tok st # r, cnt = c, saved = sv, dbaks = b\<rparr> =
    Some (st, \<lparr>dtoks = r, cnt = c - 1, saved = sv, dbaks = b\<rparr>)"
  using assms u32_le_6[of st] unat_lt_u32[of st]
  by (auto simp: decode_prov_status_def status_ok_def zref_dec_simps ref_take_def uint_of_tok_def u32_tok_def)

text \<open>A list of elements, each of which takes \<open>k\<close> items of the innermost container.\<close>

lemma run_many:
  assumes "\<And>v r c. v \<in> set vs \<Longrightarrow> k \<le> c \<Longrightarrow> f \<lparr>dtoks = tk v @ r, cnt = c, saved = sv, dbaks = b\<rparr> =
      Some (z v, \<lparr>dtoks = r, cnt = c - k, saved = sv, dbaks = b\<rparr>)"
    and "\<And>r. f \<lparr>dtoks = r, cnt = 0, saved = sv, dbaks = b\<rparr> = None" and "length vs \<le> n"
  shows "ref_many f n \<lparr>dtoks = concat (map tk vs) @ r, cnt = k * length vs, saved = sv, dbaks = b\<rparr> =
    (map z vs, \<lparr>dtoks = r, cnt = 0, saved = sv, dbaks = b\<rparr>)"
  using assms(1,3)
proof (induction vs arbitrary: n)
  case Nil
  then show ?case using assms(2) by (cases n) simp_all
next
  case (Cons v vs)
  then obtain m where m: "n = Suc m" "length vs \<le> m" by (cases n) auto
  have "f \<lparr>dtoks = tk v @ concat (map tk vs) @ r, cnt = k * length (v # vs), saved = sv, dbaks = b\<rparr> =
      Some (z v, \<lparr>dtoks = concat (map tk vs) @ r, cnt = k * length vs, saved = sv, dbaks = b\<rparr>)"
    using Cons.prems(1)[of v "k * length (v # vs)" "concat (map tk vs) @ r"] by simp
  with m Cons.IH[of m] Cons.prems(1) show ?case by simp
qed

lemmas rsp_run = decode_rsp_defs ref_defs zcbor_cast_def zcbor_void_def zcbor_or_def zcbor_union_def

lemma run_scan_entry:
  assumes "scan_entry_ok v" and "0 < c" and "0 < b"
  shows "decode_scan_entry zref_dec \<lparr>dtoks = scan_entry_toks v @ r, cnt = c, saved = sv, dbaks = b\<rparr> =
    Some (v, \<lparr>dtoks = r, cnt = c - 1, saved = sv, dbaks = b\<rparr>)"
  using assms
  by (cases v) (simp add: decode_scan_entry_def zref_dec_simps ref_enter_def ref_leave_def ref_take_def ref_expect_def map_of_tok_def
      bstr_of_tok_def scan_entry_toks_def scan_entry_ok_def int32_of_int_tok u32_of_u32_tok)

lemma run_map_tstruint:
  assumes "2 \<le> c"
  shows "decode_repeated_map_tstruint zref_dec \<lparr>dtoks = map_tstruint_toks v @ r, cnt = c, saved = sv, dbaks = b\<rparr> =
    Some (v, \<lparr>dtoks = r, cnt = c - 2, saved = sv, dbaks = b\<rparr>)"
  using assms
  by (cases v) (simp add: decode_repeated_map_tstruint_def zref_dec_simps ref_take_def tstr_of_tok_def map_tstruint_toks_def u32_of_u32_tok)

lemma run_caps: "length vs \<le> 8 \<Longrightarrow>
   ref_many (zcbor_cast Z_str (ref_take tstr_of_tok)) 8 \<lparr>dtoks = map T_tstr vs @ r, cnt = length vs, saved = sv, dbaks = b\<rparr> =
     (map Z_str vs, \<lparr>dtoks = r, cnt = 0, saved = sv, dbaks = b\<rparr>)"
  using run_many[of vs 1 "zcbor_cast Z_str (ref_take tstr_of_tok)" "\<lambda>v. [T_tstr v]" sv b Z_str 8 r]
  by (simp add: zcbor_cast_def ref_take_def tstr_of_tok_def map_concat split: list.split)

lemma run_entries: "list_all scan_entry_ok vs \<Longrightarrow> length vs \<le> 8 \<Longrightarrow> 0 < b \<Longrightarrow>
   ref_many (zcbor_cast Z_scan_entry (decode_scan_entry zref_dec)) 8
     \<lparr>dtoks = concat (map scan_entry_toks vs) @ r, cnt = length vs, saved = sv, dbaks = b\<rparr> =
     (map Z_scan_entry vs, \<lparr>dtoks = r, cnt = 0, saved = sv, dbaks = b\<rparr>)"
  using run_many[of vs 1 "zcbor_cast Z_scan_entry (decode_scan_entry zref_dec)" scan_entry_toks sv b Z_scan_entry 8 r]
  by (simp add: zcbor_cast_def run_scan_entry list_all_iff)
     (simp add: decode_scan_entry_def zref_dec_simps ref_enter_def ref_take_def split: list.split)

lemma run_kvs: "length vs \<le> 8 \<Longrightarrow>
   ref_many (zcbor_cast Z_map_tstruint (decode_repeated_map_tstruint zref_dec)) 8
     \<lparr>dtoks = concat (map map_tstruint_toks vs) @ r, cnt = 2 * length vs, saved = sv, dbaks = b\<rparr> =
     (map Z_map_tstruint vs, \<lparr>dtoks = r, cnt = 0, saved = sv, dbaks = b\<rparr>)"
  using run_many[of vs 2 "zcbor_cast Z_map_tstruint (decode_repeated_map_tstruint zref_dec)" map_tstruint_toks sv b Z_map_tstruint 8 r]
  by (simp add: zcbor_cast_def run_map_tstruint)
     (simp add: decode_repeated_map_tstruint_def zref_dec_simps ref_take_def split: list.split)

subsection \<open>Decoding an encoded response\<close>

lemma run_ver_info:
  assumes "length (ver_info_caps_tstr v) \<le> 8" and "0 < c" and "1 < b"
  shows "decode_ver_info zref_dec \<lparr>dtoks = ver_info_toks v @ r, cnt = c, saved = sv, dbaks = b\<rparr> =
    Some (v, \<lparr>dtoks = r, cnt = c - 1, saved = sv, dbaks = b\<rparr>)"
proof -
  have p: "decode_repeated_ver_info_pop zref_dec \<lparr>dtoks = T_tstr (str_bytes ''pop'') # T_bool x # r, cnt = 2, saved = s, dbaks = n\<rparr> =
      Some (x, \<lparr>dtoks = r, cnt = 0, saved = s, dbaks = n\<rparr>)"
    "decode_repeated_ver_info_pop zref_dec \<lparr>dtoks = r, cnt = 0, saved = s, dbaks = n\<rparr> = None" for x r s n
    by (simp_all add: decode_repeated_ver_info_pop_def zref_dec_simps ref_expect_def ref_take_def bool_of_tok_def split: list.split)
  show ?thesis using assms
    by (cases v; cases "ver_info_pop v")
       (simp_all add: decode_ver_info_def zref_dec_simps ref_enter_def ref_leave_def ref_take_def ref_expect_def map_of_tok_def
         list_of_tok_def tstr_of_tok_def ver_info_toks_def opt_toks_def present_def u32_of_u32_tok ref_multi_dec_def run_caps
         ref_present_def zcbor_cast_def p comp_def)
qed

lemma decode_ver_rsp_complete: "ver_rsp_ok v \<Longrightarrow>
   \<exists>s'. decode_ver_rsp zref_dec \<lparr>dtoks = ver_rsp_toks v @ r, cnt = 1, saved = [], dbaks = 3\<rparr> = Some (v, s') \<and> dtoks s' = r"
  by (cases v) (simp add: decode_ver_rsp_def zref_dec_simps ref_enter_def ref_leave_def ref_take_def ref_expect_def list_of_tok_def
      ver_rsp_toks_def ver_rsp_ok_def run_status run_ver_info)

lemmas rsp_steps = zref_dec_simps ref_enter_def ref_leave_def ref_take_def ref_expect_def list_of_tok_def map_of_tok_def bstr_of_tok_def
  bool_of_tok_def ref_multi_dec_def ref_union_start_def ref_union_elem_def ref_union_end_def zcbor_union_def zcbor_or_def zcbor_cast_def
  run_status u32_of_u32_tok

lemma decode_auth_rsp_complete: "auth_rsp_ok v \<Longrightarrow>
   \<exists>s'. decode_auth_rsp zref_dec \<lparr>dtoks = auth_rsp_toks v @ r, cnt = 1, saved = [], dbaks = 3\<rparr> = Some (v, s') \<and> dtoks s' = r"
  by (cases v) (simp_all add: decode_auth_rsp_def decode_auth_challenge_rsp_def decode_auth_proof_rsp_def rsp_steps)

lemma u32_le_3: "(x :: u32) \<le> 3 \<Longrightarrow> x = 0 \<or> x = 1 \<or> x = 2 \<or> x = 3"
  using u32_le_6[of x] by (auto simp: word_le_nat_alt)

lemma run_sta_state: "sta \<le> 3 \<Longrightarrow> 0 < c \<Longrightarrow>
   decode_sta_state zref_dec \<lparr>dtoks = u32_tok sta # r, cnt = c, saved = sv, dbaks = b\<rparr> =
     Some (sta, \<lparr>dtoks = r, cnt = c - 1, saved = sv, dbaks = b\<rparr>)"
  using u32_le_3[of sta] unat_lt_u32[of sta]
  by (auto simp: decode_sta_state_def zref_dec_simps ref_take_def uint_of_tok_def u32_tok_def)

lemma run_fail_reason: "x \<le> 1 \<Longrightarrow> 0 < c \<Longrightarrow>
   decode_fail_reason zref_dec \<lparr>dtoks = u32_tok x # r, cnt = c, saved = sv, dbaks = b\<rparr> =
     Some (x, \<lparr>dtoks = r, cnt = c - 1, saved = sv, dbaks = b\<rparr>)"
  using u32_le_3[of x] unat_lt_u32[of x]
  by (auto simp: word_le_nat_alt decode_fail_reason_def zref_dec_simps ref_take_def uint_of_tok_def u32_tok_def)

lemma run_connected_info:
  assumes "config_detail_ok (config_detail_connected_info_m v)" and "0 < c" and "0 < b"
  shows "decode_connected_info zref_dec \<lparr>dtoks = connected_info_toks v @ r, cnt = c, saved = sv, dbaks = b\<rparr> =
    Some (v, \<lparr>dtoks = r, cnt = c - 1, saved = sv, dbaks = b\<rparr>)"
proof -
  have p: "decode_repeated_connected_info_rssi zref_dec \<lparr>dtoks = T_tstr (str_bytes ''rssi'') # int_tok x # r, cnt = 2, saved = s, dbaks = n\<rparr> =
      Some (x, \<lparr>dtoks = r, cnt = 0, saved = s, dbaks = n\<rparr>)"
    "decode_repeated_connected_info_rssi zref_dec \<lparr>dtoks = r, cnt = 0, saved = s, dbaks = n\<rparr> = None" for x r s n
    by (simp_all add: decode_repeated_connected_info_rssi_def zref_dec_simps ref_expect_def ref_take_def int32_of_int_tok split: list.split)
  show ?thesis using assms
    by (cases v; cases "connected_info_rssi v")
       (simp_all add: decode_connected_info_def zref_dec_simps ref_enter_def ref_leave_def ref_take_def ref_expect_def map_of_tok_def
         bstr_of_tok_def connected_info_toks_def opt_toks_def present_def ref_present_def zcbor_cast_def p)
qed

lemma run_config_detail:
  assumes "config_detail_ok v" and "0 < c" and "1 < b"
  shows "decode_config_detail zref_dec \<lparr>dtoks = config_detail_toks v @ r, cnt = c, saved = sv, dbaks = b\<rparr> =
    Some (v, \<lparr>dtoks = r, cnt = c - 1, saved = sv, dbaks = b\<rparr>)"
proof (cases v)
  case (config_detail_fail_reason_m x)
  with assms show ?thesis by (simp add: decode_config_detail_def rsp_steps run_fail_reason)
next
  case (config_detail_connected_info_m i)
  have "decode_fail_reason zref_dec \<lparr>dtoks = connected_info_toks i @ r, cnt = c, saved = s, dbaks = n\<rparr> = None" for s n
    by (simp add: decode_fail_reason_def connected_info_toks_def zref_dec_simps ref_take_def uint_of_tok_def)
  with assms config_detail_connected_info_m show ?thesis by (simp add: decode_config_detail_def rsp_steps run_connected_info)
qed

lemma no_config_detail: "decode_config_detail zref_dec \<lparr>dtoks = r, cnt = 0, saved = sv, dbaks = b\<rparr> = None"
  by (simp add: decode_config_detail_def decode_fail_reason_def decode_connected_info_def rsp_steps split: list.split)

lemma run_status_detail:
  assumes "case v of None \<Rightarrow> True | Some x \<Rightarrow> config_detail_ok x" and "1 < b"
  shows "status_detail zref_dec \<lparr>dtoks = (case v of None \<Rightarrow> [] | Some x \<Rightarrow> config_detail_toks x) @ r, cnt = present v, saved = sv, dbaks = b\<rparr> =
    (v, \<lparr>dtoks = r, cnt = 0, saved = sv, dbaks = b\<rparr>)"
  using assms by (cases v) (simp_all add: status_detail_def run_config_detail no_config_detail present_def zref_dec_simps)

lemma run_status_prefix:
  assumes "status_ok st" and "sta \<le> 3" and "0 < b" and "0 < c"
  shows "status_prefix zref_dec \<lparr>dtoks = T_list (3 + k) # T_uint 0 # u32_tok st # u32_tok sta # r, cnt = c, saved = sv, dbaks = b\<rparr> =
    Some ((st, sta), \<lparr>dtoks = r, cnt = k, saved = ([], c - 1) # sv, dbaks = b - 1\<rparr>)"
  using assms by (simp add: status_prefix_def rsp_steps run_sta_state u32_tok_def[of 0] del: of_nat_add)

lemma decode_config_rsp_complete: "config_rsp_ok v \<Longrightarrow>
   \<exists>s'. decode_config_rsp zref_dec \<lparr>dtoks = config_rsp_toks v @ r, cnt = 1, saved = [], dbaks = 4\<rparr> = Some (v, s') \<and> dtoks s' = r"
proof (cases v)
  case (config_rsp_config_status_rsp_m s)
  then show "config_rsp_ok v \<Longrightarrow> ?thesis"
    by (cases s) (simp add: decode_config_rsp_def status_split run_status_prefix run_status_detail rsp_steps)
qed (simp_all add: decode_config_rsp_def status_split status_prefix_def decode_config_set_rsp_def decode_config_apply_rsp_def rsp_steps)

lemma config_rsp_settled:
  assumes "config_rsp_ok v" and "zcbor_union_start_code zref_dec (at_start (config_rsp_toks v) 6 1) = Some s"
  shows "detail_settled s"
proof -
  have s: "s = \<lparr>dtoks = config_rsp_toks v, cnt = 1, saved = [(config_rsp_toks v, 1)], dbaks = 3\<rparr>"
    using assms(2) by (simp add: at_start_def zref_dec_simps ref_union_start_def)
  show ?thesis
  proof (cases v)
    case (config_rsp_config_status_rsp_m x)
    with assms(1) show ?thesis unfolding s detail_settled_def
      by (cases "config_status_rsp_config_detail_m x")
        (simp_all add: run_status_prefix[of _ _ _ _ 0, simplified] run_status_prefix[of _ _ _ _ 1, simplified] present_def
          run_config_detail[of _ _ _ "[]", simplified])
  qed (simp_all add: s detail_settled_def status_prefix_def rsp_steps)
qed

lemma decode_scan_rsp_complete: "scan_rsp_ok v \<Longrightarrow>
   \<exists>s'. decode_scan_rsp zref_dec \<lparr>dtoks = scan_rsp_toks v @ r, cnt = 1, saved = [], dbaks = 4\<rparr> = Some (v, s') \<and> dtoks s' = r"
proof (cases v)
  case (scan_rsp_scan_results_rsp_m st es)
  then show "scan_rsp_ok v \<Longrightarrow> ?thesis"
    by (simp add: run_entries decode_scan_rsp_def decode_scan_start_rsp_def decode_scan_status_rsp_def decode_scan_results_rsp_def rsp_steps comp_def)
qed (simp_all add: decode_scan_rsp_def decode_scan_start_rsp_def decode_scan_status_rsp_def rsp_steps)

lemma decode_cred_rsp_complete: "cred_rsp_ok v \<Longrightarrow>
   \<exists>s'. decode_cred_rsp zref_dec \<lparr>dtoks = cred_rsp_toks v @ r, cnt = 1, saved = [], dbaks = 3\<rparr> = Some (v, s') \<and> dtoks s' = r"
proof (cases v)
  case (cred_rsp_cred_status_rsp_m st kvs)
  then show "cred_rsp_ok v \<Longrightarrow> ?thesis"
    by (simp add: run_kvs decode_cred_rsp_def decode_cred_write_rsp_def decode_cred_finalize_rsp_def decode_cred_status_rsp_def rsp_steps comp_def)
qed (simp_all add: decode_cred_rsp_def decode_cred_write_rsp_def decode_cred_finalize_rsp_def rsp_steps)

lemma decode_ctrl_rsp_complete: "ctrl_rsp_ok v \<Longrightarrow>
   \<exists>s'. decode_ctrl_rsp zref_dec \<lparr>dtoks = ctrl_rsp_toks v @ r, cnt = 1, saved = [], dbaks = 2\<rparr> = Some (v, s') \<and> dtoks s' = r"
  by (cases v) (simp add: decode_ctrl_rsp_def ctrl_rsp_toks_def ctrl_rsp_ok_def rsp_steps)

subsection \<open>The tokens of an encoded response\<close>

lemma tok_size: "t \<in> set ts \<Longrightarrow> length (tok_bytes t) \<le> length (toks_bytes ts)"
  by (induction ts) auto

lemma wf_int_tok [simp]: "wf_tok (int_tok x)"
  using sint_greater_eq[of x] sint_less[of x] by (simp add: int_tok_def nat_less_iff)

lemma wf_tstr: "T_tstr k \<in> set ts \<Longrightarrow> length (toks_bytes ts) < 18446744073709551616 \<Longrightarrow> length k < 18446744073709551616"
  using tok_size[of "T_tstr k" ts] by simp

lemma wf_ver_rsp:
  assumes "ver_rsp_ok v" and "length (toks_bytes (ver_rsp_toks v)) < 18446744073709551616"
  shows "list_all wf_tok (ver_rsp_toks v)"
proof -
  have "k \<in> set (ver_info_caps_tstr (ver_rsp_ver_info_m v)) \<or> k = ver_info_lib (ver_rsp_ver_info_m v) \<Longrightarrow>
      T_tstr k \<in> set (ver_rsp_toks v)" for k by (auto simp: ver_rsp_toks_def ver_info_toks_def)
  then have "k \<in> set (ver_info_caps_tstr (ver_rsp_ver_info_m v)) \<or> k = ver_info_lib (ver_rsp_ver_info_m v) \<Longrightarrow>
      length k < 18446744073709551616" for k using wf_tstr[OF _ assms(2)] by blast
  then show ?thesis using assms(1)
    by (auto simp: ver_rsp_toks_def ver_info_toks_def ver_rsp_ok_def opt_toks_def present_def list_all_iff str_bytes_def split: option.splits)
qed

lemma wf_auth_rsp: "auth_rsp_ok v \<Longrightarrow> list_all wf_tok (auth_rsp_toks v)"
  by (cases v) simp_all

lemma wf_config_detail: "config_detail_ok v \<Longrightarrow> list_all wf_tok (config_detail_toks v)"
  by (cases v) (auto simp: connected_info_toks_def opt_toks_def present_def str_bytes_def split: option.splits)

lemma wf_config_rsp: "config_rsp_ok v \<Longrightarrow> list_all wf_tok (config_rsp_toks v)"
  by (cases v) (auto simp: wf_config_detail present_def split: option.splits)

lemma wf_scan_rsp: "scan_rsp_ok v \<Longrightarrow> list_all wf_tok (scan_rsp_toks v)"
  by (cases v) (auto simp: list_all_iff scan_entry_toks_def scan_entry_ok_def str_bytes_def)

lemma wf_cred_rsp:
  assumes "cred_rsp_ok v" and "length (toks_bytes (cred_rsp_toks v)) < 18446744073709551616"
  shows "list_all wf_tok (cred_rsp_toks v)"
proof (cases v)
  case (cred_rsp_cred_status_rsp_m st kvs)
  have "x \<in> set kvs \<Longrightarrow> T_tstr (cred_status_rsp_map_tstruint_key x) \<in> set (cred_rsp_toks v)" for x
    by (auto simp: cred_rsp_cred_status_rsp_m map_tstruint_toks_def)
  then have "x \<in> set kvs \<Longrightarrow> length (cred_status_rsp_map_tstruint_key x) < 18446744073709551616" for x
    using wf_tstr[OF _ assms(2)] by blast
  then show ?thesis using assms(1) cred_rsp_cred_status_rsp_m by (auto simp: list_all_iff map_tstruint_toks_def)
qed simp_all

lemma wf_ctrl_rsp: "list_all wf_tok (ctrl_rsp_toks v)"
  by (simp add: ctrl_rsp_toks_def)

text \<open>Decoding what was encoded: the shape all round trips share.\<close>

lemma entry_roundtrip:
  assumes "list_all wf_tok us"
    and "\<exists>s'. f \<lparr>dtoks = us @ [], cnt = 1, saved = [], dbaks = k - 2\<rparr> = Some (v, s') \<and> dtoks s' = []"
  shows "zcbor_entry_decode zref_dec (zcbor_cast c f) (toks_bytes us) k 1 = Some (c v, length (toks_bytes us))"
  using assms entry_complete[of f us "[]" k v _ c] by auto

lemma round_ver_rsp:
  assumes E: "zcbor_encoder Z R" and D: "zcbor_decoder Z' R'" and ok: "ver_rsp_ok v" and n: "n < 18446744073709551616"
    and e: "cbor_encode_ver_rsp Z n v = Some bs"
  shows "cbor_decode_ver_rsp Z' bs = Some (v, length bs)"
proof -
  have bs: "bs = toks_bytes (ver_rsp_toks v)" "length bs \<le> n"
    using e by (auto simp: zcbor_encoder.cbor_encode_ver_rsp_ref[OF E] enc_ver_rsp[OF ok] emit_toks_Some)
  then have wf: "list_all wf_tok (ver_rsp_toks v)" using wf_ver_rsp[OF ok] n by simp
  from entry_roundtrip[OF wf, of "decode_ver_rsp zref_dec" 5 v Z_ver_rsp] decode_ver_rsp_complete[OF ok, of "[]"]
  show ?thesis unfolding bs(1) zcbor_decoder.rsp_refs[OF D wf] unfolding cbor_decode_ver_rsp_def by simp
qed

lemma round_auth_rsp:
  assumes E: "zcbor_encoder Z R" and D: "zcbor_decoder Z' R'" and ok: "auth_rsp_ok v" and e: "cbor_encode_auth_rsp Z n v = Some bs"
  shows "cbor_decode_auth_rsp Z' bs = Some (v, length bs)"
proof -
  have bs: "bs = toks_bytes (auth_rsp_toks v)"
    using e by (simp add: zcbor_encoder.cbor_encode_auth_rsp_ref[OF E] enc_auth_rsp[OF ok] emit_toks_Some)
  note wf = wf_auth_rsp[OF ok]
  from entry_roundtrip[OF wf, of "decode_auth_rsp zref_dec" 5 v Z_auth_rsp] decode_auth_rsp_complete[OF ok, of "[]"]
  show ?thesis unfolding bs(1) zcbor_decoder.rsp_refs[OF D wf] unfolding cbor_decode_auth_rsp_def by simp
qed

lemma round_config_rsp:
  assumes E: "zcbor_encoder Z R" and D: "zcbor_decoder Z' R'" and ok: "config_rsp_ok v" and e: "cbor_encode_config_rsp Z n v = Some bs"
  shows "cbor_decode_config_rsp Z' bs = Some (v, length bs)"
proof -
  have bs: "bs = toks_bytes (config_rsp_toks v)"
    using e by (simp add: zcbor_encoder.cbor_encode_config_rsp_ref[OF E] enc_config_rsp[OF ok] emit_toks_Some)
  note wf = wf_config_rsp[OF ok]
  have r: "cbor_decode_config_rsp Z' (toks_bytes (config_rsp_toks v)) = cbor_decode_config_rsp zref_dec (toks_bytes (config_rsp_toks v))"
    by (rule zcbor_decoder.config_rsp_ref[OF D wf]) (rule config_rsp_settled[OF ok])
  from entry_roundtrip[OF wf, of "decode_config_rsp zref_dec" 6 v Z_config_rsp] decode_config_rsp_complete[OF ok, of "[]"]
  show ?thesis unfolding bs r unfolding cbor_decode_config_rsp_def by simp
qed

lemma round_scan_rsp:
  assumes E: "zcbor_encoder Z R" and D: "zcbor_decoder Z' R'" and ok: "scan_rsp_ok v" and e: "cbor_encode_scan_rsp Z n v = Some bs"
  shows "cbor_decode_scan_rsp Z' bs = Some (v, length bs)"
proof -
  have bs: "bs = toks_bytes (scan_rsp_toks v)"
    using e by (simp add: zcbor_encoder.cbor_encode_scan_rsp_ref[OF E] enc_scan_rsp[OF ok] emit_toks_Some)
  note wf = wf_scan_rsp[OF ok]
  from entry_roundtrip[OF wf, of "decode_scan_rsp zref_dec" 6 v Z_scan_rsp] decode_scan_rsp_complete[OF ok, of "[]"]
  show ?thesis unfolding bs(1) zcbor_decoder.rsp_refs[OF D wf] unfolding cbor_decode_scan_rsp_def by simp
qed

lemma round_cred_rsp:
  assumes E: "zcbor_encoder Z R" and D: "zcbor_decoder Z' R'" and ok: "cred_rsp_ok v" and n: "n < 18446744073709551616"
    and e: "cbor_encode_cred_rsp Z n v = Some bs"
  shows "cbor_decode_cred_rsp Z' bs = Some (v, length bs)"
proof -
  have bs: "bs = toks_bytes (cred_rsp_toks v)" "length bs \<le> n"
    using e by (auto simp: zcbor_encoder.cbor_encode_cred_rsp_ref[OF E] enc_cred_rsp[OF ok] emit_toks_Some)
  then have wf: "list_all wf_tok (cred_rsp_toks v)" using wf_cred_rsp[OF ok] n by simp
  from entry_roundtrip[OF wf, of "decode_cred_rsp zref_dec" 5 v Z_cred_rsp] decode_cred_rsp_complete[OF ok, of "[]"]
  show ?thesis unfolding bs(1) zcbor_decoder.rsp_refs[OF D wf] unfolding cbor_decode_cred_rsp_def by simp
qed

lemma round_ctrl_rsp:
  assumes E: "zcbor_encoder Z R" and D: "zcbor_decoder Z' R'" and ok: "ctrl_rsp_ok v" and e: "cbor_encode_ctrl_rsp Z n v = Some bs"
  shows "cbor_decode_ctrl_rsp Z' bs = Some (v, length bs)"
proof -
  have bs: "bs = toks_bytes (ctrl_rsp_toks v)"
    using e by (simp add: zcbor_encoder.cbor_encode_ctrl_rsp_ref[OF E] enc_ctrl_rsp[OF ok] emit_toks_Some)
  note wf = wf_ctrl_rsp[of v]
  from entry_roundtrip[OF wf, of "decode_ctrl_rsp zref_dec" 4 v Z_ctrl_rsp] decode_ctrl_rsp_complete[OF ok, of "[]"]
  show ?thesis unfolding bs(1) zcbor_decoder.rsp_refs[OF D wf] unfolding cbor_decode_ctrl_rsp_def by simp
qed

end
