(* ===== verification/Device.thy ===== *)
theory Device
  imports Codec_Enc Codec_Dec
begin

text \<open>
  The static memory of the device library and its environment.

  \<^item> \<open>device\<close> is the static state of every source file, one field or nested record per C
    static, together with the log of the calls made to code outside the library.
  \<^item> The environment \<open>E\<close> is the build configuration, the CBOR library and the answers of every
    external call. An answer is an arbitrary function of the log so far, so that a theorem about
    all \<open>E\<close> is a theorem about every behaviour of the kernel, the settings and Wi-Fi subsystems,
    the crypto provider and the Bluetooth stack. Where the code relies on such a component, the
    property names what it relies on as a predicate on \<open>E\<close>.
  \<^item> The log is kept latest call first. Contents of kernel objects and of the persistent stores
    are functions of the log.

  The last part models the event fan-out of \<^verbatim>\<open>src/manager.c\<close>, which every component calls.
\<close>

subsection \<open>Calls to code outside the library\<close>

datatype pouch_prov_event =
    POUCH_PROV_EVENT_STARTED
  | POUCH_PROV_EVENT_SESSION_AUTHORIZED
  | POUCH_PROV_EVENT_WIFI_CRED_RECV
  | POUCH_PROV_EVENT_WIFI_CONNECTED
  | POUCH_PROV_EVENT_WIFI_FAIL
  | POUCH_PROV_EVENT_CLOUD_CRED_STORED
  | POUCH_PROV_EVENT_ENDED

datatype pouch_prov_fail_reason = POUCH_PROV_FAIL_AUTH_ERROR | POUCH_PROV_FAIL_NETWORK_NOT_FOUND

record rpc_rsp =
  rsp_path :: string
  rsp_msg :: bytes

datatype work = autostop_work | retry_work

datatype wifi_security = WIFI_SECURITY_TYPE_NONE | WIFI_SECURITY_TYPE_PSK

record wifi_connect_req_params =
  params_ssid :: bytes
  params_psk :: "bytes option"
  params_security :: wifi_security
  params_channel :: u8
  params_bssid :: bytes

text \<open>The arguments of \<^verbatim>\<open>wifi_credentials_set_personal\<close>.\<close>

record personal_cred =
  pc_ssid :: bytes
  pc_security :: wifi_security
  pc_bssid :: "bytes option"
  pc_password :: bytes
  pc_channel :: u8

text \<open>\<^verbatim>\<open>enum wifi_conn_status\<close>: the two values the code names, and the others.\<close>

datatype conn_status = CONN_AP_NOT_FOUND | CONN_WRONG_PASSWORD | CONN_OTHER int

text \<open>
  \<^verbatim>\<open>struct pouch_config\<close>, what the manager hands to pouch: the device id without encryption, or the
  certificate and the key with it.
\<close>

datatype pouch_config = pouch_device_id bytes | pouch_identity bytes "nat option"

datatype ext =
    X_event_cb pouch_prov_event "pouch_prov_fail_reason option"
  | X_work_schedule work
  | X_work_reschedule work nat
  | X_work_cancel work
  | X_event_clear
  | X_event_post
  | X_event_wait bool
  | X_malloc nat bool
  | X_free rpc_rsp
  | X_fifo_put rpc_rsp
  | X_fifo_get "rpc_rsp option"
  | X_sem_give
  | X_sem_take rc
  | X_sem_reset
  | X_uplink_write string bytes rc
  | X_settings_subsys_init
  | X_settings_load string rc
  | X_settings_save string bytes rc
  | X_settings_delete string
  | X_wifi_cred_set personal_cred rc
  | X_wifi_cred_delete bytes
  | X_wifi_cred_delete_all
  | X_net_add_callback string
  | X_wifi_connect wifi_connect_req_params rc
  | X_wifi_scan rc
  | X_wifi_iface_status bool
  | X_rand bytes
  | X_psa_crypto_init bool
  | X_psa_import bytes "nat option"
  | X_psa_mac_setup nat bool
  | X_psa_mac_update bytes bool
  | X_psa_mac_abort
  | X_psa_mac_finish "bytes option"
  | X_psa_generate "nat option"
  | X_psa_export nat "bytes option"
  | X_psa_destroy nat
  | X_x509_setup nat bool
  | X_x509_der "bytes option"
  | X_bt_enable rc
  | X_bt_set_security rc
  | X_bt_adv_start string u8 rc
  | X_bt_adv_stop rc
  | X_pouch_init pouch_config rc
  | X_tick nat

type_synonym trace = "ext list"

record wifi_iface_status =
  ifs_ssid :: bytes
  ifs_rssi :: u32

text \<open>One value handed to a settings handler: its key, its length, and what reading it gives.\<close>

record settings_item =
  si_key :: string
  si_len :: nat
  si_read :: "errno + bytes"

subsection \<open>Build configuration and environment\<close>

record kconfig =
  CONFIG_POUCH_PROV_WIFI :: bool
  CONFIG_POUCH_PROV_CRED :: bool
  CONFIG_POUCH_PROV_AUTH :: bool
  CONFIG_POUCH_ENCRYPTION_NONE :: bool
  CONFIG_SETTINGS :: bool
  CONFIG_POUCH_PROV_AUTOSTOP_TIMEOUT_S :: nat
  CONFIG_POUCH_PROV_SCAN_CACHE :: nat
  CONFIG_POUCH_BLOCK_SIZE :: u32
  CONFIG_POUCH_PROV_DEVICE_NAME_PREFIX :: string

record ('e, 'd) env = kconfig +
  POUCH_CONTENT_TYPE_CBOR :: u16
  zenc :: "'e zcbor_enc"
  zdec :: "'d zcbor_dec"
  k_event_wait :: "trace \<Rightarrow> bool"
  k_malloc :: "nat \<Rightarrow> trace \<Rightarrow> bool"
  k_fifo_get :: "trace \<Rightarrow> rpc_rsp option"
  k_fifo_is_empty :: "trace \<Rightarrow> bool"
  k_sem_take :: "trace \<Rightarrow> rc"
  pouch_uplink_entry_write :: "string \<Rightarrow> bytes \<Rightarrow> trace \<Rightarrow> rc"
  settings_load_items :: "string \<Rightarrow> trace \<Rightarrow> settings_item list"
  settings_load_rc :: "string \<Rightarrow> trace \<Rightarrow> rc"
  settings_save_one :: "string \<Rightarrow> bytes \<Rightarrow> trace \<Rightarrow> rc"
  wifi_credentials_set_personal :: "personal_cred \<Rightarrow> trace \<Rightarrow> rc"
  wifi_credentials_is_empty :: "trace \<Rightarrow> bool"
  net_if_get_wifi_sta :: "trace \<Rightarrow> nat option"
  net_if_get_first_wifi :: "trace \<Rightarrow> nat option"
  net_mgmt_wifi_connect :: "wifi_connect_req_params \<Rightarrow> trace \<Rightarrow> rc"
  net_mgmt_wifi_scan :: "trace \<Rightarrow> rc"
  net_mgmt_wifi_iface_status :: "trace \<Rightarrow> wifi_iface_status option"
  net_if_ipv4_get_global_addr :: "trace \<Rightarrow> (u8 \<times> u8 \<times> u8 \<times> u8) option"
  sys_rand_byte :: "trace \<Rightarrow> nat \<Rightarrow> u8"
  psa_crypto_init :: "trace \<Rightarrow> bool"
  psa_import_key :: "bytes \<Rightarrow> trace \<Rightarrow> nat option"
  psa_mac_sign_setup :: "nat \<Rightarrow> trace \<Rightarrow> bool"
  psa_mac_update :: "bytes \<Rightarrow> trace \<Rightarrow> bool"
  psa_mac_sign_finish :: "trace \<Rightarrow> bytes option"
  psa_generate_key :: "trace \<Rightarrow> nat option"
  psa_export_key :: "nat \<Rightarrow> trace \<Rightarrow> bytes option"
  x509write_setup :: "nat \<Rightarrow> trace \<Rightarrow> bool"
  x509write_crt_der :: "trace \<Rightarrow> bytes option"
  bt_is_ready :: "trace \<Rightarrow> bool"
  bt_enable :: "trace \<Rightarrow> rc"
  bt_id_addr :: "trace \<Rightarrow> nat \<Rightarrow> u8"
  bt_conn_set_security :: "trace \<Rightarrow> rc"
  bt_le_adv_start :: "trace \<Rightarrow> rc"
  bt_le_adv_stop :: "trace \<Rightarrow> rc"
  pouch_init :: "pouch_config \<Rightarrow> trace \<Rightarrow> rc"

subsection \<open>Static state\<close>

text \<open>\<^verbatim>\<open>struct pouch_prov_config\<close>: a \<^verbatim>\<open>char *\<close> is the string it points at, or \<open>None\<close> for \<^verbatim>\<open>NULL\<close>.\<close>

record pouch_prov_config =
  pop :: "bytes option"
  device_id :: "bytes option"
  wifi_conn_attempts :: u32
  event_cb :: bool

text \<open>\<^verbatim>\<open>struct blob\<close> of \<^verbatim>\<open>src/cred_store.c\<close>; \<^verbatim>\<open>cap\<close> is the size of the array \<^verbatim>\<open>buf\<close> points at.\<close>

record blob =
  buf :: bytes
  cap :: nat
  len :: nat
  staged :: nat
  expected :: nat

text \<open>\<^verbatim>\<open>wc\<close> of \<^verbatim>\<open>src/handlers/wifi_config.c\<close>\<close>

record wifi_config_state =
  wc_ssid :: bytes
  wc_ssid_len :: nat
  wc_pass :: bytes
  wc_pass_len :: nat
  wc_bssid :: bytes
  wc_has_bssid :: bool
  wc_channel :: u8
  wc_inflight_ssid :: bytes
  wc_inflight_ssid_len :: nat
  wc_inflight_pass :: bytes
  wc_inflight_pass_len :: nat
  wc_inflight_bssid :: bytes
  wc_inflight_has_bssid :: bool
  wc_inflight_channel :: u8
  wc_attempts_max :: u32
  wc_attempts_completed :: u32
  wc_last_conn_status :: conn_status
  wc_sta_state :: u32
  wc_fail_reason :: u32
  wc_cb_registered :: bool

text \<open>\<^verbatim>\<open>struct ap_entry\<close> and \<^verbatim>\<open>sc\<close> of \<^verbatim>\<open>src/handlers/wifi_scan.c\<close>\<close>

record ap_entry =
  ap_ssid :: bytes
  ap_ssid_len :: nat
  ap_bssid :: bytes
  ap_channel :: u8
  ap_rssi :: u8
  ap_auth :: u32

record wifi_scan_state =
  sc_entries :: "ap_entry list"
  sc_count :: nat
  sc_finished :: bool
  sc_cb_registered :: bool

text \<open>\<^verbatim>\<open>state\<close> of \<^verbatim>\<open>src/handlers/auth.c\<close>\<close>

record auth_state =
  cli_nonce :: bytes
  dev_nonce :: bytes
  challenged :: bool
  attempts :: u8

text \<open>\<^verbatim>\<open>active\<close> of \<^verbatim>\<open>src/dispatch.c\<close>; the endpoint pointer is an index into \<^verbatim>\<open>endpoints\<close>.\<close>

record active_state =
  endpoint :: "nat option"
  active_len :: nat
  overflow :: bool
  active_buf :: bytes

text \<open>The statics of \<^verbatim>\<open>src/identity.c\<close>\<close>

record identity_state =
  cert_der :: bytes
  cert_der_len :: nat
  priv_raw :: bytes
  priv_raw_len :: nat
  identity_key :: "nat option"

record device =
  config :: pouch_prov_config
  initialized :: bool
  running :: bool
  blobs :: "blob list"
  wc :: wifi_config_state
  ip4 :: bytes
  sc :: wifi_scan_state
  auth :: auth_state
  active :: active_state
  authorized :: bool
  identity :: identity_state
  adv_enabled :: bool
  adv_flags :: u8
  device_name :: string
  trace :: trace

definition POUCH_PROV_MSG_MAX :: nat where
  "POUCH_PROV_MSG_MAX = 384"

text \<open>Every external call is appended to the log.\<close>

definition log :: "ext \<Rightarrow> device \<Rightarrow> device" where
  "log x d = d\<lparr>trace := x # trace d\<rparr>"

lemma log_sel [simp]:
  "trace (log x d) = x # trace d" "config (log x d) = config d" "initialized (log x d) = initialized d"
  "running (log x d) = running d" "blobs (log x d) = blobs d" "wc (log x d) = wc d" "ip4 (log x d) = ip4 d"
  "sc (log x d) = sc d" "auth (log x d) = auth d" "active (log x d) = active d"
  "authorized (log x d) = authorized d" "identity (log x d) = identity d"
  "adv_enabled (log x d) = adv_enabled d" "adv_flags (log x d) = adv_flags d"
  "device_name (log x d) = device_name d"
  by (simp_all add: log_def)

text \<open>\<open>d'\<close> differs from \<open>d\<close> at most in the log.\<close>

definition only_log :: "device \<Rightarrow> device \<Rightarrow> bool" where
  "only_log d d' \<longleftrightarrow> (\<exists>t. d' = d\<lparr>trace := t\<rparr>)"

lemma only_log_refl [simp, intro]: "only_log d d"
  unfolding only_log_def by (rule exI[of _ "trace d"]) simp

lemma only_log_log [intro]: "only_log d d' \<Longrightarrow> only_log d (log x d')"
  by (auto simp: only_log_def log_def)

lemma only_log_trans: "only_log d d' \<Longrightarrow> only_log d' d'' \<Longrightarrow> only_log d d''"
  by (auto simp: only_log_def)

lemma only_logD:
  assumes "only_log d d'"
  shows "config d' = config d" "initialized d' = initialized d" "running d' = running d" "blobs d' = blobs d"
    "wc d' = wc d" "ip4 d' = ip4 d" "sc d' = sc d" "auth d' = auth d" "active d' = active d"
    "authorized d' = authorized d" "identity d' = identity d" "adv_enabled d' = adv_enabled d"
    "adv_flags d' = adv_flags d" "device_name d' = device_name d"
  using assms by (auto simp: only_log_def)

subsection \<open>Event fan-out (\<open>src/manager.c\<close>)\<close>

definition autostop_arm :: "('e, 'd) env \<Rightarrow> device \<Rightarrow> device" where
  "autostop_arm E d =
     (if running d
      then log (X_work_reschedule autostop_work (CONFIG_POUCH_PROV_AUTOSTOP_TIMEOUT_S E)) d else d)"

definition autostop_cancel :: "('e, 'd) env \<Rightarrow> device \<Rightarrow> device" where
  "autostop_cancel E d =
     (if 0 < CONFIG_POUCH_PROV_AUTOSTOP_TIMEOUT_S E then log (X_work_cancel autostop_work) d else d)"

definition pouch_prov_emit ::
  "('e, 'd) env \<Rightarrow> pouch_prov_event \<Rightarrow> pouch_prov_fail_reason option \<Rightarrow> device \<Rightarrow> device" where
  "pouch_prov_emit E event data d =
     (let d = (if event_cb (config d) then log (X_event_cb event data) d else d) in
      if 0 < CONFIG_POUCH_PROV_AUTOSTOP_TIMEOUT_S E then
        (if CONFIG_POUCH_PROV_WIFI E then
           (if event = POUCH_PROV_EVENT_WIFI_CONNECTED then autostop_arm E d else d)
         else if CONFIG_POUCH_PROV_CRED E then
           (if event = POUCH_PROV_EVENT_CLOUD_CRED_STORED then autostop_arm E d else d)
         else d)
      else d)"

text \<open>Emitting an event changes nothing but the log.\<close>

lemma emit_sel [simp]:
  "config (pouch_prov_emit E ev x d) = config d" "initialized (pouch_prov_emit E ev x d) = initialized d"
  "running (pouch_prov_emit E ev x d) = running d" "blobs (pouch_prov_emit E ev x d) = blobs d"
  "wc (pouch_prov_emit E ev x d) = wc d" "ip4 (pouch_prov_emit E ev x d) = ip4 d"
  "sc (pouch_prov_emit E ev x d) = sc d" "auth (pouch_prov_emit E ev x d) = auth d"
  "active (pouch_prov_emit E ev x d) = active d" "authorized (pouch_prov_emit E ev x d) = authorized d"
  "identity (pouch_prov_emit E ev x d) = identity d" "adv_enabled (pouch_prov_emit E ev x d) = adv_enabled d"
  "adv_flags (pouch_prov_emit E ev x d) = adv_flags d" "device_name (pouch_prov_emit E ev x d) = device_name d"
  by (simp_all add: pouch_prov_emit_def autostop_arm_def Let_def)

lemma autostop_cancel_sel [simp]:
  "config (autostop_cancel E d) = config d" "initialized (autostop_cancel E d) = initialized d"
  "running (autostop_cancel E d) = running d" "blobs (autostop_cancel E d) = blobs d"
  "wc (autostop_cancel E d) = wc d" "ip4 (autostop_cancel E d) = ip4 d"
  "sc (autostop_cancel E d) = sc d" "auth (autostop_cancel E d) = auth d"
  "active (autostop_cancel E d) = active d" "authorized (autostop_cancel E d) = authorized d"
  "identity (autostop_cancel E d) = identity d" "adv_enabled (autostop_cancel E d) = adv_enabled d"
  "adv_flags (autostop_cancel E d) = adv_flags d" "device_name (autostop_cancel E d) = device_name d"
  by (simp_all add: autostop_cancel_def)

lemma only_log_emit [intro]: "only_log d d' \<Longrightarrow> only_log d (pouch_prov_emit E ev x d')"
  by (auto simp: pouch_prov_emit_def autostop_arm_def Let_def)

lemma only_log_cancel [intro]: "only_log d d' \<Longrightarrow> only_log d (autostop_cancel E d')"
  by (auto simp: autostop_cancel_def)

end
