(* ===== verification/Env.thy ===== *)
theory Env
  imports Device "HOL-Library.Sublist"
begin

text \<open>
  What the library relies on outside itself. The contents of the kernel objects and of the
  persistent stores are computed from the log of calls; each contract says that the answers of
  the environment agree with those contents. \<open>ref_env\<close> is one environment that meets all of them.
\<close>

subsection \<open>Contents of kernel objects and stores\<close>

text \<open>The response FIFO, oldest element first.\<close>

primrec fifo_of :: "trace \<Rightarrow> rpc_rsp list" where
  "fifo_of [] = []"
| "fifo_of (x # t) = (case x of X_fifo_put r \<Rightarrow> fifo_of t @ [r]
     | X_fifo_get g \<Rightarrow> tl (fifo_of t) | _ \<Rightarrow> fifo_of t)"

text \<open>The semaphore \<^verbatim>\<open>rsp_ready\<close>, with its limit of one.\<close>

primrec sem_of :: "trace \<Rightarrow> nat" where
  "sem_of [] = 0"
| "sem_of (x # t) = (case x of X_sem_give \<Rightarrow> 1 | X_sem_take r \<Rightarrow> (if r = rc_ok then sem_of t - 1 else sem_of t)
     | X_sem_reset \<Rightarrow> 0 | _ \<Rightarrow> sem_of t)"

text \<open>The bit \<^verbatim>\<open>MGR_EVENT_ENDED\<close> of \<^verbatim>\<open>mgr_events\<close>.\<close>

primrec ended_of :: "trace \<Rightarrow> bool" where
  "ended_of [] = False"
| "ended_of (x # t) = (case x of X_event_post \<Rightarrow> True | X_event_clear \<Rightarrow> False | _ \<Rightarrow> ended_of t)"

text \<open>Memory handed out by \<^verbatim>\<open>k_malloc\<close> and not yet freed.\<close>

primrec live_of :: "trace \<Rightarrow> nat" where
  "live_of [] = 0"
| "live_of (x # t) = (case x of X_malloc n ok \<Rightarrow> (if ok then Suc (live_of t) else live_of t)
     | X_free r \<Rightarrow> live_of t - 1 | _ \<Rightarrow> live_of t)"

text \<open>The settings store.\<close>

primrec settings_of :: "trace \<Rightarrow> (string \<times> bytes) list" where
  "settings_of [] = []"
| "settings_of (x # t) = (case x of X_settings_save k v r \<Rightarrow>
         (if r = rc_ok then (k, v) # filter (\<lambda>p. fst p \<noteq> k) (settings_of t) else settings_of t)
     | X_settings_delete k \<Rightarrow> filter (\<lambda>p. fst p \<noteq> k) (settings_of t) | _ \<Rightarrow> settings_of t)"

text \<open>The stored Wi-Fi networks, by SSID.\<close>

primrec wifi_creds_of :: "trace \<Rightarrow> bytes \<rightharpoonup> personal_cred" where
  "wifi_creds_of [] = Map.empty"
| "wifi_creds_of (x # t) = (case x of
       X_wifi_cred_set c r \<Rightarrow> (if r = rc_ok then (wifi_creds_of t)(pc_ssid c \<mapsto> c) else wifi_creds_of t)
     | X_wifi_cred_delete s \<Rightarrow> (wifi_creds_of t)(s := None)
     | X_wifi_cred_delete_all \<Rightarrow> Map.empty | _ \<Rightarrow> wifi_creds_of t)"

lemma settings_of_distinct: "distinct (map fst (settings_of t))"
  by (induction t) (auto simp: distinct_map_filter split: ext.splits)

lemma settings_of_save:
  "map_of (settings_of (X_settings_save k v rc_ok # t)) k = Some v"
  by simp

lemma map_of_filter_key: "map_of (filter (\<lambda>p. fst p \<noteq> k) xs) k' = (if k' = k then None else map_of xs k')"
  by (induction xs) auto

text \<open>Events and timers leave every store alone.\<close>

lemma emit_stores [simp]:
  "fifo_of (trace (pouch_prov_emit E ev x d)) = fifo_of (trace d)"
  "sem_of (trace (pouch_prov_emit E ev x d)) = sem_of (trace d)"
  "ended_of (trace (pouch_prov_emit E ev x d)) = ended_of (trace d)"
  "live_of (trace (pouch_prov_emit E ev x d)) = live_of (trace d)"
  "settings_of (trace (pouch_prov_emit E ev x d)) = settings_of (trace d)"
  "wifi_creds_of (trace (pouch_prov_emit E ev x d)) = wifi_creds_of (trace d)"
  by (simp_all add: pouch_prov_emit_def autostop_arm_def Let_def)

lemma autostop_cancel_stores [simp]:
  "fifo_of (trace (autostop_cancel E d)) = fifo_of (trace d)"
  "sem_of (trace (autostop_cancel E d)) = sem_of (trace d)"
  "ended_of (trace (autostop_cancel E d)) = ended_of (trace d)"
  "live_of (trace (autostop_cancel E d)) = live_of (trace d)"
  "settings_of (trace (autostop_cancel E d)) = settings_of (trace d)"
  "wifi_creds_of (trace (autostop_cancel E d)) = wifi_creds_of (trace d)"
  by (simp_all add: autostop_cancel_def)

subsection \<open>Contracts\<close>

text \<open>The kernel's FIFO, semaphore and event object.\<close>

locale kernel =
  fixes E :: "('e, 'd) env"
  assumes fifo_get: "k_fifo_get E t = (case fifo_of t of [] \<Rightarrow> None | r # rs \<Rightarrow> Some r)"
    and fifo_is_empty: "k_fifo_is_empty E t \<longleftrightarrow> fifo_of t = []"
    and sem_take: "k_sem_take E t = rc_ok \<longleftrightarrow> 0 < sem_of t"
    and event_wait: "k_event_wait E t \<longleftrightarrow> ended_of t"

text \<open>A multi-part MAC over an imported key that completes gives the HMAC of the parts.\<close>

locale psa_hmac =
  fixes E :: "('e, 'd) env" and hmac :: "bytes \<Rightarrow> bytes \<Rightarrow> bytes"
  assumes mac_finish: "psa_mac_sign_finish E (X_psa_mac_update c True # X_psa_mac_update b True
      # X_psa_mac_update a True # X_psa_mac_setup k True # X_psa_import K (Some k) # t) = Some m \<Longrightarrow>
    m = hmac K (a @ b @ c)"

text \<open>A crypto provider whose calls do not fail.\<close>

locale psa_hmac_live = psa_hmac +
  assumes import_live: "psa_import_key E K t \<noteq> None"
    and setup_live: "psa_mac_sign_setup E k t"
    and update_live: "psa_mac_update E bs t"
    and finish_live: "psa_mac_sign_finish E t \<noteq> None"
    and hmac_length: "length (hmac K bs) = 32"

text \<open>The settings subsystem delivers what was saved.\<close>

locale settings_store =
  fixes E :: "('e, 'd) env"
  assumes load_items: "set (settings_load_items E p t) =
    {\<lparr>si_key = k, si_len = length v, si_read = Inr v\<rparr> | k v. map_of (settings_of t) k = Some v \<and> prefix p k}"

text \<open>The store of Wi-Fi networks.\<close>

locale wifi_store =
  fixes E :: "('e, 'd) env"
  assumes is_empty: "wifi_credentials_is_empty E t \<longleftrightarrow> wifi_creds_of t = Map.empty"

subsection \<open>A reference environment\<close>

text \<open>
  Calls succeed, the kernel objects behave as computed, and the MAC is a fold over the key and
  the message. Whether the network store is empty is decided on the SSIDs that were ever stored.
\<close>

definition ref_hmac :: "bytes \<Rightarrow> bytes \<Rightarrow> bytes" where
  "ref_hmac K m = take 32 (K @ m @ replicate 32 0)"

definition ref_mac_part :: "ext \<Rightarrow> bytes" where
  "ref_mac_part x = (case x of X_psa_mac_update b ok \<Rightarrow> b | X_psa_import K k \<Rightarrow> K | _ \<Rightarrow> [])"

definition ref_mac_finish :: "trace \<Rightarrow> bytes" where
  "ref_mac_finish t = (case map ref_mac_part t of c # b # a # s # K # r \<Rightarrow> ref_hmac K (a @ b @ c)
     | _ \<Rightarrow> replicate 32 0)"

primrec ref_ssids :: "trace \<Rightarrow> bytes list" where
  "ref_ssids [] = []"
| "ref_ssids (x # t) = (case x of X_wifi_cred_set c r \<Rightarrow> pc_ssid c # ref_ssids t | _ \<Rightarrow> ref_ssids t)"

definition ref_env :: "(est, dst) env" where
  "ref_env = \<lparr>
     CONFIG_POUCH_PROV_WIFI = True,
     CONFIG_POUCH_PROV_CRED = True,
     CONFIG_POUCH_PROV_AUTH = True,
     CONFIG_POUCH_ENCRYPTION_NONE = True,
     CONFIG_SETTINGS = True,
     CONFIG_POUCH_PROV_AUTOSTOP_TIMEOUT_S = 0,
     CONFIG_POUCH_PROV_SCAN_CACHE = 16,
     CONFIG_POUCH_BLOCK_SIZE = 512,
     CONFIG_POUCH_PROV_DEVICE_NAME_PREFIX = ''PVN-'',
     POUCH_CONTENT_TYPE_CBOR = 60,
     zenc = zref_enc,
     zdec = zref_dec,
     k_event_wait = ended_of,
     k_malloc = (\<lambda>n t. True),
     k_fifo_get = (\<lambda>t. case fifo_of t of [] \<Rightarrow> None | r # rs \<Rightarrow> Some r),
     k_fifo_is_empty = (\<lambda>t. fifo_of t = []),
     k_sem_take = (\<lambda>t. if 0 < sem_of t then rc_ok else rc_err EAGAIN),
     pouch_uplink_entry_write = (\<lambda>p m t. rc_ok),
     settings_load_items = (\<lambda>p t. map (\<lambda>(k, v). \<lparr>si_key = k, si_len = length v, si_read = Inr v\<rparr>)
       (filter (\<lambda>(k, v). prefix p k) (settings_of t))),
     settings_load_rc = (\<lambda>p t. rc_ok),
     settings_save_one = (\<lambda>k v t. rc_ok),
     wifi_credentials_set_personal = (\<lambda>c t. rc_ok),
     wifi_credentials_is_empty = (\<lambda>t. list_all (\<lambda>s. wifi_creds_of t s = None) (ref_ssids t)),
     net_if_get_wifi_sta = (\<lambda>t. Some 1),
     net_if_get_first_wifi = (\<lambda>t. Some 1),
     net_mgmt_wifi_connect = (\<lambda>p t. rc_ok),
     net_mgmt_wifi_scan = (\<lambda>t. rc_ok),
     net_mgmt_wifi_iface_status = (\<lambda>t. None),
     net_if_ipv4_get_global_addr = (\<lambda>t. Some (10, 0, 0, 1)),
     sys_rand_byte = (\<lambda>t i. 7),
     psa_crypto_init = (\<lambda>t. True),
     psa_import_key = (\<lambda>k t. Some 1),
     psa_mac_sign_setup = (\<lambda>k t. True),
     psa_mac_update = (\<lambda>b t. True),
     psa_mac_sign_finish = (\<lambda>t. Some (ref_mac_finish t)),
     psa_generate_key = (\<lambda>t. Some 2),
     psa_export_key = (\<lambda>k t. Some (replicate 32 9)),
     x509write_setup = (\<lambda>k t. True),
     x509write_crt_der = (\<lambda>t. Some (0x30 # replicate 99 0)),
     bt_is_ready = (\<lambda>t. True),
     bt_enable = (\<lambda>t. rc_ok),
     bt_id_addr = (\<lambda>t i. of_nat i),
     bt_conn_set_security = (\<lambda>t. rc_ok),
     bt_le_adv_start = (\<lambda>t. rc_ok),
     bt_le_adv_stop = (\<lambda>t. rc_ok),
     pouch_init = (\<lambda>c t. rc_ok)\<rparr>"

lemma ref_hmac_length: "length (ref_hmac K m) = 32"
  by (simp add: ref_hmac_def)

lemma ref_ssids_dom: "dom (wifi_creds_of t) \<subseteq> set (ref_ssids t)"
  by (induction t) (auto split: ext.splits if_splits)

interpretation ref_kernel: kernel ref_env
  by unfold_locales (auto simp: ref_env_def)

interpretation ref_psa: psa_hmac_live ref_env ref_hmac
  by unfold_locales (auto simp: ref_env_def ref_hmac_length ref_mac_finish_def ref_mac_part_def)

interpretation ref_settings: settings_store ref_env
proof
  fix p t
  have "map_of (settings_of t) k = Some v \<longleftrightarrow> (k, v) \<in> set (settings_of t)" for k v
    by (simp add: map_of_eq_Some_iff settings_of_distinct)
  then show "set (settings_load_items ref_env p t) =
    {\<lparr>si_key = k, si_len = length v, si_read = Inr v\<rparr> | k v. map_of (settings_of t) k = Some v \<and> prefix p k}"
    by (auto simp: ref_env_def)
qed

interpretation ref_wifi_store: wifi_store ref_env
proof
  fix t
  show "wifi_credentials_is_empty ref_env t \<longleftrightarrow> wifi_creds_of t = Map.empty"
    using ref_ssids_dom[of t] by (auto simp: ref_env_def list_all_iff fun_eq_iff dom_def subset_iff)
qed

end
