(* ===== verification/Rpc.thy ===== *)
theory Rpc
  imports Env
begin

text \<open>
  The response queue (\<^verbatim>\<open>src/rpc.c\<close>). The drain loops run until the kernel's FIFO answers
  \<^verbatim>\<open>NULL\<close>; they are partial functions, shown to return over a kernel that meets its contract.
\<close>

subsection \<open>Operations\<close>

text \<open>\<^verbatim>\<open>sizeof(struct rpc_rsp)\<close> on a 32-bit target: two pointers and a length.\<close>

definition sizeof_rpc_rsp :: nat where
  "sizeof_rpc_rsp = 12"

definition pouch_prov_rpc_enqueue ::
  "('e, 'd) env \<Rightarrow> string \<Rightarrow> bytes \<Rightarrow> device \<Rightarrow> rc \<times> device" where
  "pouch_prov_rpc_enqueue E path msg d =
     (if POUCH_PROV_MSG_MAX < length msg then (rc_err EMSGSIZE, d)
      else
        let n = sizeof_rpc_rsp + length msg;
            ok = k_malloc E n (trace d);
            d = log (X_malloc n ok) d
        in if \<not> ok then (rc_err ENOMEM, d)
           else
             let d = log (X_fifo_put \<lparr>rsp_path = path, rsp_msg = msg\<rparr>) d;
                 d = log X_sem_give d
             in (rc_ok, d))"

partial_function (option) rpc_reset_loop :: "('e, 'd) env \<Rightarrow> device \<Rightarrow> device option" where
  "rpc_reset_loop E d =
     (let g = k_fifo_get E (trace d); d = log (X_fifo_get g) d in
      case g of None \<Rightarrow> Some d | Some rsp \<Rightarrow> rpc_reset_loop E (log (X_free rsp) d))"

definition pouch_prov_rpc_reset :: "('e, 'd) env \<Rightarrow> device \<Rightarrow> device option" where
  "pouch_prov_rpc_reset E d = do {
     d \<leftarrow> rpc_reset_loop E d;
     Some (log X_sem_reset d)
   }"

partial_function (option) rpc_flush_loop :: "('e, 'd) env \<Rightarrow> device \<Rightarrow> device option" where
  "rpc_flush_loop E d =
     (let g = k_fifo_get E (trace d); d = log (X_fifo_get g) d in
      case g of None \<Rightarrow> Some d
      | Some rsp \<Rightarrow>
          let err = pouch_uplink_entry_write E (rsp_path rsp) (rsp_msg rsp) (trace d);
              d = log (X_uplink_write (rsp_path rsp) (rsp_msg rsp) err) d
          in rpc_flush_loop E (log (X_free rsp) d))"

definition rpc_uplink_flush :: "('e, 'd) env \<Rightarrow> device \<Rightarrow> device option" where
  "rpc_uplink_flush E d =
     (let d = (if k_fifo_is_empty E (trace d)
               then log (X_sem_take (k_sem_take E (trace d))) d else d)
      in rpc_flush_loop E d)"

declare rpc_reset_loop.simps [code] rpc_flush_loop.simps [code]

subsection \<open>The log of the drain loops\<close>

text \<open>The entries handed to the uplink, oldest first.\<close>

primrec uplinks_of :: "trace \<Rightarrow> rpc_rsp list" where
  "uplinks_of [] = []"
| "uplinks_of (x # t) = (case x of X_uplink_write p m r \<Rightarrow> uplinks_of t @ [\<lparr>rsp_path = p, rsp_msg = m\<rparr>]
     | _ \<Rightarrow> uplinks_of t)"

text \<open>Allocations are exactly the queued responses.\<close>

definition no_leak :: "trace \<Rightarrow> bool" where
  "no_leak t \<longleftrightarrow> live_of t = length (fifo_of t)"

text \<open>What a drain leaves: only the log changed, the queue is empty.\<close>

definition drained :: "device \<Rightarrow> device \<Rightarrow> bool" where
  "drained d d' \<longleftrightarrow> only_log d d' \<and> fifo_of (trace d') = [] \<and>
     settings_of (trace d') = settings_of (trace d) \<and> wifi_creds_of (trace d') = wifi_creds_of (trace d) \<and>
     ended_of (trace d') = ended_of (trace d) \<and> (no_leak (trace d) \<longrightarrow> no_leak (trace d'))"

lemma drainedD:
  assumes "drained d d'"
  shows "only_log d d'" "fifo_of (trace d') = []" "settings_of (trace d') = settings_of (trace d)"
    "wifi_creds_of (trace d') = wifi_creds_of (trace d)" "ended_of (trace d') = ended_of (trace d)"
    "no_leak (trace d) \<Longrightarrow> no_leak (trace d')"
  using assms by (auto simp: drained_def)

lemma drained_from_log:
  "drained (log x d) d' \<Longrightarrow> settings_of (trace (log x d)) = settings_of (trace d) \<Longrightarrow>
   wifi_creds_of (trace (log x d)) = wifi_creds_of (trace d) \<Longrightarrow> ended_of (trace (log x d)) = ended_of (trace d) \<Longrightarrow>
   (no_leak (trace d) \<Longrightarrow> no_leak (trace (log x d))) \<Longrightarrow> drained d d'"
  by (auto simp: drained_def only_log_def log_def)

lemma drained_log:
  "drained d d' \<Longrightarrow> fifo_of (trace (log x d')) = fifo_of (trace d') \<Longrightarrow>
   settings_of (trace (log x d')) = settings_of (trace d') \<Longrightarrow> wifi_creds_of (trace (log x d')) = wifi_creds_of (trace d') \<Longrightarrow>
   ended_of (trace (log x d')) = ended_of (trace d') \<Longrightarrow> live_of (trace (log x d')) = live_of (trace d') \<Longrightarrow>
   drained d (log x d')"
  by (auto simp: drained_def no_leak_def)

context kernel begin

lemma reset_loop_drains:
  "\<exists>d'. rpc_reset_loop E d = Some d' \<and> drained d d' \<and> uplinks_of (trace d') = uplinks_of (trace d)
     \<and> sem_of (trace d') = sem_of (trace d)"
proof (induction "fifo_of (trace d)" arbitrary: d)
  case Nil
  then show ?case
    by (subst rpc_reset_loop.simps) (auto simp: fifo_get drained_def no_leak_def)
next
  case (Cons r rs)
  let ?d = "log (X_free r) (log (X_fifo_get (Some r)) d)"
  have "rs = fifo_of (trace ?d)" using Cons.hyps(2)[symmetric] by simp
  from Cons.hyps(1)[OF this] obtain d' where d': "rpc_reset_loop E ?d = Some d'" "drained ?d d'"
    "uplinks_of (trace d') = uplinks_of (trace ?d)" "sem_of (trace d') = sem_of (trace ?d)" by blast
  have "rpc_reset_loop E d = rpc_reset_loop E ?d"
    using Cons.hyps(2)[symmetric] by (subst rpc_reset_loop.simps) (simp add: fifo_get)
  moreover have "drained d d'"
    using d'(2) Cons.hyps(2)[symmetric] by (auto simp: drained_def no_leak_def only_log_def log_def)
  ultimately show ?case using d' by simp
qed

lemma rpc_reset_drains:
  "\<exists>d'. pouch_prov_rpc_reset E d = Some d' \<and> drained d d' \<and> sem_of (trace d') = 0
     \<and> uplinks_of (trace d') = uplinks_of (trace d)"
proof -
  obtain d' where "rpc_reset_loop E d = Some d'" "drained d d'" "uplinks_of (trace d') = uplinks_of (trace d)"
    using reset_loop_drains by blast
  then show ?thesis
    by (auto simp: pouch_prov_rpc_reset_def intro: drained_log)
qed

lemma flush_loop_drains:
  "\<exists>d'. rpc_flush_loop E d = Some d' \<and> drained d d' \<and>
     uplinks_of (trace d') = uplinks_of (trace d) @ fifo_of (trace d) \<and> sem_of (trace d') = sem_of (trace d)"
proof (induction "fifo_of (trace d)" arbitrary: d)
  case Nil
  then show ?case
    by (subst rpc_flush_loop.simps) (auto simp: fifo_get drained_def no_leak_def)
next
  case (Cons r rs)
  let ?g = "log (X_fifo_get (Some r)) d"
  let ?d = "log (X_free r) (log (X_uplink_write (rsp_path r) (rsp_msg r)
    (pouch_uplink_entry_write E (rsp_path r) (rsp_msg r) (trace ?g))) ?g)"
  have "rs = fifo_of (trace ?d)" using Cons.hyps(2)[symmetric] by simp
  from Cons.hyps(1)[OF this] obtain d' where d': "rpc_flush_loop E ?d = Some d'" "drained ?d d'"
    "uplinks_of (trace d') = uplinks_of (trace ?d) @ rs" "sem_of (trace d') = sem_of (trace ?d)"
    using \<open>rs = fifo_of (trace ?d)\<close> by auto
  have "rpc_flush_loop E d = rpc_flush_loop E ?d"
    using Cons.hyps(2)[symmetric] by (subst rpc_flush_loop.simps) (simp add: fifo_get Let_def)
  moreover have "drained d d'"
    using d'(2) Cons.hyps(2)[symmetric] by (auto simp: drained_def no_leak_def only_log_def log_def)
  moreover have "uplinks_of (trace d') = uplinks_of (trace d) @ fifo_of (trace d)"
    using d'(3) Cons.hyps(2)[symmetric] by simp
  ultimately show ?case using d' by simp
qed

lemma flush_drains:
  "\<exists>d'. rpc_uplink_flush E d = Some d' \<and> drained d d' \<and>
     uplinks_of (trace d') = uplinks_of (trace d) @ fifo_of (trace d)"
proof -
  let ?d = "if k_fifo_is_empty E (trace d) then log (X_sem_take (k_sem_take E (trace d))) d else d"
  obtain d' where "rpc_flush_loop E ?d = Some d'" "drained ?d d'"
    "uplinks_of (trace d') = uplinks_of (trace ?d) @ fifo_of (trace ?d)"
    using flush_loop_drains by blast
  then show ?thesis
    by (auto simp: rpc_uplink_flush_def Let_def no_leak_def intro: drained_from_log split: if_splits)
qed

end

subsection \<open>Enqueueing\<close>

lemma enqueue_cases:
  assumes "pouch_prov_rpc_enqueue E path msg d = (r, d')"
  obtains (too_long) "POUCH_PROV_MSG_MAX < length msg" "r = rc_err EMSGSIZE" "d' = d"
    | (no_memory) "length msg \<le> POUCH_PROV_MSG_MAX" "r = rc_err ENOMEM"
        "d' = log (X_malloc (sizeof_rpc_rsp + length msg) False) d"
    | (queued) "length msg \<le> POUCH_PROV_MSG_MAX" "r = rc_ok"
        "d' = log X_sem_give (log (X_fifo_put \<lparr>rsp_path = path, rsp_msg = msg\<rparr>)
           (log (X_malloc (sizeof_rpc_rsp + length msg) True) d))"
  using assms by (auto simp: pouch_prov_rpc_enqueue_def Let_def split: if_splits)

lemma enqueue_sel [simp]:
  "config (snd (pouch_prov_rpc_enqueue E p m d)) = config d"
  "initialized (snd (pouch_prov_rpc_enqueue E p m d)) = initialized d"
  "running (snd (pouch_prov_rpc_enqueue E p m d)) = running d"
  "blobs (snd (pouch_prov_rpc_enqueue E p m d)) = blobs d"
  "wc (snd (pouch_prov_rpc_enqueue E p m d)) = wc d"
  "ip4 (snd (pouch_prov_rpc_enqueue E p m d)) = ip4 d"
  "sc (snd (pouch_prov_rpc_enqueue E p m d)) = sc d"
  "auth (snd (pouch_prov_rpc_enqueue E p m d)) = auth d"
  "active (snd (pouch_prov_rpc_enqueue E p m d)) = active d"
  "authorized (snd (pouch_prov_rpc_enqueue E p m d)) = authorized d"
  "identity (snd (pouch_prov_rpc_enqueue E p m d)) = identity d"
  "adv_enabled (snd (pouch_prov_rpc_enqueue E p m d)) = adv_enabled d"
  "adv_flags (snd (pouch_prov_rpc_enqueue E p m d)) = adv_flags d"
  "device_name (snd (pouch_prov_rpc_enqueue E p m d)) = device_name d"
  by (simp_all add: pouch_prov_rpc_enqueue_def Let_def)

lemma enqueue_stores [simp]:
  "settings_of (trace (snd (pouch_prov_rpc_enqueue E p m d))) = settings_of (trace d)"
  "wifi_creds_of (trace (snd (pouch_prov_rpc_enqueue E p m d))) = wifi_creds_of (trace d)"
  "ended_of (trace (snd (pouch_prov_rpc_enqueue E p m d))) = ended_of (trace d)"
  "uplinks_of (trace (snd (pouch_prov_rpc_enqueue E p m d))) = uplinks_of (trace d)"
  by (simp_all add: pouch_prov_rpc_enqueue_def Let_def)

lemma enqueue_fifo:
  "length m \<le> POUCH_PROV_MSG_MAX \<Longrightarrow> k_malloc E (sizeof_rpc_rsp + length m) (trace d) \<Longrightarrow>
   fst (pouch_prov_rpc_enqueue E p m d) = rc_ok \<and>
   fifo_of (trace (snd (pouch_prov_rpc_enqueue E p m d))) = fifo_of (trace d) @ [\<lparr>rsp_path = p, rsp_msg = m\<rparr>]"
  by (simp add: pouch_prov_rpc_enqueue_def Let_def)

lemma enqueue_fifo_cases:
  "fifo_of (trace (snd (pouch_prov_rpc_enqueue E p m d))) =
     fifo_of (trace d) @ (if fst (pouch_prov_rpc_enqueue E p m d) = rc_ok then [\<lparr>rsp_path = p, rsp_msg = m\<rparr>] else [])"
  by (simp add: pouch_prov_rpc_enqueue_def Let_def)

lemma enqueue_no_leak:
  "no_leak (trace d) \<Longrightarrow> no_leak (trace (snd (pouch_prov_rpc_enqueue E p m d)))"
  by (simp add: pouch_prov_rpc_enqueue_def Let_def no_leak_def)

context kernel begin

text \<open>Flushing a queue that is not empty does not touch the semaphore.\<close>

lemma flush_loop_sem:
  assumes "rpc_flush_loop E d = Some d'"
  shows "sem_of (trace d') = sem_of (trace d)"
  using assms
proof (induction "fifo_of (trace d)" arbitrary: d)
  case Nil
  from Nil(2) show ?case
    by (subst (asm) rpc_flush_loop.simps) (auto simp: fifo_get Nil(1)[symmetric])
next
  case (Cons r rs)
  let ?d = "log (X_free r) (log (X_uplink_write (rsp_path r) (rsp_msg r)
     (pouch_uplink_entry_write E (rsp_path r) (rsp_msg r) (X_fifo_get (Some r) # trace d))) (log (X_fifo_get (Some r)) d))"
  from Cons(3) have "rpc_flush_loop E ?d = Some d'"
    by (subst (asm) rpc_flush_loop.simps) (simp add: fifo_get Cons(2)[symmetric] Let_def)
  from Cons(1)[OF _ this] Cons(2)[symmetric] show ?case by simp
qed

lemma flush_keeps_sem:
  assumes "fifo_of (trace d) \<noteq> []"
  shows "\<exists>d'. rpc_uplink_flush E d = Some d' \<and> fifo_of (trace d') = [] \<and> sem_of (trace d') = sem_of (trace d)"
proof -
  obtain d' where "rpc_uplink_flush E d = Some d'" "fifo_of (trace d') = []"
    using flush_drains[of d] by (auto simp: drained_def)
  moreover from this(1) assms have "rpc_flush_loop E d = Some d'" by (simp add: rpc_uplink_flush_def fifo_is_empty)
  ultimately show ?thesis using flush_loop_sem by blast
qed

end

text \<open>Calls that leave the response queue alone.\<close>

definition rpc_same :: "trace \<Rightarrow> trace \<Rightarrow> bool" where
  "rpc_same t t' \<longleftrightarrow> fifo_of t' = fifo_of t \<and> sem_of t' = sem_of t \<and> live_of t' = live_of t \<and>
     uplinks_of t' = uplinks_of t \<and> ended_of t' = ended_of t"

lemma rpc_same_refl [simp]: "rpc_same t t"
  by (simp add: rpc_same_def)

lemma rpc_same_trans [trans]: "rpc_same t u \<Longrightarrow> rpc_same u v \<Longrightarrow> rpc_same t v"
  by (simp add: rpc_same_def)

lemma rpc_same_no_leak: "rpc_same t t' \<Longrightarrow> no_leak t \<Longrightarrow> no_leak t'"
  by (simp add: rpc_same_def no_leak_def)

lemma emit_rpc_same [simp]: "rpc_same t (trace (pouch_prov_emit E ev x d)) = rpc_same t (trace d)"
  by (simp add: rpc_same_def pouch_prov_emit_def autostop_arm_def Let_def)

end
