(* ===== verification/Wifi_Config.thy ===== *)
theory Wifi_Config
  imports Rpc
begin

text \<open>
  Wi-Fi station configuration (\<^verbatim>\<open>src/handlers/wifi_config.c\<close>): staging a network, persisting it
  and connecting, the retry state machine driven by connect results, and the status report.
\<close>

subsection \<open>Operations\<close>

definition SSID_MAX :: nat where "SSID_MAX = 32"
definition PASS_MAX :: nat where "PASS_MAX = 63"
definition WIFI_MAC_ADDR_LEN :: nat where "WIFI_MAC_ADDR_LEN = 6"
definition WIFI_CHANNEL_ANY :: u8 where "WIFI_CHANNEL_ANY = 255"

definition wifi_iface :: "('e, 'd) env \<Rightarrow> device \<Rightarrow> nat option" where
  "wifi_iface E d = (case net_if_get_wifi_sta E (trace d) of Some i \<Rightarrow> Some i
     | None \<Rightarrow> net_if_get_first_wifi E (trace d))"

definition clear_inflight :: "device \<Rightarrow> device" where
  "clear_inflight d = d\<lparr>wc := (wc d)\<lparr>
     wc_inflight_ssid := replicate (SSID_MAX + 1) 0, wc_inflight_ssid_len := 0,
     wc_inflight_pass := replicate (PASS_MAX + 1) 0, wc_inflight_pass_len := 0,
     wc_inflight_has_bssid := False, wc_inflight_channel := 0\<rparr>\<rparr>"

text \<open>The parameters of a connect request; a pointer and its length are the bytes they span.\<close>

definition inflight_params :: "wifi_config_state \<Rightarrow> wifi_connect_req_params" where
  "inflight_params w = \<lparr>
     params_ssid = take (wc_inflight_ssid_len w) (wc_inflight_ssid w),
     params_psk = (if 0 < wc_inflight_pass_len w
       then Some (take (wc_inflight_pass_len w) (wc_inflight_pass w)) else None),
     params_security = (if 0 < wc_inflight_pass_len w then WIFI_SECURITY_TYPE_PSK else WIFI_SECURITY_TYPE_NONE),
     params_channel = (if 0 < wc_inflight_channel w then wc_inflight_channel w else WIFI_CHANNEL_ANY),
     params_bssid = (if wc_inflight_has_bssid w then wc_inflight_bssid w else replicate WIFI_MAC_ADDR_LEN 0)\<rparr>"

definition connect_from_inflight :: "('e, 'd) env \<Rightarrow> device \<Rightarrow> rc \<times> device" where
  "connect_from_inflight E d =
     (case wifi_iface E d of
        None \<Rightarrow> (rc_err ENODEV, d)
      | Some iface \<Rightarrow>
          let params = inflight_params (wc d);
              r = net_mgmt_wifi_connect E params (trace d)
          in (r, log (X_wifi_connect params r) d))"

definition final_failure :: "('e, 'd) env \<Rightarrow> device \<Rightarrow> device" where
  "final_failure E d =
     (let d = d\<lparr>wc := (wc d)\<lparr>wc_sta_state := sta_state_sta_failed_m_c\<rparr>\<rparr>;
          nf = (wc_last_conn_status (wc d) = CONN_AP_NOT_FOUND);
          d = d\<lparr>wc := (wc d)\<lparr>wc_fail_reason :=
                 (if nf then fail_reason_fail_network_not_found_m_c else fail_reason_fail_auth_error_m_c)\<rparr>\<rparr>;
          reason = (if nf then POUCH_PROV_FAIL_NETWORK_NOT_FOUND else POUCH_PROV_FAIL_AUTH_ERROR);
          d = log (X_wifi_cred_delete (take (wc_inflight_ssid_len (wc d)) (wc_inflight_ssid (wc d)))) d;
          d = clear_inflight d
      in pouch_prov_emit E POUCH_PROV_EVENT_WIFI_FAIL (Some reason) d)"

definition retry_work_handler :: "('e, 'd) env \<Rightarrow> device \<Rightarrow> device" where
  "retry_work_handler E d =
     (if wc_inflight_ssid_len (wc d) = 0 then d
      else let (r, d) = connect_from_inflight E d in if r \<noteq> rc_ok then final_failure E d else d)"

definition on_connect_result :: "('e, 'd) env \<Rightarrow> int \<Rightarrow> conn_status \<Rightarrow> device \<Rightarrow> device" where
  "on_connect_result E status conn_status d =
     (if wc_inflight_ssid_len (wc d) = 0 then d
      else if status = 0 then
        let d = d\<lparr>wc := (wc d)\<lparr>wc_sta_state := sta_state_sta_connected_m_c\<rparr>\<rparr>;
            d = clear_inflight d
        in pouch_prov_emit E POUCH_PROV_EVENT_WIFI_CONNECTED None d
      else
        let d = d\<lparr>wc := (wc d)\<lparr>wc_last_conn_status := conn_status\<rparr>\<rparr> in
        if 0 < wc_attempts_max (wc d) then
          let d = d\<lparr>wc := (wc d)\<lparr>wc_attempts_completed := wc_attempts_completed (wc d) + 1\<rparr>\<rparr> in
          if wc_attempts_completed (wc d) < wc_attempts_max (wc d) then
            let d = d\<lparr>wc := (wc d)\<lparr>wc_sta_state := sta_state_sta_connecting_m_c\<rparr>\<rparr>
            in log (X_work_schedule retry_work) d
          else final_failure E d
        else final_failure E d)"

definition pouch_prov_wifi_config_init :: "u32 \<Rightarrow> device \<Rightarrow> device" where
  "pouch_prov_wifi_config_init conn_attempts d =
     (let d = d\<lparr>wc := (wc d)\<lparr>wc_sta_state := sta_state_sta_disconnected_m_c,
                wc_attempts_max := conn_attempts, wc_attempts_completed := 0\<rparr>\<rparr>
      in if \<not> wc_cb_registered (wc d)
         then (log (X_net_add_callback ''wifi_config'') d)\<lparr>wc := (wc d)\<lparr>wc_cb_registered := True\<rparr>\<rparr>
         else d)"

definition pouch_prov_wifi_config_reset :: "device \<Rightarrow> device" where
  "pouch_prov_wifi_config_reset d =
     (let d = clear_inflight d;
          d = log (X_work_cancel retry_work) d
      in d\<lparr>wc := (wc d)\<lparr>wc_ssid := replicate (SSID_MAX + 1) 0, wc_ssid_len := 0,
             wc_pass := replicate (PASS_MAX + 1) 0, wc_pass_len := 0,
             wc_has_bssid := False, wc_channel := 0, wc_attempts_completed := 0,
             wc_sta_state := sta_state_sta_disconnected_m_c,
             wc_fail_reason := fail_reason_fail_auth_error_m_c\<rparr>\<rparr>)"

definition pouch_prov_wifi_is_provisioned :: "('e, 'd) env \<Rightarrow> device \<Rightarrow> bool" where
  "pouch_prov_wifi_is_provisioned E d \<longleftrightarrow> \<not> wifi_credentials_is_empty E (trace d)"

definition pouch_prov_wifi_reset_state :: "device \<Rightarrow> device" where
  "pouch_prov_wifi_reset_state d = pouch_prov_wifi_config_reset d"

definition pouch_prov_wifi_reprovision :: "device \<Rightarrow> device" where
  "pouch_prov_wifi_reprovision d = pouch_prov_wifi_config_reset (log X_wifi_cred_delete_all d)"

definition do_set :: "wifi_config \<Rightarrow> device \<Rightarrow> (u32 \<times> device) option" where
  "do_set cfg d =
     (if length (wifi_config_ssid cfg) = 0 \<or> SSID_MAX < length (wifi_config_ssid cfg)
      then Some (prov_status_status_invalid_argument_m_c, d)
      else if (case wifi_config_pass cfg of None \<Rightarrow> False | Some p \<Rightarrow> PASS_MAX < length p)
      then Some (prov_status_status_invalid_argument_m_c, d)
      else do {
        ssid \<leftarrow> memcpy_at (replicate (SSID_MAX + 1) 0) 0 (wifi_config_ssid cfg);
        pass \<leftarrow> (case wifi_config_pass cfg of None \<Rightarrow> Some (replicate (PASS_MAX + 1) 0)
                 | Some p \<Rightarrow> memcpy_at (replicate (PASS_MAX + 1) 0) 0 p);
        let has_bssid = (case wifi_config_bssid cfg of None \<Rightarrow> False | Some b \<Rightarrow> length b = WIFI_MAC_ADDR_LEN);
        Some (prov_status_status_ok_m_c, d\<lparr>wc := (wc d)\<lparr>
          wc_ssid := ssid, wc_ssid_len := length (wifi_config_ssid cfg),
          wc_pass := pass, wc_pass_len := (case wifi_config_pass cfg of None \<Rightarrow> 0 | Some p \<Rightarrow> length p),
          wc_bssid := (case wifi_config_bssid cfg of Some b \<Rightarrow> (if has_bssid then b else wc_bssid (wc d))
                       | None \<Rightarrow> wc_bssid (wc d)),
          wc_has_bssid := has_bssid,
          wc_channel := (case wifi_config_ch cfg of None \<Rightarrow> 0 | Some ch \<Rightarrow> ucast ch)\<rparr>\<rparr>)
      })"

text \<open>The record handed to \<^verbatim>\<open>wifi_credentials_set_personal\<close>.\<close>

definition staged_cred :: "wifi_config_state \<Rightarrow> personal_cred" where
  "staged_cred w = \<lparr>
     pc_ssid = take (wc_ssid_len w) (wc_ssid w),
     pc_security = (if 0 < wc_pass_len w then WIFI_SECURITY_TYPE_PSK else WIFI_SECURITY_TYPE_NONE),
     pc_bssid = (if wc_has_bssid w then Some (wc_bssid w) else None),
     pc_password = take (wc_pass_len w) (wc_pass w),
     pc_channel = wc_channel w\<rparr>"

definition do_apply :: "('e, 'd) env \<Rightarrow> device \<Rightarrow> u32 \<times> device" where
  "do_apply E d =
     (if wifi_iface E d = None \<or> wc_ssid_len (wc d) = 0 then (prov_status_status_invalid_state_m_c, d)
      else
        let d = log (X_wifi_cred_delete (take (wc_ssid_len (wc d)) (wc_ssid (wc d)))) d;
            cred = staged_cred (wc d);
            ret = wifi_credentials_set_personal E cred (trace d);
            d = log (X_wifi_cred_set cred ret) d
        in if ret \<noteq> rc_ok then (prov_status_status_internal_error_m_c, d)
           else
             let d = pouch_prov_emit E POUCH_PROV_EVENT_WIFI_CRED_RECV None d;
                 d = d\<lparr>wc := (wc d)\<lparr>wc_sta_state := sta_state_sta_connecting_m_c\<rparr>\<rparr>;
                 d = log (X_work_cancel retry_work) d;
                 w = wc d;
                 d = d\<lparr>wc := w\<lparr>
                        wc_inflight_ssid := wc_ssid w, wc_inflight_ssid_len := wc_ssid_len w,
                        wc_inflight_pass := wc_pass w, wc_inflight_pass_len := wc_pass_len w,
                        wc_inflight_bssid := (if wc_has_bssid w then wc_bssid w else wc_inflight_bssid w),
                        wc_inflight_has_bssid := wc_has_bssid w,
                        wc_inflight_channel := wc_channel w, wc_attempts_completed := 0\<rparr>\<rparr>;
                 (r, d) = connect_from_inflight E d;
                 d = (if r \<noteq> rc_ok
                      then final_failure E (d\<lparr>wc := (wc d)\<lparr>wc_last_conn_status := CONN_WRONG_PASSWORD\<rparr>\<rparr>)
                      else d)
             in (prov_status_status_ok_m_c, d))"

text \<open>
  \<open>fill_connected\<close> returns the filled struct and whether its SSID pointer is dangling: on the
  branch that queried the interface it points at the local \<^verbatim>\<open>status.ssid\<close>, which is dead once the
  function returns.
\<close>

definition fill_connected :: "('e, 'd) env \<Rightarrow> device \<Rightarrow> (connected_info \<times> bool) \<times> device" where
  "fill_connected E d =
     (let iface = wifi_iface E d;
          st = (if iface = None then None else net_mgmt_wifi_iface_status E (trace d));
          d = (if iface = None then d else log (X_wifi_iface_status (st \<noteq> None)) d);
          addr = (if iface = None then None else net_if_ipv4_get_global_addr E (trace d));
          d = (case addr of None \<Rightarrow> d | Some (a, b, c, e) \<Rightarrow> d\<lparr>ip4 := [a, b, c, e]\<rparr>)
      in ((case st of
             Some s \<Rightarrow> (\<lparr>connected_info_ip4 = ip4 d, connected_info_ssid = ifs_ssid s,
                         connected_info_rssi = Some (ifs_rssi s)\<rparr>, True)
           | None \<Rightarrow> (\<lparr>connected_info_ip4 = ip4 d,
                       connected_info_ssid = take (wc_ssid_len (wc d)) (wc_ssid (wc d)),
                       connected_info_rssi = None\<rparr>, False)), d))"

text \<open>The encoder reads through the SSID pointer when its length passes the range check.\<close>

definition encode_status :: "('e, 'd) env \<Rightarrow> nat \<Rightarrow> device \<Rightarrow> ((errno + bytes) \<times> device) option" where
  "encode_status E rsp_size d =
     (let sta = wc_sta_state (wc d);
          ((detail, dangling), d) =
            (if sta = sta_state_sta_connected_m_c then
               (let ((ci, dang), d) = fill_connected E d in
                ((Some (config_detail_connected_info_m ci),
                  dang \<and> 1 \<le> length (connected_info_ssid ci) \<and> length (connected_info_ssid ci) \<le> 32), d))
             else if sta = sta_state_sta_failed_m_c
             then ((Some (config_detail_fail_reason_m (wc_fail_reason (wc d))), False), d)
             else ((None, False), d))
      in if dangling then None
         else Some (case cbor_encode_config_rsp (zenc E) rsp_size (config_rsp_config_status_rsp_m
                     \<lparr>config_status_rsp_prov_status_m = prov_status_status_ok_m_c,
                      config_status_rsp_sta_state_m = sta, config_status_rsp_config_detail_m = detail\<rparr>) of
                  Some rsp \<Rightarrow> Inr rsp | None \<Rightarrow> Inl ENOMEM, d))"

definition encode_ack :: "('e, 'd) env \<Rightarrow> bool \<Rightarrow> u32 \<Rightarrow> nat \<Rightarrow> errno + bytes" where
  "encode_ack E op_set status rsp_size =
     (case cbor_encode_config_rsp (zenc E) rsp_size
        (if op_set then config_rsp_config_set_rsp_m status else config_rsp_config_apply_rsp_m status) of
        Some rsp \<Rightarrow> Inr rsp | None \<Rightarrow> Inl ENOMEM)"

definition pouch_prov_handle_config ::
  "('e, 'd) env \<Rightarrow> bytes \<Rightarrow> nat \<Rightarrow> device \<Rightarrow> ((errno + bytes) \<times> device) option" where
  "pouch_prov_handle_config E req rsp_size d =
     (case cbor_decode_config_req (zdec E) req of
        None \<Rightarrow> Some (Inl EBADMSG, d)
      | Some (config_req_config_get_status_m, consumed) \<Rightarrow> encode_status E rsp_size d
      | Some (config_req_config_set_m cfg, consumed) \<Rightarrow> do {
          (status, d) \<leftarrow> do_set cfg d;
          Some (encode_ack E True status rsp_size, d)
        }
      | Some (config_req_config_apply_m, consumed) \<Rightarrow>
          let (status, d) = do_apply E d in Some (encode_ack E False status rsp_size, d))"

subsection \<open>Invariant\<close>

definition wifi_inv :: "device \<Rightarrow> bool" where
  "wifi_inv d \<longleftrightarrow> length (wc_ssid (wc d)) = 33 \<and> wc_ssid_len (wc d) \<le> 32 \<and>
     length (wc_pass (wc d)) = 64 \<and> wc_pass_len (wc d) \<le> 63 \<and> length (wc_bssid (wc d)) = 6 \<and>
     length (wc_inflight_ssid (wc d)) = 33 \<and> wc_inflight_ssid_len (wc d) \<le> 32 \<and>
     length (wc_inflight_pass (wc d)) = 64 \<and> wc_inflight_pass_len (wc d) \<le> 63 \<and>
     length (wc_inflight_bssid (wc d)) = 6 \<and> wc_sta_state (wc d) \<le> 3 \<and> wc_fail_reason (wc d) \<le> 1 \<and>
     length (ip4 d) = 4"

lemmas wifi_consts = SSID_MAX_def PASS_MAX_def WIFI_MAC_ADDR_LEN_def

text \<open>What the Wi-Fi code may change: its own state, the status address and the log.\<close>

definition wifi_only :: "device \<Rightarrow> device \<Rightarrow> bool" where
  "wifi_only d d' \<longleftrightarrow> config d' = config d \<and> initialized d' = initialized d \<and> running d' = running d \<and>
     blobs d' = blobs d \<and> sc d' = sc d \<and> auth d' = auth d \<and> active d' = active d \<and> authorized d' = authorized d \<and>
     identity d' = identity d \<and> adv_enabled d' = adv_enabled d \<and> adv_flags d' = adv_flags d \<and>
     device_name d' = device_name d \<and> rpc_same (trace d) (trace d') \<and> settings_of (trace d') = settings_of (trace d)"

lemma wifi_onlyD:
  assumes "wifi_only d d'"
  shows "config d' = config d" "initialized d' = initialized d" "running d' = running d" "blobs d' = blobs d"
    "sc d' = sc d" "auth d' = auth d" "active d' = active d" "authorized d' = authorized d"
    "identity d' = identity d" "adv_enabled d' = adv_enabled d" "adv_flags d' = adv_flags d"
    "device_name d' = device_name d" "rpc_same (trace d) (trace d')" "settings_of (trace d') = settings_of (trace d)"
  using assms by (simp_all add: wifi_only_def)

lemma wifi_only_refl [simp]: "wifi_only d d"
  by (simp add: wifi_only_def)

lemma wifi_only_trans: "wifi_only a b \<Longrightarrow> wifi_only b c \<Longrightarrow> wifi_only a c"
  using rpc_same_trans[of "trace a" "trace b" "trace c"] by (simp add: wifi_only_def)

lemma final_failure_only [simp]: "wifi_only d (final_failure E d)"
  by (simp add: wifi_only_def final_failure_def clear_inflight_def Let_def rpc_same_def pouch_prov_emit_def
      autostop_arm_def)

lemma connect_only [simp]: "wifi_only d (snd (connect_from_inflight E d))"
  by (simp add: wifi_only_def connect_from_inflight_def Let_def rpc_same_def split: option.split)

lemma wc_connect [simp]: "wc (snd (connect_from_inflight E d)) = wc d" "ip4 (snd (connect_from_inflight E d)) = ip4 d"
  by (simp_all add: connect_from_inflight_def Let_def split: option.split)

lemma final_failure_inv: "wifi_inv d \<Longrightarrow> wifi_inv (final_failure E d)"
  by (simp add: wifi_inv_def final_failure_def clear_inflight_def Let_def wifi_consts word_le_nat_alt)

lemma retry_work_only: "wifi_only d (retry_work_handler E d)"
  by (simp add: retry_work_handler_def case_prod_beta Let_def wifi_only_trans[OF connect_only final_failure_only])

lemma wifi_only_wc: "wifi_only (d\<lparr>wc := w\<rparr>) d' = wifi_only d d'"
  by (simp add: wifi_only_def)

lemma final_failure_wc_only [simp]: "wifi_only d (final_failure E (d\<lparr>wc := w\<rparr>))"
  using final_failure_only[of "d\<lparr>wc := w\<rparr>" E] by (simp only: wifi_only_wc)

lemma wc_log_only [simp]: "wifi_only d (d\<lparr>wc := w\<rparr>)" "wifi_only d (log (X_work_schedule k) (d\<lparr>wc := w\<rparr>))"
  "wifi_only d (pouch_prov_emit E ev x (d\<lparr>wc := w\<rparr>))"
  by (simp_all add: wifi_only_def rpc_same_def pouch_prov_emit_def autostop_arm_def Let_def)

lemma on_connect_result_only: "wifi_only d (on_connect_result E status cs d)"
  by (simp add: on_connect_result_def Let_def clear_inflight_def)

lemma inv_connect [simp]: "wifi_inv (snd (connect_from_inflight E d)) = wifi_inv d"
  by (simp add: wifi_inv_def)

lemma retry_work_inv: "wifi_inv d \<Longrightarrow> wifi_inv (retry_work_handler E d)"
  by (simp add: retry_work_handler_def case_prod_beta Let_def final_failure_inv)

lemma wifi_inv_upd:
  "wifi_inv d \<Longrightarrow> x \<le> 3 \<Longrightarrow> wifi_inv (d\<lparr>wc := (wc d)\<lparr>wc_last_conn_status := c, wc_attempts_completed := a, wc_sta_state := x\<rparr>\<rparr>)"
  "wifi_inv d \<Longrightarrow> wifi_inv (d\<lparr>wc := (wc d)\<lparr>wc_last_conn_status := c, wc_attempts_completed := a\<rparr>\<rparr>)"
  "wifi_inv d \<Longrightarrow> wifi_inv (d\<lparr>wc := (wc d)\<lparr>wc_last_conn_status := c\<rparr>\<rparr>)"
  "wifi_inv (log y d) = wifi_inv d"
  by (simp_all add: wifi_inv_def)

lemma on_connect_result_inv:
  assumes "wifi_inv d"
  shows "wifi_inv (on_connect_result E status cs d)"
proof -
  have "wifi_inv (clear_inflight (d\<lparr>wc := (wc d)\<lparr>wc_sta_state := 0\<rparr>\<rparr>))"
    using assms by (simp add: wifi_inv_def clear_inflight_def wifi_consts)
  then have "wifi_inv (pouch_prov_emit E ev x (clear_inflight (d\<lparr>wc := (wc d)\<lparr>wc_sta_state := 0\<rparr>\<rparr>)))" for ev x
    by (simp add: wifi_inv_def)
  then show ?thesis
    using assms by (simp add: on_connect_result_def Let_def wifi_inv_upd final_failure_inv word_le_nat_alt)
qed

lemma wifi_config_reset_only: "wifi_only d (pouch_prov_wifi_config_reset d)"
  by (simp add: pouch_prov_wifi_config_reset_def clear_inflight_def Let_def wifi_only_def rpc_same_def)

lemma wifi_config_reset_inv: "wifi_inv d \<Longrightarrow> wifi_inv (pouch_prov_wifi_config_reset d)"
  by (simp add: pouch_prov_wifi_config_reset_def clear_inflight_def Let_def wifi_inv_def wifi_consts word_le_nat_alt)

lemma reprovision_only: "wifi_only d (pouch_prov_wifi_reprovision d)"
  by (simp add: pouch_prov_wifi_reprovision_def pouch_prov_wifi_config_reset_def clear_inflight_def Let_def
      wifi_only_def rpc_same_def)

lemma reprovision_inv: "wifi_inv d \<Longrightarrow> wifi_inv (pouch_prov_wifi_reprovision d)"
  unfolding pouch_prov_wifi_reprovision_def by (rule wifi_config_reset_inv) (simp add: wifi_inv_upd)

lemma reprovision_empty: "wifi_creds_of (trace (pouch_prov_wifi_reprovision d)) = Map.empty"
  by (simp add: pouch_prov_wifi_reprovision_def pouch_prov_wifi_config_reset_def clear_inflight_def Let_def)

lemma wifi_config_init_only: "wifi_only d (pouch_prov_wifi_config_init n d)"
  by (simp add: pouch_prov_wifi_config_init_def Let_def wifi_only_def rpc_same_def)

lemma wifi_config_init_inv: "wifi_inv d \<Longrightarrow> wifi_inv (pouch_prov_wifi_config_init n d)"
  by (simp add: pouch_prov_wifi_config_init_def Let_def wifi_inv_def word_le_nat_alt)

subsection \<open>Staging a network\<close>

text \<open>A configuration \<open>do_set\<close> accepts.\<close>

definition config_accepted :: "wifi_config \<Rightarrow> bool" where
  "config_accepted cfg \<longleftrightarrow> wifi_config_ssid cfg \<noteq> [] \<and> length (wifi_config_ssid cfg) \<le> 32 \<and>
     (case wifi_config_pass cfg of None \<Rightarrow> True | Some p \<Rightarrow> length p \<le> 63)"

lemma do_set_rejects:
  "\<not> config_accepted cfg \<Longrightarrow> do_set cfg d = Some (prov_status_status_invalid_argument_m_c, d)"
  by (auto simp: do_set_def config_accepted_def wifi_consts split: option.splits)

definition pad :: "nat \<Rightarrow> bytes \<Rightarrow> bytes" where
  "pad n bs = bs @ replicate (n - length bs) 0"

definition cfg_channel :: "wifi_config \<Rightarrow> u8" where
  "cfg_channel cfg = (case wifi_config_ch cfg of None \<Rightarrow> 0 | Some ch \<Rightarrow> ucast ch)"

definition cfg_pass :: "wifi_config \<Rightarrow> bytes" where
  "cfg_pass cfg = (case wifi_config_pass cfg of None \<Rightarrow> [] | Some p \<Rightarrow> p)"

definition cfg_bssid :: "wifi_config \<Rightarrow> bytes option" where
  "cfg_bssid cfg = (case wifi_config_bssid cfg of None \<Rightarrow> None | Some b \<Rightarrow> if length b = 6 then Some b else None)"

lemma do_set_accepts:
  assumes "config_accepted cfg"
  shows "do_set cfg d = Some (prov_status_status_ok_m_c, d\<lparr>wc := (wc d)\<lparr>
     wc_ssid := pad 33 (wifi_config_ssid cfg), wc_ssid_len := length (wifi_config_ssid cfg),
     wc_pass := pad 64 (cfg_pass cfg), wc_pass_len := length (cfg_pass cfg),
     wc_bssid := (case cfg_bssid cfg of Some b \<Rightarrow> b | None \<Rightarrow> wc_bssid (wc d)),
     wc_has_bssid := (cfg_bssid cfg \<noteq> None), wc_channel := cfg_channel cfg\<rparr>\<rparr>)"
proof -
  have s: "memcpy_at (replicate (SSID_MAX + 1) 0) 0 (wifi_config_ssid cfg) = Some (pad 33 (wifi_config_ssid cfg))"
    using assms by (simp add: config_accepted_def wifi_consts pad_def)
  have p: "(case wifi_config_pass cfg of None \<Rightarrow> Some (replicate (PASS_MAX + 1) 0)
       | Some p \<Rightarrow> memcpy_at (replicate (PASS_MAX + 1) 0) 0 p) = Some (pad 64 (cfg_pass cfg))"
    using assms by (auto simp: config_accepted_def wifi_consts pad_def cfg_pass_def split: option.splits)
  have g: "\<not> (length (wifi_config_ssid cfg) = 0 \<or> SSID_MAX < length (wifi_config_ssid cfg))"
    "\<not> (case wifi_config_pass cfg of None \<Rightarrow> False | Some p \<Rightarrow> PASS_MAX < length p)"
    using assms by (auto simp: config_accepted_def wifi_consts split: option.splits)
  show ?thesis
    unfolding do_set_def s p if_not_P[OF g(1)] if_not_P[OF g(2)]
    by (auto simp: Let_def cfg_pass_def cfg_bssid_def cfg_channel_def wifi_consts split: option.splits)
qed

lemma length_pad: "length bs \<le> n \<Longrightarrow> length (pad n bs) = n"
  by (simp add: pad_def)

lemma take_pad [simp]: "take (length bs) (pad n bs) = bs"
  by (simp add: pad_def)

lemma do_set_total: "\<exists>st d'. do_set cfg d = Some (st, d')"
  using do_set_rejects[of cfg d] do_set_accepts[of cfg d] by (cases "config_accepted cfg") auto

lemma do_set_only:
  assumes "do_set cfg d = Some (st, d')"
  shows "wifi_only d d'"
  using assms do_set_rejects[of cfg d] do_set_accepts[of cfg d]
  by (cases "config_accepted cfg") (auto simp: wifi_only_def)

lemma do_set_inv:
  assumes "do_set cfg d = Some (st, d')" and "wifi_inv d"
  shows "wifi_inv d'"
proof (cases "config_accepted cfg")
  case False
  with assms do_set_rejects[OF this, of d] show ?thesis by simp
next
  case True
  then have "length (cfg_pass cfg) \<le> 63" "length (wifi_config_ssid cfg) \<le> 32"
    by (auto simp: config_accepted_def cfg_pass_def split: option.splits)
  with assms do_set_accepts[OF True, of d] show ?thesis
    by (auto simp: wifi_inv_def length_pad cfg_bssid_def split: option.splits if_splits)
qed

lemma do_set_status: "do_set cfg d = Some (st, d') \<Longrightarrow> st \<le> 6"
  using do_set_rejects[of cfg d] do_set_accepts[of cfg d]
  by (cases "config_accepted cfg") (auto simp: word_le_nat_alt)

text \<open>What the client asked for, as stored and as handed to the driver.\<close>

definition cfg_cred :: "wifi_config \<Rightarrow> personal_cred" where
  "cfg_cred cfg = \<lparr>pc_ssid = wifi_config_ssid cfg,
     pc_security = (if cfg_pass cfg = [] then WIFI_SECURITY_TYPE_NONE else WIFI_SECURITY_TYPE_PSK),
     pc_bssid = cfg_bssid cfg, pc_password = cfg_pass cfg, pc_channel = cfg_channel cfg\<rparr>"

definition cfg_params :: "wifi_config \<Rightarrow> wifi_connect_req_params" where
  "cfg_params cfg = \<lparr>params_ssid = wifi_config_ssid cfg,
     params_psk = (if cfg_pass cfg = [] then None else Some (cfg_pass cfg)),
     params_security = (if cfg_pass cfg = [] then WIFI_SECURITY_TYPE_NONE else WIFI_SECURITY_TYPE_PSK),
     params_channel = (if cfg_channel cfg = 0 then WIFI_CHANNEL_ANY else cfg_channel cfg),
     params_bssid = (case cfg_bssid cfg of None \<Rightarrow> replicate 6 0 | Some b \<Rightarrow> b)\<rparr>"

lemma staged_cred_set:
  assumes "do_set cfg d = Some (prov_status_status_ok_m_c, d')"
  shows "staged_cred (wc d') = cfg_cred cfg"
proof -
  have "config_accepted cfg" using assms do_set_rejects[of cfg d] by fastforce
  from do_set_accepts[OF this, of d] assms show ?thesis
    by (auto simp: staged_cred_def cfg_cred_def split: option.splits)
qed

subsection \<open>Applying\<close>

text \<open>A board with a station interface.\<close>

definition has_iface :: "('e, 'd) env \<Rightarrow> bool" where
  "has_iface E \<longleftrightarrow> (\<forall>t. net_if_get_wifi_sta E t \<noteq> None)"

lemma has_iface_wifi: "has_iface E \<Longrightarrow> \<exists>i. wifi_iface E d = Some i"
  by (simp add: has_iface_def wifi_iface_def) (metis option.exhaust option.simps(5))

text \<open>The connection attempts made so far.\<close>

primrec connects_of :: "trace \<Rightarrow> nat" where
  "connects_of [] = 0"
| "connects_of (x # t) = (case x of X_wifi_connect p r \<Rightarrow> Suc (connects_of t) | _ \<Rightarrow> connects_of t)"

lemma connects_emit [simp]: "connects_of (trace (pouch_prov_emit E ev x d)) = connects_of (trace d)"
  by (simp add: pouch_prov_emit_def autostop_arm_def Let_def)

text \<open>The state \<open>do_apply\<close> hands to the connect request.\<close>

definition armed :: "wifi_config_state \<Rightarrow> wifi_config_state" where
  "armed w = w\<lparr>wc_sta_state := sta_state_sta_connecting_m_c, wc_inflight_ssid := wc_ssid w,
     wc_inflight_ssid_len := wc_ssid_len w, wc_inflight_pass := wc_pass w, wc_inflight_pass_len := wc_pass_len w,
     wc_inflight_bssid := (if wc_has_bssid w then wc_bssid w else wc_inflight_bssid w),
     wc_inflight_has_bssid := wc_has_bssid w, wc_inflight_channel := wc_channel w, wc_attempts_completed := 0\<rparr>"

definition apply_prefix :: "('e, 'd) env \<Rightarrow> device \<Rightarrow> device" where
  "apply_prefix E d =
     (let d = log (X_wifi_cred_delete (take (wc_ssid_len (wc d)) (wc_ssid (wc d)))) d;
          d = log (X_wifi_cred_set (staged_cred (wc d)) rc_ok) d;
          d = pouch_prov_emit E POUCH_PROV_EVENT_WIFI_CRED_RECV None d;
          d = d\<lparr>wc := (wc d)\<lparr>wc_sta_state := sta_state_sta_connecting_m_c\<rparr>\<rparr>;
          d = log (X_work_cancel retry_work) d
      in d\<lparr>wc := armed (wc d)\<rparr>)"

lemma do_apply_eq:
  "do_apply E d =
     (if wifi_iface E d = None \<or> wc_ssid_len (wc d) = 0 then (prov_status_status_invalid_state_m_c, d)
      else let d1 = log (X_wifi_cred_delete (take (wc_ssid_len (wc d)) (wc_ssid (wc d)))) d;
               ret = wifi_credentials_set_personal E (staged_cred (wc d)) (trace d1)
      in if ret \<noteq> rc_ok then (prov_status_status_internal_error_m_c, log (X_wifi_cred_set (staged_cred (wc d)) ret) d1)
         else (prov_status_status_ok_m_c,
           let (r, d) = connect_from_inflight E (apply_prefix E d)
           in if r \<noteq> rc_ok then final_failure E (d\<lparr>wc := (wc d)\<lparr>wc_last_conn_status := CONN_WRONG_PASSWORD\<rparr>\<rparr>) else d))"
  by (simp add: do_apply_def apply_prefix_def armed_def Let_def case_prod_beta del: not_None_eq not_Some_eq)

lemma apply_prefix_only: "wifi_only d (apply_prefix E d)"
  by (simp add: apply_prefix_def Let_def wifi_only_def rpc_same_def pouch_prov_emit_def autostop_arm_def)

lemma wc_apply_prefix [simp]: "wc (apply_prefix E d) = armed (wc d)" "ip4 (apply_prefix E d) = ip4 d"
  by (simp_all add: apply_prefix_def armed_def Let_def)

lemma creds_apply_prefix:
  "wifi_creds_of (trace (apply_prefix E d)) = (wifi_creds_of (trace d))(pc_ssid (staged_cred (wc d)) \<mapsto> staged_cred (wc d))"
  by (simp add: apply_prefix_def Let_def staged_cred_def)

lemma apply_prefix_inv: "wifi_inv d \<Longrightarrow> wifi_inv (apply_prefix E d)"
  by (simp add: wifi_inv_def armed_def word_le_nat_alt)

lemma do_apply_only: "wifi_only d (snd (do_apply E d))"
proof -
  let ?c = "connect_from_inflight E (apply_prefix E d)"
  have "wifi_only d (snd ?c)" using wifi_only_trans[OF apply_prefix_only connect_only] .
  moreover from this have "wifi_only d (final_failure E ((snd ?c)\<lparr>wc := w\<rparr>))" for w
    by (rule wifi_only_trans) simp
  ultimately show ?thesis
    by (simp add: do_apply_eq Let_def case_prod_beta) (simp add: wifi_only_def rpc_same_def)
qed

lemma do_apply_inv:
  assumes "wifi_inv d"
  shows "wifi_inv (snd (do_apply E d))"
proof -
  let ?c = "snd (connect_from_inflight E (apply_prefix E d))"
  have c: "wifi_inv ?c" using apply_prefix_inv[OF assms] by simp
  moreover note final_failure_inv[OF wifi_inv_upd(3)[OF c], of E]
  ultimately show ?thesis using assms by (simp add: do_apply_eq Let_def case_prod_beta wifi_inv_upd(4))
qed

lemma do_apply_status: "fst (do_apply E d) \<le> 6"
  by (simp add: do_apply_eq Let_def word_le_nat_alt)

lemma inflight_params_armed:
  "inflight_params (armed w) = \<lparr>params_ssid = take (wc_ssid_len w) (wc_ssid w),
     params_psk = (if 0 < wc_pass_len w then Some (take (wc_pass_len w) (wc_pass w)) else None),
     params_security = (if 0 < wc_pass_len w then WIFI_SECURITY_TYPE_PSK else WIFI_SECURITY_TYPE_NONE),
     params_channel = (if 0 < wc_channel w then wc_channel w else WIFI_CHANNEL_ANY),
     params_bssid = (if wc_has_bssid w then wc_bssid w else replicate WIFI_MAC_ADDR_LEN 0)\<rparr>"
  by (simp add: inflight_params_def armed_def)

lemma set_armed_params:
  assumes "do_set cfg d = Some (prov_status_status_ok_m_c, d')"
  shows "inflight_params (armed (wc d')) = cfg_params cfg" and "wc_ssid_len (wc d') \<noteq> 0"
proof -
  have a: "config_accepted cfg" using assms do_set_rejects[of cfg d] by fastforce
  from do_set_accepts[OF a, of d] assms a show "inflight_params (armed (wc d')) = cfg_params cfg" "wc_ssid_len (wc d') \<noteq> 0"
    by (auto simp: inflight_params_armed cfg_params_def wifi_consts config_accepted_def word_greater_zero_iff
        split: option.splits)
qed

lemma connect_ok:
  assumes "has_iface E" and "\<And>t. net_mgmt_wifi_connect E (inflight_params (wc d)) t = rc_ok"
  shows "connect_from_inflight E d = (rc_ok, log (X_wifi_connect (inflight_params (wc d)) rc_ok) d)"
  using has_iface_wifi[OF assms(1), of d] assms(2) by (auto simp: connect_from_inflight_def)

lemma do_apply_accepted:
  assumes "has_iface E" and "wc_ssid_len (wc d) \<noteq> 0"
    and "\<And>t. wifi_credentials_set_personal E (staged_cred (wc d)) t = rc_ok"
    and "\<And>t. net_mgmt_wifi_connect E (inflight_params (armed (wc d))) t = rc_ok"
  shows "do_apply E d = (prov_status_status_ok_m_c,
    log (X_wifi_connect (inflight_params (armed (wc d))) rc_ok) (apply_prefix E d))"
  using assms has_iface_wifi[OF assms(1), of d] connect_ok[OF assms(1), of "apply_prefix E d"]
  by (auto simp: do_apply_eq Let_def)

subsection \<open>Failure and retry\<close>

lemma final_failure_effect:
  "wc_sta_state (wc (final_failure E d)) = sta_state_sta_failed_m_c"
  "wc_fail_reason (wc (final_failure E d)) = (if wc_last_conn_status (wc d) = CONN_AP_NOT_FOUND
     then fail_reason_fail_network_not_found_m_c else fail_reason_fail_auth_error_m_c)"
  "wc_inflight_ssid_len (wc (final_failure E d)) = 0"
  "wifi_creds_of (trace (final_failure E d)) =
     (wifi_creds_of (trace d))(take (wc_inflight_ssid_len (wc d)) (wc_inflight_ssid (wc d)) := None)"
  "connects_of (trace (final_failure E d)) = connects_of (trace d)"
  by (simp_all add: final_failure_def clear_inflight_def Let_def)

text \<open>A failed result followed by the retry it scheduled.\<close>

definition fail_round :: "('e, 'd) env \<Rightarrow> conn_status \<Rightarrow> device \<Rightarrow> device" where
  "fail_round E cs d = retry_work_handler E (on_connect_result E 1 cs d)"

text \<open>An attempt in flight, with \<open>c\<close> failed results counted.\<close>

definition attempting :: "wifi_connect_req_params \<Rightarrow> nat \<Rightarrow> nat \<Rightarrow> device \<Rightarrow> bool" where
  "attempting p m c d \<longleftrightarrow> wc_inflight_ssid_len (wc d) \<noteq> 0 \<and> inflight_params (wc d) = p \<and>
     unat (wc_attempts_max (wc d)) = m \<and> unat (wc_attempts_completed (wc d)) = c \<and>
     wc_sta_state (wc d) = sta_state_sta_connecting_m_c"

lemma inflight_params_upd [simp]:
  "inflight_params (w\<lparr>wc_last_conn_status := a\<rparr>) = inflight_params w"
  "inflight_params (w\<lparr>wc_last_conn_status := a, wc_attempts_completed := b, wc_sta_state := x\<rparr>) = inflight_params w"
  by (simp_all add: inflight_params_def)

lemma unat_suc_u32: "unat (x :: u32) + 1 < m \<Longrightarrow> m < 2 ^ 32 \<Longrightarrow> unat (x + 1) = unat x + 1"
  by (simp add: unat_word_ariths)

lemma fail_round_log:
  fixes cs :: conn_status
  assumes a: "attempting p m c d" and c: "c + 1 < m" and E: "has_iface E" "\<And>t. net_mgmt_wifi_connect E p t = rc_ok"
  defines "w \<equiv> (wc d)\<lparr>wc_last_conn_status := cs, wc_attempts_completed := wc_attempts_completed (wc d) + 1,
     wc_sta_state := sta_state_sta_connecting_m_c\<rparr>"
  shows "unat (wc_attempts_completed (wc d) + 1) = c + 1"
    and "on_connect_result E 1 cs d = log (X_work_schedule retry_work) (d\<lparr>wc := w\<rparr>)"
    and "fail_round E cs d = log (X_wifi_connect p rc_ok) (on_connect_result E 1 cs d)"
proof -
  let ?d = "log (X_work_schedule retry_work) (d\<lparr>wc := w\<rparr>)"
  show s: "unat (wc_attempts_completed (wc d) + 1) = c + 1"
    using a c unat_suc_u32[of "wc_attempts_completed (wc d)" m] unat_lt_u32[of "wc_attempts_max (wc d)"]
    by (simp add: attempting_def)
  have "0 < wc_attempts_max (wc d)" "wc_attempts_completed (wc d) + 1 < wc_attempts_max (wc d)"
    using a c s by (simp_all add: attempting_def word_less_nat_alt)
  then show r: "on_connect_result E 1 cs d = ?d" using a by (simp add: on_connect_result_def attempting_def w_def Let_def)
  show "fail_round E cs d = log (X_wifi_connect p rc_ok) (on_connect_result E 1 cs d)"
    using a connect_ok[OF E(1), of ?d] E(2) by (simp add: fail_round_def r retry_work_handler_def attempting_def w_def)
qed

lemma fail_round_retries:
  assumes a: "attempting p m c d" and c: "c + 1 < m" and E: "has_iface E" "\<And>t. net_mgmt_wifi_connect E p t = rc_ok"
  shows "attempting p m (c + 1) (fail_round E cs d)"
    and "connects_of (trace (fail_round E cs d)) = connects_of (trace d) + 1"
    and "wifi_creds_of (trace (fail_round E cs d)) = wifi_creds_of (trace d)"
  using a fail_round_log(1)[OF assms] unfolding fail_round_log(3)[OF assms] fail_round_log(2)[OF assms]
  by (simp_all add: attempting_def)

lemma fail_rounds:
  assumes "attempting p m c d" and "c + length css < m" and "has_iface E" and "\<And>t. net_mgmt_wifi_connect E p t = rc_ok"
  shows "attempting p m (c + length css) (fold (fail_round E) css d) \<and>
    connects_of (trace (fold (fail_round E) css d)) = connects_of (trace d) + length css \<and>
    wifi_creds_of (trace (fold (fail_round E) css d)) = wifi_creds_of (trace d)"
  using assms
proof (induction css arbitrary: c d)
  case Nil
  then show ?case by simp
next
  case (Cons cs css)
  then have c: "c + 1 < m" by simp
  note r = fail_round_retries[OF Cons.prems(1) c Cons.prems(3,4), of cs]
  from Cons.IH[OF r(1)] Cons.prems r(2,3) show ?case by simp
qed

lemma last_failure:
  assumes a: "attempting p m c d" and m: "m = c + 1 \<or> m = 0" and st: "status \<noteq> 0"
  shows "on_connect_result E status cs d = final_failure E (d\<lparr>wc := (wc d)\<lparr>wc_last_conn_status := cs,
    wc_attempts_completed := (if m = 0 then wc_attempts_completed (wc d) else wc_attempts_completed (wc d) + 1)\<rparr>\<rparr>)"
proof (cases "m = 0")
  case True
  then have "\<not> 0 < wc_attempts_max (wc d)" using a by (simp add: attempting_def word_less_nat_alt)
  with a st True show ?thesis by (simp add: on_connect_result_def attempting_def Let_def)
next
  case False
  then have x: "0 < wc_attempts_max (wc d)" using a by (simp add: attempting_def word_less_nat_alt)
  have "unat (wc_attempts_completed (wc d)) + 1 < 2 ^ 32"
    using a m False unat_lt_u32[of "wc_attempts_max (wc d)"] by (simp add: attempting_def)
  then have "unat (wc_attempts_completed (wc d) + 1) = c + 1"
    using a unat_suc_u32[of "wc_attempts_completed (wc d)" "2 ^ 32 - 1"] m False unat_lt_u32[of "wc_attempts_max (wc d)"]
    by (simp add: attempting_def unat_word_ariths)
  then have "\<not> wc_attempts_completed (wc d) + 1 < wc_attempts_max (wc d)"
    using a m False by (simp add: attempting_def word_less_nat_alt)
  with x a st False show ?thesis by (simp add: on_connect_result_def attempting_def Let_def)
qed

subsection \<open>The handler\<close>

lemma fill_connected_only: "wifi_only d (snd (fill_connected E d))"
  by (simp add: fill_connected_def Let_def wifi_only_def rpc_same_def split: option.split)

lemma fill_connected_wc: "wc (snd (fill_connected E d)) = wc d"
  by (simp add: fill_connected_def Let_def split: option.split)

lemma fill_connected_inv: "wifi_inv d \<Longrightarrow> wifi_inv (snd (fill_connected E d))"
  by (simp add: fill_connected_def Let_def wifi_inv_def split: option.split)

lemma encode_status_keeps:
  assumes "encode_status E n d = Some (r, d')"
  shows "wifi_only d d'" and "wifi_inv d \<Longrightarrow> wifi_inv d'" and "wc d' = wc d"
proof -
  have "d' = d \<or> d' = snd (fill_connected E d)"
    using assms by (auto simp: encode_status_def Let_def case_prod_beta split: if_splits)
  then show "wifi_only d d'" "wifi_inv d \<Longrightarrow> wifi_inv d'" "wc d' = wc d"
    using fill_connected_only fill_connected_inv fill_connected_wc by auto
qed

lemma handle_config_keeps:
  assumes "pouch_prov_handle_config E req n d = Some (r, d')"
  shows "wifi_only d d'" and "wifi_inv d \<Longrightarrow> wifi_inv d'"
  using assms do_apply_only[of d E] do_apply_inv[of d E]
  by (auto simp: pouch_prov_handle_config_def split: option.splits prod.splits config_req_r.splits bind_splits
      intro: encode_status_keeps do_set_only do_set_inv)

text \<open>The only undefined request: a status query while connected and with a readable interface.\<close>

definition status_dangles :: "('e, 'd) env \<Rightarrow> device \<Rightarrow> bool" where
  "status_dangles E d \<longleftrightarrow> wc_sta_state (wc d) = sta_state_sta_connected_m_c \<and> wifi_iface E d \<noteq> None \<and>
     (\<exists>s. net_mgmt_wifi_iface_status E (trace d) = Some s \<and> 1 \<le> length (ifs_ssid s) \<and> length (ifs_ssid s) \<le> 32)"

lemma encode_status_undefined_iff: "encode_status E n d = None \<longleftrightarrow> status_dangles E d"
  by (auto simp: encode_status_def fill_connected_def status_dangles_def Let_def split: option.splits)

lemma handle_config_defined:
  assumes "\<not> status_dangles E d"
  shows "\<exists>r d'. pouch_prov_handle_config E req n d = Some (r, d')"
proof (cases "cbor_decode_config_req (zdec E) req")
  case None
  then show ?thesis by (simp add: pouch_prov_handle_config_def)
next
  case (Some ic)
  obtain i c where ic: "ic = (i, c)" by (cases ic)
  obtain r d' where "encode_status E n d = Some (r, d')"
    using assms encode_status_undefined_iff[of E n d] by auto
  moreover have "\<exists>d1 st. do_set cfg d = Some (st, d1)" for cfg using do_set_total[of cfg d] by blast
  ultimately show ?thesis
    using Some ic by (cases i) (auto simp: pouch_prov_handle_config_def case_prod_beta Let_def bind_eq_Some_conv)
qed

text \<open>Setting a network and applying it.\<close>

lemma apply_effect:
  assumes "config_accepted cfg" and "has_iface E" and "\<forall>c t. wifi_credentials_set_personal E c t = rc_ok"
    and "\<forall>p t. net_mgmt_wifi_connect E p t = rc_ok"
  shows "\<exists>d1 d2. do_set cfg d = Some (prov_status_status_ok_m_c, d1) \<and> do_apply E d1 = (prov_status_status_ok_m_c, d2) \<and>
    wifi_creds_of (trace d2) = (wifi_creds_of (trace d))(wifi_config_ssid cfg \<mapsto> cfg_cred cfg) \<and>
    hd (trace d2) = X_wifi_connect (cfg_params cfg) rc_ok \<and> connects_of (trace d2) = connects_of (trace d) + 1 \<and>
    attempting (cfg_params cfg) (unat (wc_attempts_max (wc d))) 0 d2"
proof -
  obtain d1 where d1: "do_set cfg d = Some (prov_status_status_ok_m_c, d1)" "trace d1 = trace d"
    "wc_attempts_max (wc d1) = wc_attempts_max (wc d)"
    using do_set_accepts[OF assms(1), of d] by auto
  note p = set_armed_params[OF d1(1)] and c = staged_cred_set[OF d1(1)]
  let ?d2 = "log (X_wifi_connect (cfg_params cfg) rc_ok) (apply_prefix E d1)"
  have a: "do_apply E d1 = (prov_status_status_ok_m_c, ?d2)"
    using do_apply_accepted[OF assms(2) p(2)] assms(3,4) p(1) by simp
  have "connects_of (trace (apply_prefix E d1)) = connects_of (trace d)" using d1(2) by (simp add: apply_prefix_def Let_def)
  moreover have "attempting (cfg_params cfg) (unat (wc_attempts_max (wc d))) 0 ?d2"
    using p d1(3) by (simp add: attempting_def) (simp add: armed_def)
  ultimately show ?thesis using d1 a c creds_apply_prefix[of E d1] by (auto simp: cfg_cred_def)
qed

end
