(* ===== verification/Wifi_Scan.thy ===== *)
theory Wifi_Scan
  imports Wifi_Config
begin

text \<open>
  Access-point scanning (\<^verbatim>\<open>src/handlers/wifi_scan.c\<close>): the result cache filled by scan events, and
  the requests that start a scan, poll it and page through the results.
\<close>

subsection \<open>Operations\<close>

definition PAGE_MAX :: nat where "PAGE_MAX = 6"
definition WIFI_SSID_MAX_LEN :: nat where "WIFI_SSID_MAX_LEN = 32"

text \<open>\<^verbatim>\<open>struct wifi_scan_result\<close> of an event; the SSID is the bytes \<^verbatim>\<open>ssid_length\<close> spans.\<close>

record wifi_scan_result =
  r_ssid :: bytes
  r_mac :: bytes
  r_channel :: u8
  r_rssi :: u8
  r_security :: u32

definition on_result :: "('e, 'd) env \<Rightarrow> wifi_scan_result \<Rightarrow> device \<Rightarrow> device option" where
  "on_result E r d =
     (if CONFIG_POUCH_PROV_SCAN_CACHE E \<le> sc_count (sc d) then Some d
      else if length (sc_entries (sc d)) \<le> sc_count (sc d) then None
      else do {
        let e = sc_entries (sc d) ! sc_count (sc d);
        let n = min (length (r_ssid r)) WIFI_SSID_MAX_LEN;
        src \<leftarrow> mem_read (r_ssid r) 0 n;
        ssid \<leftarrow> memcpy_at (ap_ssid e) 0 src;
        mac \<leftarrow> mem_read (r_mac r) 0 WIFI_MAC_ADDR_LEN;
        bssid \<leftarrow> memcpy_at (ap_bssid e) 0 mac;
        let e = \<lparr>ap_ssid = ssid, ap_ssid_len = n, ap_bssid = bssid, ap_channel = r_channel r,
                 ap_rssi = r_rssi r, ap_auth = r_security r\<rparr>;
        Some (d\<lparr>sc := (sc d)\<lparr>sc_entries := (sc_entries (sc d))[sc_count (sc d) := e],
                             sc_count := sc_count (sc d) + 1\<rparr>\<rparr>)
      })"

definition scan_done :: "device \<Rightarrow> device" where
  "scan_done d = d\<lparr>sc := (sc d)\<lparr>sc_finished := True\<rparr>\<rparr>"

definition pouch_prov_wifi_scan_init :: "device \<Rightarrow> device" where
  "pouch_prov_wifi_scan_init d =
     (if \<not> sc_cb_registered (sc d)
      then (log (X_net_add_callback ''wifi_scan'') d)\<lparr>sc := (sc d)\<lparr>sc_cb_registered := True\<rparr>\<rparr>
      else d)"

definition do_start :: "('e, 'd) env \<Rightarrow> device \<Rightarrow> u32 \<times> device" where
  "do_start E d =
     (case wifi_iface E d of
        None \<Rightarrow> (prov_status_status_internal_error_m_c, d)
      | Some iface \<Rightarrow>
          let d = d\<lparr>sc := (sc d)\<lparr>sc_count := 0, sc_finished := False\<rparr>\<rparr>;
              r = net_mgmt_wifi_scan E (trace d);
              d = log (X_wifi_scan r) d
          in if r \<noteq> rc_ok
             then (prov_status_status_internal_error_m_c, d\<lparr>sc := (sc d)\<lparr>sc_finished := True\<rparr>\<rparr>)
             else (prov_status_status_ok_m_c, d))"

definition scan_entry_of :: "ap_entry \<Rightarrow> scan_entry" where
  "scan_entry_of e = \<lparr>scan_entry_ssid = take (ap_ssid_len e) (ap_ssid e), scan_entry_bssid = ap_bssid e,
     scan_entry_ch = ucast (ap_channel e), scan_entry_rssi = scast (ap_rssi e), scan_entry_auth = ap_auth e\<rparr>"

text \<open>The loop of \<^verbatim>\<open>encode_results\<close>: \<^verbatim>\<open>i\<close> runs over the cache, \<^verbatim>\<open>n\<close> over the page.\<close>

function scan_page :: "wifi_scan_state \<Rightarrow> u32 \<Rightarrow> u32 \<Rightarrow> nat \<Rightarrow> scan_entry list" where
  "scan_page s want i n =
     (if unat i < sc_count s \<and> n < unat want \<and> n < PAGE_MAX
      then scan_entry_of (sc_entries s ! unat i) # scan_page s want (i + 1) (n + 1) else [])"
  by auto
termination by (relation "measure (\<lambda>(s, want, i, n). PAGE_MAX - n)") auto

declare scan_page.simps [simp del]

definition encode_results :: "('e, 'd) env \<Rightarrow> u32 \<Rightarrow> u32 \<Rightarrow> nat \<Rightarrow> device \<Rightarrow> errno + bytes" where
  "encode_results E start want rsp_size d =
     (case cbor_encode_scan_rsp (zenc E) rsp_size
        (scan_rsp_scan_results_rsp_m prov_status_status_ok_m_c (scan_page (sc d) want start 0)) of
        Some rsp \<Rightarrow> Inr rsp | None \<Rightarrow> Inl ENOMEM)"

definition pouch_prov_handle_scan ::
  "('e, 'd) env \<Rightarrow> bytes \<Rightarrow> nat \<Rightarrow> device \<Rightarrow> ((errno + bytes) \<times> device) option" where
  "pouch_prov_handle_scan E req rsp_size d =
     (case cbor_decode_scan_req (zdec E) req of
        None \<Rightarrow> Some (Inl EBADMSG, d)
      | Some (scan_req_scan_start_m p, consumed) \<Rightarrow>
          let (status, d) = do_start E d in
          Some (case cbor_encode_scan_rsp (zenc E) rsp_size (scan_rsp_scan_start_rsp_m status) of
                  Some rsp \<Rightarrow> Inr rsp | None \<Rightarrow> Inl ENOMEM, d)
      | Some (scan_req_scan_get_status_m, consumed) \<Rightarrow>
          Some (case cbor_encode_scan_rsp (zenc E) rsp_size (scan_rsp_scan_status_rsp_m
                  prov_status_status_ok_m_c (sc_finished (sc d)) (of_nat (sc_count (sc d)))) of
                  Some rsp \<Rightarrow> Inr rsp | None \<Rightarrow> Inl ENOMEM, d)
      | Some (scan_req_scan_get_results_m start count, consumed) \<Rightarrow>
          Some (encode_results E start count rsp_size d, d))"

subsection \<open>Invariant\<close>

definition ap_inv :: "ap_entry \<Rightarrow> bool" where
  "ap_inv e \<longleftrightarrow> length (ap_ssid e) = 32 \<and> ap_ssid_len e \<le> 32 \<and> length (ap_bssid e) = 6"

definition scan_inv :: "('e, 'd) env \<Rightarrow> device \<Rightarrow> bool" where
  "scan_inv E d \<longleftrightarrow> length (sc_entries (sc d)) = CONFIG_POUCH_PROV_SCAN_CACHE E \<and>
     sc_count (sc d) \<le> CONFIG_POUCH_PROV_SCAN_CACHE E \<and> list_all ap_inv (sc_entries (sc d))"

text \<open>The scan code changes only its own state and the log.\<close>

definition scan_only :: "device \<Rightarrow> device \<Rightarrow> bool" where
  "scan_only d d' \<longleftrightarrow> config d' = config d \<and> initialized d' = initialized d \<and> running d' = running d \<and>
     blobs d' = blobs d \<and> wc d' = wc d \<and> ip4 d' = ip4 d \<and> auth d' = auth d \<and> active d' = active d \<and>
     authorized d' = authorized d \<and> identity d' = identity d \<and> adv_enabled d' = adv_enabled d \<and>
     adv_flags d' = adv_flags d \<and> device_name d' = device_name d \<and> rpc_same (trace d) (trace d') \<and>
     settings_of (trace d') = settings_of (trace d) \<and> wifi_creds_of (trace d') = wifi_creds_of (trace d)"

lemma scan_onlyD:
  assumes "scan_only d d'"
  shows "config d' = config d" "initialized d' = initialized d" "running d' = running d" "blobs d' = blobs d"
    "wc d' = wc d" "ip4 d' = ip4 d" "auth d' = auth d" "active d' = active d" "authorized d' = authorized d"
    "identity d' = identity d" "adv_enabled d' = adv_enabled d" "adv_flags d' = adv_flags d"
    "device_name d' = device_name d" "rpc_same (trace d) (trace d')" "settings_of (trace d') = settings_of (trace d)"
    "wifi_creds_of (trace d') = wifi_creds_of (trace d)"
  using assms by (simp_all add: scan_only_def)

lemma do_start_keeps: "scan_only d (snd (do_start E d))" "scan_inv E d \<Longrightarrow> scan_inv E (snd (do_start E d))"
  by (simp_all add: do_start_def scan_only_def scan_inv_def rpc_same_def Let_def split: option.split)

lemma do_start_status: "fst (do_start E d) \<le> 6"
  by (simp add: do_start_def Let_def word_le_nat_alt split: option.split)

lemma handle_scan_keeps:
  assumes "pouch_prov_handle_scan E req n d = Some (r, d')"
  shows "scan_only d d'" and "scan_inv E d \<Longrightarrow> scan_inv E d'"
proof -
  have "d' = d \<or> d' = snd (do_start E d)"
    using assms by (auto simp: pouch_prov_handle_scan_def case_prod_beta split: option.splits scan_req_r.splits)
  then show "scan_only d d'" "scan_inv E d \<Longrightarrow> scan_inv E d'"
    using do_start_keeps by (auto simp: scan_only_def)
qed

lemma handle_scan_defined: "\<exists>r d'. pouch_prov_handle_scan E req n d = Some (r, d')"
  by (simp add: pouch_prov_handle_scan_def case_prod_beta split: option.split scan_req_r.split)

lemma scan_init_keeps:
  "scan_only d (pouch_prov_wifi_scan_init d)" "scan_inv E d \<Longrightarrow> scan_inv E (pouch_prov_wifi_scan_init d)"
  by (simp_all add: pouch_prov_wifi_scan_init_def scan_only_def scan_inv_def rpc_same_def)

subsection \<open>The cache\<close>

text \<open>The results in the cache, as the client sees them.\<close>

definition cached :: "device \<Rightarrow> scan_entry list" where
  "cached d = map scan_entry_of (take (sc_count (sc d)) (sc_entries (sc d)))"

definition entry_of_result :: "wifi_scan_result \<Rightarrow> scan_entry" where
  "entry_of_result r = \<lparr>scan_entry_ssid = take 32 (r_ssid r), scan_entry_bssid = r_mac r,
     scan_entry_ch = ucast (r_channel r), scan_entry_rssi = scast (r_rssi r), scan_entry_auth = r_security r\<rparr>"

lemma on_result_effect:
  assumes inv: "scan_inv E d" and mac: "length (r_mac r) = 6"
  shows "\<exists>d'. on_result E r d = Some d' \<and> scan_inv E d' \<and> scan_only d d' \<and>
    cached d' = (if sc_count (sc d) < CONFIG_POUCH_PROV_SCAN_CACHE E then cached d @ [entry_of_result r] else cached d)"
proof (cases "sc_count (sc d) < CONFIG_POUCH_PROV_SCAN_CACHE E")
  case False
  with inv show ?thesis by (simp add: on_result_def scan_only_def)
next
  case True
  let ?k = "sc_count (sc d)"
  let ?e = "sc_entries (sc d) ! ?k"
  let ?n = "min (length (r_ssid r)) 32"
  let ?e' = "\<lparr>ap_ssid = take ?n (r_ssid r) @ drop ?n (ap_ssid ?e), ap_ssid_len = ?n, ap_bssid = r_mac r,
    ap_channel = r_channel r, ap_rssi = r_rssi r, ap_auth = r_security r\<rparr>"
  let ?d = "d\<lparr>sc := (sc d)\<lparr>sc_entries := (sc_entries (sc d))[?k := ?e'], sc_count := ?k + 1\<rparr>\<rparr>"
  have k: "?k < length (sc_entries (sc d))" using inv True by (simp add: scan_inv_def)
  then have e: "ap_inv ?e" using inv by (auto simp: scan_inv_def list_all_length)
  have "on_result E r d = Some ?d"
    using True k e mac by (simp add: on_result_def ap_inv_def WIFI_SSID_MAX_LEN_def WIFI_MAC_ADDR_LEN_def Let_def)
  moreover have "ap_inv ?e'" using e mac by (simp add: ap_inv_def)
  then have "scan_inv E ?d" using inv True by (auto simp: scan_inv_def list_all_length nth_list_update)
  moreover have "scan_entry_of ?e' = entry_of_result r"
    by (simp add: scan_entry_of_def entry_of_result_def min_def)
  then have "cached ?d = cached d @ [entry_of_result r]"
    using k by (simp add: cached_def take_Suc_conv_app_nth)
  ultimately show ?thesis using True by (simp add: scan_only_def)
qed

subsection \<open>Paging\<close>

lemma scan_page_eq:
  assumes "sc_count s \<le> length (sc_entries s)" and "length (sc_entries s) < 2 ^ 32"
  shows "scan_page s want i n =
    take (min (unat want) PAGE_MAX - n) (drop (unat i) (map scan_entry_of (take (sc_count s) (sc_entries s))))"
  using assms
proof (induction s want i n rule: scan_page.induct)
  case (1 s want i n)
  show ?case
  proof (cases "unat i < sc_count s \<and> n < unat want \<and> n < PAGE_MAX")
    case True
    then have i: "unat (i + 1) = unat i + 1" using 1(2,3) unat_suc_u32[of i "2 ^ 32 - 1"] by (simp add: unat_word_ariths)
    let ?l = "map scan_entry_of (take (sc_count s) (sc_entries s))"
    have l: "unat i < length ?l" using True 1(2) by simp
    then have "drop (unat i) ?l = ?l ! unat i # drop (unat i + 1) ?l"
      using Cons_nth_drop_Suc[OF l] by simp
    moreover have "?l ! unat i = scan_entry_of (sc_entries s ! unat i)" using l by simp
    moreover have "min (unat want) PAGE_MAX - n = Suc (min (unat want) PAGE_MAX - (n + 1))" using True by auto
    ultimately show ?thesis
      using True 1 i by (subst scan_page.simps) simp
  next
    case False
    then show ?thesis using 1(2) by (subst scan_page.simps) (auto simp: min_def)
  qed
qed

lemma results_effect:
  assumes "scan_inv E d" and "list_all (\<lambda>r. length (r_mac r) = 6) rs"
  shows "\<exists>d'. foldM (on_result E) rs d = Some d' \<and> scan_inv E d' \<and> scan_only d d' \<and>
    cached d' = take (CONFIG_POUCH_PROV_SCAN_CACHE E) (cached d @ map entry_of_result rs)"
  using assms
proof (induction rs arbitrary: d)
  case Nil
  then show ?case by (auto simp: cached_def scan_inv_def scan_only_def)
next
  case (Cons r rs)
  have m: "length (r_mac r) = 6" and rs: "list_all (\<lambda>r. length (r_mac r) = 6) rs" using Cons.prems(2) by simp_all
  obtain d1 where d1: "on_result E r d = Some d1" "scan_inv E d1" "scan_only d d1" and
    c1: "cached d1 = (if sc_count (sc d) < CONFIG_POUCH_PROV_SCAN_CACHE E then cached d @ [entry_of_result r] else cached d)"
    using on_result_effect[OF Cons.prems(1) m] by blast
  obtain d2 where d2: "foldM (on_result E) rs d1 = Some d2" "scan_inv E d2" "scan_only d1 d2"
    "cached d2 = take (CONFIG_POUCH_PROV_SCAN_CACHE E) (cached d1 @ map entry_of_result rs)"
    using Cons.IH[OF d1(2) rs] by blast
  have "length (cached d) = sc_count (sc d)" using Cons.prems(1) by (simp add: cached_def scan_inv_def)
  then have "cached d2 = take (CONFIG_POUCH_PROV_SCAN_CACHE E) (cached d @ map entry_of_result (r # rs))"
    using d2(4) c1 by (auto simp: take_Cons' Suc_diff_Suc[symmetric])
  moreover have "scan_only d d2" using d1(3) d2(3) rpc_same_trans[of "trace d" "trace d1" "trace d2"] by (simp add: scan_only_def)
  ultimately show ?case using d1 d2 by simp
qed

text \<open>The pages of the cache, \<open>PAGE_MAX\<close> entries each.\<close>

lemma page_of_cache:
  assumes "scan_inv E d" and "CONFIG_POUCH_PROV_SCAN_CACHE E < 2 ^ 32"
  shows "scan_page (sc d) want start 0 = take (min (unat want) PAGE_MAX) (drop (unat start) (cached d))"
  using assms scan_page_eq[of "sc d" want start 0] by (simp add: scan_inv_def cached_def)

lemma pages_concat:
  assumes "scan_inv E d" and "CONFIG_POUCH_PROV_SCAN_CACHE E < 2 ^ 32" and "PAGE_MAX * n < 2 ^ 32"
  shows "concat (map (\<lambda>i. scan_page (sc d) (of_nat PAGE_MAX) (of_nat (PAGE_MAX * i)) 0) [0..<n]) = take (PAGE_MAX * n) (cached d)"
  using assms(3)
proof (induction n)
  case (Suc n)
  have "unat (of_nat (PAGE_MAX * n) :: u32) = PAGE_MAX * n" using Suc.prems by (intro unat_of_nat_small) simp
  moreover have "unat (of_nat PAGE_MAX :: u32) = PAGE_MAX" by (simp add: PAGE_MAX_def)
  ultimately have "scan_page (sc d) (of_nat PAGE_MAX) (of_nat (PAGE_MAX * n)) 0 = take PAGE_MAX (drop (PAGE_MAX * n) (cached d))"
    using page_of_cache[OF assms(1,2), of "of_nat PAGE_MAX" "of_nat (PAGE_MAX * n)"] by simp
  moreover have "take (PAGE_MAX * Suc n) (cached d) = take (PAGE_MAX * n) (cached d) @ take PAGE_MAX (drop (PAGE_MAX * n) (cached d))"
    using take_add[of "PAGE_MAX * n" PAGE_MAX "cached d"] by (simp add: add.commute)
  ultimately show ?case using Suc by simp
qed simp

subsection \<open>The size of a page\<close>

lemma rssi_head: "length (tok_bytes (int_tok (scast (r :: u8)))) \<le> 2" "1 \<le> length (tok_bytes (int_tok (scast (r :: u8))))"
proof -
  have b: "- 128 \<le> sint r" "sint r < 128" using sint_range_size[of r] by (simp_all add: word_size)
  then have "sint (scast r :: u32) = sint r" by (simp add: signed_scast_eq signed_take_bit_int_eq_self_iff)
  with b show "length (tok_bytes (int_tok (scast r))) \<le> 2" "1 \<le> length (tok_bytes (int_tok (scast r)))"
    by (auto simp: int_tok_def length_cbor_head)
qed

lemma entry_size:
  assumes "ap_inv e"
  shows "length (toks_bytes (scan_entry_toks (scan_entry_of e))) \<le> 75"
    and "ap_ssid_len e = 32 \<Longrightarrow> 69 \<le> length (toks_bytes (scan_entry_toks (scan_entry_of e)))"
proof -
  let ?v = "scan_entry_of e"
  have s: "length (scan_entry_ssid ?v) = ap_ssid_len e" "ap_ssid_len e \<le> 32" "length (scan_entry_bssid ?v) = 6"
    using assms by (simp_all add: scan_entry_of_def ap_inv_def)
  have c: "length (tok_bytes (u32_tok (scan_entry_ch ?v))) \<le> 2" "1 \<le> length (tok_bytes (u32_tok (scan_entry_ch ?v)))"
    using unat_lt_u8[of "ap_channel e"]
    by (simp_all add: scan_entry_of_def u32_tok_def length_cbor_head unsigned_ucast_eq take_bit_nat_eq_self)
  have r: "length (tok_bytes (int_tok (scan_entry_rssi ?v))) \<le> 2" "1 \<le> length (tok_bytes (int_tok (scan_entry_rssi ?v)))"
    using rssi_head by (simp_all add: scan_entry_of_def)
  have a: "length (tok_bytes (u32_tok (scan_entry_auth ?v))) \<le> 5" "1 \<le> length (tok_bytes (u32_tok (scan_entry_auth ?v)))"
    using unat_lt_u32[of "scan_entry_auth ?v"] by (simp_all add: u32_tok_def length_cbor_head)
  have e: "length (toks_bytes (scan_entry_toks ?v)) = 32 + length (cbor_head 2 (ap_ssid_len e)) + ap_ssid_len e
      + length (tok_bytes (u32_tok (scan_entry_ch ?v))) + length (tok_bytes (int_tok (scan_entry_rssi ?v)))
      + length (tok_bytes (u32_tok (scan_entry_auth ?v)))"
    using s by (simp add: toks_bytes_def scan_entry_toks_def length_cbor_head)
  show "length (toks_bytes (scan_entry_toks ?v)) \<le> 75" using e s(2) c(1) r(1) a(1) by (simp add: length_cbor_head split: if_splits)
  show "69 \<le> length (toks_bytes (scan_entry_toks ?v))" if "ap_ssid_len e = 32"
    using e that c(2) r(2) a(2) by (simp add: length_cbor_head)
qed

text \<open>The bytes of a page of results.\<close>

lemma toks_bytes_append: "toks_bytes (xs @ ys) = toks_bytes xs @ toks_bytes ys"
  by (simp add: toks_bytes_def)

lemma toks_bytes_results: "length (toks_bytes (scan_rsp_toks (scan_rsp_scan_results_rsp_m st (map scan_entry_of page)))) =
    length (toks_bytes [T_list 3, T_uint 2, u32_tok st, T_list (length page)]) +
    (\<Sum>e\<leftarrow>page. length (toks_bytes (scan_entry_toks (scan_entry_of e))))"
proof -
  have "length (toks_bytes (concat (map scan_entry_toks (map scan_entry_of page)))) =
      (\<Sum>e\<leftarrow>page. length (toks_bytes (scan_entry_toks (scan_entry_of e))))"
    by (induction page) (simp_all add: toks_bytes_append toks_bytes_def)
  then show ?thesis by (simp add: toks_bytes_append toks_bytes_def)
qed

end
