(* ===== verification/Fake_Wifi.thy ===== *)
theory Fake_Wifi
  imports Wifi_Scan
begin

text \<open>
  The simulated Wi-Fi driver (\<^verbatim>\<open>sim/wifi/fake_wifi.c\<close>), the network the library is run against off
  target: its programmable state, its driver operations and its deferred work, and the closed loop
  of the Wi-Fi code with it. The network stack between the two passes requests down and events up.
  The registration of the network interface (\<^verbatim>\<open>fake_iface_init\<close>, \<^verbatim>\<open>fake_get_caps\<close>, \<^verbatim>\<open>fake_send\<close>,
  \<^verbatim>\<open>fake_wifi_init\<close>) and the two access-point operations, which do nothing, have no counterpart.
\<close>

subsection \<open>State\<close>

definition WIFI_PSK_MAX_LEN :: nat where "WIFI_PSK_MAX_LEN = 64"

abbreviation (input) WIFI_STATUS_CONN_SUCCESS :: conn_status where "WIFI_STATUS_CONN_SUCCESS \<equiv> CONN_OTHER 0"

record fake_wifi_ap =
  fap_ssid :: bytes
  fap_ssid_len :: nat
  fap_bssid :: bytes
  fap_channel :: u8
  fap_rssi :: u8
  fap_security :: u32

text \<open>
  \<^verbatim>\<open>scan_work\<close> and \<^verbatim>\<open>connect_work\<close> are whether the work is submitted, and a synchronous error of 0 is
  \<open>None\<close>. \<^verbatim>\<open>aps\<close> has \<^verbatim>\<open>MAX_AP\<close> elements.
\<close>

record fake_wifi_data =
  fw_aps :: "fake_wifi_ap list"
  fw_ap_count :: nat
  fw_next_conn :: conn_status
  fw_next_sync_err :: "errno option"
  fw_creds_mode :: bool
  fw_exp_ssid :: bytes
  fw_exp_ssid_len :: nat
  fw_exp_pass :: bytes
  fw_exp_pass_len :: nat
  fw_conn_ssid :: bytes
  fw_conn_ssid_len :: nat
  fw_conn_channel :: u8
  fw_connected :: bool
  fw_scan_work :: bool
  fw_connect_work :: bool

subsection \<open>Test control\<close>

definition fake_wifi_set_scan_aps :: "nat \<Rightarrow> fake_wifi_ap list \<Rightarrow> fake_wifi_data \<Rightarrow> fake_wifi_data" where
  "fake_wifi_set_scan_aps max_ap aps fw =
     (let count = (if max_ap < length aps then max_ap else length aps) in
      fw\<lparr>fw_ap_count := count, fw_aps := take count aps @ drop count (fw_aps fw)\<rparr>)"

definition fake_wifi_set_next_connect_result :: "conn_status \<Rightarrow> fake_wifi_data \<Rightarrow> fake_wifi_data" where
  "fake_wifi_set_next_connect_result status fw = fw\<lparr>fw_next_conn := status\<rparr>"

definition fake_wifi_set_next_connect_sync_error :: "errno option \<Rightarrow> fake_wifi_data \<Rightarrow> fake_wifi_data" where
  "fake_wifi_set_next_connect_sync_error errnum fw = fw\<lparr>fw_next_sync_err := errnum\<rparr>"

definition fake_wifi_set_expected_credentials :: "bytes option \<Rightarrow> bytes option \<Rightarrow> fake_wifi_data \<Rightarrow> fake_wifi_data option" where
  "fake_wifi_set_expected_credentials ssid pass fw =
     (case ssid of
        None \<Rightarrow> Some (fw\<lparr>fw_creds_mode := False\<rparr>)
      | Some s \<Rightarrow>
          if s = [] then Some (fw\<lparr>fw_creds_mode := False\<rparr>)
          else do {
            let n = min (length s) WIFI_SSID_MAX_LEN;
            es \<leftarrow> memcpy_at (fw_exp_ssid fw) 0 (take n s);
            let m = (case pass of None \<Rightarrow> 0 | Some p \<Rightarrow> min (length p) WIFI_PSK_MAX_LEN);
            ep \<leftarrow> (case pass of None \<Rightarrow> Some (fw_exp_pass fw) | Some p \<Rightarrow> memcpy_at (fw_exp_pass fw) 0 (take m p));
            Some (fw\<lparr>fw_creds_mode := True, fw_exp_ssid_len := n, fw_exp_ssid := es, fw_exp_pass_len := m, fw_exp_pass := ep\<rparr>)
          })"

definition fake_wifi_reset :: "fake_wifi_data \<Rightarrow> fake_wifi_data" where
  "fake_wifi_reset fw = fw\<lparr>fw_ap_count := 0, fw_next_conn := WIFI_STATUS_CONN_SUCCESS, fw_next_sync_err := None,
     fw_creds_mode := False, fw_exp_ssid_len := 0, fw_exp_pass_len := 0, fw_connected := False, fw_conn_ssid_len := 0\<rparr>"

subsection \<open>The outcome of a connect\<close>

text \<open>The loop over the access points; \<open>None\<close> is a comparison past the end of an array.\<close>

fun ap_loop :: "fake_wifi_ap list \<Rightarrow> bytes \<Rightarrow> bool option" where
  "ap_loop [] ssid = Some False"
| "ap_loop (ap # aps) ssid =
     (if fap_ssid_len ap = length ssid
      then do {
        s \<leftarrow> mem_read (fap_ssid ap) 0 (length ssid);
        (if s = ssid then Some True else ap_loop aps ssid)
      }
      else ap_loop aps ssid)"

definition ssid_in_scan_list :: "fake_wifi_data \<Rightarrow> bytes \<Rightarrow> bool option" where
  "ssid_in_scan_list fw ssid = ap_loop (take (fw_ap_count fw) (fw_aps fw)) ssid"

definition psk_length :: "wifi_connect_req_params \<Rightarrow> nat" where
  "psk_length p = (case params_psk p of None \<Rightarrow> 0 | Some k \<Rightarrow> length k)"

definition creds_outcome :: "fake_wifi_data \<Rightarrow> wifi_connect_req_params \<Rightarrow> conn_status option" where
  "creds_outcome fw p = do {
     found \<leftarrow> ssid_in_scan_list fw (params_ssid p);
     (if \<not> found then Some CONN_AP_NOT_FOUND
      else if length (params_ssid p) \<noteq> fw_exp_ssid_len fw then Some CONN_WRONG_PASSWORD
      else do {
        es \<leftarrow> mem_read (fw_exp_ssid fw) 0 (fw_exp_ssid_len fw);
        (if params_ssid p \<noteq> es \<or> psk_length p \<noteq> fw_exp_pass_len fw then Some CONN_WRONG_PASSWORD
         else if fw_exp_pass_len fw = 0 then Some WIFI_STATUS_CONN_SUCCESS
         else do {
           psk \<leftarrow> params_psk p;
           ep \<leftarrow> mem_read (fw_exp_pass fw) 0 (fw_exp_pass_len fw);
           Some (if psk \<noteq> ep then CONN_WRONG_PASSWORD else WIFI_STATUS_CONN_SUCCESS)
         })
      })
   }"

subsection \<open>Driver operations\<close>

definition fake_scan :: "fake_wifi_data \<Rightarrow> rc \<times> fake_wifi_data" where
  "fake_scan fw = (rc_ok, fw\<lparr>fw_scan_work := True\<rparr>)"

definition fake_connect :: "wifi_connect_req_params \<Rightarrow> fake_wifi_data \<Rightarrow> (rc \<times> fake_wifi_data) option" where
  "fake_connect p fw =
     (case fw_next_sync_err fw of
        Some err \<Rightarrow> Some (rc_err err, fw\<lparr>fw_next_sync_err := None\<rparr>)
      | None \<Rightarrow> do {
          fw \<leftarrow> (if fw_creds_mode fw then do { cs \<leftarrow> creds_outcome fw p; Some (fw\<lparr>fw_next_conn := cs\<rparr>) } else Some fw);
          let n = min (length (params_ssid p)) WIFI_SSID_MAX_LEN;
          s \<leftarrow> memcpy_at (fw_conn_ssid fw) 0 (take n (params_ssid p));
          Some (rc_ok, fw\<lparr>fw_conn_ssid_len := n, fw_conn_ssid := s,
            fw_conn_channel := (if params_channel p = WIFI_CHANNEL_ANY then 1 else params_channel p),
            fw_connect_work := True\<rparr>)
        })"

text \<open>With the status of the disconnect event it raises.\<close>

definition fake_disconnect :: "fake_wifi_data \<Rightarrow> rc \<times> int \<times> fake_wifi_data" where
  "fake_disconnect fw = (rc_ok, 0, fw\<lparr>fw_connected := False\<rparr>)"

text \<open>The status with the fields that vary; band, interface mode, link mode and MFP are constants.\<close>

datatype wifi_iface_state = WIFI_STATE_DISCONNECTED | WIFI_STATE_COMPLETED

record fake_status = wifi_iface_status +
  st_state :: wifi_iface_state
  st_bssid :: bytes
  st_channel :: u8
  st_security :: wifi_security

definition fake_iface_status :: "fake_wifi_data \<Rightarrow> fake_status \<Rightarrow> fake_status option" where
  "fake_iface_status fw st =
     (if \<not> fw_connected fw then Some (st\<lparr>st_state := WIFI_STATE_DISCONNECTED\<rparr>)
      else do {
        s \<leftarrow> mem_read (fw_conn_ssid fw) 0 (fw_conn_ssid_len fw);
        Some (st\<lparr>st_state := WIFI_STATE_COMPLETED, ifs_ssid := s, st_bssid := replicate WIFI_MAC_ADDR_LEN 0xAB,
                 st_channel := fw_conn_channel fw, st_security := WIFI_SECURITY_TYPE_PSK\<rparr>)
      })"

subsection \<open>Deferred work\<close>

text \<open>The loop over the programmed access points.\<close>

fun scan_loop :: "fake_wifi_ap list \<Rightarrow> wifi_scan_result list option" where
  "scan_loop [] = Some []"
| "scan_loop (ap # aps) = do {
     ssid \<leftarrow> mem_read (fap_ssid ap) 0 (min (fap_ssid_len ap) WIFI_SSID_MAX_LEN);
     mac \<leftarrow> mem_read (fap_bssid ap) 0 WIFI_MAC_ADDR_LEN;
     rs \<leftarrow> scan_loop aps;
     Some (\<lparr>r_ssid = ssid, r_mac = mac, r_channel = fap_channel ap, r_rssi = fap_rssi ap, r_security = fap_security ap\<rparr> # rs)
   }"

text \<open>The calls of the scan callback, in order; \<open>None\<close> is the \<^verbatim>\<open>NULL\<close> entry that ends the scan.\<close>

definition scan_work_fn :: "fake_wifi_data \<Rightarrow> (wifi_scan_result option list \<times> fake_wifi_data) option" where
  "scan_work_fn fw = do {
     rs \<leftarrow> scan_loop (take (fw_ap_count fw) (fw_aps fw));
     Some (map Some rs @ [None], fw\<lparr>fw_scan_work := False\<rparr>)
   }"

text \<open>The connect result raised, with the state after it.\<close>

definition connect_work_fn :: "fake_wifi_data \<Rightarrow> conn_status \<times> fake_wifi_data" where
  "connect_work_fn fw = (fw_next_conn fw, fw\<lparr>fw_connected := (fw_next_conn fw = WIFI_STATUS_CONN_SUCCESS), fw_connect_work := False\<rparr>)"

subsection \<open>The closed loop\<close>

text \<open>What a step added to the log, and the connect requests in it, oldest first.\<close>

definition new_log :: "device \<Rightarrow> device \<Rightarrow> trace" where
  "new_log d d' = take (length (trace d') - length (trace d)) (trace d')"

primrec requests_in :: "trace \<Rightarrow> (wifi_connect_req_params \<times> rc) list" where
  "requests_in [] = []"
| "requests_in (x # t) = requests_in t @ (case x of X_wifi_connect p r \<Rightarrow> [(p, r)] | _ \<Rightarrow> [])"

text \<open>
  The driver takes the requests made between two states of the device; \<open>None\<close> also where it answers
  one otherwise than the environment did.
\<close>

definition sim_deliver :: "device \<Rightarrow> device \<Rightarrow> fake_wifi_data \<Rightarrow> fake_wifi_data option" where
  "sim_deliver d d' = foldM (\<lambda>(p, r) fw. fake_connect p fw \<bind> (\<lambda>(r', fw'). if r' = r then Some fw' else None))
     (requests_in (new_log d d'))"

text \<open>
  The driver runs its connect work and the library takes the result; when that schedules a retry,
  the retry runs. \<open>code\<close> gives the value of an enumerator of \<^verbatim>\<open>enum wifi_conn_status\<close>, which is also the
  \<^verbatim>\<open>status\<close> of the event. At most \<open>n\<close> results.
\<close>

fun sim_connect :: "('e, 'd) env \<Rightarrow> (conn_status \<Rightarrow> int) \<Rightarrow> nat \<Rightarrow> device \<Rightarrow> fake_wifi_data \<Rightarrow> (device \<times> fake_wifi_data) option" where
  "sim_connect E code 0 d fw = Some (d, fw)"
| "sim_connect E code (Suc n) d fw =
     (if \<not> fw_connect_work fw then Some (d, fw)
      else
        let (cs, fw1) = connect_work_fn fw; d1 = on_connect_result E (code cs) cs d in
        if X_work_schedule retry_work \<notin> set (new_log d d1) then Some (d1, fw1)
        else let d2 = retry_work_handler E d1 in sim_deliver d1 d2 fw1 \<bind> sim_connect E code n d2)"

text \<open>Applying a configuration against the driver, until its outcome is settled.\<close>

definition sim_apply :: "('e, 'd) env \<Rightarrow> (conn_status \<Rightarrow> int) \<Rightarrow> nat \<Rightarrow> device \<Rightarrow> fake_wifi_data \<Rightarrow> (u32 \<times> device \<times> fake_wifi_data) option" where
  "sim_apply E code n d fw = do {
     let (status, d1) = do_apply E d;
     fw1 \<leftarrow> sim_deliver d d1 fw;
     (d2, fw2) \<leftarrow> sim_connect E code n d1 fw1;
     Some (status, d2, fw2)
   }"

text \<open>A scan: the driver's callbacks become the events the cache takes.\<close>

definition sim_scan :: "('e, 'd) env \<Rightarrow> device \<Rightarrow> fake_wifi_data \<Rightarrow> (device \<times> fake_wifi_data) option" where
  "sim_scan E d fw = do {
     (rs, fw1) \<leftarrow> scan_work_fn fw;
     d1 \<leftarrow> foldM (\<lambda>r d. case r of Some r \<Rightarrow> on_result E r d | None \<Rightarrow> Some (scan_done d)) rs d;
     Some (d1, fw1)
   }"

subsection \<open>Invariant\<close>

definition fap_inv :: "fake_wifi_ap \<Rightarrow> bool" where
  "fap_inv ap \<longleftrightarrow> length (fap_ssid ap) = 33 \<and> fap_ssid_len ap \<le> 32 \<and> length (fap_bssid ap) = 6"

definition fw_inv :: "nat \<Rightarrow> fake_wifi_data \<Rightarrow> bool" where
  "fw_inv max_ap fw \<longleftrightarrow> length (fw_aps fw) = max_ap \<and> fw_ap_count fw \<le> max_ap \<and> list_all fap_inv (fw_aps fw) \<and>
     length (fw_exp_ssid fw) = 33 \<and> fw_exp_ssid_len fw \<le> 32 \<and> length (fw_exp_pass fw) = 65 \<and> fw_exp_pass_len fw \<le> 64 \<and>
     length (fw_conn_ssid fw) = 33 \<and> fw_conn_ssid_len fw \<le> 32"

text \<open>The networks on the air, the one network that lets the device in, and what a request asks for.\<close>

definition on_air :: "fake_wifi_data \<Rightarrow> bytes set" where
  "on_air fw = (\<lambda>ap. take (fap_ssid_len ap) (fap_ssid ap)) ` set (take (fw_ap_count fw) (fw_aps fw))"

definition fw_expects :: "fake_wifi_data \<Rightarrow> bytes \<times> bytes" where
  "fw_expects fw = (take (fw_exp_ssid_len fw) (fw_exp_ssid fw), take (fw_exp_pass_len fw) (fw_exp_pass fw))"

definition asks :: "wifi_connect_req_params \<Rightarrow> bytes \<times> bytes" where
  "asks p = (params_ssid p, case params_psk p of None \<Rightarrow> [] | Some k \<Rightarrow> k)"

definition outcome :: "fake_wifi_data \<Rightarrow> wifi_connect_req_params \<Rightarrow> conn_status" where
  "outcome fw p = (if params_ssid p \<notin> on_air fw then CONN_AP_NOT_FOUND
     else if asks p \<noteq> fw_expects fw then CONN_WRONG_PASSWORD else WIFI_STATUS_CONN_SUCCESS)"

lemma ap_loop_eq:
  assumes "list_all fap_inv aps"
  shows "ap_loop aps ssid = Some (ssid \<in> (\<lambda>ap. take (fap_ssid_len ap) (fap_ssid ap)) ` set aps)"
  using assms by (induction aps) (auto simp: fap_inv_def)

lemma list_all_take: "list_all P xs \<Longrightarrow> list_all P (take n xs)"
  by (auto simp: list_all_iff dest: in_set_takeD)

text \<open>The comparisons of the driver stay inside its arrays and decide the outcome.\<close>

lemma creds_outcome_eq:
  assumes "fw_inv m fw"
  shows "creds_outcome fw p = Some (outcome fw p)"
proof -
  have f: "ssid_in_scan_list fw (params_ssid p) = Some (params_ssid p \<in> on_air fw)"
    using assms ap_loop_eq[OF list_all_take] by (simp add: ssid_in_scan_list_def on_air_def fw_inv_def)
  have l: "length (take (fw_exp_ssid_len fw) (fw_exp_ssid fw)) = fw_exp_ssid_len fw"
    "length (take (fw_exp_pass_len fw) (fw_exp_pass fw)) = fw_exp_pass_len fw"
    "fw_exp_ssid_len fw \<le> length (fw_exp_ssid fw)" "fw_exp_pass_len fw \<le> length (fw_exp_pass fw)"
    using assms by (simp_all add: fw_inv_def)
  show ?thesis
  proof (cases "params_ssid p = take (fw_exp_ssid_len fw) (fw_exp_ssid fw)")
    case True
    then have "length (params_ssid p) = fw_exp_ssid_len fw" using l(1) by simp
    with True f l(2-) show ?thesis
      by (cases "params_psk p")
        (auto simp: creds_outcome_def outcome_def asks_def fw_expects_def psk_length_def)
  next
    case False
    with f l show ?thesis by (simp add: creds_outcome_def outcome_def asks_def fw_expects_def)
  qed
qed

lemma fake_connect_eq:
  assumes "fw_inv m fw" and "fw_next_sync_err fw = None"
  shows "fake_connect p fw = Some (rc_ok, fw\<lparr>
     fw_next_conn := (if fw_creds_mode fw then outcome fw p else fw_next_conn fw),
     fw_conn_ssid_len := min (length (params_ssid p)) 32,
     fw_conn_ssid := take 32 (params_ssid p) @ drop (min (length (params_ssid p)) 32) (fw_conn_ssid fw),
     fw_conn_channel := (if params_channel p = WIFI_CHANNEL_ANY then 1 else params_channel p),
     fw_connect_work := True\<rparr>)"
proof -
  have "take (min (length (params_ssid p)) 32) (params_ssid p) = take 32 (params_ssid p)" by (simp add: min_def)
  with assms show ?thesis
    by (cases "fw_creds_mode fw")
      (simp_all add: fake_connect_def creds_outcome_eq[OF assms(1)] WIFI_SSID_MAX_LEN_def fw_inv_def Let_def)
qed

text \<open>Every operation is defined and keeps the arrays in bounds.\<close>

lemma fw_inv_ops:
  assumes "fw_inv m fw"
  shows "list_all fap_inv aps \<Longrightarrow> fw_inv m (fake_wifi_set_scan_aps m aps fw)"
    and "fw_inv m (fake_wifi_set_next_connect_result cs fw)"
    and "fw_inv m (fake_wifi_set_next_connect_sync_error e fw)"
    and "\<exists>fw'. fake_wifi_set_expected_credentials ssid pass fw = Some fw' \<and> fw_inv m fw'"
    and "fw_inv m (fake_wifi_reset fw)"
    and "\<exists>r fw'. fake_connect p fw = Some (r, fw') \<and> fw_inv m fw'"
    and "fw_inv m (snd (fake_scan fw))" and "fw_inv m (snd (snd (fake_disconnect fw)))"
    and "fw_inv m (snd (connect_work_fn fw))"
proof -
  show "fw_inv m (fake_wifi_set_scan_aps m aps fw)" if "list_all fap_inv aps"
    using assms that
    by (auto simp: fw_inv_def fake_wifi_set_scan_aps_def Let_def list_all_iff dest: in_set_takeD in_set_dropD)
  show "\<exists>fw'. fake_wifi_set_expected_credentials ssid pass fw = Some fw' \<and> fw_inv m fw'"
    using assms by (auto simp: fw_inv_def fake_wifi_set_expected_credentials_def WIFI_SSID_MAX_LEN_def
        WIFI_PSK_MAX_LEN_def Let_def split: option.splits)
  show "\<exists>r fw'. fake_connect p fw = Some (r, fw') \<and> fw_inv m fw'"
  proof (cases "fw_next_sync_err fw")
    case None
    with assms show ?thesis by (simp add: fake_connect_eq) (auto simp: fw_inv_def)
  next
    case (Some e)
    with assms show ?thesis by (simp add: fake_connect_def fw_inv_def)
  qed
qed (use assms in \<open>simp_all add: fw_inv_def fake_wifi_set_next_connect_result_def
  fake_wifi_set_next_connect_sync_error_def fake_wifi_reset_def fake_scan_def fake_disconnect_def connect_work_fn_def\<close>)

text \<open>Programming a network: what it then expects.\<close>

lemma expected_credentials_effect:
  assumes "fw_inv m fw" and "ssid \<noteq> []" and "length ssid \<le> 32" and "length pass \<le> 64"
  shows "\<exists>fw'. fake_wifi_set_expected_credentials (Some ssid) (Some pass) fw = Some fw' \<and>
    fw_creds_mode fw' \<and> fw_expects fw' = (ssid, pass) \<and> on_air fw' = on_air fw"
  using assms by (simp add: fw_inv_def fake_wifi_set_expected_credentials_def WIFI_SSID_MAX_LEN_def
      WIFI_PSK_MAX_LEN_def fw_expects_def on_air_def Let_def)

subsection \<open>Scanning\<close>

definition result_of_ap :: "fake_wifi_ap \<Rightarrow> wifi_scan_result" where
  "result_of_ap ap = \<lparr>r_ssid = take (fap_ssid_len ap) (fap_ssid ap), r_mac = fap_bssid ap,
     r_channel = fap_channel ap, r_rssi = fap_rssi ap, r_security = fap_security ap\<rparr>"

lemma scan_loop_eq: "list_all fap_inv aps \<Longrightarrow> scan_loop aps = Some (map result_of_ap aps)"
  by (induction aps) (auto simp: fap_inv_def result_of_ap_def WIFI_SSID_MAX_LEN_def WIFI_MAC_ADDR_LEN_def min_def)

text \<open>A scan started on the device ends with the programmed access points in its cache.\<close>

lemma scan_reports_aps:
  assumes "fw_inv m fw" and "scan_inv E d" and "sc_count (sc d) = 0"
  shows "\<exists>d' fw'. sim_scan E d fw = Some (d', fw') \<and> scan_inv E d' \<and> sc_finished (sc d') \<and>
    cached d' = take (CONFIG_POUCH_PROV_SCAN_CACHE E) (map (entry_of_result \<circ> result_of_ap) (take (fw_ap_count fw) (fw_aps fw)))"
proof -
  let ?aps = "take (fw_ap_count fw) (fw_aps fw)"
  let ?rs = "map result_of_ap ?aps"
  let ?f = "\<lambda>r d. case r of Some r \<Rightarrow> on_result E r d | None \<Rightarrow> Some (scan_done d)"
  have i: "list_all fap_inv ?aps" using assms(1) by (intro list_all_take) (simp add: fw_inv_def)
  then have "list_all (\<lambda>r. length (r_mac r) = 6) ?rs" by (auto simp: list_all_iff fap_inv_def result_of_ap_def)
  then obtain d' where d': "foldM (on_result E) ?rs d = Some d'" "scan_inv E d'"
    "cached d' = take (CONFIG_POUCH_PROV_SCAN_CACHE E) (cached d @ map entry_of_result ?rs)"
    using results_effect[OF assms(2)] by blast
  have "foldM ?f (map Some rs) d = foldM (on_result E) rs d" for rs d
  proof (induction rs arbitrary: d)
    case (Cons r rs)
    then have "foldM ?f (map Some rs) = foldM (on_result E) rs" by (intro ext)
    then show ?case by simp
  qed simp
  then have "sim_scan E d fw = Some (scan_done d', fw\<lparr>fw_scan_work := False\<rparr>)"
    using d'(1) by (simp add: sim_scan_def scan_work_fn_def scan_loop_eq[OF i] foldM_append del: map_map)
  moreover have "scan_inv E (scan_done d')" "sc_finished (sc (scan_done d'))" "cached (scan_done d') = cached d'"
    using d'(2) by (simp_all add: scan_done_def scan_inv_def cached_def)
  ultimately show ?thesis using d'(3) assms(3) by (simp add: cached_def)
qed

subsection \<open>The outcome of an apply\<close>

lemma new_log_append: "trace d' = xs @ trace d \<Longrightarrow> new_log d d' = xs"
  by (simp add: new_log_def)

text \<open>What the library logs around a request holds no request and no retry.\<close>

lemma requests_in_append: "requests_in (ys @ xs) = requests_in xs @ requests_in ys"
  by (induction ys) simp_all

definition quiet :: "trace \<Rightarrow> bool" where
  "quiet xs \<longleftrightarrow> requests_in xs = [] \<and> X_work_schedule retry_work \<notin> set xs"

lemma quiet_append: "quiet (ys @ xs) \<longleftrightarrow> quiet ys \<and> quiet xs"
  by (auto simp: quiet_def requests_in_append)

lemma emit_quiet: "\<exists>xs. trace (pouch_prov_emit E ev x d) = xs @ trace d \<and> quiet xs"
proof -
  let ?ev = "if event_cb (config d) then [X_event_cb ev x] else []"
  let ?arm = "X_work_reschedule autostop_work (CONFIG_POUCH_PROV_AUTOSTOP_TIMEOUT_S E)"
  have "trace (pouch_prov_emit E ev x d) = ?ev @ trace d \<or> trace (pouch_prov_emit E ev x d) = (?arm # ?ev) @ trace d"
    by (simp add: pouch_prov_emit_def autostop_arm_def Let_def)
  moreover have "quiet ?ev" "quiet (?arm # ?ev)" by (simp_all add: quiet_def)
  ultimately show ?thesis by metis
qed

lemma final_failure_quiet: "\<exists>xs. trace (final_failure E d) = xs @ trace d \<and> quiet xs"
proof -
  let ?s = "X_wifi_cred_delete (take (wc_inflight_ssid_len (wc d)) (wc_inflight_ssid (wc d)))"
  obtain d1 ev x where f: "final_failure E d = pouch_prov_emit E ev x d1" "trace d1 = ?s # trace d"
    by (simp add: final_failure_def clear_inflight_def Let_def)
  obtain xs where "trace (pouch_prov_emit E ev x d1) = xs @ trace d1" "quiet xs" using emit_quiet by blast
  then have "trace (final_failure E d) = (xs @ [?s]) @ trace d" "quiet (xs @ [?s])"
    using f by (simp_all add: quiet_append) (simp add: quiet_def)
  then show ?thesis by blast
qed

lemma apply_prefix_quiet: "\<exists>xs. trace (apply_prefix E d) = xs @ trace d \<and> quiet xs"
proof -
  let ?p = "[X_wifi_cred_set (staged_cred (wc d)) rc_ok, X_wifi_cred_delete (take (wc_ssid_len (wc d)) (wc_ssid (wc d)))]"
  obtain d1 ev x where f: "trace (apply_prefix E d) = X_work_cancel retry_work # trace (pouch_prov_emit E ev x d1)"
    "trace d1 = ?p @ trace d" by (simp add: apply_prefix_def Let_def)
  obtain xs where "trace (pouch_prov_emit E ev x d1) = xs @ trace d1" "quiet xs" using emit_quiet by blast
  then have "trace (apply_prefix E d) = ([X_work_cancel retry_work] @ xs @ ?p) @ trace d"
    "quiet ([X_work_cancel retry_work] @ xs @ ?p)" using f by (simp_all add: quiet_def requests_in_append)
  then show ?thesis by blast
qed

text \<open>The driver in matching mode, with no error programmed and the result of \<open>p\<close> on its way.\<close>

definition matching :: "nat \<Rightarrow> fake_wifi_data \<Rightarrow> bool" where
  "matching m fw \<longleftrightarrow> fw_inv m fw \<and> fw_creds_mode fw \<and> fw_next_sync_err fw = None"

definition answering :: "nat \<Rightarrow> wifi_connect_req_params \<Rightarrow> fake_wifi_data \<Rightarrow> bool" where
  "answering m p fw \<longleftrightarrow> matching m fw \<and> fw_connect_work fw \<and> fw_next_conn fw = outcome fw p \<and>
     take (fw_conn_ssid_len fw) (fw_conn_ssid fw) = params_ssid p"

lemma outcome_upd [simp]:
  "outcome (fw\<lparr>fw_connected := a\<rparr>) p = outcome fw p" "outcome (fw\<lparr>fw_connect_work := a\<rparr>) p = outcome fw p"
  "outcome (fw\<lparr>fw_next_conn := c\<rparr>) p = outcome fw p" "outcome (fw\<lparr>fw_conn_ssid_len := l\<rparr>) p = outcome fw p"
  "outcome (fw\<lparr>fw_conn_ssid := s\<rparr>) p = outcome fw p" "outcome (fw\<lparr>fw_conn_channel := ch\<rparr>) p = outcome fw p"
  by (simp_all add: outcome_def on_air_def fw_expects_def)

lemma connect_answering:
  assumes "matching m fw" and "length (params_ssid p) \<le> 32"
  shows "\<exists>fw'. fake_connect p fw = Some (rc_ok, fw') \<and> answering m p fw' \<and> outcome fw' = outcome fw"
proof -
  let ?fw = "fw\<lparr>fw_next_conn := outcome fw p, fw_conn_ssid_len := length (params_ssid p),
     fw_conn_ssid := params_ssid p @ drop (length (params_ssid p)) (fw_conn_ssid fw),
     fw_conn_channel := (if params_channel p = WIFI_CHANNEL_ANY then 1 else params_channel p), fw_connect_work := True\<rparr>"
  have o: "outcome ?fw q = outcome fw q" for q by (simp add: outcome_def on_air_def fw_expects_def)
  have "fake_connect p fw = Some (rc_ok, ?fw)" using assms fake_connect_eq[of m fw p] by (simp add: matching_def min_def)
  moreover have "answering m p ?fw" unfolding answering_def o using assms by (simp add: matching_def fw_inv_def)
  ultimately show ?thesis using o by (intro exI[of _ ?fw]) auto
qed

lemma deliver_connect:
  assumes "trace d' = X_wifi_connect p rc_ok # xs @ trace d" and "quiet xs" and "matching m fw" and "length (params_ssid p) \<le> 32"
  shows "\<exists>fw'. sim_deliver d d' fw = Some fw' \<and> answering m p fw' \<and> outcome fw' = outcome fw"
proof -
  have "requests_in (new_log d d') = [(p, rc_ok)]"
    using assms(1,2) new_log_append[of d' "X_wifi_connect p rc_ok # xs" d] by (simp add: quiet_def)
  with connect_answering[OF assms(3,4)] show ?thesis by (auto simp: sim_deliver_def)
qed

lemma work_matching:
  assumes "answering m p fw"
  shows "\<exists>fw'. connect_work_fn fw = (outcome fw p, fw') \<and> matching m fw' \<and> outcome fw' = outcome fw \<and> \<not> fw_connect_work fw' \<and>
    fw_connected fw' = (outcome fw p = WIFI_STATUS_CONN_SUCCESS) \<and> take (fw_conn_ssid_len fw') (fw_conn_ssid fw') = params_ssid p"
  using assms by (auto simp: answering_def matching_def connect_work_fn_def fw_inv_def)

text \<open>Connected, or failed for \<open>cs\<close>, with the network and the number of attempts left behind.\<close>

definition joined :: "wifi_connect_req_params \<Rightarrow> device \<Rightarrow> device \<Rightarrow> fake_wifi_data \<Rightarrow> bool" where
  "joined p d d' fw' \<longleftrightarrow> wc_sta_state (wc d') = sta_state_sta_connected_m_c \<and>
     wifi_creds_of (trace d') = wifi_creds_of (trace d) \<and> connects_of (trace d') = connects_of (trace d) \<and>
     fw_connected fw' \<and> mem_read (fw_conn_ssid fw') 0 (fw_conn_ssid_len fw') = Some (params_ssid p)"

definition refused :: "wifi_connect_req_params \<Rightarrow> conn_status \<Rightarrow> nat \<Rightarrow> device \<Rightarrow> device \<Rightarrow> fake_wifi_data \<Rightarrow> bool" where
  "refused p cs k d d' fw' \<longleftrightarrow> wc_sta_state (wc d') = sta_state_sta_failed_m_c \<and>
     wc_fail_reason (wc d') = (if cs = CONN_AP_NOT_FOUND then fail_reason_fail_network_not_found_m_c else fail_reason_fail_auth_error_m_c) \<and>
     wifi_creds_of (trace d') = (wifi_creds_of (trace d))(params_ssid p := None) \<and>
     connects_of (trace d') = connects_of (trace d) + k \<and> \<not> fw_connected fw'"

lemma sim_joins:
  assumes a: "attempting p m c d" and w: "answering a p fw" and o: "outcome fw p = WIFI_STATUS_CONN_SUCCESS"
    and code: "code WIFI_STATUS_CONN_SUCCESS = 0" and n: "0 < n"
  shows "\<exists>d' fw'. sim_connect E code n d fw = Some (d', fw') \<and> joined p d d' fw'"
proof -
  obtain k where k: "n = Suc k" using n by (cases n) auto
  obtain fw' where fw': "connect_work_fn fw = (WIFI_STATUS_CONN_SUCCESS, fw')" "fw_connected fw'"
    "mem_read (fw_conn_ssid fw') 0 (fw_conn_ssid_len fw') = Some (params_ssid p)"
    using work_matching[OF w] o by (auto simp: matching_def fw_inv_def)
  define d0 where "d0 = clear_inflight (d\<lparr>wc := (wc d)\<lparr>wc_sta_state := sta_state_sta_connected_m_c\<rparr>\<rparr>)"
  let ?d = "pouch_prov_emit E POUCH_PROV_EVENT_WIFI_CONNECTED None d0"
  have r: "on_connect_result E 0 WIFI_STATUS_CONN_SUCCESS d = ?d"
    using a by (simp add: on_connect_result_def attempting_def d0_def Let_def)
  have t: "trace d0 = trace d" "wc_sta_state (wc d0) = sta_state_sta_connected_m_c" by (simp_all add: d0_def clear_inflight_def)
  obtain xs where "trace ?d = xs @ trace d" "quiet xs" using emit_quiet[of E _ _ d0] t(1) by metis
  then have "X_work_schedule retry_work \<notin> set (new_log d ?d)" using new_log_append by (simp add: quiet_def)
  then have "sim_connect E code n d fw = Some (?d, fw')" using w fw'(1) code r k by (simp add: answering_def)
  then show ?thesis using fw' t by (auto simp: joined_def)
qed

lemma sim_refused:
  assumes "attempting p m c d" and "answering a p fw" and "outcome fw p = cs" and "code cs \<noteq> 0" and "cs \<noteq> WIFI_STATUS_CONN_SUCCESS"
    and "max 1 m - c \<le> n" and "c < max 1 m" and "has_iface E" and "\<And>t. net_mgmt_wifi_connect E p t = rc_ok"
    and "length (params_ssid p) \<le> 32"
  shows "\<exists>d' fw'. sim_connect E code n d fw = Some (d', fw') \<and> refused p cs (max 1 m - c - 1) d d' fw'"
  using assms
proof (induction n arbitrary: c d fw)
  case 0
  then have False by auto
  then show ?case ..
next
  case (Suc n)
  note a = Suc.prems(1)
  obtain fw1 where fw1: "connect_work_fn fw = (cs, fw1)" "matching a fw1" "outcome fw1 = outcome fw" "\<not> fw_connected fw1"
    using work_matching[OF Suc.prems(2)] Suc.prems(3,5) by auto
  have work: "fw_connect_work fw" using Suc.prems(2) by (simp add: answering_def)
  let ?d1 = "on_connect_result E (code cs) cs d"
  have r1: "?d1 = on_connect_result E 1 cs d" using Suc.prems(4) by (simp add: on_connect_result_def)
  show ?case
  proof (cases "c + 1 < m")
    case True
    note f = fail_round_retries[OF a True Suc.prems(8,9), of cs]
    have t: "trace ?d1 = X_work_schedule retry_work # trace d" "trace (fail_round E cs d) = X_wifi_connect p rc_ok # trace ?d1"
      using fail_round_log(2,3)[OF a True Suc.prems(8,9), of cs] r1 by simp_all
    obtain fw2 where fw2: "sim_deliver ?d1 (fail_round E cs d) fw1 = Some fw2" "answering a p fw2" "outcome fw2 = outcome fw"
      using deliver_connect[of "fail_round E cs d" p "[]" ?d1 a fw1] t(2) fw1(2,3) Suc.prems(10) by (auto simp: quiet_def)
    have "max 1 m - (c + 1) \<le> n" "c + 1 < max 1 m" using Suc.prems(6) True by auto
    moreover have "outcome fw2 p = cs" using fw2(3) Suc.prems(3) by simp
    ultimately obtain d' fw' where
      d': "sim_connect E code n (fail_round E cs d) fw2 = Some (d', fw')" "refused p cs (max 1 m - (c + 1) - 1) (fail_round E cs d) d' fw'"
      using Suc.IH[OF f(1) fw2(2) _ Suc.prems(4,5) _ _ Suc.prems(8-10)] by blast
    have "sim_connect E code (Suc n) d fw = Some (d', fw')"
      using work fw1(1) new_log_append[of ?d1 "[X_work_schedule retry_work]" d] t(1) fw2(1) d'(1)
      by (simp add: Let_def fail_round_def r1[symmetric])
    moreover have "refused p cs (max 1 m - c - 1) d d' fw'" using d'(2) f(2,3) True by (auto simp: refused_def)
    ultimately show ?thesis by blast
  next
    case False
    then have m: "m = c + 1 \<or> m = 0" using Suc.prems(7) by auto
    define d0 where "d0 = d\<lparr>wc := (wc d)\<lparr>wc_last_conn_status := cs,
      wc_attempts_completed := (if m = 0 then wc_attempts_completed (wc d) else wc_attempts_completed (wc d) + 1)\<rparr>\<rparr>"
    have e: "?d1 = final_failure E d0" using last_failure[OF a m Suc.prems(4), of E cs] by (simp add: d0_def)
    have t: "trace d0 = trace d" "wc_last_conn_status (wc d0) = cs"
      "take (wc_inflight_ssid_len (wc d0)) (wc_inflight_ssid (wc d0)) = params_ssid p"
      using a by (auto simp: d0_def attempting_def inflight_params_def)
    obtain xs where "trace ?d1 = xs @ trace d" "quiet xs" using final_failure_quiet[of E d0] e t(1) by metis
    then have "X_work_schedule retry_work \<notin> set (new_log d ?d1)" using new_log_append by (simp add: quiet_def)
    then have "sim_connect E code (Suc n) d fw = Some (?d1, fw1)" using work fw1(1) by simp
    moreover have "max 1 m - c - 1 = 0" using m by auto
    then have "refused p cs (max 1 m - c - 1) d ?d1 fw1" using e t fw1(4) final_failure_effect[of E d0] by (simp add: refused_def)
    ultimately show ?thesis by blast
  qed
qed

text \<open>A configuration applied against the driver.\<close>

lemma sim_apply_outcome:
  assumes cfg: "config_accepted cfg" and E: "has_iface E" "\<forall>c t. wifi_credentials_set_personal E c t = rc_ok"
    "\<forall>p t. net_mgmt_wifi_connect E p t = rc_ok" and fw: "matching a fw"
    and code: "code WIFI_STATUS_CONN_SUCCESS = 0" "code CONN_AP_NOT_FOUND \<noteq> 0" "code CONN_WRONG_PASSWORD \<noteq> 0"
    and m: "m = max 1 (unat (wc_attempts_max (wc d)))" "m \<le> n"
  shows "\<exists>d1 d2 d' fw'. do_set cfg d = Some (prov_status_status_ok_m_c, d1) \<and>
    do_apply E d1 = (prov_status_status_ok_m_c, d2) \<and> sim_apply E code n d1 fw = Some (prov_status_status_ok_m_c, d', fw') \<and>
    wifi_creds_of (trace d2) = (wifi_creds_of (trace d))(wifi_config_ssid cfg \<mapsto> cfg_cred cfg) \<and>
    connects_of (trace d2) = connects_of (trace d) + 1 \<and>
    (if outcome fw (cfg_params cfg) = WIFI_STATUS_CONN_SUCCESS then joined (cfg_params cfg) d2 d' fw'
     else refused (cfg_params cfg) (outcome fw (cfg_params cfg)) (m - 1) d2 d' fw')"
proof -
  let ?p = "cfg_params cfg"
  obtain d1 d2 where d: "do_set cfg d = Some (prov_status_status_ok_m_c, d1)" "do_apply E d1 = (prov_status_status_ok_m_c, d2)"
    "wifi_creds_of (trace d2) = (wifi_creds_of (trace d))(wifi_config_ssid cfg \<mapsto> cfg_cred cfg)"
    "connects_of (trace d2) = connects_of (trace d) + 1" and at: "attempting ?p (unat (wc_attempts_max (wc d))) 0 d2"
    using apply_effect[OF cfg E] by blast
  have s: "length (params_ssid ?p) \<le> 32" using cfg by (simp add: cfg_params_def config_accepted_def)
  obtain xs where "trace d2 = X_wifi_connect ?p rc_ok # xs @ trace d1" "quiet xs"
    using do_apply_accepted[OF E(1) set_armed_params(2)[OF d(1)]] E(2,3) set_armed_params(1)[OF d(1)] d(2) apply_prefix_quiet[of E d1]
    by auto
  from deliver_connect[OF this fw s] obtain fw1 where
    w: "sim_deliver d1 d2 fw = Some fw1" "answering a ?p fw1" "outcome fw1 = outcome fw" by blast
  have "\<exists>d' fw'. sim_connect E code n d2 fw1 = Some (d', fw') \<and> (if outcome fw ?p = WIFI_STATUS_CONN_SUCCESS
    then joined ?p d2 d' fw' else refused ?p (outcome fw ?p) (m - 1) d2 d' fw')"
  proof (cases "outcome fw ?p = WIFI_STATUS_CONN_SUCCESS")
    case True
    moreover have "0 < n" using m by auto
    ultimately show ?thesis using sim_joins[OF at w(2), of code n E] w(3) code(1) by simp
  next
    case False
    then have "code (outcome fw ?p) \<noteq> 0" using code by (auto simp: outcome_def)
    with False sim_refused[OF at w(2), of "outcome fw ?p" code n E] w(3) m E(1,3) s show ?thesis by simp
  qed
  then obtain d' fw' where r: "sim_connect E code n d2 fw1 = Some (d', fw')" "if outcome fw ?p = WIFI_STATUS_CONN_SUCCESS
    then joined ?p d2 d' fw' else refused ?p (outcome fw ?p) (m - 1) d2 d' fw'" by blast
  have "sim_apply E code n d1 fw = Some (prov_status_status_ok_m_c, d', fw')" using d(2) w(1) r(1) by (simp add: sim_apply_def)
  with d r(2) show ?thesis by blast
qed

end
