(* ===== verification/Cred_Store.thy ===== *)
theory Cred_Store
  imports Rpc
begin

text \<open>
  The cloud credential store (\<^verbatim>\<open>src/cred_store.c\<close>): three DER blobs, written in chunks, checked
  and persisted on finalize, reloaded from the settings subsystem. \<open>upload\<close> is the abstract view
  of one blob, the bytes received so far, and \<open>stage_refines\<close> shows that the buffer arithmetic of
  \<^verbatim>\<open>pouch_prov_cred_stage\<close> implements it.
\<close>

subsection \<open>Operations\<close>

definition DEVICE_CERT_MAX :: nat where "DEVICE_CERT_MAX = 2048"
definition PRIVATE_KEY_MAX :: nat where "PRIVATE_KEY_MAX = 512"
definition CA_CERT_MAX :: nat where "CA_CERT_MAX = 2048"

abbreviation (input) POUCH_PROV_CRED_DEVICE_CERT :: nat where "POUCH_PROV_CRED_DEVICE_CERT \<equiv> 0"
abbreviation (input) POUCH_PROV_CRED_PRIVATE_KEY :: nat where "POUCH_PROV_CRED_PRIVATE_KEY \<equiv> 1"
abbreviation (input) POUCH_PROV_CRED_CA_CERT :: nat where "POUCH_PROV_CRED_CA_CERT \<equiv> 2"

definition empty_blob :: "nat \<Rightarrow> blob" where
  "empty_blob n = \<lparr>buf = replicate n 0, cap = n, len = 0, staged = 0, expected = 0\<rparr>"

definition init_blobs :: "blob list" where
  "init_blobs = [empty_blob DEVICE_CERT_MAX, empty_blob PRIVATE_KEY_MAX, empty_blob CA_CERT_MAX]"

definition setting_key :: "string list" where
  "setting_key = [''pnp/cred/cert'', ''pnp/cred/key'', ''pnp/cred/ca'']"

definition kind_valid :: "nat \<Rightarrow> device \<Rightarrow> bool" where
  "kind_valid kind d \<longleftrightarrow> kind < length (blobs d)"

text \<open>The loop of \<open>der_sequence_len_ok\<close>; \<^verbatim>\<open>size_t\<close> is 32 bits wide.\<close>

fun der_content :: "bytes \<Rightarrow> nat \<Rightarrow> nat \<Rightarrow> u32 \<Rightarrow> u32 option" where
  "der_content b i 0 content = Some content"
| "der_content b i (Suc n) content = do {
     x \<leftarrow> byte_at b (2 + i);
     der_content b (Suc i) n (or (push_bit 8 content) (ucast x))
   }"

definition der_sequence_len_ok :: "bytes \<Rightarrow> nat \<Rightarrow> bool option" where
  "der_sequence_len_ok b n =
     (if n < 4 then Some False else do {
        b0 \<leftarrow> byte_at b 0;
        (if b0 \<noteq> 0x30 then Some False else do {
           lb \<leftarrow> byte_at b 1;
           (if and lb 0x80 = 0 then Some (unat lb + 2 = n)
            else
              let nbytes = unat (and lb 0x7f) in
              if nbytes = 0 \<or> 4 < nbytes \<or> n < 2 + nbytes then Some False
              else do {
                content \<leftarrow> der_content b 0 nbytes 0;
                Some (unat (content + 2 + of_nat nbytes) = n)
              })
        })
      })"

text \<open>\<^verbatim>\<open>read_cb\<close> fills at most \<^verbatim>\<open>cap\<close> bytes and returns their number.\<close>

fun cred_set_loop :: "nat list \<Rightarrow> string \<Rightarrow> nat \<Rightarrow> errno + bytes \<Rightarrow> device \<Rightarrow> (rc \<times> device) option" where
  "cred_set_loop [] name n rd d = Some (rc_err ENOENT, d)"
| "cred_set_loop (k # ks) name n rd d =
     (let leaf = drop (length ''pnp/cred/'') (setting_key ! k); b = blobs d ! k in
      if name \<noteq> leaf then cred_set_loop ks name n rd d
      else if cap b < n then Some (rc_err EINVAL, d)
      else (case rd of
          Inl e \<Rightarrow> Some (rc_err e, d)
        | Inr v \<Rightarrow> do {
            let v' = take (cap b) v;
            m \<leftarrow> memcpy_at (buf b) 0 v';
            Some (rc_ok, d\<lparr>blobs := (blobs d)[k := b\<lparr>buf := m, len := length v'\<rparr>]\<rparr>)
          }))"

definition cred_set :: "string \<Rightarrow> nat \<Rightarrow> errno + bytes \<Rightarrow> device \<Rightarrow> (rc \<times> device) option" where
  "cred_set name n rd d = cred_set_loop [0, 1, 2] name n rd d"

text \<open>\<^verbatim>\<open>Inl e\<close> is \<^verbatim>\<open>-e\<close>, \<^verbatim>\<open>Inr n\<close> the non-negative return value.\<close>

definition pouch_prov_cred_stage ::
  "nat \<Rightarrow> u32 \<Rightarrow> u32 \<Rightarrow> bytes \<Rightarrow> device \<Rightarrow> ((errno + nat) \<times> device) option" where
  "pouch_prov_cred_stage kind off tot data d =
     (if \<not> kind_valid kind d then Some (Inl EINVAL, d)
      else
        let b = blobs d ! kind in
        if cap b < unat tot then Some (Inl EMSGSIZE, d)
        else
          let b = (if off = 0 then b\<lparr>staged := 0, expected := unat tot\<rparr> else b);
              d = d\<lparr>blobs := (blobs d)[kind := b]\<rparr>
          in if unat off \<noteq> staged b \<or> expected b < staged b + length data then Some (Inl EINVAL, d)
             else do {
               m \<leftarrow> memcpy_at (buf b) (staged b) data;
               let b = b\<lparr>buf := m, staged := staged b + length data\<rparr>;
               Some (Inr (staged b), d\<lparr>blobs := (blobs d)[kind := b]\<rparr>)
             })"

fun finalize_loop :: "('e, 'd) env \<Rightarrow> nat list \<Rightarrow> device \<Rightarrow> (rc \<times> device) option" where
  "finalize_loop E [] d = Some (rc_ok, d)"
| "finalize_loop E (k # ks) d =
     (let b = blobs d ! k in
      if staged b = 0 \<or> staged b \<noteq> expected b then finalize_loop E ks d
      else do {
        data \<leftarrow> mem_read (buf b) 0 (staged b);
        let err = settings_save_one E (setting_key ! k) data (trace d);
        let d = log (X_settings_save (setting_key ! k) data err) d;
        (if err \<noteq> rc_ok then Some (rc_err EIO, d)
         else finalize_loop E ks (d\<lparr>blobs := (blobs d)[k := b\<lparr>len := staged b\<rparr>]\<rparr>))
      })"

definition pouch_prov_cred_finalize :: "('e, 'd) env \<Rightarrow> device \<Rightarrow> (rc \<times> device) option" where
  "pouch_prov_cred_finalize E d =
     (let cert = blobs d ! POUCH_PROV_CRED_DEVICE_CERT; key = blobs d ! POUCH_PROV_CRED_PRIVATE_KEY in
      if staged cert = 0 \<or> staged cert \<noteq> expected cert \<or> staged key = 0 \<or> staged key \<noteq> expected key
      then Some (rc_err EINVAL, d)
      else do {
        ok \<leftarrow> der_sequence_len_ok (buf cert) (staged cert);
        (if \<not> ok then Some (rc_err EBADMSG, d)
         else do {
           (r, d) \<leftarrow> finalize_loop E [0, 1, 2] d;
           (if r \<noteq> rc_ok then Some (r, d)
            else Some (rc_ok, pouch_prov_emit E POUCH_PROV_EVENT_CLOUD_CRED_STORED None d))
         })
      })"

definition pouch_prov_cred_received :: "nat \<Rightarrow> device \<Rightarrow> nat" where
  "pouch_prov_cred_received kind d = (if kind_valid kind d then staged (blobs d ! kind) else 0)"

definition pouch_prov_cred_present :: "nat \<Rightarrow> device \<Rightarrow> bool" where
  "pouch_prov_cred_present kind d \<longleftrightarrow> kind_valid kind d \<and> 0 < len (blobs d ! kind)"

text \<open>The bytes the caller reads through the returned pointer and length; \<open>None\<close> is \<^verbatim>\<open>NULL\<close>.\<close>

definition pouch_prov_cred_get :: "nat \<Rightarrow> device \<Rightarrow> bytes option" where
  "pouch_prov_cred_get kind d =
     (if \<not> pouch_prov_cred_present kind d then None
      else Some (take (len (blobs d ! kind)) (buf (blobs d ! kind))))"

fun cred_delete_loop :: "nat list \<Rightarrow> device \<Rightarrow> device" where
  "cred_delete_loop [] d = d"
| "cred_delete_loop (k # ks) d =
     (let d = log (X_settings_delete (setting_key ! k)) d;
          b = (blobs d ! k)\<lparr>len := 0, staged := 0, expected := 0\<rparr>
      in cred_delete_loop ks (d\<lparr>blobs := (blobs d)[k := b]\<rparr>))"

definition pouch_prov_cred_delete_all :: "device \<Rightarrow> device" where
  "pouch_prov_cred_delete_all d = cred_delete_loop [0, 1, 2] d"

subsection \<open>Invariant\<close>

definition blob_inv :: "blob \<Rightarrow> bool" where
  "blob_inv b \<longleftrightarrow> length (buf b) = cap b \<and> staged b \<le> expected b \<and> expected b \<le> cap b \<and> len b \<le> cap b"

definition cred_inv :: "device \<Rightarrow> bool" where
  "cred_inv d \<longleftrightarrow> map cap (blobs d) = [DEVICE_CERT_MAX, PRIVATE_KEY_MAX, CA_CERT_MAX] \<and>
     list_all blob_inv (blobs d)"

lemma cred_inv_length: "cred_inv d \<Longrightarrow> length (blobs d) = 3"
  by (auto simp: cred_inv_def dest: arg_cong[of _ _ length])

lemma cred_inv_nth: "cred_inv d \<Longrightarrow> k < 3 \<Longrightarrow> blob_inv (blobs d ! k)"
  using cred_inv_length[of d] by (auto simp: cred_inv_def list_all_length)

lemma cred_inv_update:
  assumes "cred_inv d" and "k < 3" and "blob_inv b" and "cap b = cap (blobs d ! k)"
  shows "cred_inv (d\<lparr>blobs := (blobs d)[k := b]\<rparr>)"
proof -
  have l: "length (blobs d) = 3" using assms(1) by (rule cred_inv_length)
  have "map cap ((blobs d)[k := b]) = (map cap (blobs d))[k := cap b]" by (simp add: map_update)
  also have "\<dots> = map cap (blobs d)" using assms(2,4) l by (simp add: list_update_same_conv)
  finally show ?thesis
    using assms l by (auto simp: cred_inv_def list_all_length nth_list_update)
qed

lemma cred_inv_cong: "blobs d' = blobs d \<Longrightarrow> cred_inv d' = cred_inv d"
  by (simp add: cred_inv_def)

lemma cred_inv_init: "blobs d = init_blobs \<Longrightarrow> cred_inv d"
  by (simp add: cred_inv_def init_blobs_def empty_blob_def blob_inv_def)

subsection \<open>Chunked upload\<close>

text \<open>The abstract upload: the announced size and the bytes received.\<close>

record upload =
  up_expected :: nat
  up_data :: bytes

definition up_write :: "nat \<Rightarrow> nat \<Rightarrow> nat \<Rightarrow> bytes \<Rightarrow> upload \<Rightarrow> (errno + nat) \<times> upload" where
  "up_write c off tot data u =
     (if c < tot then (Inl EMSGSIZE, u)
      else let u = (if off = 0 then \<lparr>up_expected = tot, up_data = []\<rparr> else u) in
        if off \<noteq> length (up_data u) \<or> up_expected u < length (up_data u) + length data then (Inl EINVAL, u)
        else (Inr (length (up_data u) + length data), u\<lparr>up_data := up_data u @ data\<rparr>))"

definition upload_of :: "blob \<Rightarrow> upload" where
  "upload_of b = \<lparr>up_expected = expected b, up_data = take (staged b) (buf b)\<rparr>"

lemma stage_invalid: "\<not> kind_valid k d \<Longrightarrow> pouch_prov_cred_stage k off tot data d = Some (Inl EINVAL, d)"
  by (simp add: pouch_prov_cred_stage_def)

lemma unat_eq_zero_u32: "unat (x :: u32) = 0 \<longleftrightarrow> x = 0"
  by (simp add: unat_eq_0)

text \<open>One chunk: never out of bounds, invariant kept, other blobs untouched, the upload as specified.\<close>

lemma stage_refines:
  assumes inv: "cred_inv d" and k: "k < 3"
  obtains r b' where "pouch_prov_cred_stage k off tot data d = Some (r, d\<lparr>blobs := (blobs d)[k := b']\<rparr>)"
    and "blob_inv b'" and "cap b' = cap (blobs d ! k)" and "len b' = len (blobs d ! k)"
    and "up_write (cap (blobs d ! k)) (unat off) (unat tot) data (upload_of (blobs d ! k)) = (r, upload_of b')"
proof -
  let ?b = "blobs d ! k"
  let ?b1 = "if off = 0 then ?b\<lparr>staged := 0, expected := unat tot\<rparr> else ?b"
  let ?b2 = "?b1\<lparr>buf := take (staged ?b1) (buf ?b1) @ data @ drop (staged ?b1 + length data) (buf ?b1),
    staged := staged ?b1 + length data\<rparr>"
  have b: "blob_inv ?b" and l: "kind_valid k d" "length (blobs d) = 3"
    using cred_inv_nth[OF inv k] cred_inv_length[OF inv] k by (simp_all add: kind_valid_def)
  have off: "unat off = 0 \<longleftrightarrow> off = 0" by (simp add: unat_eq_0)
  consider (big) "cap ?b < unat tot"
    | (bad) "unat tot \<le> cap ?b" "unat off \<noteq> staged ?b1 \<or> expected ?b1 < staged ?b1 + length data"
    | (good) "unat tot \<le> cap ?b" "unat off = staged ?b1" "staged ?b1 + length data \<le> expected ?b1"
    by linarith
  then show thesis
  proof cases
    case big
    have "pouch_prov_cred_stage k off tot data d = Some (Inl EMSGSIZE, d\<lparr>blobs := (blobs d)[k := ?b]\<rparr>)"
      using big l by (simp add: pouch_prov_cred_stage_def)
    then show thesis using b by (rule that) (use big in \<open>simp_all add: up_write_def\<close>)
  next
    case bad
    then have i: "blob_inv ?b1" using b by (auto simp: blob_inv_def)
    have "pouch_prov_cred_stage k off tot data d = Some (Inl EINVAL, d\<lparr>blobs := (blobs d)[k := ?b1]\<rparr>)"
      using bad l by (auto simp: pouch_prov_cred_stage_def Let_def)
    then show thesis using i
      by (rule that) (use bad b off in \<open>auto simp: up_write_def upload_of_def blob_inv_def Let_def\<close>)
  next
    case good
    then have i: "blob_inv ?b1" using b by (auto simp: blob_inv_def)
    have "pouch_prov_cred_stage k off tot data d =
        Some (Inr (staged ?b1 + length data), d\<lparr>blobs := (blobs d)[k := ?b2]\<rparr>)"
      using good l i by (auto simp: pouch_prov_cred_stage_def Let_def blob_inv_def)
    moreover have "blob_inv ?b2" using good i by (auto simp: blob_inv_def)
    ultimately show thesis
      by (rule that) (use good b off i in \<open>auto simp: up_write_def upload_of_def blob_inv_def Let_def\<close>)
  qed
qed

text \<open>Chunks sent in order, with the running offset and the announced total.\<close>

primrec chunks :: "nat \<Rightarrow> bytes list \<Rightarrow> (nat \<times> bytes) list" where
  "chunks off [] = []"
| "chunks off (c # cs) = (off, c) # chunks (off + length c) cs"

definition stage_chunk :: "nat \<Rightarrow> nat \<Rightarrow> nat \<times> bytes \<Rightarrow> device \<Rightarrow> device option" where
  "stage_chunk k tot c d = do {
     (r, d) \<leftarrow> pouch_prov_cred_stage k (of_nat (fst c)) (of_nat tot) (snd c) d;
     assert_opt (\<exists>n. r = Inr n);
     Some d
   }"

lemma cap_nth: "cred_inv d \<Longrightarrow> k < 3 \<Longrightarrow> cap (blobs d ! k) \<le> 2048"
proof -
  assume inv: "cred_inv d" and k: "k < 3"
  have "cap (blobs d ! k) = map cap (blobs d) ! k" using inv k cred_inv_length[OF inv] by simp
  also have "\<dots> = [DEVICE_CERT_MAX, PRIVATE_KEY_MAX, CA_CERT_MAX] ! k" using inv by (simp add: cred_inv_def)
  also have "\<dots> \<le> 2048"
    using k by (auto simp: less_Suc_eq numeral_3_eq_3 DEVICE_CERT_MAX_def PRIVATE_KEY_MAX_def CA_CERT_MAX_def)
  finally show ?thesis .
qed

lemma stage_chunk_ok:
  assumes inv: "cred_inv d" and k: "k < 3" and tot: "tot \<le> cap (blobs d ! k)"
    and u: "off = 0 \<and> length c \<le> tot \<or> off \<noteq> 0 \<and> upload_of (blobs d ! k) = \<lparr>up_expected = tot, up_data = x\<rparr>
       \<and> off = length x \<and> off + length c \<le> tot"
    and x: "off = 0 \<Longrightarrow> x = []"
  shows "\<exists>d'. stage_chunk k tot (off, c) d = Some d' \<and> cred_inv d' \<and> cap (blobs d' ! k) = cap (blobs d ! k) \<and>
    upload_of (blobs d' ! k) = \<lparr>up_expected = tot, up_data = x @ c\<rparr>"
proof -
  have small: "off < 2 ^ 32" "tot < 2 ^ 32" using cap_nth[OF inv k] tot u by auto
  then have n: "unat (of_nat off :: u32) = off" "unat (of_nat tot :: u32) = tot"
    by (simp_all add: unat_of_nat_small)
  obtain r b' where st: "pouch_prov_cred_stage k (of_nat off) (of_nat tot) c d = Some (r, d\<lparr>blobs := (blobs d)[k := b']\<rparr>)"
    and b': "blob_inv b'" "cap b' = cap (blobs d ! k)"
    and w: "up_write (cap (blobs d ! k)) (unat (of_nat off :: u32)) (unat (of_nat tot :: u32)) c (upload_of (blobs d ! k))
      = (r, upload_of b')"
    using stage_refines[OF inv k] by metis
  have "up_write (cap (blobs d ! k)) off tot c (upload_of (blobs d ! k)) =
      (Inr (off + length c), \<lparr>up_expected = tot, up_data = x @ c\<rparr>)"
    using tot u x by (cases "off = 0") (auto simp: up_write_def)
  with w n have "r = Inr (off + length c)" "upload_of b' = \<lparr>up_expected = tot, up_data = x @ c\<rparr>"
    by simp_all
  moreover have "cred_inv (d\<lparr>blobs := (blobs d)[k := b']\<rparr>)" using inv k b' by (rule cred_inv_update)
  ultimately show ?thesis
    using st b' cred_inv_length[OF inv] k by (simp add: stage_chunk_def)
qed

lemma stage_chunks_from:
  assumes "cred_inv d" and "k < 3" and "tot \<le> cap (blobs d ! k)"
    and "upload_of (blobs d ! k) = \<lparr>up_expected = tot, up_data = x\<rparr>"
    and "x \<noteq> []" and "length x + length (concat cs) \<le> tot"
  shows "\<exists>d'. foldM (stage_chunk k tot) (chunks (length x) cs) d = Some d' \<and> cred_inv d' \<and>
    upload_of (blobs d' ! k) = \<lparr>up_expected = tot, up_data = x @ concat cs\<rparr>"
  using assms
proof (induction cs arbitrary: d x)
  case Nil
  then show ?case by simp
next
  case (Cons c cs)
  from stage_chunk_ok[OF Cons.prems(1-3), of "length x" c x] Cons.prems
  obtain d1 where d1: "stage_chunk k tot (length x, c) d = Some d1" "cred_inv d1"
    "cap (blobs d1 ! k) = cap (blobs d ! k)" "upload_of (blobs d1 ! k) = \<lparr>up_expected = tot, up_data = x @ c\<rparr>"
    by auto
  from Cons.IH[OF d1(2), of "x @ c"] Cons.prems d1 show ?case by (simp add: add.assoc)
qed

subsection \<open>The DER length check\<close>

text \<open>The check over unbounded integers: one definite-length SEQUENCE that spans the buffer.\<close>

definition der_spans :: "bytes \<Rightarrow> bool" where
  "der_spans b \<longleftrightarrow> 4 \<le> length b \<and> b ! 0 = 0x30 \<and>
     (let lb = unat (b ! 1); n = lb - 128 in
      if lb < 128 then lb + 2 = length b
      else 1 \<le> n \<and> n \<le> 4 \<and> 2 + n \<le> length b \<and> be_value (take n (drop 2 b)) + 2 + n = length b)"

lemma short_form: "and (lb :: u8) 0x80 = 0 \<longleftrightarrow> unat lb < 128"
proof -
  have "and lb (2 ^ 7) = 0 \<longleftrightarrow> \<not> bit lb 7" by (rule and_exp_eq_0_iff_not_bit)
  also have "bit lb 7 \<longleftrightarrow> bit (unat lb) 7" by (simp add: bit_unsigned_iff)
  also have "\<dots> \<longleftrightarrow> odd (unat lb div 128)" by (simp add: bit_iff_odd)
  also have "\<not> odd (unat lb div 128) \<longleftrightarrow> unat lb < 128"
    using unat_lt_u8[of lb] div_nat_eqI[of 128 1 "unat lb"] by (cases "unat lb < 128") simp_all
  finally show ?thesis by simp
qed

lemma long_form: "unat (and (lb :: u8) 0x7f) = unat lb mod 128"
proof -
  have "unat (and lb 0x7f) = and (unat lb) (mask 7)" by (simp add: unsigned_and_eq mask_numeral)
  also have "\<dots> = unat lb mod 128" by (simp add: take_bit_eq_mod flip: take_bit_eq_mask)
  finally show ?thesis .
qed

lemma or_shift: "or (push_bit 8 c) (ucast (x :: u8)) = c * 256 + (ucast x :: u32)"
proof -
  have "and (push_bit 8 c) (ucast x :: u32) = 0"
    by (rule bit_word_eqI) (auto simp: bit_simps dest: bit_imp_le_length)
  then have "or (push_bit 8 c) (ucast x :: u32) = push_bit 8 c + ucast x"
    by (simp add: disjunctive_add_eq_or)
  then show ?thesis by (simp add: push_bit_eq_mult mult.commute)
qed

lemma der_content_value:
  "2 + i + n \<le> length b \<Longrightarrow>
   der_content b i n (of_nat a) = Some (of_nat (foldl (\<lambda>a x. a * 256 + unat x) a (take n (drop (2 + i) b))))"
proof (induction n arbitrary: i a)
  case 0
  then show ?case by simp
next
  case (Suc n)
  have x: "take (Suc n) (drop (2 + i) b) = b ! (2 + i) # take n (drop (2 + Suc i) b)"
    using Suc.prems by (simp add: Cons_nth_drop_Suc[symmetric])
  have "or (push_bit 8 (of_nat a)) (ucast (b ! (2 + i)) :: u32) = of_nat (a * 256 + unat (b ! (2 + i)))"
    by (simp add: or_shift)
  then show ?case using Suc.IH[of "Suc i" "a * 256 + unat (b ! (2 + i))"] Suc.prems x by simp
qed

lemma foldl_be_bound: "foldl (\<lambda>a x. a * 256 + unat (x :: u8)) a bs < (a + 1) * 256 ^ length bs"
proof (induction bs arbitrary: a)
  case Nil
  then show ?case by simp
next
  case (Cons x bs)
  have "foldl (\<lambda>a x. a * 256 + unat x) (a * 256 + unat x) bs < (a * 256 + unat x + 1) * 256 ^ length bs"
    by (rule Cons.IH)
  also have "\<dots> \<le> ((a + 1) * 256) * 256 ^ length bs"
    using unat_lt_u8[of x] by (intro mult_right_mono) simp_all
  finally show ?case by (simp add: algebra_simps)
qed

lemma be_value_bound: "be_value bs < 256 ^ length bs"
  using foldl_be_bound[of 0 bs] by (simp add: be_value_def)

text \<open>The 32-bit sum cannot wrap to a value the length test would accept.\<close>

lemma der_sum_no_wrap:
  assumes "v < 2 ^ 32" and "n \<le> 4" and "2 + n \<le> m" and "m < 2 ^ 32"
  shows "unat (of_nat v + 2 + of_nat n :: u32) = m \<longleftrightarrow> v + 2 + n = m"
proof -
  have "(of_nat v + 2 + of_nat n :: u32) = of_nat (v + 2 + n)" by simp
  then have "unat (of_nat v + 2 + of_nat n :: u32) = (v + 2 + n) mod 2 ^ 32"
    by (simp only: unat_of_nat take_bit_eq_mod) simp
  moreover have "(v + 2 + n) mod 2 ^ 32 = (if v + 2 + n < 2 ^ 32 then v + 2 + n else v + 2 + n - 2 ^ 32)"
    using assms(1,2) by (cases "v + 2 + n < 2 ^ 32") (simp_all add: le_mod_geq)
  ultimately show ?thesis using assms by auto
qed

lemma der_long_form:
  assumes m: "4 \<le> m" "m \<le> length b" "m < 2 ^ 32" and tag: "b ! 0 = 0x30"
    and n: "n = unat (b ! 1) mod 128" "\<not> unat (b ! 1) < 128" "1 \<le> n" "n \<le> 4" "2 + n \<le> m"
  shows "der_sequence_len_ok b m = Some (be_value (take n (drop 2 b)) + 2 + n = m)"
proof -
  let ?v = "be_value (take n (drop 2 b))"
  have "length (take n (drop 2 b)) = n" using m n by simp
  then have "?v < 256 ^ n" using be_value_bound[of "take n (drop 2 b)"] by simp
  also have "\<dots> \<le> 256 ^ 4" using n by (intro power_increasing) auto
  finally have "?v < 2 ^ 32" by simp
  then have w: "unat (of_nat ?v + 2 + of_nat n :: u32) = m \<longleftrightarrow> ?v + 2 + n = m"
    using n m by (intro der_sum_no_wrap) auto
  have c: "der_content b 0 n 0 = Some (of_nat ?v)"
    using der_content_value[of 0 n b 0] n m by (simp add: be_value_def)
  have "byte_at b 0 = Some 0x30" "byte_at b 1 = Some (b ! 1)" using m tag by (auto simp: byte_at_def)
  moreover have "and (b ! 1) 0x80 \<noteq> 0" "unat (and (b ! 1) 0x7f) = n"
    using n(1,2) by (simp_all only: short_form long_form not_False_eq_True)
  ultimately show ?thesis using m(1) n(3-5) c w
    by (simp add: der_sequence_len_ok_def del: One_nat_def)
qed

lemma der_sequence_len_ok_spans:
  assumes m: "m \<le> length b" and small: "m < 2 ^ 32"
  shows "der_sequence_len_ok b m = Some (der_spans (take m b))"
proof (cases "4 \<le> m \<and> b ! 0 = 0x30")
  case False
  with m show ?thesis by (cases "m < 4") (auto simp: der_sequence_len_ok_def der_spans_def byte_at_def)
next
  case True
  define n where "n = unat (b ! 1) mod 128"
  have at: "byte_at b 0 = Some 0x30" "byte_at b 1 = Some (b ! 1)" using m True by (auto simp: byte_at_def)
  have t: "take m b ! 0 = 0x30" "take m b ! 1 = b ! 1" "length (take m b) = m" using True m by auto
  show ?thesis
  proof (cases "unat (b ! 1) < 128")
    case short: True
    with True at t show ?thesis by (simp add: der_sequence_len_ok_def der_spans_def short_form del: One_nat_def)
  next
    case long: False
    then have n: "unat (b ! 1) - 128 = n" using unat_lt_u8[of "b ! 1"] by (simp add: n_def le_mod_geq)
    show ?thesis
    proof (cases "1 \<le> n \<and> n \<le> 4 \<and> 2 + n \<le> m")
      case ok: True
      then have "take n (drop 2 (take m b)) = take n (drop 2 b)" by (auto simp: drop_take min_def)
      then have "der_spans (take m b) \<longleftrightarrow> be_value (take n (drop 2 b)) + 2 + n = m"
        using True long ok n t by (simp add: der_spans_def del: One_nat_def)
      with der_long_form[of m b n] True m small long ok n_def show ?thesis by simp
    next
      case bad: False
      then have "n = 0 \<or> 4 < n \<or> m < 2 + n" by auto
      moreover have "and (b ! 1) 0x80 \<noteq> 0" "unat (and (b ! 1) 0x7f) = n"
        using long by (simp_all only: short_form long_form n_def not_False_eq_True)
      moreover have "\<not> der_spans (take m b)"
        using bad long n t by (auto simp: der_spans_def)
      ultimately show ?thesis using True at by (simp add: der_sequence_len_ok_def del: One_nat_def)
    qed
  qed
qed

subsection \<open>Finalize\<close>

definition ready :: "blob \<Rightarrow> bool" where
  "ready b \<longleftrightarrow> staged b \<noteq> 0 \<and> staged b = expected b"

definition staged_data :: "blob \<Rightarrow> bytes" where
  "staged_data b = take (staged b) (buf b)"

definition stored :: "nat \<Rightarrow> device \<Rightarrow> bytes option" where
  "stored k d = map_of (settings_of (trace d)) (setting_key ! k)"

lemma setting_key_inj: "j < 3 \<Longrightarrow> k < 3 \<Longrightarrow> setting_key ! j = setting_key ! k \<longleftrightarrow> j = k"
  by (auto simp: setting_key_def less_Suc_eq numeral_3_eq_3)

lemma stored_save:
  "j < 3 \<Longrightarrow> k < 3 \<Longrightarrow> stored j (log (X_settings_save (setting_key ! k) v r) d) =
     (if r = rc_ok \<and> j = k then Some v else stored j d)"
  by (auto simp: stored_def setting_key_inj map_of_filter_key)

lemma stored_delete:
  "j < 3 \<Longrightarrow> k < 3 \<Longrightarrow> stored j (log (X_settings_delete (setting_key ! k)) d) = (if j = k then None else stored j d)"
  by (auto simp: stored_def setting_key_inj map_of_filter_key)

lemma stored_cong: "settings_of (trace d') = settings_of (trace d) \<Longrightarrow> stored k d' = stored k d"
  by (simp add: stored_def)

text \<open>
  What the persisting loop did after the kinds \<open>ks\<close>: only persisted lengths and settings changed;
  on success every ready kind is stored and readable, and the others are as before.
\<close>

definition persisted :: "nat list \<Rightarrow> device \<Rightarrow> rc \<Rightarrow> device \<Rightarrow> bool" where
  "persisted ks d r d' \<longleftrightarrow> cred_inv d' \<and> (\<exists>bs t. d' = d\<lparr>blobs := bs, trace := t\<rparr>) \<and>
     wifi_creds_of (trace d') = wifi_creds_of (trace d) \<and> rpc_same (trace d) (trace d') \<and>
     (\<forall>k<3. \<exists>n. blobs d' ! k = (blobs d ! k)\<lparr>len := n\<rparr>) \<and>
     (r = rc_ok \<longrightarrow> (\<forall>k<3. if k \<in> set ks \<and> ready (blobs d ! k)
        then stored k d' = Some (staged_data (blobs d ! k)) \<and> len (blobs d' ! k) = staged (blobs d ! k)
        else stored k d' = stored k d \<and> len (blobs d' ! k) = len (blobs d ! k)))"

lemma finalize_loop_persists:
  assumes "cred_inv d" and "set ks \<subseteq> {0, 1, 2}" and "distinct ks"
  shows "\<exists>r d'. finalize_loop E ks d = Some (r, d') \<and> persisted ks d r d'"
  using assms
proof (induction ks arbitrary: d)
  case Nil
  have "\<exists>n. blobs d ! k = (blobs d ! k)\<lparr>len := n\<rparr>" for k
    by (rule exI[of _ "len (blobs d ! k)"]) simp
  moreover have "\<exists>bs t. d = d\<lparr>blobs := bs, trace := t\<rparr>"
    by (rule exI[of _ "blobs d"], rule exI[of _ "trace d"]) simp
  ultimately show ?case using Nil by (simp add: persisted_def)
next
  case (Cons k ks)
  let ?b = "blobs d ! k"
  have k: "k < 3" and ks: "set ks \<subseteq> {0, 1, 2}" "distinct ks" "k \<notin> set ks" using Cons.prems by auto
  show ?case
  proof (cases "ready ?b")
    case False
    then have e: "finalize_loop E (k # ks) d = finalize_loop E ks d" by (auto simp: ready_def)
    from Cons.IH[OF Cons.prems(1) ks(1,2)] obtain r d' where
      d': "finalize_loop E ks d = Some (r, d')" "persisted ks d r d'" by blast
    from d'(2) False have "persisted (k # ks) d r d'" unfolding persisted_def by auto
    with d'(1) e show ?thesis by auto
  next
    case True
    have inv: "blob_inv ?b" using cred_inv_nth[OF Cons.prems(1) k] .
    let ?data = "staged_data ?b"
    let ?err = "settings_save_one E (setting_key ! k) ?data (trace d)"
    let ?d1 = "log (X_settings_save (setting_key ! k) ?data ?err) d"
    have rd: "mem_read (buf ?b) 0 (staged ?b) = Some ?data" using inv by (simp add: blob_inv_def staged_data_def)
    show ?thesis
    proof (cases "?err = rc_ok")
      case False
      then have eio: "finalize_loop E (k # ks) d = Some (rc_err EIO, ?d1)"
        using True rd by (simp add: ready_def Let_def)
      have "\<exists>n. blobs d ! j = (blobs d ! j)\<lparr>len := n\<rparr>" for j
        by (rule exI[of _ "len (blobs d ! j)"]) simp
      moreover have "\<exists>bs t. ?d1 = d\<lparr>blobs := bs, trace := t\<rparr>"
        unfolding log_def by (rule exI[of _ "blobs d"]) auto
      ultimately have "persisted (k # ks) d (rc_err EIO) ?d1"
        using Cons.prems(1) by (simp add: persisted_def cred_inv_def rpc_same_def)
      with eio show ?thesis by blast
    next
      case ok: True
      let ?d2 = "?d1\<lparr>blobs := (blobs ?d1)[k := ?b\<lparr>len := staged ?b\<rparr>]\<rparr>"
      have e: "finalize_loop E (k # ks) d = finalize_loop E ks ?d2" using True rd ok by (simp add: ready_def Let_def)
      have l: "length (blobs d) = 3" using Cons.prems(1) by (rule cred_inv_length)
      have "cred_inv ?d1" using Cons.prems(1) by (simp add: cred_inv_def)
      moreover have "blob_inv (?b\<lparr>len := staged ?b\<rparr>)" using inv by (auto simp: blob_inv_def)
      ultimately have i2: "cred_inv ?d2" using k by (intro cred_inv_update) simp_all
      from Cons.IH[OF i2 ks(1,2)] obtain r d' where
        d': "finalize_loop E ks ?d2 = Some (r, d')" "persisted ks ?d2 r d'" by blast
      have st: "stored j ?d2 = (if j = k then Some ?data else stored j d)" if "j < 3" for j
        using stored_save[OF that k, of ?data ?err d] ok by (simp add: stored_def)
      have bl: "blobs ?d2 ! j = (if j = k then ?b\<lparr>len := staged ?b\<rparr> else blobs d ! j)" if "j < 3" for j
        using l k by simp
      have "persisted (k # ks) d r d'"
        unfolding persisted_def
      proof (intro conjI allI impI)
        show "cred_inv d'" "rpc_same (trace d) (trace d')" "wifi_creds_of (trace d') = wifi_creds_of (trace d)"
          using d'(2) by (auto simp: persisted_def rpc_same_def)
        show "\<exists>bs t. d' = d\<lparr>blobs := bs, trace := t\<rparr>"
          using d'(2) by (auto simp: persisted_def log_def)
      next
        fix j :: nat
        assume j: "j < 3"
        from d'(2) j obtain n where "blobs d' ! j = (blobs ?d2 ! j)\<lparr>len := n\<rparr>" by (auto simp: persisted_def)
        with bl[OF j] show "\<exists>n. blobs d' ! j = (blobs d ! j)\<lparr>len := n\<rparr>" by auto
      next
        fix j :: nat
        assume r: "r = rc_ok" and j: "j < 3"
        from d'(2) r j have "if j \<in> set ks \<and> ready (blobs ?d2 ! j)
          then stored j d' = Some (staged_data (blobs ?d2 ! j)) \<and> len (blobs d' ! j) = staged (blobs ?d2 ! j)
          else stored j d' = stored j ?d2 \<and> len (blobs d' ! j) = len (blobs ?d2 ! j)"
          by (auto simp: persisted_def)
        with bl[OF j] st[OF j] True ks(3)
        show "if j \<in> set (k # ks) \<and> ready (blobs d ! j)
          then stored j d' = Some (staged_data (blobs d ! j)) \<and> len (blobs d' ! j) = staged (blobs d ! j)
          else stored j d' = stored j d \<and> len (blobs d' ! j) = len (blobs d ! j)"
          by (cases "j = k") (simp_all add: ready_def staged_data_def)
      qed
      with d'(1) e show ?thesis by auto
    qed
  qed
qed

text \<open>The four outcomes of finalize.\<close>

definition finalize_outcome :: "('e, 'd) env \<Rightarrow> device \<Rightarrow> rc \<Rightarrow> device \<Rightarrow> bool" where
  "finalize_outcome E d r d' \<longleftrightarrow>
     (if \<not> ready (blobs d ! 0) \<or> \<not> ready (blobs d ! 1) then r = rc_err EINVAL \<and> d' = d
      else if \<not> der_spans (staged_data (blobs d ! 0)) then r = rc_err EBADMSG \<and> d' = d
      else (r = rc_ok \<or> r = rc_err EIO) \<and> (\<exists>d0. persisted [0, 1, 2] d r d0 \<and>
        d' = (if r = rc_ok then pouch_prov_emit E POUCH_PROV_EVENT_CLOUD_CRED_STORED None d0 else d0)))"

lemma finalize_loop_rc: "finalize_loop E ks d = Some (r, d') \<Longrightarrow> r = rc_ok \<or> r = rc_err EIO"
proof (induction ks arbitrary: d)
  case Nil
  then show ?case by simp
next
  case (Cons k ks)
  then show ?case by (auto simp: Let_def split: if_splits bind_splits)
qed

lemma finalize_total:
  assumes inv: "cred_inv d"
  shows "\<exists>r d'. pouch_prov_cred_finalize E d = Some (r, d') \<and> finalize_outcome E d r d'"
proof (cases "ready (blobs d ! 0) \<and> ready (blobs d ! 1)")
  case False
  then show ?thesis by (auto simp: pouch_prov_cred_finalize_def finalize_outcome_def ready_def)
next
  case True
  have i: "blob_inv (blobs d ! 0)" using cred_inv_nth[OF inv] by simp
  have "der_sequence_len_ok (buf (blobs d ! 0)) (staged (blobs d ! 0)) = Some (der_spans (staged_data (blobs d ! 0)))"
    unfolding staged_data_def
    using i cap_nth[OF inv, of 0] by (intro der_sequence_len_ok_spans) (auto simp: blob_inv_def)
  moreover obtain r d' where "finalize_loop E [0, 1, 2] d = Some (r, d')" "persisted [0, 1, 2] d r d'"
    using finalize_loop_persists[OF inv, of "[0, 1, 2]" E] by auto
  moreover note finalize_loop_rc[OF calculation(2)]
  ultimately show ?thesis using True
    by (auto simp: pouch_prov_cred_finalize_def finalize_outcome_def ready_def Let_def simp del: finalize_loop.simps)
qed

lemma persisted_get:
  assumes "persisted [0, 1, 2] d rc_ok d'" and "cred_inv d" and "k < 3" and "ready (blobs d ! k)"
  shows "pouch_prov_cred_get k d' = Some (staged_data (blobs d ! k))" and "stored k d' = Some (staged_data (blobs d ! k))"
proof -
  have k: "k \<in> set [0, 1, 2]" using assms(3) by auto
  have l: "length (blobs d') = 3" using assms(1) by (auto simp: persisted_def dest: cred_inv_length)
  from assms(1,3) obtain n where n: "blobs d' ! k = (blobs d ! k)\<lparr>len := n\<rparr>" by (auto simp: persisted_def)
  from assms(1,3,4) k have s: "stored k d' = Some (staged_data (blobs d ! k))" "len (blobs d' ! k) = staged (blobs d ! k)"
    by (auto simp: persisted_def)
  show "stored k d' = Some (staged_data (blobs d ! k))" by (rule s)
  show "pouch_prov_cred_get k d' = Some (staged_data (blobs d ! k))"
    using n s(2) l assms(3,4)
    by (simp add: pouch_prov_cred_get_def pouch_prov_cred_present_def kind_valid_def staged_data_def ready_def)
qed

lemma cred_get_emit [simp]: "pouch_prov_cred_get k (pouch_prov_emit E ev x d) = pouch_prov_cred_get k d"
  by (simp add: pouch_prov_cred_get_def pouch_prov_cred_present_def kind_valid_def)

lemma stored_emit [simp]: "stored k (pouch_prov_emit E ev x d) = stored k d"
  by (simp add: stored_def)

subsection \<open>Deleting and reloading\<close>

lemma persisted_keeps:
  assumes "persisted [0, 1, 2] d rc_ok d'" and "cred_inv d" and "k < 3" and "\<not> ready (blobs d ! k)"
  shows "pouch_prov_cred_get k d' = pouch_prov_cred_get k d" and "stored k d' = stored k d"
proof -
  from assms(1,3) obtain n where n: "blobs d' ! k = (blobs d ! k)\<lparr>len := n\<rparr>" by (auto simp: persisted_def)
  from assms(1,3,4) have s: "stored k d' = stored k d" "len (blobs d' ! k) = len (blobs d ! k)" by (auto simp: persisted_def)
  show "stored k d' = stored k d" by (rule s)
  have "length (blobs d') = length (blobs d)"
    using assms(1) cred_inv_length[OF assms(2)] by (auto simp: persisted_def dest: cred_inv_length)
  then show "pouch_prov_cred_get k d' = pouch_prov_cred_get k d"
    using n s(2) by (simp add: pouch_prov_cred_get_def pouch_prov_cred_present_def kind_valid_def)
qed

lemma delete_all_eq:
  assumes "cred_inv d"
  shows "pouch_prov_cred_delete_all d = d\<lparr>blobs := map (\<lambda>b. b\<lparr>len := 0, staged := 0, expected := 0\<rparr>) (blobs d),
    trace := X_settings_delete (setting_key ! 2) # X_settings_delete (setting_key ! 1)
      # X_settings_delete (setting_key ! 0) # trace d\<rparr>"
proof -
  from cred_inv_length[OF assms] obtain a b c where "blobs d = [a, b, c]"
    by (auto simp: length_Suc_conv numeral_3_eq_3)
  then show ?thesis by (simp add: pouch_prov_cred_delete_all_def log_def)
qed

lemma delete_all_inv:
  assumes "cred_inv d"
  shows "cred_inv (pouch_prov_cred_delete_all d)"
  using assms unfolding delete_all_eq[OF assms]
  by (auto simp: cred_inv_def comp_def list.pred_map list_all_iff blob_inv_def)

lemma delete_all_gone:
  assumes "cred_inv d" and "k < 3"
  shows "pouch_prov_cred_get k (pouch_prov_cred_delete_all d) = None"
    and "stored k (pouch_prov_cred_delete_all d) = None"
    and "pouch_prov_cred_received k (pouch_prov_cred_delete_all d) = 0"
  unfolding delete_all_eq[OF assms(1)]
  using assms(2) cred_inv_length[OF assms(1)]
  by (auto simp: pouch_prov_cred_get_def pouch_prov_cred_present_def pouch_prov_cred_received_def stored_def
      map_of_eq_None_iff less_Suc_eq numeral_3_eq_3 numeral_2_eq_2)

definition cred_leaf :: "nat \<Rightarrow> string" where
  "cred_leaf k = drop (length ''pnp/cred/'') (setting_key ! k)"

lemma cred_set_total:
  assumes inv: "cred_inv d"
  shows "\<exists>r d'. cred_set name n rd d = Some (r, d') \<and> cred_inv d' \<and> (\<exists>bs. d' = d\<lparr>blobs := bs\<rparr>)"
proof -
  have "set ks \<subseteq> {0, 1, 2} \<Longrightarrow>
    \<exists>r d'. cred_set_loop ks name n rd d = Some (r, d') \<and> cred_inv d' \<and> (\<exists>bs. d' = d\<lparr>blobs := bs\<rparr>)" for ks
  proof (induction ks)
    case Nil
    have "\<exists>bs. d = d\<lparr>blobs := bs\<rparr>" by (rule exI[of _ "blobs d"]) simp
    with inv show ?case by simp
  next
    case (Cons k ks)
    have b: "blob_inv (blobs d ! k)" "k < 3" using Cons.prems cred_inv_nth[OF inv, of k] by auto
    have same: "\<exists>bs. d = d\<lparr>blobs := bs\<rparr>" by (rule exI[of _ "blobs d"]) simp
    show ?case
    proof (cases "name = drop (length ''pnp/cred/'') (setting_key ! k) \<and> n \<le> cap (blobs d ! k) \<and> \<not> isl rd")
      case True
      then obtain v where v: "rd = Inr v" by (cases rd) auto
      let ?v = "take (cap (blobs d ! k)) v"
      let ?b = "(blobs d ! k)\<lparr>buf := ?v @ drop (length ?v) (buf (blobs d ! k)), len := length ?v\<rparr>"
      have "cred_set_loop (k # ks) name n rd d = Some (rc_ok, d\<lparr>blobs := (blobs d)[k := ?b]\<rparr>)"
        using True v b by (simp add: blob_inv_def Let_def)
      moreover have "blob_inv ?b" using b by (auto simp: blob_inv_def)
      then have "cred_inv (d\<lparr>blobs := (blobs d)[k := ?b]\<rparr>)" by (intro cred_inv_update[OF inv b(2)]) simp_all
      ultimately show ?thesis by blast
    next
      case False
      then show ?thesis using Cons same inv by (cases rd) (auto simp: Let_def)
    qed
  qed
  from this[of "[0, 1, 2]"] show ?thesis by (simp add: cred_set_def del: cred_set_loop.simps)
qed

lemma cred_set_leaf:
  assumes inv: "cred_inv d" and k: "k < 3" and v: "length v \<le> cap (blobs d ! k)"
  shows "\<exists>b. cred_set (cred_leaf k) (length v) (Inr v) d = Some (rc_ok, d\<lparr>blobs := (blobs d)[k := b]\<rparr>) \<and>
    take (len b) (buf b) = v \<and> len b = length v"
proof -
  have b: "blob_inv (blobs d ! k)" using cred_inv_nth[OF inv k] .
  have "k = 0 \<or> k = 1 \<or> k = 2" using k by auto
  then show ?thesis using b v
    by (intro exI[of _ "(blobs d ! k)\<lparr>buf := v @ drop (length v) (buf (blobs d ! k)), len := length v\<rparr>"])
       (auto simp: cred_set_def cred_leaf_def setting_key_def blob_inv_def Let_def)
qed

text \<open>Staging writes into the buffer the application reads.\<close>

lemma stage_overwrites:
  assumes inv: "cred_inv d" and k: "k < 3" and old: "pouch_prov_cred_get k d = Some old"
    and st: "pouch_prov_cred_stage k 0 tot data d = Some (Inr n, d')" and fits: "length data \<le> length old"
  shows "pouch_prov_cred_get k d' = Some (data @ drop (length data) old)"
proof -
  have b: "blob_inv (blobs d ! k)" and l: "length (blobs d) = 3"
    using cred_inv_nth[OF inv k] cred_inv_length[OF inv] .
  from old have o: "old = take (len (blobs d ! k)) (buf (blobs d ! k))" "0 < len (blobs d ! k)"
    by (auto simp: pouch_prov_cred_get_def pouch_prov_cred_present_def split: if_splits)
  from st k l have "d' = d\<lparr>blobs := (blobs d)[k := (blobs d ! k)\<lparr>expected := unat tot,
      buf := data @ drop (length data) (buf (blobs d ! k)), staged := length data\<rparr>]\<rparr>"
    by (auto simp: pouch_prov_cred_stage_def kind_valid_def Let_def memcpy_at_def split: if_splits)
  then show ?thesis using k l o b fits
    by (simp add: pouch_prov_cred_get_def pouch_prov_cred_present_def kind_valid_def blob_inv_def drop_take)
qed

end
