(* ===== verification/Auth.thy ===== *)
theory Auth
  imports Rpc
begin

text \<open>
  Session authorization: the flags of \<^verbatim>\<open>src/dispatch.c\<close> that gate the endpoints, and the
  proof-of-possession handshake of \<^verbatim>\<open>src/handlers/auth.c\<close>. The MAC is computed through the PSA
  multi-part interface; \<open>psa_hmac\<close> is what the handshake relies on.
\<close>

subsection \<open>Session state (\<open>src/dispatch.c\<close>)\<close>

definition pouch_prov_session_authorized :: "device \<Rightarrow> bool" where
  "pouch_prov_session_authorized d \<longleftrightarrow> authorized d \<or> pop (config d) = None"

definition pouch_prov_session_set_authorized :: "bool \<Rightarrow> device \<Rightarrow> device" where
  "pouch_prov_session_set_authorized state d = d\<lparr>authorized := state\<rparr>"

definition NONCE_LEN :: nat where "NONCE_LEN = 16"
definition PROOF_LEN :: nat where "PROOF_LEN = 32"
definition MAX_ATTEMPTS :: u8 where "MAX_ATTEMPTS = 3"

definition pouch_prov_auth_reset :: "device \<Rightarrow> device" where
  "pouch_prov_auth_reset d =
     d\<lparr>auth := \<lparr>cli_nonce = replicate NONCE_LEN 0, dev_nonce = replicate NONCE_LEN 0,
                challenged = False, attempts = 0\<rparr>\<rparr>"

definition pouch_prov_dispatch_reset :: "('e, 'd) env \<Rightarrow> device \<Rightarrow> device" where
  "pouch_prov_dispatch_reset E d =
     (let d = d\<lparr>active := (active d)\<lparr>endpoint := None\<rparr>\<rparr>;
          d = d\<lparr>authorized := False\<rparr>
      in if CONFIG_POUCH_PROV_AUTH E then pouch_prov_auth_reset d else d)"

subsection \<open>The handshake (\<open>src/handlers/auth.c\<close>)\<close>

definition psa_update :: "('e, 'd) env \<Rightarrow> bytes \<Rightarrow> device \<Rightarrow> bool \<times> device" where
  "psa_update E bs d = (let ok = psa_mac_update E bs (trace d) in (ok, log (X_psa_mac_update bs ok) d))"

text \<open>
  \<open>None\<close> is the undefined call of \<^verbatim>\<open>strlen(cfg->pop)\<close> with \<^verbatim>\<open>pop == NULL\<close>; \<open>Inl e\<close> is \<^verbatim>\<open>-e\<close>, \<open>Inr m\<close> is
  \<^verbatim>\<open>0\<close> with \<^verbatim>\<open>m\<close> written to \<^verbatim>\<open>out\<close>.
\<close>

definition hmac_proof :: "('e, 'd) env \<Rightarrow> string \<Rightarrow> bytes \<Rightarrow> bytes \<Rightarrow> device \<Rightarrow> ((errno + bytes) \<times> device) option" where
  "hmac_proof E tag first second d = do {
     secret \<leftarrow> pop (config d);
     let k = psa_import_key E secret (trace d);
     let d = log (X_psa_import secret k) d;
     (case k of
        None \<Rightarrow> Some (Inl EIO, d)
      | Some key \<Rightarrow>
          let ok = psa_mac_sign_setup E key (trace d); d = log (X_psa_mac_setup key ok) d in
          if \<not> ok then Some (Inl EIO, log (X_psa_destroy key) d)
          else
            let (ok1, d) = psa_update E (str_bytes tag) d;
                (ok2, d) = (if ok1 then psa_update E first d else (False, d));
                (ok3, d) = (if ok2 then psa_update E second d else (False, d))
            in if \<not> ok3 then Some (Inl EIO, log (X_psa_destroy key) (log X_psa_mac_abort d))
               else
                 let m = psa_mac_sign_finish E (trace d); d = log (X_psa_mac_finish m) d;
                     ret = (case m of None \<Rightarrow> Inl EIO
                            | Some out \<Rightarrow> if length out = PROOF_LEN then Inr out else Inl EIO)
                 in Some (ret, log (X_psa_destroy key) d))
   }"

definition auth_respond_status :: "('e, 'd) env \<Rightarrow> u32 \<Rightarrow> nat \<Rightarrow> errno + bytes" where
  "auth_respond_status E status rsp_size =
     (case cbor_encode_auth_rsp (zenc E) rsp_size (auth_rsp_auth_proof_rsp_m status) of
        Some rsp \<Rightarrow> Inr rsp | None \<Rightarrow> Inl ENOMEM)"

text \<open>The comparison loop over the \<^verbatim>\<open>PROOF_LEN\<close> bytes.\<close>

fun proof_diff :: "bytes \<Rightarrow> bytes \<Rightarrow> u8 \<Rightarrow> u8" where
  "proof_diff (e # es) (p # ps) diff = proof_diff es ps (or diff (xor e p))"
| "proof_diff _ _ diff = diff"

text \<open>\<^verbatim>\<open>sys_rand_get(buf, n)\<close>\<close>

definition sys_rand_get :: "('e, 'd) env \<Rightarrow> nat \<Rightarrow> device \<Rightarrow> bytes \<times> device" where
  "sys_rand_get E n d =
     (let r = map (sys_rand_byte E (trace d)) [0..<n] in (r, log (X_rand r) d))"

text \<open>A handler returns \<open>Inl e\<close> for \<^verbatim>\<open>-e\<close> and \<open>Inr rsp\<close> for \<^verbatim>\<open>0\<close> with the response written.\<close>

definition pouch_prov_handle_auth ::
  "('e, 'd) env \<Rightarrow> bytes \<Rightarrow> nat \<Rightarrow> device \<Rightarrow> ((errno + bytes) \<times> device) option" where
  "pouch_prov_handle_auth E req rsp_size d =
     (case cbor_decode_auth_req (zdec E) req of
        None \<Rightarrow> Some (Inl EBADMSG, d)
      | Some (auth_req_auth_challenge_m nonce, consumed) \<Rightarrow>
          if length nonce \<noteq> NONCE_LEN then Some (Inl EBADMSG, d)
          else do {
            let d = d\<lparr>auth := (auth d)\<lparr>cli_nonce := nonce\<rparr>\<rparr>;
            let (r, d) = sys_rand_get E NONCE_LEN d;
            let d = d\<lparr>auth := (auth d)\<lparr>dev_nonce := r, challenged := True\<rparr>\<rparr>;
            (m, d) \<leftarrow> hmac_proof E ''dev'' (cli_nonce (auth d)) (dev_nonce (auth d)) d;
            (case m of
               Inl e \<Rightarrow> Some (Inl EIO, d)
             | Inr proof \<Rightarrow>
                 Some (case cbor_encode_auth_rsp (zenc E) rsp_size
                     (auth_rsp_auth_challenge_rsp_m prov_status_status_ok_m_c (dev_nonce (auth d)) proof) of
                   Some rsp \<Rightarrow> Inr rsp | None \<Rightarrow> Inl ENOMEM, d))
          }
      | Some (auth_req_auth_proof_m proof, consumed) \<Rightarrow>
          if \<not> challenged (auth d) \<or> length proof \<noteq> PROOF_LEN
          then Some (auth_respond_status E prov_status_status_invalid_state_m_c rsp_size, d)
          else
            let d = d\<lparr>auth := (auth d)\<lparr>attempts := attempts (auth d) + 1\<rparr>\<rparr> in
            if MAX_ATTEMPTS < attempts (auth d)
            then Some (auth_respond_status E prov_status_status_unauthorized_m_c rsp_size, d)
            else do {
              (m, d) \<leftarrow> hmac_proof E ''cli'' (dev_nonce (auth d)) (cli_nonce (auth d)) d;
              (case m of
                 Inl e \<Rightarrow> Some (Inl EIO, d)
               | Inr expect \<Rightarrow>
                   if proof_diff expect proof 0 \<noteq> 0
                   then Some (auth_respond_status E prov_status_status_unauthorized_m_c rsp_size, d)
                   else Some (auth_respond_status E prov_status_status_ok_m_c rsp_size,
                              pouch_prov_session_set_authorized True d))
            })"

subsection \<open>The constant-time comparison\<close>

lemma xor_eq_0_u8: "xor (a :: u8) b = 0 \<longleftrightarrow> a = b"
proof
  assume "xor a b = 0"
  then have "xor (xor a b) b = b" by simp
  then show "a = b" by (simp add: xor.assoc)
qed simp

lemma proof_diff_0_iff:
  "length es = length ps \<Longrightarrow> proof_diff es ps diff = 0 \<longleftrightarrow> diff = 0 \<and> es = ps"
  by (induction es ps diff rule: proof_diff.induct) (auto simp: or_eq_0_iff xor_eq_0_u8)

subsection \<open>The MAC\<close>

text \<open>\<open>hmac_proof\<close> changes only the log, and not the stores.\<close>

definition psa_only :: "device \<Rightarrow> device \<Rightarrow> bool" where
  "psa_only d d' \<longleftrightarrow> only_log d d' \<and> rpc_same (trace d) (trace d') \<and>
     settings_of (trace d') = settings_of (trace d) \<and> wifi_creds_of (trace d') = wifi_creds_of (trace d)"

lemma hmac_proof_only:
  assumes "hmac_proof E tag a b d = Some (r, d')"
  shows "psa_only d d'"
  using assms
  by (auto simp: hmac_proof_def psa_update_def Let_def psa_only_def rpc_same_def only_log_def log_def
      split: option.splits if_splits bind_splits prod.splits)

lemma hmac_proof_defined: "pop (config d) \<noteq> None \<Longrightarrow> \<exists>r d'. hmac_proof E tag a b d = Some (r, d')"
  by (auto simp: hmac_proof_def Let_def split: option.splits prod.splits)

context psa_hmac begin

lemma hmac_proof_value:
  assumes "hmac_proof E tag a b d = Some (Inr m, d')"
  shows "\<exists>K. pop (config d) = Some K \<and> m = hmac K (str_bytes tag @ a @ b) \<and> length m = 32"
  using assms mac_finish
  by (auto simp: hmac_proof_def psa_update_def Let_def PROOF_LEN_def
      split: option.splits if_splits bind_splits prod.splits)

end

context psa_hmac_live begin

lemma hmac_proof_live:
  assumes "pop (config d) = Some K"
  shows "\<exists>d'. hmac_proof E tag a b d = Some (Inr (hmac K (str_bytes tag @ a @ b)), d')"
proof -
  obtain k where k: "psa_import_key E K (trace d) = Some k" using import_live by auto
  let ?t = "X_psa_mac_update b True # X_psa_mac_update a True # X_psa_mac_update (str_bytes tag) True
    # X_psa_mac_setup k True # X_psa_import K (Some k) # trace d"
  obtain m where m: "psa_mac_sign_finish E ?t = Some m" using finish_live by auto
  then have "m = hmac K (str_bytes tag @ a @ b)" by (rule mac_finish)
  with k m show ?thesis
    using assms hmac_length
    by (simp add: hmac_proof_def psa_update_def setup_live update_live Let_def PROOF_LEN_def)
qed

end

subsection \<open>The handler\<close>

text \<open>The authorization handler changes its own state, the session flag and the log.\<close>

definition auth_only :: "device \<Rightarrow> device \<Rightarrow> bool" where
  "auth_only d d' \<longleftrightarrow> config d' = config d \<and> initialized d' = initialized d \<and> running d' = running d \<and>
     blobs d' = blobs d \<and> wc d' = wc d \<and> ip4 d' = ip4 d \<and> sc d' = sc d \<and> active d' = active d \<and>
     identity d' = identity d \<and> adv_enabled d' = adv_enabled d \<and> adv_flags d' = adv_flags d \<and>
     device_name d' = device_name d \<and> rpc_same (trace d) (trace d') \<and>
     settings_of (trace d') = settings_of (trace d) \<and> wifi_creds_of (trace d') = wifi_creds_of (trace d)"

lemma auth_onlyD:
  assumes "auth_only d d'"
  shows "config d' = config d" "initialized d' = initialized d" "running d' = running d" "blobs d' = blobs d"
    "wc d' = wc d" "ip4 d' = ip4 d" "sc d' = sc d" "active d' = active d" "identity d' = identity d"
    "adv_enabled d' = adv_enabled d" "adv_flags d' = adv_flags d" "device_name d' = device_name d"
    "rpc_same (trace d) (trace d')" "settings_of (trace d') = settings_of (trace d)"
    "wifi_creds_of (trace d') = wifi_creds_of (trace d)"
  using assms by (simp_all add: auth_only_def)

lemma auth_only_refl [simp]: "auth_only d d"
  by (simp add: auth_only_def)

lemma auth_only_psa:
  assumes "auth_only d e" and "psa_only e d'"
  shows "auth_only d d'"
proof -
  have "only_log e d'" "rpc_same (trace e) (trace d')" using assms(2) by (simp_all add: psa_only_def)
  note only_logD[OF this(1)] rpc_same_trans[OF _ this(2), of "trace d"]
  with assms show ?thesis by (simp add: auth_only_def psa_only_def)
qed

lemma auth_only_set: "auth_only d (d'\<lparr>authorized := y\<rparr>) = auth_only d d'"
  by (simp add: auth_only_def)

lemma handle_auth_only:
  assumes "pouch_prov_handle_auth E req n d = Some (r, d')"
  shows "auth_only d d'"
proof (cases "cbor_decode_auth_req (zdec E) req")
  case None
  with assms show ?thesis by (simp add: pouch_prov_handle_auth_def)
next
  case (Some ic)
  obtain i c where ic: "ic = (i, c)" by (cases ic)
  show ?thesis
  proof (cases i)
    case (auth_req_auth_challenge_m nonce)
    let ?r = "map (sys_rand_byte E (trace d)) [0..<NONCE_LEN]"
    let ?a = "(auth d)\<lparr>cli_nonce := nonce, dev_nonce := ?r, challenged := True\<rparr>"
    let ?d = "d\<lparr>trace := X_rand ?r # trace d, auth := ?a\<rparr>"
    show ?thesis
    proof (cases "length nonce = NONCE_LEN")
      case False
      with assms Some ic auth_req_auth_challenge_m show ?thesis by (simp add: pouch_prov_handle_auth_def)
    next
      case True
      with assms Some ic auth_req_auth_challenge_m obtain m where
        "hmac_proof E ''dev'' nonce ?r ?d = Some (m, d')"
        by (auto simp: pouch_prov_handle_auth_def sys_rand_get_def Let_def log_def split: bind_splits sum.splits)
      then have "psa_only ?d d'" by (rule hmac_proof_only)
      then show ?thesis by (rule auth_only_psa[rotated]) (simp add: auth_only_def rpc_same_def)
    qed
  next
    case (auth_req_auth_proof_m p)
    let ?d = "d\<lparr>auth := (auth d)\<lparr>attempts := attempts (auth d) + 1\<rparr>\<rparr>"
    show ?thesis
    proof (cases "challenged (auth d) \<and> length p = PROOF_LEN \<and> \<not> MAX_ATTEMPTS < attempts (auth d) + 1")
      case False
      with assms Some ic auth_req_auth_proof_m have "d' = d \<or> d' = ?d"
        by (auto simp: pouch_prov_handle_auth_def Let_def split: if_splits)
      then show ?thesis by (auto simp: auth_only_def)
    next
      case True
      with assms Some ic auth_req_auth_proof_m obtain m d2 where
        h: "hmac_proof E ''cli'' (dev_nonce (auth d)) (cli_nonce (auth d)) ?d = Some (m, d2)"
        and d2: "d' = d2 \<or> d' = d2\<lparr>authorized := True\<rparr>"
        by (auto simp: pouch_prov_handle_auth_def pouch_prov_session_set_authorized_def Let_def
            split: bind_splits sum.splits if_splits)
      from h have "psa_only ?d d2" by (rule hmac_proof_only)
      with auth_only_psa[of d ?d d2] have "auth_only d d2" by (simp add: auth_only_def)
      with d2 show ?thesis by (auto simp: auth_only_set)
    qed
  qed
qed

lemma handle_auth_defined:
  assumes "pop (config d) \<noteq> None"
  shows "\<exists>r d'. pouch_prov_handle_auth E req n d = Some (r, d')"
proof -
  have h: "\<exists>m d2. hmac_proof E tag a b (d\<lparr>trace := t, auth := x\<rparr>) = Some (m, d2)"
    "\<exists>m d2. hmac_proof E tag a b (d\<lparr>auth := x\<rparr>) = Some (m, d2)" for tag a b x t
    using assms by (simp_all add: hmac_proof_defined)
  show ?thesis
  proof (cases "cbor_decode_auth_req (zdec E) req")
    case None
    then show ?thesis by (simp add: pouch_prov_handle_auth_def)
  next
    case (Some ic)
    obtain i c where ic: "ic = (i, c)" by (cases ic)
    show ?thesis
    proof (cases i)
      case (auth_req_auth_challenge_m nonce)
      let ?r = "map (sys_rand_byte E (trace d)) [0..<NONCE_LEN]"
      obtain m d2 where "hmac_proof E ''dev'' nonce ?r
          (d\<lparr>trace := X_rand ?r # trace d, auth := (auth d)\<lparr>cli_nonce := nonce, dev_nonce := ?r, challenged := True\<rparr>\<rparr>) = Some (m, d2)"
        using h(1) by blast
      then show ?thesis using Some ic auth_req_auth_challenge_m
        by (simp add: pouch_prov_handle_auth_def sys_rand_get_def Let_def log_def split: sum.split)
    next
      case (auth_req_auth_proof_m p)
      obtain m d2 where "hmac_proof E ''cli'' (dev_nonce (auth d)) (cli_nonce (auth d))
          (d\<lparr>auth := (auth d)\<lparr>attempts := attempts (auth d) + 1\<rparr>\<rparr>) = Some (m, d2)"
        using h(2) by blast
      then show ?thesis using Some ic auth_req_auth_proof_m
        by (simp add: pouch_prov_handle_auth_def Let_def split: sum.split)
    qed
  qed
qed

text \<open>What the handler does with a challenge and with a proof, over an abstract MAC.\<close>

context psa_hmac begin

lemma authorized_by_proof:
  assumes "pouch_prov_handle_auth E req n d = Some (r, d')" and "authorized d'" and "\<not> authorized d"
  shows "\<exists>p c K. cbor_decode_auth_req (zdec E) req = Some (auth_req_auth_proof_m p, c) \<and>
    challenged (auth d) \<and> attempts (auth d) + 1 \<le> MAX_ATTEMPTS \<and> pop (config d) = Some K \<and>
    p = hmac K (str_bytes ''cli'' @ dev_nonce (auth d) @ cli_nonce (auth d))"
proof (cases "cbor_decode_auth_req (zdec E) req")
  case None
  with assms show ?thesis by (simp add: pouch_prov_handle_auth_def)
next
  case (Some ic)
  obtain i c where ic: "ic = (i, c)" by (cases ic)
  have keep: "hmac_proof E tag a b e = Some (m, e') \<Longrightarrow> authorized e' = authorized e" for tag a b e m e'
    using only_logD(10) hmac_proof_only[of E tag a b e m e'] by (auto simp: psa_only_def)
  show ?thesis
  proof (cases i)
    case (auth_req_auth_challenge_m nonce)
    with assms Some ic show ?thesis
      by (auto simp: pouch_prov_handle_auth_def sys_rand_get_def Let_def
          split: if_splits bind_splits sum.splits dest!: keep)
  next
    case (auth_req_auth_proof_m p)
    let ?d = "d\<lparr>auth := (auth d)\<lparr>attempts := attempts (auth d) + 1\<rparr>\<rparr>"
    from assms Some ic auth_req_auth_proof_m obtain e d2 where
      g: "challenged (auth d)" "length p = PROOF_LEN" "\<not> MAX_ATTEMPTS < attempts (auth d) + 1"
      and h: "hmac_proof E ''cli'' (dev_nonce (auth d)) (cli_nonce (auth d)) ?d = Some (Inr e, d2)"
      and e: "proof_diff e p 0 = 0"
      by (auto simp: pouch_prov_handle_auth_def Let_def split: if_splits bind_splits sum.splits dest!: keep)
    from hmac_proof_value[OF h] obtain K where
      K: "pop (config d) = Some K" "e = hmac K (str_bytes ''cli'' @ dev_nonce (auth d) @ cli_nonce (auth d))" "length e = 32"
      by auto
    with g(2) e have "e = p" using proof_diff_0_iff[of e p 0] by (simp add: PROOF_LEN_def)
    with K g Some ic auth_req_auth_proof_m show ?thesis by auto
  qed
qed

end

context psa_hmac_live begin

lemma good_proof_authorizes:
  assumes "cbor_decode_auth_req (zdec E) req = Some (auth_req_auth_proof_m p, c)"
    and "challenged (auth d)" and "attempts (auth d) + 1 \<le> MAX_ATTEMPTS" and "pop (config d) = Some K"
    and "p = hmac K (str_bytes ''cli'' @ dev_nonce (auth d) @ cli_nonce (auth d))"
  shows "\<exists>d'. pouch_prov_handle_auth E req n d = Some (auth_respond_status E prov_status_status_ok_m_c n, d') \<and> authorized d'"
proof -
  let ?d = "d\<lparr>auth := (auth d)\<lparr>attempts := attempts (auth d) + 1\<rparr>\<rparr>"
  obtain d2 where "hmac_proof E ''cli'' (dev_nonce (auth d)) (cli_nonce (auth d)) ?d = Some (Inr p, d2)"
    using hmac_proof_live[of ?d K "''cli''" "dev_nonce (auth d)" "cli_nonce (auth d)"] assms by auto
  moreover have "length p = 32" using assms(5) hmac_length by simp
  ultimately show ?thesis using assms proof_diff_0_iff[of p p 0]
    by (auto simp: pouch_prov_handle_auth_def pouch_prov_session_set_authorized_def Let_def PROOF_LEN_def)
qed

lemma bad_proof_rejected:
  assumes "cbor_decode_auth_req (zdec E) req = Some (auth_req_auth_proof_m p, c)"
    and "challenged (auth d)" and "length p = 32" and "pop (config d) = Some K"
    and "p \<noteq> hmac K (str_bytes ''cli'' @ dev_nonce (auth d) @ cli_nonce (auth d)) \<or> MAX_ATTEMPTS < attempts (auth d) + 1"
  shows "\<exists>d'. pouch_prov_handle_auth E req n d =
    Some (auth_respond_status E prov_status_status_unauthorized_m_c n, d') \<and> authorized d' = authorized d \<and>
    attempts (auth d') = attempts (auth d) + 1"
proof -
  let ?d = "d\<lparr>auth := (auth d)\<lparr>attempts := attempts (auth d) + 1\<rparr>\<rparr>"
  let ?m = "hmac K (str_bytes ''cli'' @ dev_nonce (auth d) @ cli_nonce (auth d))"
  obtain d2 where h: "hmac_proof E ''cli'' (dev_nonce (auth d)) (cli_nonce (auth d)) ?d = Some (Inr ?m, d2)"
    using hmac_proof_live[of ?d K "''cli''" "dev_nonce (auth d)" "cli_nonce (auth d)"] assms by auto
  have "only_log ?d d2" using hmac_proof_only[OF h] by (simp add: psa_only_def)
  from only_logD(8,10)[OF this] have "auth d2 = auth ?d" "authorized d2 = authorized d" by simp_all
  then show ?thesis using assms h proof_diff_0_iff[of ?m p 0] hmac_length
    by (auto simp: pouch_prov_handle_auth_def Let_def PROOF_LEN_def not_less)
qed

end

subsection \<open>Repeated proofs\<close>

text \<open>A client that submits the same proof over and over.\<close>

fun submit_proofs :: "('e, 'd) env \<Rightarrow> bytes \<Rightarrow> nat \<Rightarrow> nat \<Rightarrow> device \<Rightarrow> device option" where
  "submit_proofs E req n 0 d = Some d"
| "submit_proofs E req n (Suc k) d = pouch_prov_handle_auth E req n d \<bind> (\<lambda>(r, d'). submit_proofs E req n k d')"

lemma handle_auth_proof_keeps:
  assumes "cbor_decode_auth_req (zdec E) req = Some (auth_req_auth_proof_m p, c)"
    and "pouch_prov_handle_auth E req n d = Some (r, d')"
  shows "dev_nonce (auth d') = dev_nonce (auth d)" "cli_nonce (auth d') = cli_nonce (auth d)"
    "challenged (auth d') = challenged (auth d)" "config d' = config d"
proof -
  have keep: "hmac_proof E tag a b e = Some (m, e') \<Longrightarrow> auth e' = auth e" for tag a b e m e'
    using only_logD(8) hmac_proof_only[of E tag a b e m e'] by (auto simp: psa_only_def)
  show "dev_nonce (auth d') = dev_nonce (auth d)" "cli_nonce (auth d') = cli_nonce (auth d)"
    "challenged (auth d') = challenged (auth d)"
    using assms by (auto simp: pouch_prov_handle_auth_def pouch_prov_session_set_authorized_def Let_def
        split: if_splits bind_splits sum.splits dest!: keep)
  show "config d' = config d" using auth_onlyD(1)[OF handle_auth_only[OF assms(2)]] .
qed

lemma submit_wrong_proofs:
  assumes "psa_hmac_live E hmac" and "cbor_decode_auth_req (zdec E) req = Some (auth_req_auth_proof_m p, c)"
    and "length p = 32" and "challenged (auth d)" and "pop (config d) = Some K"
    and "p \<noteq> hmac K (str_bytes ''cli'' @ dev_nonce (auth d) @ cli_nonce (auth d))"
  shows "\<exists>d'. submit_proofs E req n k d = Some d' \<and> attempts (auth d') = attempts (auth d) + of_nat k \<and>
    dev_nonce (auth d') = dev_nonce (auth d) \<and> cli_nonce (auth d') = cli_nonce (auth d) \<and> challenged (auth d') \<and>
    config d' = config d \<and> authorized d' = authorized d"
  using assms(4-6)
proof (induction k arbitrary: d)
  case (Suc k)
  obtain r d1 where d1: "pouch_prov_handle_auth E req n d = Some (r, d1)" "authorized d1 = authorized d"
    "attempts (auth d1) = attempts (auth d) + 1"
    using psa_hmac_live.bad_proof_rejected[OF assms(1,2) Suc.prems(1) assms(3) Suc.prems(2)] Suc.prems(3) by metis
  note k = handle_auth_proof_keeps[OF assms(2) d1(1)]
  from Suc.IH[of d1] k d1 Suc.prems show ?case by (auto simp: ac_simps)
qed simp

subsection \<open>The challenge\<close>

context psa_hmac_live begin

lemma challenge_answered:
  assumes "zcbor_encoder (zenc E) R" and "cbor_decode_auth_req (zdec E) req = Some (auth_req_auth_challenge_m nonce, c)"
    and n: "length nonce = 16" and K: "pop (config d) = Some K" and sz: "70 \<le> rsp_size"
    and r: "r = map (sys_rand_byte E (trace d)) [0..<16]"
  shows "\<exists>d'. pouch_prov_handle_auth E req rsp_size d =
      Some (Inr (toks_bytes (auth_rsp_toks (auth_rsp_auth_challenge_rsp_m 0 r (hmac K (str_bytes ''dev'' @ nonce @ r))))), d') \<and>
    auth d' = \<lparr>cli_nonce = nonce, dev_nonce = r, challenged = True, attempts = attempts (auth d)\<rparr> \<and> authorized d' = authorized d"
proof -
  let ?a = "(auth d)\<lparr>cli_nonce := nonce, dev_nonce := r, challenged := True\<rparr>"
  let ?d = "d\<lparr>trace := X_rand r # trace d, auth := ?a\<rparr>"
  let ?m = "hmac K (str_bytes ''dev'' @ nonce @ r)"
  let ?v = "auth_rsp_auth_challenge_rsp_m 0 r ?m"
  have upd: "\<lparr>cli_nonce = nonce, dev_nonce = r, challenged = True, attempts = attempts (auth d)\<rparr> = ?a" by (cases "auth d") simp
  have k: "pop (config ?d) = Some K" using K by simp
  from hmac_proof_live[OF k, of "''dev''" nonce r] obtain d2 where
    h: "hmac_proof E ''dev'' nonce r ?d = Some (Inr ?m, d2)" by auto
  then have keep: "auth d2 = ?a" "authorized d2 = authorized d"
    using hmac_proof_only[OF h] only_logD(8,10)[of ?d d2] by (simp_all add: psa_only_def)
  have l: "length r = 16" "length ?m = 32" using r hmac_length by simp_all
  have ok: "auth_rsp_ok ?v" using l by (simp add: status_ok_def)
  have "length (toks_bytes (auth_rsp_toks ?v)) \<le> rsp_size"
    using sz l by (simp add: toks_bytes_def u32_tok_def cbor_head_def)
  then have "cbor_encode_auth_rsp (zenc E) rsp_size ?v = Some (toks_bytes (auth_rsp_toks ?v))"
    by (simp add: zcbor_encoder.cbor_encode_auth_rsp_ref[OF assms(1)] enc_auth_rsp[OF ok] emit_toks_def)
  then show ?thesis unfolding upd using assms(2) n h keep r
    by (simp add: pouch_prov_handle_auth_def sys_rand_get_def NONCE_LEN_def Let_def log_def)
qed

end

text \<open>The handler reads the proof of possession without checking that there is one.\<close>

lemma hmac_proof_undefined: "hmac_proof E tag a b d = None \<longleftrightarrow> pop (config d) = None"
  using hmac_proof_defined[of d E tag a b] by (cases "pop (config d)") (auto simp: hmac_proof_def)

lemma handle_auth_undefined:
  "pouch_prov_handle_auth E req n d = None \<longleftrightarrow> pop (config d) = None \<and>
     (\<exists>i c. cbor_decode_auth_req (zdec E) req = Some (i, c) \<and>
       (case i of auth_req_auth_challenge_m nonce \<Rightarrow> length nonce = 16
        | auth_req_auth_proof_m p \<Rightarrow> challenged (auth d) \<and> length p = 32 \<and> attempts (auth d) + 1 \<le> 3))"
proof (cases "cbor_decode_auth_req (zdec E) req")
  case (Some ic)
  obtain i c where ic: "ic = (i, c)" by (cases ic)
  show ?thesis
  proof (cases "pop (config d) = None")
    case True
    then have "hmac_proof E tag a b (d\<lparr>auth := x\<rparr>) = None" "hmac_proof E tag a b (d\<lparr>auth := x, trace := t\<rparr>) = None"
      "hmac_proof E tag a b (d\<lparr>trace := t, auth := x\<rparr>) = None"
      for tag a b x t by (simp_all add: hmac_proof_undefined)
    with True Some ic show ?thesis
      by (cases i) (auto simp: pouch_prov_handle_auth_def sys_rand_get_def NONCE_LEN_def PROOF_LEN_def MAX_ATTEMPTS_def
          Let_def log_def not_le)
  next
    case False
    then show ?thesis using handle_auth_defined[OF False, of E req n] by auto
  qed
qed (simp add: pouch_prov_handle_auth_def)

end
