(* ===== verification/Identity.thy ===== *)
theory Identity
  imports Rpc
begin

text \<open>
  The device's pouch identity (\<^verbatim>\<open>src/identity.c\<close>): a P-256 key and a self-signed certificate,
  generated on first boot and reloaded from the settings afterwards. The fixed sequence of X.509
  writer setters is one call of the environment; the DER writer is another.
\<close>

subsection \<open>Operations\<close>

definition IDENTITY_CERT_MAX :: nat where "IDENTITY_CERT_MAX = 640"
definition P256_PRIV_LEN :: nat where "P256_PRIV_LEN = 32"
definition CERT_SETTINGS_KEY :: string where "CERT_SETTINGS_KEY = ''pnp/id/cert''"
definition KEY_SETTINGS_KEY :: string where "KEY_SETTINGS_KEY = ''pnp/id/key''"

definition id_set :: "string \<Rightarrow> nat \<Rightarrow> errno + bytes \<Rightarrow> device \<Rightarrow> (rc \<times> device) option" where
  "id_set name n rd d =
     (if name = ''cert'' then
        (if IDENTITY_CERT_MAX < n then Some (rc_err EINVAL, d)
         else (case rd of Inl e \<Rightarrow> Some (rc_err e, d)
               | Inr v \<Rightarrow> do {
                   let v = take IDENTITY_CERT_MAX v;
                   m \<leftarrow> memcpy_at (cert_der (identity d)) 0 v;
                   Some (rc_ok, d\<lparr>identity := (identity d)\<lparr>cert_der := m, cert_der_len := length v\<rparr>\<rparr>)
                 }))
      else if name = ''key'' then
        (if P256_PRIV_LEN < n then Some (rc_err EINVAL, d)
         else (case rd of Inl e \<Rightarrow> Some (rc_err e, d)
               | Inr v \<Rightarrow> do {
                   let v = take P256_PRIV_LEN v;
                   m \<leftarrow> memcpy_at (priv_raw (identity d)) 0 v;
                   Some (rc_ok, d\<lparr>identity := (identity d)\<lparr>priv_raw := m, priv_raw_len := length v\<rparr>\<rparr>)
                 }))
      else Some (rc_err ENOENT, d))"

definition import_key :: "('e, 'd) env \<Rightarrow> bytes \<Rightarrow> device \<Rightarrow> nat option \<times> device" where
  "import_key E raw d = (let id = psa_import_key E raw (trace d) in (id, log (X_psa_import raw id) d))"

text \<open>The bytes of the key buffer in use.\<close>

definition priv_bytes :: "device \<Rightarrow> bytes" where
  "priv_bytes d = take (priv_raw_len (identity d)) (priv_raw (identity d))"

definition generate_key :: "('e, 'd) env \<Rightarrow> device \<Rightarrow> (rc \<times> device) option" where
  "generate_key E d =
     (let tmp = psa_generate_key E (trace d); d = log (X_psa_generate tmp) d in
      case tmp of
        None \<Rightarrow> Some (rc_err EIO, d)
      | Some k \<Rightarrow>
          let ex = psa_export_key E k (trace d); d = log (X_psa_export k ex) d in
          case ex of
            None \<Rightarrow> Some (rc_err EIO, log (X_psa_destroy k) d)
          | Some raw \<Rightarrow> do {
              m \<leftarrow> memcpy_at (priv_raw (identity d)) 0 raw;
              let d = d\<lparr>identity := (identity d)\<lparr>priv_raw := m, priv_raw_len := length raw\<rparr>\<rparr>;
              let err = settings_save_one E KEY_SETTINGS_KEY raw (trace d);
              let d = log (X_settings_save KEY_SETTINGS_KEY raw err) d;
              let d = log (X_psa_destroy k) d;
              (if err \<noteq> rc_ok then Some (rc_err EIO, d)
               else
                 let (id, d) = import_key E (priv_bytes d) d;
                     d = d\<lparr>identity := (identity d)\<lparr>identity_key := id\<rparr>\<rparr>
                 in Some (if id = None then rc_err EIO else rc_ok, d))
            })"

definition build_self_signed_cert :: "('e, 'd) env \<Rightarrow> device \<Rightarrow> (rc \<times> device) option" where
  "build_self_signed_cert E d =
     (let k = (case identity_key (identity d) of None \<Rightarrow> 0 | Some k \<Rightarrow> k);
          ok = x509write_setup E k (trace d); d = log (X_x509_setup k ok) d in
      if \<not> ok then Some (rc_err EIO, d)
      else
        let der = x509write_crt_der E (trace d); d = log (X_x509_der der) d in
        case der of
          None \<Rightarrow> Some (rc_err EIO, d)
        | Some v \<Rightarrow> do {
            m \<leftarrow> memcpy_at (cert_der (identity d)) 0 v;
            let d = d\<lparr>identity := (identity d)\<lparr>cert_der := m, cert_der_len := length v\<rparr>\<rparr>;
            let err = settings_save_one E CERT_SETTINGS_KEY v (trace d);
            let d = log (X_settings_save CERT_SETTINGS_KEY v err) d;
            Some (if err \<noteq> rc_ok then rc_err EIO else rc_ok, d)
          })"

text \<open>On success the certificate and the key handed to pouch.\<close>

definition pouch_prov_identity_ensure :: "('e, 'd) env \<Rightarrow> device \<Rightarrow> ((errno + bytes \<times> nat option) \<times> device) option" where
  "pouch_prov_identity_ensure E d =
     (let ok = psa_crypto_init E (trace d); d = log (X_psa_crypto_init ok) d in
      if \<not> ok then Some (Inl EIO, d)
      else do {
        (r, d) \<leftarrow>
          (if 0 < priv_raw_len (identity d) then
             let (id, d) = import_key E (priv_bytes d) d;
                 d = d\<lparr>identity := (identity d)\<lparr>identity_key := id\<rparr>\<rparr>
             in Some (if id = None then rc_err EIO else rc_ok, d)
           else do {
             (r, d) \<leftarrow> generate_key E d;
             Some (r, if r = rc_ok then d\<lparr>identity := (identity d)\<lparr>cert_der_len := 0\<rparr>\<rparr> else d)
           });
        (case r of
           Some e \<Rightarrow> Some (Inl e, d)
         | None \<Rightarrow> do {
             (r, d) \<leftarrow> (if cert_der_len (identity d) = 0 then build_self_signed_cert E d else Some (rc_ok, d));
             (case r of
                Some e \<Rightarrow> Some (Inl e, d)
              | None \<Rightarrow> Some (Inr (take (cert_der_len (identity d)) (cert_der (identity d)),
                                  identity_key (identity d)), d))
           })
      })"

subsection \<open>Invariant\<close>

definition id_inv :: "device \<Rightarrow> bool" where
  "id_inv d \<longleftrightarrow> length (cert_der (identity d)) = 640 \<and> cert_der_len (identity d) \<le> 640 \<and>
     length (priv_raw (identity d)) = 32 \<and> priv_raw_len (identity d) \<le> 32"

text \<open>The exporter and the DER writer respect the buffers they are given.\<close>

definition identity_bounds :: "('e, 'd) env \<Rightarrow> bool" where
  "identity_bounds E \<longleftrightarrow> (\<forall>k t v. psa_export_key E k t = Some v \<longrightarrow> length v \<le> 32) \<and>
     (\<forall>t v. x509write_crt_der E t = Some v \<longrightarrow> length v \<le> 640)"

text \<open>What the identity code may change: its own state and the log.\<close>

definition id_only :: "device \<Rightarrow> device \<Rightarrow> bool" where
  "id_only d d' \<longleftrightarrow> config d' = config d \<and> initialized d' = initialized d \<and> running d' = running d \<and>
     blobs d' = blobs d \<and> wc d' = wc d \<and> ip4 d' = ip4 d \<and> sc d' = sc d \<and> auth d' = auth d \<and> active d' = active d \<and>
     authorized d' = authorized d \<and> adv_enabled d' = adv_enabled d \<and> adv_flags d' = adv_flags d \<and>
     device_name d' = device_name d \<and> rpc_same (trace d) (trace d') \<and> wifi_creds_of (trace d') = wifi_creds_of (trace d)"

lemma id_onlyD:
  assumes "id_only d d'"
  shows "config d' = config d" "initialized d' = initialized d" "running d' = running d" "blobs d' = blobs d"
    "wc d' = wc d" "ip4 d' = ip4 d" "sc d' = sc d" "auth d' = auth d" "active d' = active d"
    "authorized d' = authorized d" "adv_enabled d' = adv_enabled d" "adv_flags d' = adv_flags d"
    "device_name d' = device_name d" "rpc_same (trace d) (trace d')" "wifi_creds_of (trace d') = wifi_creds_of (trace d)"
  using assms by (simp_all add: id_only_def)

lemma id_only_refl [simp]: "id_only d d"
  by (simp add: id_only_def)

lemma id_only_trans: "id_only a b \<Longrightarrow> id_only b c \<Longrightarrow> id_only a c"
  using rpc_same_trans[of "trace a" "trace b" "trace c"] by (simp add: id_only_def)

lemma id_set_total:
  assumes "id_inv d"
  shows "\<exists>r d'. id_set name n rd d = Some (r, d') \<and> id_inv d' \<and> id_only d d' \<and> trace d' = trace d"
  using assms
  by (cases rd) (auto simp: id_set_def id_inv_def id_only_def IDENTITY_CERT_MAX_def P256_PRIV_LEN_def Let_def)

lemma generate_key_total:
  assumes "id_inv d" and "identity_bounds E"
  shows "\<exists>r d'. generate_key E d = Some (r, d') \<and> id_inv d' \<and> id_only d d'"
proof -
  have b: "psa_export_key E k t = Some v \<Longrightarrow> length v \<le> 32" for k t v
    using assms(2) by (auto simp: identity_bounds_def)
  show ?thesis using assms(1) b
    by (auto simp: generate_key_def import_key_def id_inv_def id_only_def rpc_same_def Let_def split: option.splits)
qed

lemma build_cert_total:
  assumes "id_inv d" and "identity_bounds E"
  shows "\<exists>r d'. build_self_signed_cert E d = Some (r, d') \<and> id_inv d' \<and> id_only d d'"
proof -
  have b: "x509write_crt_der E t = Some v \<Longrightarrow> length v \<le> 640" for t v
    using assms(2) by (auto simp: identity_bounds_def)
  show ?thesis using assms(1) b
    by (auto simp: build_self_signed_cert_def id_inv_def id_only_def rpc_same_def Let_def split: option.splits)
qed

text \<open>Ensuring the identity: the key step, then the certificate step.\<close>

definition ensure_key :: "('e, 'd) env \<Rightarrow> device \<Rightarrow> (rc \<times> device) option" where
  "ensure_key E d =
     (if 0 < priv_raw_len (identity d) then
        let (id, d) = import_key E (priv_bytes d) d;
            d = d\<lparr>identity := (identity d)\<lparr>identity_key := id\<rparr>\<rparr>
        in Some (if id = None then rc_err EIO else rc_ok, d)
      else do {
        (r, d) \<leftarrow> generate_key E d;
        Some (r, if r = rc_ok then d\<lparr>identity := (identity d)\<lparr>cert_der_len := 0\<rparr>\<rparr> else d)
      })"

lemma ensure_key_total:
  assumes "id_inv d" and "identity_bounds E"
  shows "\<exists>r d'. ensure_key E d = Some (r, d') \<and> id_inv d' \<and> id_only d d'"
  using generate_key_total[OF assms] assms(1)
  by (auto simp: ensure_key_def import_key_def id_inv_def id_only_def rpc_same_def Let_def)

lemma ensure_unfold:
  "pouch_prov_identity_ensure E d =
     (let ok = psa_crypto_init E (trace d); d = log (X_psa_crypto_init ok) d in
      if \<not> ok then Some (Inl EIO, d)
      else do {
        (r, d) \<leftarrow> ensure_key E d;
        (case r of
           Some e \<Rightarrow> Some (Inl e, d)
         | None \<Rightarrow> do {
             (r, d) \<leftarrow> (if cert_der_len (identity d) = 0 then build_self_signed_cert E d else Some (rc_ok, d));
             (case r of
                Some e \<Rightarrow> Some (Inl e, d)
              | None \<Rightarrow> Some (Inr (take (cert_der_len (identity d)) (cert_der (identity d)),
                                  identity_key (identity d)), d))
           })
      })"
  unfolding pouch_prov_identity_ensure_def ensure_key_def by (rule refl)

lemma ensure_total:
  assumes inv: "id_inv d" and E: "identity_bounds E"
  shows "\<exists>r d'. pouch_prov_identity_ensure E d = Some (r, d') \<and> id_inv d' \<and> id_only d d'"
proof -
  let ?ok = "psa_crypto_init E (trace d)"
  let ?d = "log (X_psa_crypto_init ?ok) d"
  have i: "id_inv ?d" "id_only d ?d" using inv by (simp_all add: id_inv_def id_only_def rpc_same_def)
  obtain r d1 where d1: "ensure_key E ?d = Some (r, d1)" "id_inv d1" "id_only ?d d1"
    using ensure_key_total[OF i(1) E] by blast
  have o1: "id_only d d1" using i(2) d1(3) by (rule id_only_trans)
  obtain r2 d2 where d2: "build_self_signed_cert E d1 = Some (r2, d2)" "id_inv d2" "id_only d1 d2"
    using build_cert_total[OF d1(2) E] by blast
  have o2: "id_only d d2" using o1 d2(3) by (rule id_only_trans)
  show ?thesis
    unfolding ensure_unfold Let_def
    using d1 d2 i o1 o2 by (cases ?ok; cases r; cases r2; cases "cert_der_len (identity d1) = 0") auto
qed

lemma ensure_restored:
  assumes "0 < priv_raw_len (identity d)" and "0 < cert_der_len (identity d)"
    and "psa_crypto_init E (trace d)" and "psa_import_key E (priv_bytes d) (X_psa_crypto_init True # trace d) = Some k"
  shows "\<exists>d'. pouch_prov_identity_ensure E d =
      Some (Inr (take (cert_der_len (identity d)) (cert_der (identity d)), Some k), d') \<and>
    trace d' = X_psa_import (priv_bytes d) (Some k) # X_psa_crypto_init True # trace d"
  using assms by (simp add: ensure_unfold ensure_key_def import_key_def priv_bytes_def Let_def)

lemma generate_key_persists:
  assumes "generate_key E d = Some (rc_ok, d')"
  shows "map_of (settings_of (trace d')) KEY_SETTINGS_KEY = Some (priv_bytes d')" and "identity_key (identity d') \<noteq> None"
  using assms
  by (auto simp: generate_key_def import_key_def priv_bytes_def memcpy_at_def Let_def
      split: option.splits bind_splits if_splits)

lemma build_cert_persists:
  assumes "build_self_signed_cert E d = Some (rc_ok, d')"
  shows "map_of (settings_of (trace d')) CERT_SETTINGS_KEY = Some (take (cert_der_len (identity d')) (cert_der (identity d')))"
    and "map_of (settings_of (trace d')) KEY_SETTINGS_KEY = map_of (settings_of (trace d)) KEY_SETTINGS_KEY"
    and "priv_bytes d' = priv_bytes d" and "identity_key (identity d') = identity_key (identity d)"
  using assms
  by (auto simp: build_self_signed_cert_def priv_bytes_def memcpy_at_def Let_def map_of_filter_key
      CERT_SETTINGS_KEY_def KEY_SETTINGS_KEY_def split: option.splits bind_splits if_splits)

lemma ensure_first_boot:
  assumes "priv_raw_len (identity d) = 0" and "pouch_prov_identity_ensure E d = Some (Inr (cert, k), d')"
  shows "map_of (settings_of (trace d')) KEY_SETTINGS_KEY = Some (priv_bytes d')"
    and "map_of (settings_of (trace d')) CERT_SETTINGS_KEY = Some cert" and "k \<noteq> None"
proof -
  let ?d = "log (X_psa_crypto_init True) d"
  from assms obtain d1 where g: "generate_key E ?d = Some (rc_ok, d1)"
    and b: "build_self_signed_cert E (d1\<lparr>identity := (identity d1)\<lparr>cert_der_len := 0\<rparr>\<rparr>) = Some (rc_ok, d')"
    and r: "cert = take (cert_der_len (identity d')) (cert_der (identity d'))" "k = identity_key (identity d')"
    by (auto simp: ensure_unfold ensure_key_def Let_def split: if_splits bind_splits option.splits)
  note p = generate_key_persists[OF g] build_cert_persists[OF b]
  show "map_of (settings_of (trace d')) KEY_SETTINGS_KEY = Some (priv_bytes d')"
    using p by (simp add: priv_bytes_def)
  show "map_of (settings_of (trace d')) CERT_SETTINGS_KEY = Some cert" "k \<noteq> None"
    using p r by (simp_all add: priv_bytes_def)
qed

lemma ensure_cert_bound:
  assumes "id_inv d" and "identity_bounds E" and "pouch_prov_identity_ensure E d = Some (Inr (cert, k), d')"
  shows "length cert \<le> 640"
proof -
  have "id_inv d'" using ensure_total[OF assms(1,2)] assms(3) by auto
  moreover have "cert = take (cert_der_len (identity d')) (cert_der (identity d'))"
    using assms(3) by (auto simp: ensure_unfold Let_def split: if_splits bind_splits option.splits)
  ultimately show ?thesis by (simp add: id_inv_def)
qed

end
