(* ===== verification/Adv.thy ===== *)
theory Adv
  imports Rpc
begin

text \<open>
  Bluetooth advertising (\<^verbatim>\<open>src/adv.c\<close>): the advertised name and service flags, and starting and
  stopping. The connection callbacks that reach the manager are in theory \<open>Manager\<close>.
\<close>

subsection \<open>Operations\<close>

definition ADV_FLAG_PROVISIONING :: u8 where "ADV_FLAG_PROVISIONING = push_bit 1 1"

text \<open>\<^verbatim>\<open>%02x\<close>\<close>

definition hex_digit :: "nat \<Rightarrow> char" where
  "hex_digit n = ''0123456789abcdef'' ! n"

definition hex2 :: "u8 \<Rightarrow> string" where
  "hex2 b = [hex_digit (unat b div 16), hex_digit (unat b mod 16)]"

text \<open>\<^verbatim>\<open>snprintf\<close> into a buffer of \<open>n\<close> bytes keeps room for the terminating zero.\<close>

definition snprintf :: "nat \<Rightarrow> string \<Rightarrow> string" where
  "snprintf n s = take (n - 1) s"

definition set_device_name :: "('e, 'd) env \<Rightarrow> device \<Rightarrow> device" where
  "set_device_name E d =
     (let a = bt_id_addr E (trace d);
          room = (length (CONFIG_POUCH_PROV_DEVICE_NAME_PREFIX E) + 1) + 6
      in d\<lparr>device_name := snprintf room
           (CONFIG_POUCH_PROV_DEVICE_NAME_PREFIX E @ hex2 (a 2) @ hex2 (a 1) @ hex2 (a 0))\<rparr>)"

definition connected :: "('e, 'd) env \<Rightarrow> nat \<Rightarrow> device \<Rightarrow> device" where
  "connected E err d =
     (if err \<noteq> 0 then d else log (X_bt_set_security (bt_conn_set_security E (trace d))) d)"

definition recycled :: "('e, 'd) env \<Rightarrow> device \<Rightarrow> device" where
  "recycled E d =
     (if adv_enabled d
      then log (X_bt_adv_start (device_name d) (adv_flags d) (bt_le_adv_start E (trace d))) d else d)"

definition pouch_prov_adv_start :: "('e, 'd) env \<Rightarrow> device \<Rightarrow> rc \<times> device" where
  "pouch_prov_adv_start E d =
     (let d = d\<lparr>adv_flags := or (adv_flags d) ADV_FLAG_PROVISIONING\<rparr>;
          d = set_device_name E d;
          err = bt_le_adv_start E (trace d);
          d = log (X_bt_adv_start (device_name d) (adv_flags d) err) d;
          err = (if err = rc_err EALREADY then rc_ok else err);
          d = (if err = rc_ok then d\<lparr>adv_enabled := True\<rparr> else d)
      in (err, d))"

definition pouch_prov_adv_stop :: "('e, 'd) env \<Rightarrow> device \<Rightarrow> rc \<times> device" where
  "pouch_prov_adv_stop E d =
     (let d = d\<lparr>adv_enabled := False\<rparr>;
          d = d\<lparr>adv_flags := and (adv_flags d) (not ADV_FLAG_PROVISIONING)\<rparr>;
          err = bt_le_adv_stop E (trace d);
          d = log (X_bt_adv_stop err) d
      in (if err = rc_err EALREADY then rc_ok else err, d))"

subsection \<open>Properties\<close>

text \<open>What the advertising code may change.\<close>

definition adv_only :: "device \<Rightarrow> device \<Rightarrow> bool" where
  "adv_only d d' \<longleftrightarrow> config d' = config d \<and> initialized d' = initialized d \<and> running d' = running d \<and>
     blobs d' = blobs d \<and> wc d' = wc d \<and> ip4 d' = ip4 d \<and> sc d' = sc d \<and> auth d' = auth d \<and> active d' = active d \<and>
     authorized d' = authorized d \<and> identity d' = identity d \<and> rpc_same (trace d) (trace d') \<and>
     settings_of (trace d') = settings_of (trace d) \<and> wifi_creds_of (trace d') = wifi_creds_of (trace d)"

lemma adv_onlyD:
  assumes "adv_only d d'"
  shows "config d' = config d" "initialized d' = initialized d" "running d' = running d" "blobs d' = blobs d"
    "wc d' = wc d" "ip4 d' = ip4 d" "sc d' = sc d" "auth d' = auth d" "active d' = active d"
    "authorized d' = authorized d" "identity d' = identity d" "rpc_same (trace d) (trace d')"
    "settings_of (trace d') = settings_of (trace d)" "wifi_creds_of (trace d') = wifi_creds_of (trace d)"
  using assms by (simp_all add: adv_only_def)

lemma adv_start_only: "adv_only d (snd (pouch_prov_adv_start E d))"
  by (simp add: pouch_prov_adv_start_def set_device_name_def adv_only_def rpc_same_def Let_def)

lemma adv_stop_only: "adv_only d (snd (pouch_prov_adv_stop E d))"
  by (simp add: pouch_prov_adv_stop_def adv_only_def rpc_same_def Let_def)

lemma connected_only: "adv_only d (connected E err d)"
  by (simp add: connected_def adv_only_def rpc_same_def)

lemma recycled_only: "adv_only d (recycled E d)"
  by (simp add: recycled_def adv_only_def rpc_same_def)

lemma adv_start_enabled:
  "adv_enabled (snd (pouch_prov_adv_start E d)) = (fst (pouch_prov_adv_start E d) = rc_ok \<or> adv_enabled d)"
  by (auto simp: pouch_prov_adv_start_def set_device_name_def Let_def)

lemma adv_stop_enabled: "adv_enabled (snd (pouch_prov_adv_stop E d)) = False"
  by (simp add: pouch_prov_adv_stop_def Let_def)

lemma hex2_length: "length (hex2 b) = 2"
  by (simp add: hex2_def)

lemma device_name_whole:
  "device_name (set_device_name E d) = CONFIG_POUCH_PROV_DEVICE_NAME_PREFIX E
     @ hex2 (bt_id_addr E (trace d) 2) @ hex2 (bt_id_addr E (trace d) 1) @ hex2 (bt_id_addr E (trace d) 0)"
  by (simp add: set_device_name_def snprintf_def hex2_length Let_def)

lemma hex_digit_inj: "i < 16 \<Longrightarrow> j < 16 \<Longrightarrow> hex_digit i = hex_digit j \<Longrightarrow> i = j"
  by (simp add: hex_digit_def nth_eq_iff_index_eq)

lemma hex2_inj: "hex2 a = hex2 b \<longleftrightarrow> a = b"
proof
  assume "hex2 a = hex2 b"
  then have "unat a div 16 = unat b div 16" "unat a mod 16 = unat b mod 16"
    using unat_lt_u8[of a] unat_lt_u8[of b] by (auto simp: hex2_def intro!: hex_digit_inj)
  then have "unat a = unat b" by (metis div_mult_mod_eq)
  then show "a = b" by (simp add: word_unat_eq_iff)
qed simp

end
