(* ===== verification/Manager.thy ===== *)
theory Manager
  imports Cred_Store Auth Wifi_Scan Identity Adv
begin

text \<open>
  The provisioning manager (\<^verbatim>\<open>src/manager.c\<close>): initialization, start and stop, the end of a
  Bluetooth session, and wiping the device. \<open>Device\<close> holds its event fan-out. Loading settings
  calls back into the settings handlers of the credential store and of the identity.
\<close>

subsection \<open>Settings\<close>

text \<open>
  A value is handed to the handler whose subtree its key is in, under the rest of the key. The
  handler of the credential store and the one of the identity exist when they are compiled in.
\<close>

definition settings_deliver :: "('e, 'd) env \<Rightarrow> settings_item \<Rightarrow> device \<Rightarrow> device option" where
  "settings_deliver E it d =
     (if CONFIG_POUCH_PROV_CRED E \<and> prefix ''pnp/cred/'' (si_key it)
      then map_option snd (cred_set (drop (length ''pnp/cred/'') (si_key it)) (si_len it) (si_read it) d)
      else if \<not> CONFIG_POUCH_ENCRYPTION_NONE E \<and> prefix ''pnp/id/'' (si_key it)
      then map_option snd (id_set (drop (length ''pnp/id/'') (si_key it)) (si_len it) (si_read it) d)
      else Some d)"

definition settings_load :: "('e, 'd) env \<Rightarrow> string \<Rightarrow> device \<Rightarrow> (rc \<times> device) option" where
  "settings_load E subtree d = do {
     let items = settings_load_items E subtree (trace d);
     let r = settings_load_rc E subtree (trace d);
     d \<leftarrow> foldM (settings_deliver E) items d;
     Some (r, log (X_settings_load subtree r) d)
   }"

subsection \<open>Operations\<close>

definition pouch_prov_mgr_session_ended :: "('e, 'd) env \<Rightarrow> device \<Rightarrow> device option" where
  "pouch_prov_mgr_session_ended E d = pouch_prov_rpc_reset E (pouch_prov_dispatch_reset E d)"

text \<open>\<^verbatim>\<open>src/adv.c\<close>: the link dropped.\<close>

definition disconnected :: "('e, 'd) env \<Rightarrow> device \<Rightarrow> device option" where
  "disconnected E d = pouch_prov_mgr_session_ended E d"

definition pouch_prov_mgr_init :: "('e, 'd) env \<Rightarrow> pouch_prov_config option \<Rightarrow> device \<Rightarrow> (rc \<times> device) option" where
  "pouch_prov_mgr_init E cfg d =
     (if initialized d then Some (rc_err EALREADY, d)
      else case cfg of
        None \<Rightarrow> Some (rc_err EINVAL, d)
      | Some c \<Rightarrow>
          (case device_id c of
             None \<Rightarrow> Some (rc_err EINVAL, d)
           | Some dev_id \<Rightarrow> do {
               let d = d\<lparr>config := c\<rparr>;
               (pouch_cfg, d) \<leftarrow>
                 (if CONFIG_POUCH_ENCRYPTION_NONE E then Some (Inr (pouch_device_id dev_id), d)
                  else do {
                    d \<leftarrow> (if CONFIG_SETTINGS E then do {
                            (r, d) \<leftarrow> settings_load E ''pnp'' (log X_settings_subsys_init d);
                            Some d
                          } else Some d);
                    (i, d) \<leftarrow> pouch_prov_identity_ensure E d;
                    Some (case i of Inl e \<Rightarrow> Inl e | Inr (cert, key) \<Rightarrow> Inr (pouch_identity cert key), d)
                  });
               (case pouch_cfg of
                  Inl err \<Rightarrow> Some (rc_err err, d)
                | Inr pouch_cfg \<Rightarrow>
                    let err = pouch_init E pouch_cfg (trace d); d = log (X_pouch_init pouch_cfg err) d in
                    if err \<noteq> rc_ok then Some (err, d)
                    else
                      let d = (if CONFIG_POUCH_PROV_WIFI E
                               then pouch_prov_wifi_scan_init (pouch_prov_wifi_config_init (wifi_conn_attempts (config d)) d)
                               else d)
                      in Some (rc_ok, d\<lparr>initialized := True\<rparr>))
             }))"

definition pouch_prov_mgr_start :: "('e, 'd) env \<Rightarrow> device \<Rightarrow> (rc \<times> device) option" where
  "pouch_prov_mgr_start E d =
     (if \<not> initialized d then Some (rc_err EINVAL, d)
      else if running d then Some (rc_err EALREADY, d)
      else
        let ready = bt_is_ready E (trace d);
            err = (if ready then rc_ok else bt_enable E (trace d));
            d = (if ready then d else log (X_bt_enable err) d)
        in if err \<noteq> rc_ok \<and> err \<noteq> rc_err EALREADY then Some (err, d)
           else do {
             d \<leftarrow> (if CONFIG_SETTINGS E then map_option snd (settings_load E '''' d) else Some d);
             d \<leftarrow> pouch_prov_rpc_reset E (pouch_prov_dispatch_reset E d);
             let d = autostop_cancel E d;
             let d = log X_event_clear d;
             let (err, d) = pouch_prov_adv_start E d;
             (if err \<noteq> rc_ok then Some (err, d)
              else
                let d = d\<lparr>running := True\<rparr>
                in Some (rc_ok, pouch_prov_emit E POUCH_PROV_EVENT_STARTED None d))
           })"

definition pouch_prov_mgr_stop :: "('e, 'd) env \<Rightarrow> device \<Rightarrow> (rc \<times> device) option" where
  "pouch_prov_mgr_stop E d =
     (if \<not> running d then Some (rc_err EALREADY, d)
      else do {
        let d = d\<lparr>running := False\<rparr>;
        let d = autostop_cancel E d;
        let d = snd (pouch_prov_adv_stop E d);
        d \<leftarrow> pouch_prov_rpc_reset E (pouch_prov_dispatch_reset E d);
        let d = log X_event_post d;
        Some (rc_ok, pouch_prov_emit E POUCH_PROV_EVENT_ENDED None d)
      })"

definition autostop_handler :: "('e, 'd) env \<Rightarrow> device \<Rightarrow> device option" where
  "autostop_handler E d = map_option snd (pouch_prov_mgr_stop E d)"

definition pouch_prov_mgr_is_provisioned :: "('e, 'd) env \<Rightarrow> device \<Rightarrow> bool" where
  "pouch_prov_mgr_is_provisioned E d \<longleftrightarrow>
     (if CONFIG_POUCH_PROV_WIFI E then pouch_prov_wifi_is_provisioned E d
      else if CONFIG_POUCH_PROV_CRED E then pouch_prov_cred_present POUCH_PROV_CRED_DEVICE_CERT d
      else False)"

definition pouch_prov_ctrl_end_requested :: "('e, 'd) env \<Rightarrow> device \<Rightarrow> device option" where
  "pouch_prov_ctrl_end_requested E d = map_option snd (pouch_prov_mgr_stop E d)"

definition pouch_prov_mgr_wait :: "('e, 'd) env \<Rightarrow> device \<Rightarrow> rc \<times> device" where
  "pouch_prov_mgr_wait E d =
     (let ev = k_event_wait E (trace d) in (if ev then rc_ok else rc_err EAGAIN, log (X_event_wait ev) d))"

definition pouch_prov_mgr_reset :: "('e, 'd) env \<Rightarrow> device \<Rightarrow> device option" where
  "pouch_prov_mgr_reset E d =
     (let d = (if CONFIG_POUCH_PROV_WIFI E then pouch_prov_wifi_reprovision d else d);
          d = (if CONFIG_POUCH_PROV_CRED E then pouch_prov_cred_delete_all d else d)
      in pouch_prov_rpc_reset E (pouch_prov_dispatch_reset E d))"

subsection \<open>The device invariant\<close>

text \<open>The authorization state; a session is authorized only after a challenge.\<close>

definition auth_inv :: "('e, 'd) env \<Rightarrow> device \<Rightarrow> bool" where
  "auth_inv E d \<longleftrightarrow> length (cli_nonce (auth d)) = 16 \<and> length (dev_nonce (auth d)) = 16 \<and>
     (authorized d \<longrightarrow> CONFIG_POUCH_PROV_AUTH E \<and> challenged (auth d))"

definition active_inv :: "device \<Rightarrow> bool" where
  "active_inv d \<longleftrightarrow> length (active_buf (active d)) = POUCH_PROV_MSG_MAX \<and> active_len (active d) \<le> POUCH_PROV_MSG_MAX"

text \<open>The manager runs only when initialized, and advertises while it runs.\<close>

definition mgr_inv :: "device \<Rightarrow> bool" where
  "mgr_inv d \<longleftrightarrow> (running d \<longrightarrow> initialized d) \<and> (initialized d \<longrightarrow> device_id (config d) \<noteq> None) \<and>
     (running d = adv_enabled d)"

definition device_inv :: "('e, 'd) env \<Rightarrow> device \<Rightarrow> bool" where
  "device_inv E d \<longleftrightarrow> cred_inv d \<and> wifi_inv d \<and> scan_inv E d \<and> id_inv d \<and> auth_inv E d \<and> active_inv d \<and>
     mgr_inv d \<and> no_leak (trace d)"

lemmas inv_unfold = device_inv_def cred_inv_def wifi_inv_def scan_inv_def id_inv_def auth_inv_def active_inv_def mgr_inv_def

text \<open>The state of a device that has just booted.\<close>

definition boot_wc :: wifi_config_state where
  "boot_wc = \<lparr>wc_ssid = replicate 33 0, wc_ssid_len = 0, wc_pass = replicate 64 0, wc_pass_len = 0,
     wc_bssid = replicate 6 0, wc_has_bssid = False, wc_channel = 0,
     wc_inflight_ssid = replicate 33 0, wc_inflight_ssid_len = 0, wc_inflight_pass = replicate 64 0,
     wc_inflight_pass_len = 0, wc_inflight_bssid = replicate 6 0, wc_inflight_has_bssid = False,
     wc_inflight_channel = 0, wc_attempts_max = 0, wc_attempts_completed = 0,
     wc_last_conn_status = CONN_OTHER 0, wc_sta_state = 0, wc_fail_reason = 0, wc_cb_registered = False\<rparr>"

definition boot_ap :: ap_entry where
  "boot_ap = \<lparr>ap_ssid = replicate 32 0, ap_ssid_len = 0, ap_bssid = replicate 6 0, ap_channel = 0,
     ap_rssi = 0, ap_auth = 0\<rparr>"

definition boot :: "('e, 'd) env \<Rightarrow> trace \<Rightarrow> device" where
  "boot E t = \<lparr>
     config = \<lparr>pop = None, device_id = None, wifi_conn_attempts = 0, event_cb = False\<rparr>,
     initialized = False, running = False, blobs = init_blobs, wc = boot_wc, ip4 = replicate 4 0,
     sc = \<lparr>sc_entries = replicate (CONFIG_POUCH_PROV_SCAN_CACHE E) boot_ap, sc_count = 0, sc_finished = False,
           sc_cb_registered = False\<rparr>,
     auth = \<lparr>cli_nonce = replicate 16 0, dev_nonce = replicate 16 0, challenged = False, attempts = 0\<rparr>,
     active = \<lparr>endpoint = None, active_len = 0, overflow = False, active_buf = replicate 384 0\<rparr>,
     authorized = False,
     identity = \<lparr>cert_der = replicate 640 0, cert_der_len = 0, priv_raw = replicate 32 0, priv_raw_len = 0,
                 identity_key = None\<rparr>,
     adv_enabled = False, adv_flags = 0, device_name = [], trace = t\<rparr>"

lemma boot_inv: "no_leak t \<Longrightarrow> device_inv E (boot E t)"
  by (simp add: boot_def inv_unfold init_blobs_def empty_blob_def blob_inv_def boot_wc_def boot_ap_def ap_inv_def
      POUCH_PROV_MSG_MAX_def list_all_iff)

subsection \<open>Preservation\<close>

lemma dispatch_reset_inv:
  assumes "device_inv E d"
  shows "device_inv E (pouch_prov_dispatch_reset E d)"
  using assms
  by (simp add: inv_unfold pouch_prov_dispatch_reset_def pouch_prov_auth_reset_def Let_def NONCE_LEN_def)

lemma dispatch_reset_sel [simp]:
  "trace (pouch_prov_dispatch_reset E d) = trace d" "config (pouch_prov_dispatch_reset E d) = config d"
  "initialized (pouch_prov_dispatch_reset E d) = initialized d" "running (pouch_prov_dispatch_reset E d) = running d"
  "blobs (pouch_prov_dispatch_reset E d) = blobs d" "wc (pouch_prov_dispatch_reset E d) = wc d"
  "ip4 (pouch_prov_dispatch_reset E d) = ip4 d" "sc (pouch_prov_dispatch_reset E d) = sc d"
  "identity (pouch_prov_dispatch_reset E d) = identity d" "adv_enabled (pouch_prov_dispatch_reset E d) = adv_enabled d"
  "authorized (pouch_prov_dispatch_reset E d) = False" "endpoint (active (pouch_prov_dispatch_reset E d)) = None"
  "CONFIG_POUCH_PROV_AUTH E \<Longrightarrow> challenged (auth (pouch_prov_dispatch_reset E d)) = False"
  "CONFIG_POUCH_PROV_AUTH E \<Longrightarrow> attempts (auth (pouch_prov_dispatch_reset E d)) = 0"
  by (simp_all add: pouch_prov_dispatch_reset_def pouch_prov_auth_reset_def Let_def)

lemma drained_inv: "drained d d' \<Longrightarrow> device_inv E d \<Longrightarrow> device_inv E d'"
proof -
  assume a: "drained d d'" and inv: "device_inv E d"
  note o = only_logD[OF drainedD(1)[OF a]] and n = drainedD(6)[OF a]
  show ?thesis using inv o n by (simp add: inv_unfold)
qed

lemma log_inv: "device_inv E d \<Longrightarrow> no_leak (x # trace d) \<Longrightarrow> device_inv E (log x d)"
  by (simp add: inv_unfold)

lemma emit_inv: "device_inv E (pouch_prov_emit E ev x d) = device_inv E d"
  by (simp add: inv_unfold no_leak_def)

text \<open>The manager is not started, and the end event is not posted while it runs.\<close>

definition lively :: "device \<Rightarrow> device \<Rightarrow> bool" where
  "lively d d' \<longleftrightarrow> (running d' \<longrightarrow> running d \<and> (ended_of (trace d') \<longrightarrow> ended_of (trace d)))"

lemma livelyI: "running d' = running d \<Longrightarrow> rpc_same (trace d) (trace d') \<Longrightarrow> lively d d'"
  by (simp add: lively_def rpc_same_def)

context kernel begin

text \<open>Ending a session: the queue is emptied, the authorization is gone, nothing else changes.\<close>

lemma session_reset:
  "\<exists>d'. pouch_prov_rpc_reset E (pouch_prov_dispatch_reset E d) = Some d' \<and>
     drained (pouch_prov_dispatch_reset E d) d' \<and> sem_of (trace d') = 0 \<and> uplinks_of (trace d') = uplinks_of (trace d)"
  using rpc_reset_drains[of "pouch_prov_dispatch_reset E d"] by simp

lemma session_reset_inv:
  assumes "device_inv E d"
  shows "\<exists>d'. pouch_prov_rpc_reset E (pouch_prov_dispatch_reset E d) = Some d' \<and> device_inv E d' \<and>
    \<not> authorized d' \<and> endpoint (active d') = None \<and> fifo_of (trace d') = [] \<and> lively d d'"
proof -
  obtain d' where d': "pouch_prov_rpc_reset E (pouch_prov_dispatch_reset E d) = Some d'"
    "drained (pouch_prov_dispatch_reset E d) d'" using session_reset by blast
  note o = only_logD[OF drainedD(1)[OF d'(2)]]
  from d' drained_inv[OF d'(2) dispatch_reset_inv[OF assms]] o drainedD(2,5)[OF d'(2)] show ?thesis by (simp add: lively_def)
qed

lemma stop_effect:
  assumes inv: "device_inv E d" and run: "running d"
  shows "\<exists>d'. pouch_prov_mgr_stop E d = Some (rc_ok, d') \<and> device_inv E d' \<and> \<not> running d' \<and> \<not> authorized d' \<and>
    \<not> adv_enabled d' \<and> fifo_of (trace d') = [] \<and> ended_of (trace d') \<and> blobs d' = blobs d \<and> wc d' = wc d \<and>
    config d' = config d \<and> endpoint (active d') = None \<and> active_buf (active d') = active_buf (active d) \<and> active_len (active d') = active_len (active d) \<and>
    settings_of (trace d') = settings_of (trace d) \<and> wifi_creds_of (trace d') = wifi_creds_of (trace d)"
proof -
  let ?d1 = "snd (pouch_prov_adv_stop E (autostop_cancel E (d\<lparr>running := False\<rparr>)))"
  note a = adv_onlyD[OF adv_stop_only[of "autostop_cancel E (d\<lparr>running := False\<rparr>)" E]]
  have ne: "adv_enabled ?d1 = False" by (rule adv_stop_enabled)
  have "no_leak (trace (autostop_cancel E (d\<lparr>running := False\<rparr>)))" using inv by (simp add: device_inv_def no_leak_def)
  from rpc_same_no_leak[OF a(12) this] have "no_leak (trace ?d1)" .
  with inv a ne have i1: "device_inv E ?d1" by (simp add: inv_unfold)
  obtain d2 where d2: "pouch_prov_rpc_reset E (pouch_prov_dispatch_reset E ?d1) = Some d2"
    "drained (pouch_prov_dispatch_reset E ?d1) d2" using session_reset by blast
  note dr = drainedD[OF d2(2)]
  note o = only_logD[OF dr(1)]
  have i2: "device_inv E d2" using drained_inv[OF d2(2) dispatch_reset_inv[OF i1]] .
  have i3: "device_inv E (log X_event_post d2)" using i2 by (simp add: inv_unfold no_leak_def)
  let ?d' = "pouch_prov_emit E POUCH_PROV_EVENT_ENDED None (log X_event_post d2)"
  have "pouch_prov_mgr_stop E d = Some (rc_ok, ?d')" using run d2(1) by (simp add: pouch_prov_mgr_stop_def Let_def)
  moreover have "device_inv E ?d'" using i3 by (simp add: emit_inv)
  moreover have "active_buf (active (pouch_prov_dispatch_reset E x)) = active_buf (active x)"
     "active_len (active (pouch_prov_dispatch_reset E x)) = active_len (active x)" for x
    by (simp_all add: pouch_prov_dispatch_reset_def pouch_prov_auth_reset_def Let_def)
  ultimately show ?thesis using o dr a ne by simp
qed

end

subsection \<open>Loading settings\<close>

text \<open>Loading changes only the credential store, the identity and the log.\<close>

definition load_only :: "device \<Rightarrow> device \<Rightarrow> bool" where
  "load_only d d' \<longleftrightarrow> config d' = config d \<and> initialized d' = initialized d \<and> running d' = running d \<and>
     wc d' = wc d \<and> ip4 d' = ip4 d \<and> sc d' = sc d \<and> auth d' = auth d \<and> active d' = active d \<and>
     authorized d' = authorized d \<and> adv_enabled d' = adv_enabled d \<and> trace d' = trace d"

lemma load_onlyD:
  assumes "load_only d d'"
  shows "config d' = config d" "initialized d' = initialized d" "running d' = running d" "wc d' = wc d"
    "ip4 d' = ip4 d" "sc d' = sc d" "auth d' = auth d" "active d' = active d" "authorized d' = authorized d"
    "adv_enabled d' = adv_enabled d" "trace d' = trace d"
  using assms by (simp_all add: load_only_def)

lemma load_only_refl [simp]: "load_only d d"
  by (simp add: load_only_def)

lemma load_only_trans: "load_only a b \<Longrightarrow> load_only b c \<Longrightarrow> load_only a c"
  by (simp add: load_only_def)

lemma deliver_total:
  assumes "cred_inv d" and "id_inv d"
  shows "\<exists>d'. settings_deliver E it d = Some d' \<and> cred_inv d' \<and> id_inv d' \<and> load_only d d'"
proof -
  obtain r d1 where c: "cred_set (drop (length ''pnp/cred/'') (si_key it)) (si_len it) (si_read it) d = Some (r, d1)"
    "cred_inv d1" and cb: "\<exists>bs. d1 = d\<lparr>blobs := bs\<rparr>" using cred_set_total[OF assms(1)] by metis
  have c': "id_inv d1" "load_only d d1" using cb assms(2) by (auto simp: id_inv_def load_only_def)
  obtain r2 d2 where i: "id_set (drop (length ''pnp/id/'') (si_key it)) (si_len it) (si_read it) d = Some (r2, d2)"
    "id_inv d2" "id_only d d2" "trace d2 = trace d" using id_set_total[OF assms(2)] by metis
  have i': "cred_inv d2" "load_only d d2" using id_onlyD[OF i(3)] i(4) assms(1) by (auto simp: cred_inv_def load_only_def)
  show ?thesis using assms c c' i i' by (simp add: settings_deliver_def)
qed

lemma deliver_all_total:
  assumes "cred_inv d" and "id_inv d"
  shows "\<exists>d'. foldM (settings_deliver E) its d = Some d' \<and> cred_inv d' \<and> id_inv d' \<and> load_only d d'"
  using assms
proof (induction its arbitrary: d)
  case (Cons it its)
  obtain d1 where 1: "settings_deliver E it d = Some d1" "cred_inv d1" "id_inv d1" "load_only d d1"
    using deliver_total[OF Cons.prems] by blast
  obtain d2 where 2: "foldM (settings_deliver E) its d1 = Some d2" "cred_inv d2" "id_inv d2" "load_only d1 d2"
    using Cons.IH[OF 1(2,3)] by blast
  from 1 2 load_only_trans[OF 1(4) 2(4)] show ?case by simp
qed simp

lemma load_total:
  assumes "cred_inv d" and "id_inv d"
  shows "\<exists>r d' d''. settings_load E sub d = Some (r, d') \<and> d' = log (X_settings_load sub r) d'' \<and>
    cred_inv d'' \<and> id_inv d'' \<and> load_only d d''"
proof -
  obtain d1 where "foldM (settings_deliver E) (settings_load_items E sub (trace d)) d = Some d1"
    "cred_inv d1" "id_inv d1" "load_only d d1" using deliver_all_total[OF assms] by blast
  then show ?thesis by (auto simp: settings_load_def Let_def)
qed

lemma load_inv:
  assumes "device_inv E d"
  shows "\<exists>r d'. settings_load E sub d = Some (r, d') \<and> device_inv E d' \<and> config d' = config d \<and>
    initialized d' = initialized d \<and> running d' = running d \<and> adv_enabled d' = adv_enabled d \<and>
    active d' = active d \<and> authorized d' = authorized d"
proof -
  have "cred_inv d" "id_inv d" using assms by (simp_all add: device_inv_def)
  from load_total[OF this] obtain r d' d'' where l: "settings_load E sub d = Some (r, d')"
    "d' = log (X_settings_load sub r) d''" "cred_inv d''" "id_inv d''" "load_only d d''" by blast
  note o = load_onlyD[OF l(5)]
  have "device_inv E d'" using assms l(2-4) o by (simp add: inv_unfold no_leak_def)
  then show ?thesis using l o by simp
qed

lemma setting_key_prefix: "k < 3 \<Longrightarrow> prefix ''pnp/cred/'' (setting_key ! k)"
  by (auto simp: setting_key_def less_Suc_eq numeral_3_eq_3)

lemma setting_key_leaf: "k < 3 \<Longrightarrow> setting_key ! k = ''pnp/cred/'' @ cred_leaf k"
  by (auto simp: setting_key_def cred_leaf_def less_Suc_eq numeral_3_eq_3)

lemma cred_set_other:
  assumes "cred_inv d" and "k < 3" and "name \<noteq> cred_leaf k" and "cred_set name n rd d = Some (r, d')"
  shows "blobs d' ! k = blobs d ! k"
proof -
  have "k = 0 \<or> k = 1 \<or> k = 2" using assms(2) by auto
  then show ?thesis using assms(3,4) cred_inv_length[OF assms(1)]
    by (auto simp: cred_set_def cred_leaf_def setting_key_def Let_def split: if_splits sum.splits bind_splits)
qed

text \<open>
  A slot: a settings key and the place its value is loaded to. Delivering the key fills the place,
  delivering another key leaves it. Whatever the order of delivery, a load then fills the slot with
  the stored value.
\<close>

locale settings_slot = settings_store E for E :: "('e, 'd) env" +
  fixes key :: string and got :: "bytes \<Rightarrow> device \<Rightarrow> bool" and fits :: "bytes \<Rightarrow> bool"
  assumes hit: "cred_inv d \<Longrightarrow> id_inv d \<Longrightarrow> fits v \<Longrightarrow>
      settings_deliver E \<lparr>si_key = key, si_len = length v, si_read = Inr v\<rparr> d = Some d' \<Longrightarrow> got v d'"
    and miss: "cred_inv d \<Longrightarrow> id_inv d \<Longrightarrow> s \<noteq> key \<Longrightarrow>
      settings_deliver E \<lparr>si_key = s, si_len = length w, si_read = Inr w\<rparr> d = Some d' \<Longrightarrow> got v d \<Longrightarrow> got v d'"
    and got_log: "got v (log x d) = got v d"
begin

lemma deliver_all_slot:
  assumes "cred_inv d" "id_inv d" and "fits v" and "foldM (settings_deliver E) its d = Some d'"
    and "\<forall>it \<in> set its. \<exists>s w. it = \<lparr>si_key = s, si_len = length w, si_read = Inr w\<rparr> \<and> (s = key \<longrightarrow> w = v)"
    and "(\<exists>it \<in> set its. si_key it = key) \<or> got v d"
  shows "got v d'"
  using assms
proof (induction its arbitrary: d)
  case (Cons it its)
  from Cons.prems(5) obtain s w where it: "it = \<lparr>si_key = s, si_len = length w, si_read = Inr w\<rparr>"
    "s = key \<Longrightarrow> w = v" by auto
  obtain d1 where d1: "settings_deliver E it d = Some d1" "cred_inv d1" "id_inv d1"
    using deliver_total[OF Cons.prems(1,2)] by blast
  have "s = key \<or> got v d \<Longrightarrow> got v d1"
    using hit[OF Cons.prems(1-3), of d1] miss[OF Cons.prems(1,2), of s w d1 v] d1(1) it by (cases "s = key") auto
  then have "(\<exists>it \<in> set its. si_key it = key) \<or> got v d1" using Cons.prems(6) it(1) by auto
  then show ?case using Cons.IH[OF d1(2,3) Cons.prems(3)] Cons.prems(4,5) d1(1) by auto
qed simp

lemma load_slot:
  assumes inv: "cred_inv d" "id_inv d" and st: "map_of (settings_of (trace d)) key = Some v" and v: "fits v"
    and sub: "prefix sub key" and ld: "settings_load E sub d = Some (r, d')"
  shows "got v d'"
proof -
  let ?its = "settings_load_items E sub (trace d)"
  from ld obtain d1 where f: "foldM (settings_deliver E) ?its d = Some d1" and d': "got v d' = got v d1"
    by (auto simp: settings_load_def Let_def got_log split: bind_splits)
  have "got v d1"
  proof (rule deliver_all_slot[OF inv v f])
    show "\<forall>it \<in> set ?its. \<exists>s w. it = \<lparr>si_key = s, si_len = length w, si_read = Inr w\<rparr> \<and> (s = key \<longrightarrow> w = v)"
      using st by (auto simp: load_items)
    show "(\<exists>it \<in> set ?its. si_key it = key) \<or> got v d" using st sub by (force simp: load_items)
  qed
  with d' show ?thesis by simp
qed

end

text \<open>The slots of the credential store.\<close>

definition loaded :: "nat \<Rightarrow> bytes \<Rightarrow> device \<Rightarrow> bool" where
  "loaded k v d \<longleftrightarrow> k < length (blobs d) \<and> take (len (blobs d ! k)) (buf (blobs d ! k)) = v \<and> len (blobs d ! k) = length v"

definition cred_fits :: "nat \<Rightarrow> bytes \<Rightarrow> bool" where
  "cred_fits k v \<longleftrightarrow> length v \<le> [DEVICE_CERT_MAX, PRIVATE_KEY_MAX, CA_CERT_MAX] ! k"

lemma cred_fits_cap:
  assumes "cred_inv d" and "k < 3"
  shows "cred_fits k v \<longleftrightarrow> length v \<le> cap (blobs d ! k)"
proof -
  have "cap (blobs d ! k) = map cap (blobs d) ! k" using assms cred_inv_length[OF assms(1)] by simp
  then show ?thesis using assms(1) by (simp add: cred_fits_def cred_inv_def)
qed

lemma loaded_get: "loaded k v d \<Longrightarrow> v \<noteq> [] \<Longrightarrow> pouch_prov_cred_get k d = Some v"
  by (auto simp: loaded_def pouch_prov_cred_get_def pouch_prov_cred_present_def kind_valid_def)

lemma cred_slot:
  assumes S: "settings_store E" and C: "CONFIG_POUCH_PROV_CRED E" and k: "k < 3"
  shows "settings_slot E (setting_key ! k) (loaded k) (cred_fits k)"
proof (intro settings_slot.intro[OF S] settings_slot_axioms.intro)
  fix d d' :: device and v :: bytes
  assume inv: "cred_inv d" "id_inv d" and v: "cred_fits k v"
    and d': "settings_deliver E \<lparr>si_key = setting_key ! k, si_len = length v, si_read = Inr v\<rparr> d = Some d'"
  obtain b where "cred_set (cred_leaf k) (length v) (Inr v) d = Some (rc_ok, d\<lparr>blobs := (blobs d)[k := b]\<rparr>)"
    "take (len b) (buf b) = v" "len b = length v"
    using cred_set_leaf[OF inv(1) k] v cred_fits_cap[OF inv(1) k] by blast
  then show "loaded k v d'" using d' C k setting_key_prefix[OF k] cred_inv_length[OF inv(1)]
    by (auto simp: settings_deliver_def loaded_def cred_leaf_def)
next
  fix d d' :: device and v w s
  assume inv: "cred_inv d" "id_inv d" and s: "s \<noteq> setting_key ! k" and l: "loaded k v d"
    and d': "settings_deliver E \<lparr>si_key = s, si_len = length w, si_read = Inr w\<rparr> d = Some d'"
  obtain d2 where d2: "settings_deliver E \<lparr>si_key = s, si_len = length w, si_read = Inr w\<rparr> d = Some d2" "cred_inv d2"
    using deliver_total[OF inv] by blast
  have n: "length (blobs d') = length (blobs d)"
    using d2 d' cred_inv_length[OF inv(1)] cred_inv_length[of d'] by simp
  have "blobs d' ! k = blobs d ! k"
  proof (cases "prefix ''pnp/cred/'' s")
    case True
    obtain leaf where leaf: "s = ''pnp/cred/'' @ leaf" using True by (auto simp: prefix_def)
    with s have "leaf \<noteq> cred_leaf k" using setting_key_leaf[OF k] by auto
    moreover obtain r where "cred_set leaf (length w) (Inr w) d = Some (r, d')"
      using d' leaf C by (auto simp: settings_deliver_def)
    ultimately show ?thesis using cred_set_other[OF inv(1) k] by blast
  next
    case False
    obtain r d3 where "id_set (drop (length ''pnp/id/'') s) (length w) (Inr w) d = Some (r, d3)" "id_only d d3"
      using id_set_total[OF inv(2)] by blast
    then show ?thesis using d' False id_onlyD(4)[of d d3] by (auto simp: settings_deliver_def split: if_splits)
  qed
  then show "loaded k v d'" using l n by (auto simp: loaded_def)
qed (simp add: loaded_def)

interpretation ref_cert_slot: settings_slot ref_env "setting_key ! 0" "loaded 0" "cred_fits 0"
  by (rule cred_slot) (unfold_locales, simp_all add: ref_env_def)

text \<open>The slots of the identity.\<close>

definition key_loaded :: "bytes \<Rightarrow> device \<Rightarrow> bool" where
  "key_loaded v d \<longleftrightarrow> priv_bytes d = v \<and> priv_raw_len (identity d) = length v"

definition cert_loaded :: "bytes \<Rightarrow> device \<Rightarrow> bool" where
  "cert_loaded v d \<longleftrightarrow> take (cert_der_len (identity d)) (cert_der (identity d)) = v \<and> cert_der_len (identity d) = length v"

lemma deliver_id:
  assumes inv: "cred_inv d" "id_inv d" and I: "\<not> CONFIG_POUCH_ENCRYPTION_NONE E"
    and d': "settings_deliver E \<lparr>si_key = s, si_len = length w, si_read = Inr w\<rparr> d = Some d'"
  shows "identity d' = identity d \<or> (\<exists>leaf r. s = ''pnp/id/'' @ leaf \<and> id_set leaf (length w) (Inr w) d = Some (r, d'))"
proof (cases "CONFIG_POUCH_PROV_CRED E \<and> prefix ''pnp/cred/'' s")
  case True
  obtain r d1 where "cred_set (drop (length ''pnp/cred/'') s) (length w) (Inr w) d = Some (r, d1)"
    and d1: "\<exists>bs. d1 = d\<lparr>blobs := bs\<rparr>" using cred_set_total[OF inv(1)] by blast
  with d' True have "d' = d1" by (auto simp: settings_deliver_def)
  with d1 show ?thesis by auto
next
  case False
  then show ?thesis using d' I by (auto simp: settings_deliver_def prefix_def split: if_splits)
qed

lemma id_slots:
  assumes S: "settings_store E" and I: "\<not> CONFIG_POUCH_ENCRYPTION_NONE E"
  shows "settings_slot E KEY_SETTINGS_KEY key_loaded (\<lambda>v. length v \<le> 32)"
    and "settings_slot E CERT_SETTINGS_KEY cert_loaded (\<lambda>v. length v \<le> 640)"
proof -
  have hit: "\<exists>r. id_set leaf (length v) (Inr v) d = Some (r, d')"
    if "settings_deliver E \<lparr>si_key = ''pnp/id/'' @ leaf, si_len = length v, si_read = Inr v\<rparr> d = Some d'" for leaf v d d'
    using that I by (auto simp: settings_deliver_def)
  show "settings_slot E KEY_SETTINGS_KEY key_loaded (\<lambda>v. length v \<le> 32)"
  proof (intro settings_slot.intro[OF S] settings_slot_axioms.intro)
    fix d d' :: device and v :: bytes
    assume "id_inv d" "length v \<le> 32"
      "settings_deliver E \<lparr>si_key = KEY_SETTINGS_KEY, si_len = length v, si_read = Inr v\<rparr> d = Some d'"
    then show "key_loaded v d'" using hit[of "''key''" v d d']
      by (auto simp: KEY_SETTINGS_KEY_def id_set_def key_loaded_def priv_bytes_def P256_PRIV_LEN_def id_inv_def Let_def)
  next
    fix d d' :: device and v w s
    assume inv: "cred_inv d" "id_inv d" and s: "s \<noteq> KEY_SETTINGS_KEY" and l: "key_loaded v d"
      and d': "settings_deliver E \<lparr>si_key = s, si_len = length w, si_read = Inr w\<rparr> d = Some d'"
    from deliver_id[OF inv I d'] show "key_loaded v d'"
    proof (elim disjE exE conjE)
      fix leaf r
      assume "s = ''pnp/id/'' @ leaf" "id_set leaf (length w) (Inr w) d = Some (r, d')"
      with s l show ?thesis
        by (auto simp: KEY_SETTINGS_KEY_def id_set_def key_loaded_def priv_bytes_def Let_def split: if_splits bind_splits)
    qed (use l in \<open>auto simp: key_loaded_def priv_bytes_def\<close>)
  qed (simp add: key_loaded_def priv_bytes_def)
  show "settings_slot E CERT_SETTINGS_KEY cert_loaded (\<lambda>v. length v \<le> 640)"
  proof (intro settings_slot.intro[OF S] settings_slot_axioms.intro)
    fix d d' :: device and v :: bytes
    assume "id_inv d" "length v \<le> 640"
      "settings_deliver E \<lparr>si_key = CERT_SETTINGS_KEY, si_len = length v, si_read = Inr v\<rparr> d = Some d'"
    then show "cert_loaded v d'" using hit[of "''cert''" v d d']
      by (auto simp: CERT_SETTINGS_KEY_def id_set_def cert_loaded_def IDENTITY_CERT_MAX_def id_inv_def Let_def)
  next
    fix d d' :: device and v w s
    assume inv: "cred_inv d" "id_inv d" and s: "s \<noteq> CERT_SETTINGS_KEY" and l: "cert_loaded v d"
      and d': "settings_deliver E \<lparr>si_key = s, si_len = length w, si_read = Inr w\<rparr> d = Some d'"
    from deliver_id[OF inv I d'] show "cert_loaded v d'"
    proof (elim disjE exE conjE)
      fix leaf r
      assume "s = ''pnp/id/'' @ leaf" "id_set leaf (length w) (Inr w) d = Some (r, d')"
      with s l show ?thesis
        by (auto simp: CERT_SETTINGS_KEY_def id_set_def cert_loaded_def Let_def split: if_splits bind_splits)
    qed (use l in \<open>auto simp: cert_loaded_def\<close>)
  qed (simp add: cert_loaded_def)
qed

text \<open>The reference environment with the identity compiled in.\<close>

definition ref_env_id :: "(est, dst) env" where
  "ref_env_id = ref_env\<lparr>CONFIG_POUCH_ENCRYPTION_NONE := False\<rparr>"

interpretation ref_id_settings: settings_store ref_env_id
  by unfold_locales (simp add: ref_env_id_def ref_settings.load_items)

interpretation ref_key_slot: settings_slot ref_env_id KEY_SETTINGS_KEY key_loaded "\<lambda>v. length v \<le> 32"
  by (rule id_slots(1)) (unfold_locales, simp add: ref_env_id_def)

interpretation ref_id_cert_slot: settings_slot ref_env_id CERT_SETTINGS_KEY cert_loaded "\<lambda>v. length v \<le> 640"
  by (rule id_slots(2)) (unfold_locales, simp add: ref_env_id_def)

subsection \<open>Initialization, start and reset\<close>

lemma pouch_init_inv: "device_inv E d \<Longrightarrow> device_inv E (log (X_pouch_init c r) d)"
  by (rule log_inv) (simp_all add: device_inv_def no_leak_def)

lemma wifi_init_inv:
  assumes "device_inv E d"
  shows "device_inv E (pouch_prov_wifi_scan_init (pouch_prov_wifi_config_init n d))"
proof -
  let ?d1 = "pouch_prov_wifi_config_init n d"
  note w = wifi_onlyD[OF wifi_config_init_only[of d n]]
  have w1: "wifi_inv ?d1" using assms by (simp add: device_inv_def wifi_config_init_inv)
  have "no_leak (trace ?d1)" using rpc_same_no_leak w assms by (auto simp: device_inv_def)
  with assms w w1 have i1: "device_inv E ?d1" by (simp add: inv_unfold)
  note s = scan_onlyD[OF scan_init_keeps(1)[of ?d1]]
  have s1: "scan_inv E (pouch_prov_wifi_scan_init ?d1)" using i1 by (simp add: device_inv_def scan_init_keeps)
  have "no_leak (trace (pouch_prov_wifi_scan_init ?d1))" using rpc_same_no_leak s i1 by (auto simp: device_inv_def)
  with i1 s s1 show ?thesis by (simp add: inv_unfold)
qed

text \<open>The identity step of the initialization.\<close>

definition init_identity :: "('e, 'd) env \<Rightarrow> bytes \<Rightarrow> device \<Rightarrow> ((errno + pouch_config) \<times> device) option" where
  "init_identity E dev_id d =
     (if CONFIG_POUCH_ENCRYPTION_NONE E then Some (Inr (pouch_device_id dev_id), d)
      else do {
        d \<leftarrow> (if CONFIG_SETTINGS E then do {
                (r, d) \<leftarrow> settings_load E ''pnp'' (log X_settings_subsys_init d);
                Some d
              } else Some d);
        (i, d) \<leftarrow> pouch_prov_identity_ensure E d;
        Some (case i of Inl e \<Rightarrow> Inl e | Inr (cert, key) \<Rightarrow> Inr (pouch_identity cert key), d)
      })"

text \<open>The rest of it: pouch, then Wi-Fi.\<close>

definition init_pouch :: "('e, 'd) env \<Rightarrow> errno + pouch_config \<Rightarrow> device \<Rightarrow> rc \<times> device" where
  "init_pouch E pc d =
     (case pc of
        Inl err \<Rightarrow> (rc_err err, d)
      | Inr pc \<Rightarrow>
          let err = pouch_init E pc (trace d); d = log (X_pouch_init pc err) d in
          if err \<noteq> rc_ok then (err, d)
          else
            let d = (if CONFIG_POUCH_PROV_WIFI E
                     then pouch_prov_wifi_scan_init (pouch_prov_wifi_config_init (wifi_conn_attempts (config d)) d)
                     else d)
            in (rc_ok, d\<lparr>initialized := True\<rparr>))"

lemma ensure_inv:
  assumes "device_inv E d" and "identity_bounds E"
  shows "\<exists>r d'. pouch_prov_identity_ensure E d = Some (r, d') \<and> device_inv E d' \<and> id_only d d'"
proof -
  have "id_inv d" using assms(1) by (simp add: device_inv_def)
  from ensure_total[OF this assms(2)] obtain r d' where e: "pouch_prov_identity_ensure E d = Some (r, d')"
    "id_inv d'" "id_only d d'" by blast
  note o = id_onlyD[OF e(3)]
  have "no_leak (trace d')" using rpc_same_no_leak[OF o(14)] assms(1) by (simp add: device_inv_def)
  with assms(1) e(2) o have "device_inv E d'" by (simp add: inv_unfold)
  with e show ?thesis by blast
qed

lemma init_identity_inv:
  assumes inv: "device_inv E d" and E: "identity_bounds E"
  shows "\<exists>r d'. init_identity E dev_id d = Some (r, d') \<and> device_inv E d' \<and> config d' = config d \<and> initialized d' = initialized d \<and>
    active d' = active d \<and> authorized d' = authorized d \<and> running d' = running d"
proof -
  let ?d0 = "log X_settings_subsys_init d"
  have i0: "device_inv E ?d0" using inv by (simp add: inv_unfold no_leak_def)
  obtain r1 d1 where d1: "settings_load E ''pnp'' ?d0 = Some (r1, d1)" "device_inv E d1" "config d1 = config d"
    "initialized d1 = initialized d" "active d1 = active d" "authorized d1 = authorized d" "running d1 = running d"
    using load_inv[OF i0, of "''pnp''"] by auto
  obtain r2 d2 where d2: "pouch_prov_identity_ensure E d1 = Some (r2, d2)" "device_inv E d2" "id_only d1 d2"
    using ensure_inv[OF d1(2) E] by blast
  obtain r3 d3 where d3: "pouch_prov_identity_ensure E d = Some (r3, d3)" "device_inv E d3" "id_only d d3"
    using ensure_inv[OF inv E] by blast
  show ?thesis using inv d1 d2 d3 id_onlyD(1,2,3,9,10)[OF d2(3)] id_onlyD(1,2,3,9,10)[OF d3(3)] by (simp add: init_identity_def)
qed

lemma mgr_init_eq:
  "pouch_prov_mgr_init E cfg d =
     (if initialized d then Some (rc_err EALREADY, d)
      else case cfg of None \<Rightarrow> Some (rc_err EINVAL, d)
      | Some c \<Rightarrow>
          (case device_id c of None \<Rightarrow> Some (rc_err EINVAL, d)
           | Some dev_id \<Rightarrow> map_option (\<lambda>(pc, d). init_pouch E pc d) (init_identity E dev_id (d\<lparr>config := c\<rparr>))))"
  unfolding pouch_prov_mgr_init_def init_identity_def init_pouch_def Let_def
  by (auto split: option.splits sum.splits bind_splits prod.splits)

lemma initialized_inv:
  "device_inv E d \<Longrightarrow> device_id (config d) \<noteq> None \<Longrightarrow> device_inv E (d\<lparr>initialized := True\<rparr>)"
  by (auto simp: inv_unfold)

lemma wifi_init_config: "config (pouch_prov_wifi_scan_init (pouch_prov_wifi_config_init n d)) = config d"
  "active (pouch_prov_wifi_scan_init (pouch_prov_wifi_config_init n d)) = active d"
  "authorized (pouch_prov_wifi_scan_init (pouch_prov_wifi_config_init n d)) = authorized d"
  "running (pouch_prov_wifi_scan_init (pouch_prov_wifi_config_init n d)) = running d"
  using wifi_onlyD[OF wifi_config_init_only[of d n]] scan_onlyD[OF scan_init_keeps(1)[of "pouch_prov_wifi_config_init n d"]]
  by simp_all

text \<open>Initialization returns, keeps the invariant, and succeeds at most once.\<close>

lemma init_pouch_effect:
  assumes inv: "device_inv E d" and c: "device_id (config d) \<noteq> None" "\<not> initialized d" and r: "init_pouch E pc d = (r, d')"
  shows "device_inv E d' \<and> (initialized d' \<longleftrightarrow> r = rc_ok) \<and> config d' = config d \<and> active d' = active d \<and>
    authorized d' = authorized d \<and> running d' = running d"
proof (cases pc)
  case (Inl e)
  then show ?thesis using inv c r by (auto simp: init_pouch_def)
next
  case (Inr p)
  let ?n = "wifi_conn_attempts (config d)"
  let ?d2 = "log (X_pouch_init p (pouch_init E p (trace d))) d"
  have i2: "device_inv E ?d2" using inv by (rule pouch_init_inv)
  let ?d3 = "pouch_prov_wifi_scan_init (pouch_prov_wifi_config_init ?n ?d2)"
  have i3: "device_inv E (?d2\<lparr>initialized := True\<rparr>)" "device_inv E (?d3\<lparr>initialized := True\<rparr>)"
    using i2 wifi_init_inv[OF i2] c(1) wifi_init_config[of ?n ?d2] by (auto intro!: initialized_inv)
  show ?thesis using c(2) r Inr i2 i3 wifi_init_config[of ?n ?d2] by (auto simp: init_pouch_def Let_def split: if_splits)
qed

lemma init_effect:
  assumes inv: "device_inv E d" and E: "identity_bounds E"
  shows "\<exists>r d'. pouch_prov_mgr_init E cfg d = Some (r, d') \<and> device_inv E d' \<and> (initialized d' \<longleftrightarrow> initialized d \<or> r = rc_ok) \<and>
    (r = rc_ok \<longrightarrow> \<not> initialized d \<and> (\<exists>c. cfg = Some c \<and> config d' = c)) \<and>
    active d' = active d \<and> authorized d' = authorized d \<and> lively d d'"
proof (cases "initialized d \<or> cfg = None \<or> device_id (the cfg) = None")
  case True
  then show ?thesis using inv by (auto simp: mgr_init_eq lively_def split: option.splits)
next
  case False
  then obtain c dev_id where c: "cfg = Some c" "\<not> initialized d" "device_id c = Some dev_id" by auto
  have "device_inv E (d\<lparr>config := c\<rparr>)" using inv c(2,3) by (auto simp: inv_unfold)
  from init_identity_inv[OF this E, of dev_id] c(2) obtain pc d1 where d1: "init_identity E dev_id (d\<lparr>config := c\<rparr>) = Some (pc, d1)"
    "device_inv E d1" "config d1 = c" "\<not> initialized d1" "active d1 = active d" "authorized d1 = authorized d" "running d1 = running d" by auto
  obtain r d2 where d2: "init_pouch E pc d1 = (r, d2)" by (cases "init_pouch E pc d1")
  have "device_id (config d1) \<noteq> None" using d1(3) c(3) by simp
  note p = init_pouch_effect[OF d1(2) this d1(4) d2]
  have "\<not> running d" using inv c(2) by (simp add: device_inv_def mgr_inv_def)
  then have "lively d d2" using p d1(7) by (simp add: lively_def)
  with p c d1 d2 show ?thesis by (auto simp: mgr_init_eq)
qed

lemma reprovision_device_inv:
  assumes "device_inv E d"
  shows "device_inv E (pouch_prov_wifi_reprovision d)"
proof -
  note w = wifi_onlyD[OF reprovision_only[of d]]
  have "wifi_inv (pouch_prov_wifi_reprovision d)" using assms by (simp add: device_inv_def reprovision_inv)
  moreover have "no_leak (trace (pouch_prov_wifi_reprovision d))"
    using rpc_same_no_leak[OF w(13)] assms by (simp add: device_inv_def)
  ultimately show ?thesis using assms w by (simp add: inv_unfold)
qed

lemma delete_all_device_inv:
  assumes "device_inv E d"
  shows "device_inv E (pouch_prov_cred_delete_all d)"
proof -
  have c: "cred_inv d" using assms by (simp add: device_inv_def)
  show ?thesis using assms delete_all_inv[OF c] unfolding delete_all_eq[OF c] by (simp add: inv_unfold no_leak_def)
qed

lemma delete_all_keeps:
  assumes "cred_inv d"
  shows "wifi_creds_of (trace (pouch_prov_cred_delete_all d)) = wifi_creds_of (trace d)"
    and "wc (pouch_prov_cred_delete_all d) = wc d" and "running (pouch_prov_cred_delete_all d) = running d"
    and "rpc_same (trace d) (trace (pouch_prov_cred_delete_all d))"
  unfolding delete_all_eq[OF assms] by (simp_all add: rpc_same_def)

context kernel begin

lemma start_effect:
  assumes inv: "device_inv E d"
  shows "\<exists>r d'. pouch_prov_mgr_start E d = Some (r, d') \<and> device_inv E d' \<and> (running d' \<longleftrightarrow> running d \<or> r = rc_ok) \<and>
    (r = rc_ok \<longrightarrow> initialized d \<and> \<not> running d \<and> adv_enabled d' \<and> \<not> authorized d' \<and> fifo_of (trace d') = [] \<and>
       \<not> ended_of (trace d')) \<and>
    (endpoint (active d') = endpoint (active d) \<or> endpoint (active d') = None) \<and> (authorized d' \<longrightarrow> authorized d)"
proof (cases "\<not> initialized d \<or> running d")
  case True
  then show ?thesis using inv by (auto simp: pouch_prov_mgr_start_def)
next
  case False
  let ?err = "if bt_is_ready E (trace d) then rc_ok else bt_enable E (trace d)"
  let ?d1 = "if bt_is_ready E (trace d) then d else log (X_bt_enable ?err) d"
  have i1: "device_inv E ?d1" using inv by (simp add: inv_unfold no_leak_def)
  have k1: "initialized ?d1 = initialized d" "running ?d1 = running d" by simp_all
  obtain d2 where d2: "(if CONFIG_SETTINGS E then map_option snd (settings_load E '''' ?d1) else Some ?d1) = Some d2"
    "device_inv E d2" "running d2 = running d" "initialized d2 = initialized d"
    using load_inv[OF i1, of "''''"] i1 k1 by (cases "CONFIG_SETTINGS E") auto
  obtain d3 where d3: "pouch_prov_rpc_reset E (pouch_prov_dispatch_reset E d2) = Some d3"
    "drained (pouch_prov_dispatch_reset E d2) d3" using session_reset by blast
  note o = only_logD[OF drainedD(1)[OF d3(2)]]
  have i3: "device_inv E d3" using drained_inv[OF d3(2) dispatch_reset_inv[OF d2(2)]] .
  let ?d4 = "log X_event_clear (autostop_cancel E d3)"
  have i4: "device_inv E ?d4" using i3 by (simp add: inv_unfold no_leak_def)
  obtain r d5 where d5: "pouch_prov_adv_start E ?d4 = (r, d5)" by fastforce
  note a = adv_onlyD[OF adv_start_only[of ?d4 E], unfolded d5 snd_conv]
  have ae: "adv_enabled d5 = (r = rc_ok)" using adv_start_enabled[of E ?d4] d5 i4 o d2 False
    by (auto simp: inv_unfold)
  have "no_leak (trace d5)" using rpc_same_no_leak[OF a(12)] i4 by (simp add: device_inv_def)
  with i4 a ae d2(3,4) o False have i5: "device_inv E (if r = rc_ok then d5\<lparr>running := True\<rparr> else d5)"
    by (simp add: inv_unfold)
  have e5: "endpoint (active d5) = None" using a o by simp
  have r5: "running d5 = False" "initialized d5" "fifo_of (trace d5) = []" "\<not> ended_of (trace d5)" "\<not> authorized d5"
    using a o d2(3,4) False drainedD(2)[OF d3(2)] by (simp_all add: rpc_same_def)
  show ?thesis
  proof (cases "?err \<noteq> rc_ok \<and> ?err \<noteq> rc_err EALREADY")
    case True
    then show ?thesis using i1 False by (auto simp: pouch_prov_mgr_start_def Let_def split: if_splits)
  next
    case err: False
    have eq: "pouch_prov_mgr_start E d = Some (r, if r \<noteq> rc_ok then d5
        else pouch_prov_emit E POUCH_PROV_EVENT_STARTED None (d5\<lparr>running := True\<rparr>))"
      using False err d2(1) d3(1) d5 by (auto simp: pouch_prov_mgr_start_def Let_def)
    show ?thesis using i5 e5 r5 ae False unfolding eq by (cases "r = rc_ok") (auto simp: emit_inv)
  qed
qed

text \<open>A reset of the device wipes both stores and ends the session.\<close>

lemma reset_effect:
  assumes inv: "device_inv E d"
  shows "\<exists>d'. pouch_prov_mgr_reset E d = Some d' \<and> device_inv E d' \<and> \<not> authorized d' \<and> endpoint (active d') = None \<and> fifo_of (trace d') = [] \<and> lively d d' \<and>
    (CONFIG_POUCH_PROV_WIFI E \<longrightarrow> wifi_creds_of (trace d') = Map.empty) \<and>
    (CONFIG_POUCH_PROV_CRED E \<longrightarrow> (\<forall>k < 3. stored k d' = None \<and> pouch_prov_cred_get k d' = None))"
proof -
  let ?d1 = "if CONFIG_POUCH_PROV_WIFI E then pouch_prov_wifi_reprovision d else d"
  let ?d2 = "if CONFIG_POUCH_PROV_CRED E then pouch_prov_cred_delete_all ?d1 else ?d1"
  have i1: "device_inv E ?d1" using inv reprovision_device_inv[OF inv] by simp
  have c1: "cred_inv ?d1" using i1 by (simp add: device_inv_def)
  have i2: "device_inv E ?d2" using i1 delete_all_device_inv[OF i1] by simp
  have w: "CONFIG_POUCH_PROV_WIFI E \<Longrightarrow> wifi_creds_of (trace ?d2) = Map.empty"
    using delete_all_keeps(1)[OF c1] by (simp add: reprovision_empty)
  obtain d' where d': "pouch_prov_rpc_reset E (pouch_prov_dispatch_reset E ?d2) = Some d'"
    "drained (pouch_prov_dispatch_reset E ?d2) d'" using session_reset by blast
  note dr = drainedD[OF d'(2)]
  note o = only_logD[OF dr(1)]
  have i': "device_inv E d'" using drained_inv[OF d'(2) dispatch_reset_inv[OF i2]] .
  have s: "stored k d' = stored k ?d2" "pouch_prov_cred_get k d' = pouch_prov_cred_get k ?d2" for k
    using dr o by (simp_all add: stored_def pouch_prov_cred_get_def pouch_prov_cred_present_def kind_valid_def)
  have "running ?d1 = running d" "rpc_same (trace d) (trace ?d1)" using wifi_onlyD(3,13)[OF reprovision_only[of d]] by simp_all
  then have "running ?d2 = running d" "rpc_same (trace d) (trace ?d2)"
    using delete_all_keeps(3)[OF c1] rpc_same_trans[OF _ delete_all_keeps(4)[OF c1], of "trace d"] by (cases "CONFIG_POUCH_PROV_CRED E"; simp)+
  then have "lively d ?d2" by (rule livelyI)
  then have "lively d d'" using o dr by (simp add: lively_def)
  moreover have "pouch_prov_mgr_reset E d = Some d'" using d'(1) by (simp add: pouch_prov_mgr_reset_def Let_def)
  moreover have "CONFIG_POUCH_PROV_WIFI E \<longrightarrow> wifi_creds_of (trace d') = Map.empty" using w dr by simp
  moreover have "CONFIG_POUCH_PROV_CRED E \<longrightarrow> (\<forall>k < 3. stored k d' = None \<and> pouch_prov_cred_get k d' = None)"
    using s delete_all_gone(1,2)[OF c1] by simp
  ultimately show ?thesis using i' o dr by simp
qed

end

text \<open>
  Initialization with a stored identity: the stored key is imported and the stored certificate is
  handed to pouch, and nothing is generated or built.
\<close>

lemma init_pouch_trace:
  assumes "pouch_init E pc (trace d) = rc_ok"
  shows "\<exists>d' cbs. init_pouch E (Inr pc) d = (rc_ok, d') \<and> trace d' = cbs @ X_pouch_init pc rc_ok # trace d \<and>
    list_all (\<lambda>x. \<exists>s. x = X_net_add_callback s) cbs"
  using assms by (auto simp: init_pouch_def pouch_prov_wifi_scan_init_def pouch_prov_wifi_config_init_def Let_def)

lemma load_identity:
  assumes S: "settings_store E" and I: "\<not> CONFIG_POUCH_ENCRYPTION_NONE E" and inv: "cred_inv d" "id_inv d"
    and v: "map_of (settings_of (trace d)) KEY_SETTINGS_KEY = Some v" "length v \<le> 32"
    and w: "map_of (settings_of (trace d)) CERT_SETTINGS_KEY = Some w" "length w \<le> 640"
  shows "\<exists>r d'. settings_load E ''pnp'' d = Some (r, d') \<and> key_loaded v d' \<and> cert_loaded w d' \<and>
    trace d' = X_settings_load ''pnp'' r # trace d"
proof -
  obtain r d' d1 where l: "settings_load E ''pnp'' d = Some (r, d')" "d' = log (X_settings_load ''pnp'' r) d1" "load_only d d1"
    using load_total[OF inv] by blast
  have p: "prefix ''pnp'' KEY_SETTINGS_KEY" "prefix ''pnp'' CERT_SETTINGS_KEY"
    by (simp_all add: KEY_SETTINGS_KEY_def CERT_SETTINGS_KEY_def)
  note settings_slot.load_slot[OF id_slots(1)[OF S I] inv v p(1) l(1)]
    settings_slot.load_slot[OF id_slots(2)[OF S I] inv w p(2) l(1)]
  then show ?thesis using l load_onlyD(11)[OF l(3)] by simp
qed

lemma init_restores_identity:
  assumes "settings_store E" and I: "\<not> CONFIG_POUCH_ENCRYPTION_NONE E" and "CONFIG_SETTINGS E"
    and inv: "cred_inv d" "id_inv d" "\<not> initialized d" and c: "device_id c = Some i"
    and v: "map_of (settings_of (trace d)) KEY_SETTINGS_KEY = Some v" "v \<noteq> []" "length v \<le> 32"
    and w: "map_of (settings_of (trace d)) CERT_SETTINGS_KEY = Some w" "w \<noteq> []" "length w \<le> 640"
    and psa: "\<forall>t. psa_crypto_init E t" "\<forall>t. psa_import_key E v t \<noteq> None" and po: "\<forall>pc t. pouch_init E pc t = rc_ok"
  shows "\<exists>d' k r cbs. pouch_prov_mgr_init E (Some c) d = Some (rc_ok, d') \<and>
    trace d' = cbs @ [X_pouch_init (pouch_identity w (Some k)) rc_ok, X_psa_import v (Some k), X_psa_crypto_init True,
      X_settings_load ''pnp'' r, X_settings_subsys_init] @ trace d \<and> list_all (\<lambda>x. \<exists>s. x = X_net_add_callback s) cbs"
proof -
  let ?d = "log X_settings_subsys_init (d\<lparr>config := c\<rparr>)"
  have "cred_inv ?d" "id_inv ?d" using inv by (simp_all add: cred_inv_def id_inv_def)
  from load_identity[OF assms(1) I this, of v w] v w obtain r d1
    where l: "settings_load E ''pnp'' ?d = Some (r, d1)" "key_loaded v d1" "cert_loaded w d1"
      "trace d1 = X_settings_load ''pnp'' r # X_settings_subsys_init # trace d" by auto
  have pos: "0 < priv_raw_len (identity d1)" "0 < cert_der_len (identity d1)" "priv_bytes d1 = v"
    "take (cert_der_len (identity d1)) (cert_der (identity d1)) = w"
    using l(2,3) v(2) w(2) by (auto simp: key_loaded_def cert_loaded_def)
  obtain k where k: "psa_import_key E (priv_bytes d1) (X_psa_crypto_init True # trace d1) = Some k" using psa(2) pos(3) by blast
  from ensure_restored[OF pos(1,2) _ k] psa(1) obtain d2 where d2:
    "pouch_prov_identity_ensure E d1 = Some (Inr (w, Some k), d2)" "trace d2 = X_psa_import v (Some k) # X_psa_crypto_init True # trace d1"
    using pos(3,4) by auto
  have "init_identity E i (d\<lparr>config := c\<rparr>) = Some (Inr (pouch_identity w (Some k)), d2)"
    using I assms(3) l(1) d2(1) by (simp add: init_identity_def)
  moreover obtain d3 cbs where "init_pouch E (Inr (pouch_identity w (Some k))) d2 = (rc_ok, d3)"
    "trace d3 = cbs @ X_pouch_init (pouch_identity w (Some k)) rc_ok # trace d2" "list_all (\<lambda>x. \<exists>s. x = X_net_add_callback s) cbs"
    using init_pouch_trace po by blast
  ultimately show ?thesis using inv(3) c d2(2) l(4) by (auto simp: mgr_init_eq)
qed

subsection \<open>Booting with stored credentials\<close>

text \<open>What a finalize that succeeded has left in the settings.\<close>

lemma finalized_stored:
  assumes inv: "cred_inv d" and f: "pouch_prov_cred_finalize E d = Some (rc_ok, d')" and k: "k < 3" "ready (blobs d ! k)"
  shows "map_of (settings_of (trace d')) (setting_key ! k) = Some (staged_data (blobs d ! k))"
    and "cred_fits k (staged_data (blobs d ! k))" and "staged_data (blobs d ! k) \<noteq> []"
proof -
  obtain d0 where d0: "persisted [0, 1, 2] d rc_ok d0" "d' = pouch_prov_emit E POUCH_PROV_EVENT_CLOUD_CRED_STORED None d0"
    using finalize_total[OF inv, of E] f by (auto simp: finalize_outcome_def split: if_splits)
  show "map_of (settings_of (trace d')) (setting_key ! k) = Some (staged_data (blobs d ! k))"
    using persisted_get(2)[OF d0(1) inv k] d0(2) by (simp add: stored_def)
  have "blob_inv (blobs d ! k)" using cred_inv_nth[OF inv k(1)] .
  then show "cred_fits k (staged_data (blobs d ! k))" "staged_data (blobs d ! k) \<noteq> []"
    using k(2) cred_fits_cap[OF inv k(1)] by (auto simp: staged_data_def blob_inv_def ready_def)
qed

lemma finalized_ready:
  assumes "cred_inv d" and "pouch_prov_cred_finalize E d = Some (rc_ok, d')"
  shows "ready (blobs d ! 0)" and "ready (blobs d ! 1)"
  using finalize_total[OF assms(1), of E] assms(2) by (auto simp: finalize_outcome_def split: if_splits)

lemma setting_key_sub: "k < 3 \<Longrightarrow> sub = '''' \<or> sub = ''pnp'' \<Longrightarrow> prefix sub (setting_key ! k)"
  by (auto simp: setting_key_def less_Suc_eq numeral_3_eq_3)

text \<open>Loading them, and the initialization that loads them.\<close>

lemma load_credential:
  assumes "settings_store E" and "CONFIG_POUCH_PROV_CRED E" and inv: "cred_inv d" "id_inv d" and k: "k < 3"
    and v: "map_of (settings_of (trace d)) (setting_key ! k) = Some v" "cred_fits k v" "v \<noteq> []" and sub: "sub = '''' \<or> sub = ''pnp''"
    and ld: "settings_load E sub d = Some (r, d')"
  shows "pouch_prov_cred_get k d' = Some v"
  using settings_slot.load_slot[OF cred_slot[OF assms(1,2) k] inv v(1,2) setting_key_sub[OF k sub] ld] v(3) by (rule loaded_get)

lemma get_cong: "blobs d' = blobs d \<Longrightarrow> pouch_prov_cred_get k d' = pouch_prov_cred_get k d"
  by (simp add: pouch_prov_cred_get_def pouch_prov_cred_present_def kind_valid_def)

lemma init_pouch_keeps: "blobs (snd (init_pouch E pc d)) = blobs d" "wifi_creds_of (trace (snd (init_pouch E pc d))) = wifi_creds_of (trace d)"
  by (simp_all add: init_pouch_def pouch_prov_wifi_scan_init_def pouch_prov_wifi_config_init_def Let_def split: sum.split)

lemma init_loads_credentials:
  assumes E: "settings_store E" "CONFIG_POUCH_PROV_CRED E" "\<not> CONFIG_POUCH_ENCRYPTION_NONE E" "CONFIG_SETTINGS E" "identity_bounds E"
    and inv: "cred_inv d" "id_inv d" and i: "pouch_prov_mgr_init E (Some c) d = Some (rc_ok, d')"
  shows "wifi_creds_of (trace d') = wifi_creds_of (trace d)"
    and "k < 3 \<Longrightarrow> map_of (settings_of (trace d)) (setting_key ! k) = Some v \<Longrightarrow> cred_fits k v \<Longrightarrow> v \<noteq> [] \<Longrightarrow>
      pouch_prov_cred_get k d' = Some v"
proof -
  let ?d = "log X_settings_subsys_init (d\<lparr>config := c\<rparr>)"
  have inv': "cred_inv ?d" "id_inv ?d" using inv by (simp_all add: cred_inv_def id_inv_def)
  obtain r d1 d0 where l: "settings_load E ''pnp'' ?d = Some (r, d1)" "d1 = log (X_settings_load ''pnp'' r) d0" "id_inv d0" "load_only ?d d0"
    using load_total[OF inv'] by blast
  have "id_inv d1" using l(2,3) by (simp add: id_inv_def)
  from ensure_total[OF this E(5)] obtain e d2 where e: "pouch_prov_identity_ensure E d1 = Some (e, d2)" "id_only d1 d2" by blast
  obtain pc where "init_pouch E pc d2 = (rc_ok, d')"
    using i l(1) e(1) E(3,4) by (auto simp: mgr_init_eq init_identity_def split: if_splits option.splits)
  then have p: "blobs d' = blobs d1" "wifi_creds_of (trace d') = wifi_creds_of (trace d1)"
    using init_pouch_keeps[of E pc d2] id_onlyD(4,15)[OF e(2)] by (metis snd_conv)+
  show "wifi_creds_of (trace d') = wifi_creds_of (trace d)" using p(2) l(2) load_onlyD(11)[OF l(4)] by simp
  show "pouch_prov_cred_get k d' = Some v" if "k < 3" "map_of (settings_of (trace d)) (setting_key ! k) = Some v" "cred_fits k v" "v \<noteq> []"
    using load_credential[OF E(1,2) inv' that(1) _ that(3,4) _ l(1)] that(2) get_cong[OF p(1)] by simp
qed

end
