(* ===== verification/Handlers.thy ===== *)
theory Handlers
  imports Manager
begin

text \<open>
  The handlers of the endpoints that have no state of their own: version
  (\<^verbatim>\<open>src/handlers/version.c\<close>), credentials (\<^verbatim>\<open>src/handlers/cred.c\<close>) and control
  (\<^verbatim>\<open>src/handlers/ctrl.c\<close>), and the contract the dispatcher relies on, which all six handlers meet.
\<close>

subsection \<open>Version\<close>

definition LIB_VERSION :: string where "LIB_VERSION = ''0.1.0''"
definition PROTO_VERSION :: u32 where "PROTO_VERSION = 1"

definition ver_caps :: "('e, 'd) env \<Rightarrow> device \<Rightarrow> string list" where
  "ver_caps E d =
     (if CONFIG_POUCH_PROV_WIFI E then [''wifi'', ''scan''] else []) @
     (if CONFIG_POUCH_PROV_CRED E then [''cred''] else []) @
     (if CONFIG_POUCH_PROV_AUTH E \<and> pop (config d) \<noteq> None then [''auth''] else [])"

definition ver_out :: "('e, 'd) env \<Rightarrow> device \<Rightarrow> ver_rsp" where
  "ver_out E d = \<lparr>
     ver_rsp_prov_status_m = prov_status_status_ok_m_c,
     ver_rsp_ver_info_m = \<lparr>
       ver_info_proto = PROTO_VERSION,
       ver_info_caps_tstr = map str_bytes (ver_caps E d),
       ver_info_blk = CONFIG_POUCH_BLOCK_SIZE E,
       ver_info_lib = str_bytes LIB_VERSION,
       ver_info_pop = Some (CONFIG_POUCH_PROV_AUTH E \<and> pop (config d) \<noteq> None)\<rparr>\<rparr>"

definition pouch_prov_handle_ver ::
  "('e, 'd) env \<Rightarrow> bytes \<Rightarrow> nat \<Rightarrow> device \<Rightarrow> ((errno + bytes) \<times> device) option" where
  "pouch_prov_handle_ver E req rsp_size d =
     (case cbor_decode_ver_req (zdec E) req of
        None \<Rightarrow> Some (Inl EBADMSG, d)
      | Some consumed \<Rightarrow>
          Some (case cbor_encode_ver_rsp (zenc E) rsp_size (ver_out E d) of
                  Some rsp \<Rightarrow> Inr rsp | None \<Rightarrow> Inl ENOMEM, d))"

subsection \<open>Credentials\<close>

definition status_map :: "rc \<Rightarrow> u32" where
  "status_map rc =
     (if rc = rc_ok then prov_status_status_ok_m_c
      else if rc = rc_err EINVAL \<or> rc = rc_err EMSGSIZE \<or> rc = rc_err EBADMSG
      then prov_status_status_invalid_argument_m_c
      else prov_status_status_internal_error_m_c)"

text \<open>The entries of the status map: one per kind that has bytes staged, under the names \<^verbatim>\<open>"0"\<close> to \<^verbatim>\<open>"2"\<close>.\<close>

definition key_name :: "string list" where
  "key_name = [''0'', ''1'', ''2'']"

fun cred_status_entries :: "nat list \<Rightarrow> device \<Rightarrow> map_tstruint list" where
  "cred_status_entries [] d = []"
| "cred_status_entries (k # ks) d =
     (let got = pouch_prov_cred_received k d in
      if got = 0 then cred_status_entries ks d
      else \<lparr>cred_status_rsp_map_tstruint_key = str_bytes (key_name ! k), map_tstruint = of_nat got\<rparr>
           # cred_status_entries ks d)"

definition cred_respond :: "('e, 'd) env \<Rightarrow> nat \<Rightarrow> cred_rsp_r \<Rightarrow> errno + bytes" where
  "cred_respond E rsp_size out =
     (case cbor_encode_cred_rsp (zenc E) rsp_size out of Some rsp \<Rightarrow> Inr rsp | None \<Rightarrow> Inl ENOMEM)"

definition pouch_prov_handle_cred ::
  "('e, 'd) env \<Rightarrow> bytes \<Rightarrow> nat \<Rightarrow> device \<Rightarrow> ((errno + bytes) \<times> device) option" where
  "pouch_prov_handle_cred E req rsp_size d =
     (case cbor_decode_cred_req (zdec E) req of
        None \<Rightarrow> Some (Inl EBADMSG, d)
      | Some (cred_req_cred_write_m c, consumed) \<Rightarrow> do {
          (rc, d) \<leftarrow> pouch_prov_cred_stage (cred_chunk_kind c) (cred_chunk_off c) (cred_chunk_total c)
                      (cred_chunk_data c) d;
          Some (cred_respond E rsp_size
                  (case rc of
                     Inl e \<Rightarrow> cred_rsp_cred_write_rsp_m (status_map (rc_err e)) 0
                   | Inr n \<Rightarrow> cred_rsp_cred_write_rsp_m (status_map rc_ok) (of_nat n)), d)
        }
      | Some (cred_req_cred_finalize_m, consumed) \<Rightarrow> do {
          (rc, d) \<leftarrow> pouch_prov_cred_finalize E d;
          Some (cred_respond E rsp_size (cred_rsp_cred_finalize_rsp_m (status_map rc)), d)
        }
      | Some (cred_req_cred_get_status_m, consumed) \<Rightarrow>
          Some (cred_respond E rsp_size
            (cred_rsp_cred_status_rsp_m prov_status_status_ok_m_c (cred_status_entries [0, 1, 2] d)), d))"

subsection \<open>Control\<close>

definition OP_CTRL_RESET :: u32 where "OP_CTRL_RESET = 0"
definition OP_CTRL_REPROV :: u32 where "OP_CTRL_REPROV = 1"
definition OP_CTRL_END :: u32 where "OP_CTRL_END = 2"

definition pouch_prov_handle_ctrl ::
  "('e, 'd) env \<Rightarrow> bytes \<Rightarrow> nat \<Rightarrow> device \<Rightarrow> ((errno + bytes) \<times> device) option" where
  "pouch_prov_handle_ctrl E req rsp_size d =
     (case cbor_decode_ctrl_req (zdec E) req of
        None \<Rightarrow> Some (Inl EBADMSG, d)
      | Some (choice, consumed) \<Rightarrow>
          let (op, d) =
                (case choice of
                   ctrl_req_ctrl_reset_m \<Rightarrow>
                     (OP_CTRL_RESET, if CONFIG_POUCH_PROV_WIFI E then pouch_prov_wifi_reset_state d else d)
                 | ctrl_req_ctrl_reprovision_m \<Rightarrow>
                     let d = (if CONFIG_POUCH_PROV_WIFI E then pouch_prov_wifi_reprovision d else d) in
                     (OP_CTRL_REPROV, if CONFIG_POUCH_PROV_CRED E then pouch_prov_cred_delete_all d else d)
                 | ctrl_req_ctrl_end_m \<Rightarrow> (OP_CTRL_END, d));
              out = \<lparr>ctrl_rsp_ctrl_op_m = op, ctrl_rsp_prov_status_m = prov_status_status_ok_m_c\<rparr>;
              enc = cbor_encode_ctrl_rsp (zenc E) rsp_size out
          in do {
            d \<leftarrow> (if op = OP_CTRL_END \<and> enc \<noteq> None then pouch_prov_ctrl_end_requested E d else Some d);
            Some (case enc of Some rsp \<Rightarrow> Inr rsp | None \<Rightarrow> Inl ENOMEM, d)
          })"

lemmas ctrl_ops = OP_CTRL_RESET_def OP_CTRL_REPROV_def OP_CTRL_END_def

subsection \<open>What the handlers change\<close>

text \<open>The three moves of the authorization state: none, a challenge, a proof.\<close>

lemma handle_auth_moves:
  assumes h: "pouch_prov_handle_auth E req n d = Some (r, d')"
  obtains (none) "auth d' = auth d" "authorized d' = authorized d"
  | (challenge) nonce dev where "length nonce = 16" "length dev = 16" "authorized d' = authorized d"
      "auth d' = (auth d)\<lparr>cli_nonce := nonce, dev_nonce := dev, challenged := True\<rparr>"
  | (checked) "challenged (auth d)" "auth d' = (auth d)\<lparr>attempts := attempts (auth d) + 1\<rparr>"
      "authorized d \<longrightarrow> authorized d'"
proof (cases "cbor_decode_auth_req (zdec E) req")
  case None
  with h none show ?thesis by (simp add: pouch_prov_handle_auth_def)
next
  case (Some ic)
  obtain i c where ic: "ic = (i, c)" by (cases ic)
  show ?thesis
  proof (cases i)
    case (auth_req_auth_challenge_m nonce)
    let ?r = "map (sys_rand_byte E (trace d)) [0..<NONCE_LEN]"
    let ?d = "d\<lparr>trace := X_rand ?r # trace d,
      auth := (auth d)\<lparr>cli_nonce := nonce, dev_nonce := ?r, challenged := True\<rparr>\<rparr>"
    show ?thesis
    proof (cases "length nonce = NONCE_LEN")
      case False
      with h Some ic auth_req_auth_challenge_m none show ?thesis by (simp add: pouch_prov_handle_auth_def)
    next
      case True
      with h Some ic auth_req_auth_challenge_m obtain m where m: "hmac_proof E ''dev'' nonce ?r ?d = Some (m, d')"
        by (auto simp: pouch_prov_handle_auth_def sys_rand_get_def Let_def log_def split: bind_splits sum.splits)
      have "only_log ?d d'" using hmac_proof_only[OF m] by (simp add: psa_only_def)
      note only_logD(8,10)[OF this]
      with True challenge[of nonce ?r] show ?thesis by (simp add: NONCE_LEN_def)
    qed
  next
    case (auth_req_auth_proof_m p)
    let ?d = "d\<lparr>auth := (auth d)\<lparr>attempts := attempts (auth d) + 1\<rparr>\<rparr>"
    consider (bad) "\<not> challenged (auth d) \<or> length p \<noteq> PROOF_LEN"
      | (many) "challenged (auth d)" "length p = PROOF_LEN" "MAX_ATTEMPTS < attempts (auth d) + 1"
      | (check) "challenged (auth d)" "length p = PROOF_LEN" "\<not> MAX_ATTEMPTS < attempts (auth d) + 1" by blast
    then show ?thesis
    proof cases
      case bad
      with h Some ic auth_req_auth_proof_m none show ?thesis by (auto simp: pouch_prov_handle_auth_def)
    next
      case many
      with h Some ic auth_req_auth_proof_m have "d' = ?d" by (simp add: pouch_prov_handle_auth_def Let_def)
      with many checked show ?thesis by simp
    next
      case check
      with h Some ic auth_req_auth_proof_m obtain m d2 where
        m: "hmac_proof E ''cli'' (dev_nonce (auth d)) (cli_nonce (auth d)) ?d = Some (m, d2)"
        and d2: "d' = d2 \<or> d' = d2\<lparr>authorized := True\<rparr>"
        by (auto simp: pouch_prov_handle_auth_def pouch_prov_session_set_authorized_def Let_def
            split: bind_splits sum.splits if_splits)
      have "only_log ?d d2" using hmac_proof_only[OF m] by (simp add: psa_only_def)
      note only_logD(8,10)[OF this]
      with d2 check checked show ?thesis by auto
    qed
  qed
qed

lemma handle_auth_inv:
  assumes inv: "device_inv E d" and A: "CONFIG_POUCH_PROV_AUTH E" and h: "pouch_prov_handle_auth E req n d = Some (r, d')"
  shows "device_inv E d'"
proof -
  note o = auth_onlyD[OF handle_auth_only[OF h]]
  have n: "no_leak (trace d')" using rpc_same_no_leak[OF o(13)] inv by (simp add: device_inv_def)
  have "auth_inv E d'" using h
  proof (cases rule: handle_auth_moves)
    case (challenge nonce dev)
    then show ?thesis using inv A by (simp add: inv_unfold)
  qed (use inv A in \<open>auto simp: inv_unfold\<close>)
  with inv o n show ?thesis by (simp add: inv_unfold)
qed

lemma handle_config_inv:
  assumes inv: "device_inv E d" and h: "pouch_prov_handle_config E req n d = Some (r, d')"
  shows "device_inv E d'"
proof -
  note o = wifi_onlyD[OF handle_config_keeps(1)[OF h]]
  have "no_leak (trace d')" using rpc_same_no_leak[OF o(13)] inv by (simp add: device_inv_def)
  moreover have "wifi_inv d'" using handle_config_keeps(2)[OF h] inv by (simp add: device_inv_def)
  ultimately show ?thesis using inv o by (simp add: inv_unfold)
qed

lemma handle_scan_inv:
  assumes inv: "device_inv E d" and h: "pouch_prov_handle_scan E req n d = Some (r, d')"
  shows "device_inv E d'"
proof -
  note o = scan_onlyD[OF handle_scan_keeps(1)[OF h]]
  have "no_leak (trace d')" using rpc_same_no_leak[OF o(14)] inv by (simp add: device_inv_def)
  moreover have "scan_inv E d'" using handle_scan_keeps(2)[OF h] inv by (simp add: device_inv_def)
  ultimately show ?thesis using inv o by (simp add: inv_unfold)
qed

text \<open>The credential store changes its blobs and the log, and not the response queue.\<close>

definition cred_only :: "device \<Rightarrow> device \<Rightarrow> bool" where
  "cred_only d d' \<longleftrightarrow> config d' = config d \<and> initialized d' = initialized d \<and> running d' = running d \<and>
     wc d' = wc d \<and> ip4 d' = ip4 d \<and> sc d' = sc d \<and> auth d' = auth d \<and> active d' = active d \<and>
     authorized d' = authorized d \<and> identity d' = identity d \<and> adv_enabled d' = adv_enabled d \<and>
     rpc_same (trace d) (trace d') \<and> wifi_creds_of (trace d') = wifi_creds_of (trace d)"

lemma cred_onlyD:
  assumes "cred_only d d'"
  shows "config d' = config d" "initialized d' = initialized d" "running d' = running d" "wc d' = wc d" "ip4 d' = ip4 d"
    "sc d' = sc d" "auth d' = auth d" "active d' = active d" "authorized d' = authorized d" "identity d' = identity d"
    "adv_enabled d' = adv_enabled d" "rpc_same (trace d) (trace d')" "wifi_creds_of (trace d') = wifi_creds_of (trace d)"
  using assms by (simp_all add: cred_only_def)

lemma cred_only_inv:
  assumes "cred_only d d'" and "cred_inv d'" and "device_inv E d"
  shows "device_inv E d'"
proof -
  note o = cred_onlyD[OF assms(1)]
  have "no_leak (trace d')" using rpc_same_no_leak[OF o(12)] assms(3) by (simp add: device_inv_def)
  with assms(2,3) o show ?thesis by (simp add: inv_unfold)
qed

lemma stage_keeps:
  assumes inv: "cred_inv d"
  shows "\<exists>r d'. pouch_prov_cred_stage k off tot data d = Some (r, d') \<and> cred_inv d' \<and> cred_only d d'"
proof (cases "k < 3")
  case True
  obtain r b' where s: "pouch_prov_cred_stage k off tot data d = Some (r, d\<lparr>blobs := (blobs d)[k := b']\<rparr>)"
    "blob_inv b'" "cap b' = cap (blobs d ! k)" using stage_refines[OF inv True] by metis
  have "cred_inv (d\<lparr>blobs := (blobs d)[k := b']\<rparr>)" using cred_inv_update[OF inv True s(2,3)] .
  with s show ?thesis by (auto simp: cred_only_def)
next
  case False
  then show ?thesis using inv cred_inv_length[OF inv] by (auto simp: pouch_prov_cred_stage_def kind_valid_def cred_only_def)
qed

lemma finalize_keeps:
  assumes inv: "cred_inv d"
  shows "\<exists>r d'. pouch_prov_cred_finalize E d = Some (r, d') \<and> cred_inv d' \<and> cred_only d d'"
proof -
  obtain r d' where f: "pouch_prov_cred_finalize E d = Some (r, d')" "finalize_outcome E d r d'"
    using finalize_total[OF inv] by blast
  have p: "cred_inv d0 \<and> cred_only d d0" if "persisted [0, 1, 2] d r d0" for d0
    using that by (auto simp: persisted_def cred_only_def)
  have e: "cred_inv (pouch_prov_emit E ev x d0) = cred_inv d0" "cred_only d (pouch_prov_emit E ev x d0) = cred_only d d0"
    for ev x d0 by (simp_all add: cred_inv_def cred_only_def)
  consider "d' = d" | d0 where "persisted [0, 1, 2] d r d0"
      "d' = d0 \<or> d' = pouch_prov_emit E POUCH_PROV_EVENT_CLOUD_CRED_STORED None d0"
    using f(2) unfolding finalize_outcome_def by metis
  then have "cred_inv d' \<and> cred_only d d'"
  proof cases
    case 1
    with inv show ?thesis by (simp add: cred_only_def)
  next
    case 2
    from p[OF 2(1)] 2(2) show ?thesis by (auto simp: e)
  qed
  with f(1) show ?thesis by blast
qed

lemma handle_cred_effect:
  assumes inv: "device_inv E d"
  shows "\<exists>r d'. pouch_prov_handle_cred E req n d = Some (r, d') \<and> device_inv E d' \<and> cred_only d d'"
proof -
  have c: "cred_inv d" using inv by (simp add: device_inv_def)
  have refl: "cred_only d d" by (simp add: cred_only_def)
  show ?thesis
  proof (cases "cbor_decode_cred_req (zdec E) req")
    case None
    then show ?thesis using inv refl by (simp add: pouch_prov_handle_cred_def)
  next
    case (Some ic)
    obtain i m where ic: "ic = (i, m)" by (cases ic)
    show ?thesis
    proof (cases i)
      case (cred_req_cred_write_m ch)
      obtain r d' where s: "pouch_prov_cred_stage (cred_chunk_kind ch) (cred_chunk_off ch) (cred_chunk_total ch)
          (cred_chunk_data ch) d = Some (r, d')" "cred_inv d'" "cred_only d d'" using stage_keeps[OF c] by metis
      with cred_only_inv[OF s(3,2) inv] show ?thesis
        using Some ic cred_req_cred_write_m by (simp add: pouch_prov_handle_cred_def)
    next
      case cred_req_cred_finalize_m
      obtain r d' where s: "pouch_prov_cred_finalize E d = Some (r, d')" "cred_inv d'" "cred_only d d'"
        using finalize_keeps[OF c] by metis
      with cred_only_inv[OF s(3,2) inv] show ?thesis
        using Some ic cred_req_cred_finalize_m by (simp add: pouch_prov_handle_cred_def)
    next
      case cred_req_cred_get_status_m
      then show ?thesis using Some ic inv refl by (simp add: pouch_prov_handle_cred_def)
    qed
  qed
qed

lemma wifi_reset_state_device_inv:
  assumes "device_inv E d"
  shows "device_inv E (pouch_prov_wifi_reset_state d)"
proof -
  note w = wifi_onlyD[OF wifi_config_reset_only[of d]]
  have "wifi_inv (pouch_prov_wifi_config_reset d)" using assms by (simp add: device_inv_def wifi_config_reset_inv)
  moreover have "no_leak (trace (pouch_prov_wifi_config_reset d))"
    using rpc_same_no_leak[OF w(13)] assms by (simp add: device_inv_def)
  ultimately show ?thesis using assms w by (simp add: inv_unfold pouch_prov_wifi_reset_state_def)
qed

lemma delete_all_active:
  "cred_inv d \<Longrightarrow> active (pouch_prov_cred_delete_all d) = active d"
  "cred_inv d \<Longrightarrow> authorized (pouch_prov_cred_delete_all d) = authorized d"
  by (simp_all add: delete_all_eq)

text \<open>
  What the handler may do to the request buffer (nothing), to the queue (keep it or empty it) and to
  the manager (keep it running or end it).
\<close>

definition calm :: "device \<Rightarrow> device \<Rightarrow> bool" where
  "calm d d' \<longleftrightarrow> (endpoint (active d') = endpoint (active d) \<or> endpoint (active d') = None) \<and>
     active_buf (active d') = active_buf (active d) \<and> active_len (active d') = active_len (active d) \<and>
     (fifo_of (trace d') = fifo_of (trace d) \<or> fifo_of (trace d') = []) \<and> lively d d'"

lemma calmI: "active d' = active d \<Longrightarrow> running d' = running d \<Longrightarrow> rpc_same (trace d) (trace d') \<Longrightarrow> calm d d'"
  by (simp add: calm_def lively_def rpc_same_def)

lemma calm_refl [simp]: "calm d d"
  by (simp add: calm_def lively_def)

text \<open>The state a control request leaves before an end request stops the manager.\<close>

definition ctrl_applied :: "('e, 'd) env \<Rightarrow> ctrl_req_r \<Rightarrow> device \<Rightarrow> device" where
  "ctrl_applied E req d =
     (case req of
        ctrl_req_ctrl_reset_m \<Rightarrow> if CONFIG_POUCH_PROV_WIFI E then pouch_prov_wifi_reset_state d else d
      | ctrl_req_ctrl_reprovision_m \<Rightarrow>
          let d = (if CONFIG_POUCH_PROV_WIFI E then pouch_prov_wifi_reprovision d else d) in
          if CONFIG_POUCH_PROV_CRED E then pouch_prov_cred_delete_all d else d
      | ctrl_req_ctrl_end_m \<Rightarrow> d)"

definition ctrl_op :: "ctrl_req_r \<Rightarrow> u32" where
  "ctrl_op req = (case req of ctrl_req_ctrl_reset_m \<Rightarrow> 0 | ctrl_req_ctrl_reprovision_m \<Rightarrow> 1 | ctrl_req_ctrl_end_m \<Rightarrow> 2)"

lemma handle_ctrl_eq:
  "pouch_prov_handle_ctrl E req n d =
     (case cbor_decode_ctrl_req (zdec E) req of
        None \<Rightarrow> Some (Inl EBADMSG, d)
      | Some (choice, consumed) \<Rightarrow>
          let d = ctrl_applied E choice d;
              enc = cbor_encode_ctrl_rsp (zenc E) n
                \<lparr>ctrl_rsp_ctrl_op_m = ctrl_op choice, ctrl_rsp_prov_status_m = prov_status_status_ok_m_c\<rparr>
          in do {
            d \<leftarrow> (if choice = ctrl_req_ctrl_end_m \<and> enc \<noteq> None then pouch_prov_ctrl_end_requested E d else Some d);
            Some (case enc of Some rsp \<Rightarrow> Inr rsp | None \<Rightarrow> Inl ENOMEM, d)
          })"
proof (cases "cbor_decode_ctrl_req (zdec E) req")
  case (Some ic)
  obtain i c where "ic = (i, c)" by (cases ic)
  with Some show ?thesis
    by (cases i) (simp_all add: pouch_prov_handle_ctrl_def ctrl_applied_def ctrl_op_def ctrl_ops Let_def)
qed (simp add: pouch_prov_handle_ctrl_def)

lemma ctrl_applied_keeps:
  assumes inv: "device_inv E d"
  shows "device_inv E (ctrl_applied E req d)" and "calm d (ctrl_applied E req d)"
    and "authorized (ctrl_applied E req d) = authorized d"
proof -
  note w = wifi_onlyD(7,3,13)[OF wifi_config_reset_only[of d]] and w8 = wifi_onlyD(8)[OF wifi_config_reset_only[of d]]
  note v = wifi_onlyD(7,3,13,8)[OF reprovision_only[of d]]
  let ?d1 = "if CONFIG_POUCH_PROV_WIFI E then pouch_prov_wifi_reprovision d else d"
  have i1: "device_inv E ?d1" and a1: "active ?d1 = active d" "running ?d1 = running d" "rpc_same (trace d) (trace ?d1)"
    using inv reprovision_device_inv[OF inv] v by simp_all
  have c1: "cred_inv ?d1" using i1 by (simp add: device_inv_def)
  note r1 = rpc_same_trans[OF a1(3) delete_all_keeps(4)[OF c1]] and n1 = trans[OF delete_all_keeps(3)[OF c1] a1(2)]
  show "device_inv E (ctrl_applied E req d)"
    using inv i1 delete_all_device_inv[OF i1] wifi_reset_state_device_inv[OF inv]
    by (auto simp: ctrl_applied_def Let_def split: ctrl_req_r.splits)
  show "calm d (ctrl_applied E req d)"
    using calmI[OF a1] calmI[OF trans[OF delete_all_active(1)[OF c1] a1(1)] n1 r1] calmI[OF w]
    by (auto simp: ctrl_applied_def Let_def pouch_prov_wifi_reset_state_def split: ctrl_req_r.splits)
  have "authorized (pouch_prov_cred_delete_all ?d1) = authorized d" using delete_all_active(2)[OF c1] v by simp
  then show "authorized (ctrl_applied E req d) = authorized d" using v w8
    by (auto simp: ctrl_applied_def Let_def pouch_prov_wifi_reset_state_def split: ctrl_req_r.splits)
qed

context kernel begin

lemma end_requested_effect:
  assumes inv: "device_inv E d"
  shows "\<exists>d'. pouch_prov_ctrl_end_requested E d = Some d' \<and> device_inv E d' \<and> calm d d' \<and> \<not> running d' \<and>
    (authorized d' \<longrightarrow> authorized d)"
proof (cases "running d")
  case True
  from stop_effect[OF inv True] show ?thesis by (auto simp: pouch_prov_ctrl_end_requested_def calm_def lively_def)
next
  case False
  then show ?thesis using inv by (simp add: pouch_prov_ctrl_end_requested_def pouch_prov_mgr_stop_def)
qed

lemma handle_ctrl_effect:
  assumes inv: "device_inv E d"
  shows "\<exists>r d'. pouch_prov_handle_ctrl E req n d = Some (r, d') \<and> device_inv E d' \<and> calm d d' \<and>
    (authorized d' \<longrightarrow> authorized d)"
proof (cases "cbor_decode_ctrl_req (zdec E) req")
  case None
  then show ?thesis using inv by (simp add: handle_ctrl_eq)
next
  case (Some ic)
  obtain i c where ic: "ic = (i, c)" by (cases ic)
  note k = ctrl_applied_keeps[OF inv, of i]
  obtain d' where e: "pouch_prov_ctrl_end_requested E (ctrl_applied E i d) = Some d'" "device_inv E d'"
    "calm (ctrl_applied E i d) d'" "authorized d' \<longrightarrow> authorized (ctrl_applied E i d)" using end_requested_effect[OF k(1)] by blast
  have "calm d d'" using k(2) e(3) by (auto simp: calm_def lively_def)
  then show ?thesis using Some ic k e by (cases i) (simp_all add: handle_ctrl_eq Let_def)
qed

end

subsection \<open>The contract of a handler\<close>

text \<open>
  What the dispatcher relies on: a handler keeps the device invariant, leaves the request in the
  buffer, keeps the queued responses or drops them all, keeps the manager running or ends it, does
  not authorize the session unless it is the authenticator, and returns on every state in \<open>safe\<close>.
\<close>

locale endpoint_handler = kernel E for E :: "('e, 'd) env" +
  fixes h :: "bytes \<Rightarrow> nat \<Rightarrow> device \<Rightarrow> ((errno + bytes) \<times> device) option" and safe :: "device \<Rightarrow> bool"
    and authenticator :: bool
  assumes handler_inv: "device_inv E d \<Longrightarrow> h req n d = Some (r, d') \<Longrightarrow> device_inv E d'"
    and handler_calm: "device_inv E d \<Longrightarrow> h req n d = Some (r, d') \<Longrightarrow> calm d d'"
    and handler_auth: "device_inv E d \<Longrightarrow> h req n d = Some (r, d') \<Longrightarrow> authorized d' \<Longrightarrow> authorized d \<or> authenticator"
    and handler_total: "device_inv E d \<Longrightarrow> safe d \<Longrightarrow> \<exists>r d'. h req n d = Some (r, d')"

lemma ver_contract: "kernel E \<Longrightarrow> endpoint_handler E (pouch_prov_handle_ver E) (\<lambda>d. True) False"
  by (intro endpoint_handler.intro endpoint_handler_axioms.intro)
     (auto simp: pouch_prov_handle_ver_def split: option.splits)

lemma auth_contract:
  assumes "kernel E" and A: "CONFIG_POUCH_PROV_AUTH E"
  shows "endpoint_handler E (pouch_prov_handle_auth E) (\<lambda>d. pop (config d) \<noteq> None) True"
proof (intro endpoint_handler.intro endpoint_handler_axioms.intro)
  fix d d' :: device and req n r
  assume h: "pouch_prov_handle_auth E req n d = Some (r, d')"
  show "calm d d'" using auth_onlyD(8,3,13)[OF handle_auth_only[OF h]] by (rule calmI)
qed (use assms handle_auth_inv handle_auth_defined in blast)+

lemma config_contract:
  assumes "kernel E"
  shows "endpoint_handler E (pouch_prov_handle_config E) (\<lambda>d. \<not> status_dangles E d) False"
proof (intro endpoint_handler.intro endpoint_handler_axioms.intro)
  fix d d' :: device and req n r
  assume h: "pouch_prov_handle_config E req n d = Some (r, d')"
  note w = wifi_onlyD(7,3,13,8)[OF handle_config_keeps(1)[OF h]]
  show "calm d d'" using w(1-3) by (rule calmI)
  show "authorized d \<or> False" if "authorized d'" using that w(4) by simp
qed (use assms handle_config_inv handle_config_defined in blast)+

lemma scan_contract:
  assumes "kernel E"
  shows "endpoint_handler E (pouch_prov_handle_scan E) (\<lambda>d. True) False"
proof (intro endpoint_handler.intro endpoint_handler_axioms.intro)
  fix d d' :: device and req n r
  assume h: "pouch_prov_handle_scan E req n d = Some (r, d')"
  note w = scan_onlyD(8,3,14,9)[OF handle_scan_keeps(1)[OF h]]
  show "calm d d'" using w(1-3) by (rule calmI)
  show "authorized d \<or> False" if "authorized d'" using that w(4) by simp
qed (use assms handle_scan_inv handle_scan_defined in blast)+

lemma cred_contract:
  assumes "kernel E"
  shows "endpoint_handler E (pouch_prov_handle_cred E) (\<lambda>d. True) False"
proof (intro endpoint_handler.intro endpoint_handler_axioms.intro)
  fix d d' :: device and req n r
  assume i: "device_inv E d" and h: "pouch_prov_handle_cred E req n d = Some (r, d')"
  from handle_cred_effect[OF i, of req n] h have e: "device_inv E d'" "cred_only d d'" by auto
  show "device_inv E d'" by (rule e)
  show "calm d d'" using cred_onlyD(8,3,12)[OF e(2)] by (rule calmI)
  show "authorized d \<or> False" if "authorized d'" using that cred_onlyD(9)[OF e(2)] by simp
qed (use assms handle_cred_effect in blast)+

lemma ctrl_contract:
  assumes "kernel E"
  shows "endpoint_handler E (pouch_prov_handle_ctrl E) (\<lambda>d. True) False"
proof (intro endpoint_handler.intro endpoint_handler_axioms.intro)
  fix d d' :: device and req n r
  assume i: "device_inv E d" and h: "pouch_prov_handle_ctrl E req n d = Some (r, d')"
  from kernel.handle_ctrl_effect[OF assms i, of req n] h
  have e: "device_inv E d'" "calm d d'" "authorized d' \<longrightarrow> authorized d" by auto
  show "device_inv E d'" "calm d d'" by (rule e)+
  show "authorized d \<or> False" if "authorized d'" using that e(3) by simp
qed (use assms kernel.handle_ctrl_effect in blast)+

interpretation ref_ver: endpoint_handler ref_env "pouch_prov_handle_ver ref_env" "\<lambda>d. True" False
  by (rule ver_contract) unfold_locales

interpretation ref_auth: endpoint_handler ref_env "pouch_prov_handle_auth ref_env" "\<lambda>d. pop (config d) \<noteq> None" True
  by (rule auth_contract) (unfold_locales, simp add: ref_env_def)

interpretation ref_config: endpoint_handler ref_env "pouch_prov_handle_config ref_env" "\<lambda>d. \<not> status_dangles ref_env d" False
  by (rule config_contract) unfold_locales

interpretation ref_scan: endpoint_handler ref_env "pouch_prov_handle_scan ref_env" "\<lambda>d. True" False
  by (rule scan_contract) unfold_locales

interpretation ref_cred: endpoint_handler ref_env "pouch_prov_handle_cred ref_env" "\<lambda>d. True" False
  by (rule cred_contract) unfold_locales

interpretation ref_ctrl: endpoint_handler ref_env "pouch_prov_handle_ctrl ref_env" "\<lambda>d. True" False
  by (rule ctrl_contract) unfold_locales

subsection \<open>The version request\<close>

lemma u32_tok_size: "length (tok_bytes (u32_tok x)) \<le> 5"
  using unat_lt_u32[of x] by (simp add: u32_tok_def cbor_head_def)

lemma ver_rsp_size: "length (toks_bytes (ver_rsp_toks (ver_out E d))) \<le> 384"
  using u32_tok_size[of "CONFIG_POUCH_BLOCK_SIZE E"]
  by (auto simp: ver_out_def ver_caps_def toks_defs cbor_head_def str_bytes_def LIB_VERSION_def PROTO_VERSION_def u32_tok_def)

lemma version_answered:
  assumes "zcbor_encoder (zenc E) R" and "zcbor_decoder (zdec E) R'"
  shows "pouch_prov_handle_ver E [0x81, 0] POUCH_PROV_MSG_MAX d = Some (Inr (toks_bytes (ver_rsp_toks (ver_out E d))), d)"
proof -
  have wf: "list_all wf_tok [T_list 1, T_uint 0]" by simp
  have b: "[0x81, 0] = toks_bytes [T_list 1, T_uint 0]" by (simp add: cbor_head_def)
  have "cbor_decode_ver_req (zdec E) [0x81, 0] = Some 2"
    unfolding b zcbor_decoder.cbor_decode_ver_req_ref[OF assms(2) wf] using dec_ver_req[OF wf, of 2] by (simp add: cbor_head_def)
  moreover have "ver_rsp_ok (ver_out E d)" by (simp add: ver_rsp_ok_def ver_out_def ver_caps_def status_ok_def)
  ultimately show ?thesis using ver_rsp_size[of E d]
    by (simp add: pouch_prov_handle_ver_def zcbor_encoder.cbor_encode_ver_rsp_ref[OF assms(1)] enc_ver_rsp emit_toks_def
        POUCH_PROV_MSG_MAX_def)
qed

end
