(* ===== verification/Dispatch.thy ===== *)
theory Dispatch
  imports Handlers
begin

text \<open>
  The dispatcher (\<^verbatim>\<open>src/dispatch.c\<close>): the endpoint table, the reassembly of a request from the
  fragments of a downlink entry, the authorization gate and the error responses.
\<close>

subsection \<open>The endpoint table\<close>

record pouch_prov_endpoint =
  ep_path :: string
  ep_handler :: "bytes \<Rightarrow> nat \<Rightarrow> device \<Rightarrow> ((errno + bytes) \<times> device) option"
  ep_require_auth :: bool

definition POUCH_PROV_PATH_VER :: string where "POUCH_PROV_PATH_VER = ''.prov/ver''"
definition POUCH_PROV_PATH_AUTH :: string where "POUCH_PROV_PATH_AUTH = ''.prov/auth''"
definition POUCH_PROV_PATH_CONFIG :: string where "POUCH_PROV_PATH_CONFIG = ''.prov/config''"
definition POUCH_PROV_PATH_SCAN :: string where "POUCH_PROV_PATH_SCAN = ''.prov/scan''"
definition POUCH_PROV_PATH_CRED :: string where "POUCH_PROV_PATH_CRED = ''.prov/cred''"
definition POUCH_PROV_PATH_CTRL :: string where "POUCH_PROV_PATH_CTRL = ''.prov/ctrl''"

lemmas path_defs = POUCH_PROV_PATH_VER_def POUCH_PROV_PATH_AUTH_def POUCH_PROV_PATH_CONFIG_def
  POUCH_PROV_PATH_SCAN_def POUCH_PROV_PATH_CRED_def POUCH_PROV_PATH_CTRL_def

definition endpoints :: "('e, 'd) env \<Rightarrow> pouch_prov_endpoint list" where
  "endpoints E =
     [\<lparr>ep_path = POUCH_PROV_PATH_VER, ep_handler = pouch_prov_handle_ver E, ep_require_auth = False\<rparr>] @
     (if CONFIG_POUCH_PROV_AUTH E
      then [\<lparr>ep_path = POUCH_PROV_PATH_AUTH, ep_handler = pouch_prov_handle_auth E, ep_require_auth = False\<rparr>]
      else []) @
     [\<lparr>ep_path = POUCH_PROV_PATH_CTRL, ep_handler = pouch_prov_handle_ctrl E, ep_require_auth = True\<rparr>] @
     (if CONFIG_POUCH_PROV_WIFI E
      then [\<lparr>ep_path = POUCH_PROV_PATH_CONFIG, ep_handler = pouch_prov_handle_config E, ep_require_auth = True\<rparr>,
            \<lparr>ep_path = POUCH_PROV_PATH_SCAN, ep_handler = pouch_prov_handle_scan E, ep_require_auth = True\<rparr>]
      else []) @
     (if CONFIG_POUCH_PROV_CRED E
      then [\<lparr>ep_path = POUCH_PROV_PATH_CRED, ep_handler = pouch_prov_handle_cred E, ep_require_auth = True\<rparr>]
      else [])"

subsection \<open>Operations\<close>

definition respond_status :: "('e, 'd) env \<Rightarrow> string \<Rightarrow> u32 \<Rightarrow> u32 \<Rightarrow> device \<Rightarrow> device" where
  "respond_status E path op status d =
     (case cbor_encode_ctrl_rsp (zenc E) 16 \<lparr>ctrl_rsp_ctrl_op_m = op, ctrl_rsp_prov_status_m = status\<rparr> of
        Some out \<Rightarrow> snd (pouch_prov_rpc_enqueue E path out d)
      | None \<Rightarrow> d)"

text \<open>\<open>msg\<close> is the buffer, of which \<open>n\<close> bytes are the request.\<close>

definition peek_op :: "bytes \<Rightarrow> nat \<Rightarrow> u32" where
  "peek_op msg n =
     (if 2 \<le> n \<and> 0x81 \<le> msg ! 0 \<and> msg ! 0 \<le> 0x84 \<and> msg ! 1 \<le> 0x17 then ucast (msg ! 1) else 0)"

text \<open>The search for the endpoint of a path, from index \<open>i\<close> on.\<close>

fun find_endpoint :: "pouch_prov_endpoint list \<Rightarrow> nat \<Rightarrow> string \<Rightarrow> nat option" where
  "find_endpoint [] i path = None"
| "find_endpoint (ep # eps) i path = (if ep_path ep = path then Some i else find_endpoint eps (i + 1) path)"

definition downlink_start :: "('e, 'd) env \<Rightarrow> u32 \<Rightarrow> string \<Rightarrow> u16 \<Rightarrow> device \<Rightarrow> device" where
  "downlink_start E stream_id path content_type d =
     (let d = d\<lparr>active := (active d)\<lparr>endpoint := None, active_len := 0, overflow := False\<rparr>\<rparr> in
      if stream_id \<noteq> 0 \<or> \<not> prefix ''.prov/'' path then d
      else if content_type \<noteq> POUCH_CONTENT_TYPE_CBOR E then d
      else case find_endpoint (endpoints E) 0 path of
             Some i \<Rightarrow> d\<lparr>active := (active d)\<lparr>endpoint := Some i\<rparr>\<rparr>
           | None \<Rightarrow> d)"

text \<open>The part of \<^verbatim>\<open>downlink_data\<close> after the last fragment: \<open>ep\<close> is the endpoint of the request.\<close>

definition downlink_complete :: "('e, 'd) env \<Rightarrow> pouch_prov_endpoint \<Rightarrow> device \<Rightarrow> device option" where
  "downlink_complete E ep d =
     (if overflow (active d)
      then Some (respond_status E (ep_path ep) 0 prov_status_status_invalid_argument_m_c d)
      else if ep_require_auth ep \<and> \<not> pouch_prov_session_authorized d
      then Some (respond_status E (ep_path ep) (peek_op (active_buf (active d)) (active_len (active d)))
             prov_status_status_unauthorized_m_c d)
      else do {
        req \<leftarrow> mem_read (active_buf (active d)) 0 (active_len (active d));
        (err, d) \<leftarrow> ep_handler ep req POUCH_PROV_MSG_MAX d;
        (case err of
           Inl e \<Rightarrow>
             Some (respond_status E (ep_path ep) (peek_op (active_buf (active d)) (active_len (active d)))
               (if e = EBADMSG then prov_status_status_invalid_argument_m_c
                else prov_status_status_internal_error_m_c) d)
         | Inr rsp \<Rightarrow>
             Some (if 0 < length rsp then snd (pouch_prov_rpc_enqueue E (ep_path ep) rsp d) else d))
      })"

definition downlink_data :: "('e, 'd) env \<Rightarrow> u32 \<Rightarrow> bytes \<Rightarrow> bool \<Rightarrow> device \<Rightarrow> device option" where
  "downlink_data E stream_id data is_last d =
     (case endpoint (active d) of
        None \<Rightarrow> Some d
      | Some i \<Rightarrow>
          if stream_id \<noteq> 0 then Some d
          else do {
            d \<leftarrow> (if POUCH_PROV_MSG_MAX < active_len (active d) + length data
                  then Some (d\<lparr>active := (active d)\<lparr>overflow := True\<rparr>\<rparr>)
                  else do {
                    m \<leftarrow> memcpy_at (active_buf (active d)) (active_len (active d)) data;
                    Some (d\<lparr>active := (active d)\<lparr>active_buf := m, active_len := active_len (active d) + length data\<rparr>\<rparr>)
                  });
            (if \<not> is_last then Some d
             else downlink_complete E (endpoints E ! i) (d\<lparr>active := (active d)\<lparr>endpoint := None\<rparr>\<rparr>))
          })"

text \<open>A downlink entry as pouch delivers it: the start of the stream, then its fragments in order.\<close>

fun downlink_fragments :: "('e, 'd) env \<Rightarrow> u32 \<Rightarrow> bytes list \<Rightarrow> device \<Rightarrow> device option" where
  "downlink_fragments E s [] d = Some d"
| "downlink_fragments E s [f] d = downlink_data E s f True d"
| "downlink_fragments E s (f # g # fs) d = downlink_data E s f False d \<bind> downlink_fragments E s (g # fs)"

definition downlink_entry :: "('e, 'd) env \<Rightarrow> u32 \<Rightarrow> string \<Rightarrow> u16 \<Rightarrow> bytes list \<Rightarrow> device \<Rightarrow> device option" where
  "downlink_entry E stream_id path content_type fs d =
     downlink_fragments E stream_id fs (downlink_start E stream_id path content_type d)"

subsection \<open>The table\<close>

lemma endpoints_distinct: "distinct (map ep_path (endpoints E))"
  by (cases "CONFIG_POUCH_PROV_AUTH E"; cases "CONFIG_POUCH_PROV_WIFI E"; cases "CONFIG_POUCH_PROV_CRED E")
     (simp_all add: endpoints_def path_defs)

lemma find_endpoint_Some:
  "find_endpoint eps n path = Some i \<Longrightarrow> n \<le> i \<and> i - n < length eps \<and> ep_path (eps ! (i - n)) = path"
proof (induction eps arbitrary: n)
  case (Cons ep eps)
  show ?case
  proof (cases "ep_path ep = path")
    case False
    with Cons.prems have "find_endpoint eps (n + 1) path = Some i" by simp
    from Cons.IH[OF this] have "n + 1 \<le> i" "i - (n + 1) < length eps" "ep_path (eps ! (i - (n + 1))) = path" by auto
    moreover from this(1) have "i - n = Suc (i - (n + 1))" by simp
    ultimately show ?thesis by simp
  qed (use Cons.prems in simp)
qed simp

lemma find_endpoint_None: "find_endpoint eps n path = None \<longleftrightarrow> path \<notin> ep_path ` set eps"
  by (induction eps arbitrary: n) auto

lemma find_endpoint_nth:
  "distinct (map ep_path eps) \<Longrightarrow> i < length eps \<Longrightarrow> find_endpoint eps n (ep_path (eps ! i)) = Some (n + i)"
proof (induction eps arbitrary: n i)
  case (Cons ep eps)
  then show ?case by (cases i) (auto dest: nth_mem)
qed simp

lemma endpoint_path_prefix: "ep \<in> set (endpoints E) \<Longrightarrow> prefix ''.prov/'' (ep_path ep)"
  by (auto simp: endpoints_def path_defs split: if_splits)

text \<open>Where a handler is defined.\<close>

definition ep_safe :: "('e, 'd) env \<Rightarrow> pouch_prov_endpoint \<Rightarrow> device \<Rightarrow> bool" where
  "ep_safe E ep d \<longleftrightarrow> (ep_path ep = POUCH_PROV_PATH_AUTH \<longrightarrow> pop (config d) \<noteq> None) \<and>
     (ep_path ep = POUCH_PROV_PATH_CONFIG \<longrightarrow> \<not> status_dangles E d)"

lemma endpoint_contract:
  assumes K: "kernel E" and ep: "ep \<in> set (endpoints E)"
  shows "endpoint_handler E (ep_handler ep) (ep_safe E ep) (ep_path ep = POUCH_PROV_PATH_AUTH)"
proof -
  note c = ver_contract[OF K] auth_contract[OF K] config_contract[OF K] scan_contract[OF K] cred_contract[OF K]
    ctrl_contract[OF K]
  show ?thesis using ep c
    by (auto simp: endpoints_def ep_safe_def[abs_def] path_defs split: if_splits)
qed

subsection \<open>Responses\<close>

lemma respond_status_sel [simp]:
  "config (respond_status E p op st d) = config d" "initialized (respond_status E p op st d) = initialized d"
  "running (respond_status E p op st d) = running d" "blobs (respond_status E p op st d) = blobs d"
  "wc (respond_status E p op st d) = wc d" "ip4 (respond_status E p op st d) = ip4 d"
  "sc (respond_status E p op st d) = sc d" "auth (respond_status E p op st d) = auth d"
  "active (respond_status E p op st d) = active d" "authorized (respond_status E p op st d) = authorized d"
  "identity (respond_status E p op st d) = identity d" "adv_enabled (respond_status E p op st d) = adv_enabled d"
  "settings_of (trace (respond_status E p op st d)) = settings_of (trace d)"
  "wifi_creds_of (trace (respond_status E p op st d)) = wifi_creds_of (trace d)"
  "ended_of (trace (respond_status E p op st d)) = ended_of (trace d)"
  by (simp_all add: respond_status_def split: option.split)

lemma respond_status_no_leak: "no_leak (trace d) \<Longrightarrow> no_leak (trace (respond_status E p op st d))"
  by (simp add: respond_status_def enqueue_no_leak split: option.split)

lemma respond_status_inv: "device_inv E d \<Longrightarrow> device_inv E (respond_status E p op st d)"
  using respond_status_no_leak[of d E p op st] by (simp add: inv_unfold)

lemma enqueue_inv: "device_inv E d \<Longrightarrow> device_inv E (snd (pouch_prov_rpc_enqueue E p m d))"
  using enqueue_no_leak[of d E p m] by (simp add: inv_unfold)

text \<open>At most one response is queued by a step, behind those that were.\<close>

definition queues_one :: "string \<Rightarrow> device \<Rightarrow> device \<Rightarrow> bool" where
  "queues_one p d d' \<longleftrightarrow> (\<exists>q m. (q = fifo_of (trace d) \<or> q = []) \<and>
     (fifo_of (trace d') = q \<or> fifo_of (trace d') = q @ [\<lparr>rsp_path = p, rsp_msg = m\<rparr>]))"

lemma enqueue_one: "fifo_of (trace d) = q \<Longrightarrow> fifo_of (trace (snd (pouch_prov_rpc_enqueue E p m d))) = q \<or>
    fifo_of (trace (snd (pouch_prov_rpc_enqueue E p m d))) = q @ [\<lparr>rsp_path = p, rsp_msg = m\<rparr>]"
  by (simp add: enqueue_fifo_cases)

lemma respond_status_one: "fifo_of (trace d) = q \<Longrightarrow> \<exists>m. fifo_of (trace (respond_status E p op st d)) = q \<or>
    fifo_of (trace (respond_status E p op st d)) = q @ [\<lparr>rsp_path = p, rsp_msg = m\<rparr>]"
  unfolding respond_status_def using enqueue_one[of d q E p] by (auto split: option.split)

text \<open>The wire form of a status response.\<close>

definition status_bytes :: "u32 \<Rightarrow> u32 \<Rightarrow> bytes" where
  "status_bytes op st = [0x82, ucast op, ucast st]"

lemma status_bytes_toks:
  "op \<le> 2 \<Longrightarrow> status_ok st \<Longrightarrow>
   toks_bytes (ctrl_rsp_toks \<lparr>ctrl_rsp_ctrl_op_m = op, ctrl_rsp_prov_status_m = st\<rparr>) = status_bytes op st"
proof -
  assume a: "op \<le> 2" "status_ok st"
  then have "unat op < 24" "unat st < 24" by (simp_all add: word_le_nat_alt status_ok_def)
  moreover have "of_nat (unat x) = ucast x" for x :: u32 by (simp add: of_nat_unat)
  ultimately show ?thesis
    by (simp add: toks_bytes_def ctrl_rsp_toks_def u32_tok_def cbor_head_def status_bytes_def)
qed

text \<open>With a conforming CBOR encoder, an operation up to 2 is answered and any other is not.\<close>

lemma ctrl_rsp_bytes:
  assumes "zcbor_encoder (zenc E) R" and "op \<le> 2" and "status_ok st"
  shows "cbor_encode_ctrl_rsp (zenc E) 16 \<lparr>ctrl_rsp_ctrl_op_m = op, ctrl_rsp_prov_status_m = st\<rparr> =
    Some (status_bytes op st)"
  using zcbor_encoder.cbor_encode_ctrl_rsp_ref[OF assms(1)] enc_ctrl_rsp[of "\<lparr>ctrl_rsp_ctrl_op_m = op, ctrl_rsp_prov_status_m = st\<rparr>" 16]
    status_bytes_toks[OF assms(2,3)] assms(2,3)
  by (simp add: ctrl_rsp_ok_def emit_toks_def status_bytes_def)

lemma ctrl_rsp_no_bytes:
  assumes "zcbor_encoder (zenc E) R" and "2 < op"
  shows "cbor_encode_ctrl_rsp (zenc E) n \<lparr>ctrl_rsp_ctrl_op_m = op, ctrl_rsp_prov_status_m = st\<rparr> = None"
  unfolding zcbor_encoder.cbor_encode_ctrl_rsp_ref[OF assms(1)] using assms(2)[unfolded not_le[symmetric]]
  by (simp add: cbor_encode_ctrl_rsp_def encode_ctrl_rsp_def zref_enc_def ref_entry_enc_def)

lemma respond_status_effect:
  assumes Z: "zcbor_encoder (zenc E) R" and st: "status_ok st"
  shows "respond_status E p op st d = (if op \<le> 2 then snd (pouch_prov_rpc_enqueue E p (status_bytes op st) d) else d)"
  using ctrl_rsp_bytes[OF Z _ st, of op] ctrl_rsp_no_bytes[OF Z, of op 16 st]
  by (auto simp: respond_status_def not_le)

subsection \<open>Reassembly\<close>

lemma downlink_data_merge:
  assumes "length (active_buf (active d)) = POUCH_PROV_MSG_MAX"
    and "active_len (active d) + length f + length g \<le> POUCH_PROV_MSG_MAX"
  shows "downlink_data E s f False d \<bind> downlink_data E s g l = downlink_data E s (f @ g) l d"
  using assms by (simp add: downlink_data_def ac_simps split: option.split)

lemma downlink_data_inner:
  assumes "length (active_buf (active d)) = POUCH_PROV_MSG_MAX"
    and "active_len (active d) + length f \<le> POUCH_PROV_MSG_MAX" and "downlink_data E s f False d = Some d'"
  shows "length (active_buf (active d')) = POUCH_PROV_MSG_MAX"
    and "active_len (active d') \<le> active_len (active d) + length f"
  using assms by (auto simp: downlink_data_def split: option.splits if_splits)

lemma reassembly:
  assumes "fs \<noteq> []" and "length (active_buf (active d)) = POUCH_PROV_MSG_MAX"
    and "active_len (active d) + length (concat fs) \<le> POUCH_PROV_MSG_MAX"
  shows "downlink_fragments E s fs d = downlink_data E s (concat fs) True d"
  using assms
proof (induction E s fs d rule: downlink_fragments.induct)
  case (3 E s f g fs d)
  have l: "active_len (active d) + length f \<le> POUCH_PROV_MSG_MAX" using "3.prems" by simp
  have "downlink_data E s f False d \<bind> downlink_fragments E s (g # fs) =
    downlink_data E s f False d \<bind> downlink_data E s (concat (g # fs)) True"
  proof (cases "downlink_data E s f False d")
    case (Some d')
    note i = downlink_data_inner[OF "3.prems"(2) l Some]
    show ?thesis using "3.IH"[of d'] Some i "3.prems"(3) by simp
  qed simp
  also have "\<dots> = downlink_data E s (f @ concat (g # fs)) True d"
    using "3.prems" by (intro downlink_data_merge) simp_all
  finally show ?case by simp
qed simp_all

text \<open>A request that does not fit is answered by its endpoint alone, whatever its fragments.\<close>

definition overflowed :: "device \<Rightarrow> device \<Rightarrow> bool" where
  "overflowed d d' \<longleftrightarrow> (\<exists>a. d' = d\<lparr>active := a\<rparr> \<and> endpoint a = None \<and> overflow a)"

lemma fragments_overflow:
  assumes "fs \<noteq> []" and "length (active_buf (active d)) = POUCH_PROV_MSG_MAX" and "endpoint (active d) = Some i"
    and "active_len (active d) \<le> POUCH_PROV_MSG_MAX"
    and "overflow (active d) \<or> POUCH_PROV_MSG_MAX < active_len (active d) + length (concat fs)"
  shows "\<exists>d'. overflowed d d' \<and> downlink_fragments E 0 fs d =
    Some (respond_status E (ep_path (endpoints E ! i)) 0 prov_status_status_invalid_argument_m_c d')"
  using assms
proof (induction fs arbitrary: d)
  case (Cons f fs)
  note prems = Cons.prems and IH = Cons.IH
  let ?fits = "active_len (active d) + length f \<le> POUCH_PROV_MSG_MAX"
  let ?a = "if ?fits then (active d)\<lparr>active_buf := take (active_len (active d)) (active_buf (active d)) @ f
      @ drop (active_len (active d) + length f) (active_buf (active d)), active_len := active_len (active d) + length f\<rparr>
    else (active d)\<lparr>overflow := True\<rparr>"
  have step: "downlink_data E 0 f l d = (if l then downlink_complete E (endpoints E ! i)
      (d\<lparr>active := ?a\<lparr>endpoint := None\<rparr>\<rparr>) else Some (d\<lparr>active := ?a\<rparr>))" for l
    using Cons.prems(2,3) by (simp add: downlink_data_def)
  show ?case
  proof (cases fs)
    case Nil
    have "overflow ?a" using Cons.prems(5) Nil by auto
    then show ?thesis unfolding Nil downlink_fragments.simps step
      by (intro exI[of _ "d\<lparr>active := ?a\<lparr>endpoint := None\<rparr>\<rparr>"])
         (auto simp: downlink_complete_def overflowed_def)
  next
    case (Cons g gs)
    let ?d = "d\<lparr>active := ?a\<rparr>"
    have "overflow (active ?d) \<or> POUCH_PROV_MSG_MAX < active_len (active ?d) + length (concat fs)"
      using prems(5) by auto
    moreover have "active_len (active ?d) \<le> POUCH_PROV_MSG_MAX" "length (active_buf (active ?d)) = POUCH_PROV_MSG_MAX"
      "endpoint (active ?d) = Some i" using prems(2-4) by auto
    ultimately obtain d' where d': "overflowed ?d d'" "downlink_fragments E 0 fs ?d =
        Some (respond_status E (ep_path (endpoints E ! i)) 0 prov_status_status_invalid_argument_m_c d')"
      using IH[of ?d] Cons by blast
    have "overflowed d d'" using d'(1) by (auto simp: overflowed_def)
    moreover have "downlink_fragments E 0 (f # fs) d = downlink_fragments E 0 fs ?d" using Cons step[of False] by simp
    ultimately show ?thesis using d'(2) by metis
  qed
qed simp

subsection \<open>Serving a request\<close>

context endpoint_handler begin

lemma complete_keeps:
  assumes inv: "device_inv E d" and h: "ep_handler ep = h" and c: "downlink_complete E ep d = Some d'"
  shows "device_inv E d'" and "queues_one (ep_path ep) d d'"
    and "endpoint (active d) = None \<Longrightarrow> endpoint (active d') = None" and "lively d d'"
proof -
  consider (rejected) op st where "d' = respond_status E (ep_path ep) op st d"
    | (handled) req r d1 where "h req POUCH_PROV_MSG_MAX d = Some (r, d1)"
        "(\<exists>op st. d' = respond_status E (ep_path ep) op st d1) \<or>
         (\<exists>rsp. d' = snd (pouch_prov_rpc_enqueue E (ep_path ep) rsp d1)) \<or> d' = d1"
  proof (cases "overflow (active d) \<or> ep_require_auth ep \<and> \<not> pouch_prov_session_authorized d")
    case True
    then show ?thesis using c rejected by (auto simp: downlink_complete_def split: if_splits)
  next
    case False
    with c h obtain req r d1 where "h req POUCH_PROV_MSG_MAX d = Some (r, d1)"
      "(case r of Inl e \<Rightarrow> Some (respond_status E (ep_path ep) (peek_op (active_buf (active d1)) (active_len (active d1)))
          (if e = EBADMSG then prov_status_status_invalid_argument_m_c else prov_status_status_internal_error_m_c) d1)
        | Inr rsp \<Rightarrow> Some (if 0 < length rsp then snd (pouch_prov_rpc_enqueue E (ep_path ep) rsp d1) else d1)) = Some d'"
      by (auto simp: downlink_complete_def simp del: not_None_eq split: bind_splits)
    then show ?thesis using handled[of req r d1] by (cases r) (auto split: if_splits)
  qed
  then have "device_inv E d' \<and> queues_one (ep_path ep) d d' \<and> (endpoint (active d) = None \<longrightarrow> endpoint (active d') = None) \<and> lively d d'"
  proof cases
    case rejected
    have "queues_one (ep_path ep) d d'"
      unfolding queues_one_def rejected using respond_status_one[OF refl, of E "ep_path ep" op st d] by metis
    with rejected respond_status_inv[OF inv] show ?thesis by (simp add: lively_def)
  next
    case handled
    note i1 = handler_inv[OF inv handled(1)] and c1 = handler_calm[OF inv handled(1)]
    from handled(2) respond_status_inv[OF i1] enqueue_inv[OF i1] i1 have "device_inv E d'" by auto
    moreover from handled(2) respond_status_one[OF refl, of E "ep_path ep" _ _ d1] enqueue_one[OF refl, of E "ep_path ep" _ d1]
    have "\<exists>m. fifo_of (trace d') = fifo_of (trace d1) \<or> fifo_of (trace d') = fifo_of (trace d1) @ [\<lparr>rsp_path = ep_path ep, rsp_msg = m\<rparr>]"
      by auto
    then have "queues_one (ep_path ep) d d'" using c1 unfolding queues_one_def calm_def by metis
    moreover have "active d' = active d1" "running d' = running d1" "ended_of (trace d') = ended_of (trace d1)" using handled(2) by auto
    ultimately show ?thesis using c1 by (auto simp: calm_def lively_def)
  qed
  then show "device_inv E d'" "queues_one (ep_path ep) d d'"
    "endpoint (active d) = None \<Longrightarrow> endpoint (active d') = None" "lively d d'" by auto
qed

lemma complete_auth:
  assumes inv: "device_inv E d" and h: "ep_handler ep = h" and c: "downlink_complete E ep d = Some d'"
    and a: "authorized d'" "\<not> authorized d"
  shows "authenticator" and "\<exists>r d1. h (take (active_len (active d)) (active_buf (active d))) POUCH_PROV_MSG_MAX d = Some (r, d1) \<and>
    authorized d1"
proof -
  let ?req = "take (active_len (active d)) (active_buf (active d))"
  have m: "mem_read (active_buf (active d)) 0 (active_len (active d)) = Some ?req"
    using inv by (simp add: mem_read_def device_inv_def active_inv_def)
  have "\<not> (overflow (active d) \<or> ep_require_auth ep \<and> \<not> pouch_prov_session_authorized d)"
    using c a by (auto simp: downlink_complete_def split: if_splits)
  with c h m obtain r d1 where h1: "h ?req POUCH_PROV_MSG_MAX d = Some (r, d1)"
    and e: "(case r of Inl e \<Rightarrow> Some (respond_status E (ep_path ep) (peek_op (active_buf (active d1)) (active_len (active d1)))
          (if e = EBADMSG then prov_status_status_invalid_argument_m_c else prov_status_status_internal_error_m_c) d1)
        | Inr rsp \<Rightarrow> Some (if 0 < length rsp then snd (pouch_prov_rpc_enqueue E (ep_path ep) rsp d1) else d1)) = Some d'"
    by (auto simp: downlink_complete_def simp del: not_None_eq split: bind_splits)
  have "authorized d1" using e a(1) by (cases r) (auto split: if_splits)
  with h1 a handler_auth[OF inv h1] show "authenticator"
    "\<exists>r d1. h ?req POUCH_PROV_MSG_MAX d = Some (r, d1) \<and> authorized d1" by auto
qed

lemma complete_total:
  assumes inv: "device_inv E d" and h: "ep_handler ep = h" and s: "safe d"
  shows "\<exists>d'. downlink_complete E ep d = Some d'"
proof -
  obtain r d1 where "h (take (active_len (active d)) (active_buf (active d))) POUCH_PROV_MSG_MAX d = Some (r, d1)"
    using handler_total[OF inv s] by metis
  then show ?thesis using inv
    by (auto simp: downlink_complete_def h mem_read_def device_inv_def active_inv_def split: sum.splits)
qed

end

text \<open>The active endpoint is one of the table.\<close>

definition dispatch_inv :: "('e, 'd) env \<Rightarrow> device \<Rightarrow> bool" where
  "dispatch_inv E d \<longleftrightarrow> device_inv E d \<and> (\<forall>i. endpoint (active d) = Some i \<longrightarrow> i < length (endpoints E))"

lemma downlink_start_lively: "lively d (downlink_start E s path ct d)"
  by (simp add: downlink_start_def lively_def Let_def split: option.split)

lemma downlink_start_inv:
  assumes "device_inv E d"
  shows "dispatch_inv E (downlink_start E s path ct d)"
  using assms find_endpoint_Some[of "endpoints E" 0 path]
  by (auto simp: dispatch_inv_def inv_unfold downlink_start_def Let_def split: option.split)

text \<open>The state a fragment leaves in the buffer.\<close>

definition appended :: "bytes \<Rightarrow> device \<Rightarrow> device" where
  "appended data d =
     (let a = active d in
      d\<lparr>active := if POUCH_PROV_MSG_MAX < active_len a + length data then a\<lparr>overflow := True\<rparr>
        else a\<lparr>active_buf := take (active_len a) (active_buf a) @ data @ drop (active_len a + length data) (active_buf a),
               active_len := active_len a + length data\<rparr>\<rparr>)"

lemma downlink_data_eq:
  assumes "device_inv E d"
  shows "downlink_data E s data l d =
    (case endpoint (active d) of None \<Rightarrow> Some d
     | Some i \<Rightarrow> if s \<noteq> 0 then Some d
         else if \<not> l then Some (appended data d)
         else downlink_complete E (endpoints E ! i)
           ((appended data d)\<lparr>active := (active (appended data d))\<lparr>endpoint := None\<rparr>\<rparr>))"
  using assms by (auto simp: downlink_data_def appended_def device_inv_def active_inv_def Let_def split: option.split)

lemma appended_inv: "device_inv E d \<Longrightarrow> device_inv E (appended data d)"
  by (auto simp: inv_unfold appended_def Let_def)

lemma appended_sel [simp]: "endpoint (active (appended data d)) = endpoint (active d)"
  "trace (appended data d) = trace d" "config (appended data d) = config d" "wc (appended data d) = wc d"
  "authorized (appended data d) = authorized d" "running (appended data d) = running d"
  by (simp_all add: appended_def Let_def)

lemma end_request_inv: "device_inv E d \<Longrightarrow> device_inv E (d\<lparr>active := (active d)\<lparr>endpoint := None\<rparr>\<rparr>)"
  by (simp add: inv_unfold)

lemma downlink_data_inv:
  assumes K: "kernel E" and inv: "dispatch_inv E d" and d': "downlink_data E s data l d = Some d'"
  shows "dispatch_inv E d' \<and> lively d d'"
proof (cases "endpoint (active d) = None \<or> s \<noteq> 0")
  case True
  have "device_inv E d" using inv by (simp add: dispatch_inv_def)
  from downlink_data_eq[OF this] True d' inv show ?thesis by (auto simp: lively_def split: option.splits)
next
  case False
  then obtain i where i: "endpoint (active d) = Some i" "s = 0" by auto
  have dv: "device_inv E d" and il: "i < length (endpoints E)" using inv i by (simp_all add: dispatch_inv_def)
  let ?d = "(appended data d)\<lparr>active := (active (appended data d))\<lparr>endpoint := None\<rparr>\<rparr>"
  have i1: "device_inv E (appended data d)" "device_inv E ?d" using appended_inv[OF dv] end_request_inv by blast+
  note C = endpoint_contract[OF K nth_mem[OF il]]
  show ?thesis
  proof (cases l)
    case True
    then have c: "downlink_complete E (endpoints E ! i) ?d = Some d'" using d' downlink_data_eq[OF dv] i by simp
    from endpoint_handler.complete_keeps(1,3,4)[OF C i1(2) refl c] show ?thesis by (simp add: dispatch_inv_def lively_def)
  next
    case False
    then show ?thesis using d' downlink_data_eq[OF dv] i il i1(1) by (auto simp: dispatch_inv_def lively_def)
  qed
qed

text \<open>A fragment is processed without undefined behaviour on the states the handlers are safe on.\<close>

definition request_safe :: "('e, 'd) env \<Rightarrow> device \<Rightarrow> bool" where
  "request_safe E d \<longleftrightarrow> pop (config d) \<noteq> None \<and> \<not> status_dangles E d"

lemma downlink_data_total:
  assumes K: "kernel E" and inv: "dispatch_inv E d" and safe: "request_safe E d"
  shows "\<exists>d'. downlink_data E s data l d = Some d'"
proof (cases "endpoint (active d)")
  case None
  then show ?thesis by (simp add: downlink_data_def)
next
  case (Some i)
  have dv: "device_inv E d" and il: "i < length (endpoints E)" using inv Some by (simp_all add: dispatch_inv_def)
  let ?d = "(appended data d)\<lparr>active := (active (appended data d))\<lparr>endpoint := None\<rparr>\<rparr>"
  have i1: "device_inv E ?d" using appended_inv[OF dv] end_request_inv by blast
  have "ep_safe E (endpoints E ! i) ?d" using safe
    by (simp add: request_safe_def ep_safe_def status_dangles_def wifi_iface_def cong: option.case_cong)
  from endpoint_handler.complete_total[OF endpoint_contract[OF K nth_mem[OF il]] i1 refl this]
  show ?thesis using downlink_data_eq[OF dv, of s data l] Some by auto
qed

subsection \<open>The gate\<close>

text \<open>Calls the response queue makes; none of them reaches a store, a driver or the radio.\<close>

definition queue_call :: "ext \<Rightarrow> bool" where
  "queue_call x \<longleftrightarrow> (case x of X_malloc n ok \<Rightarrow> True | X_fifo_put r \<Rightarrow> True | X_sem_give \<Rightarrow> True | _ \<Rightarrow> False)"

lemma respond_status_calls: "\<exists>new. trace (respond_status E p op st d) = new @ trace d \<and> list_all queue_call new"
proof -
  have "\<exists>new. trace (snd (pouch_prov_rpc_enqueue E p m d)) = new @ trace d \<and> list_all queue_call new" for m
    by (simp add: pouch_prov_rpc_enqueue_def Let_def queue_call_def)
  then show ?thesis by (auto simp: respond_status_def split: option.split)
qed

text \<open>Everything but the request in progress and the log is as before.\<close>

definition untouched :: "device \<Rightarrow> device \<Rightarrow> bool" where
  "untouched d d' \<longleftrightarrow> config d' = config d \<and> initialized d' = initialized d \<and> running d' = running d \<and> blobs d' = blobs d \<and>
     wc d' = wc d \<and> ip4 d' = ip4 d \<and> sc d' = sc d \<and> auth d' = auth d \<and> authorized d' = authorized d \<and>
     identity d' = identity d \<and> adv_enabled d' = adv_enabled d"

lemma appended_untouched:
  "untouched d ((appended data d)\<lparr>active := a\<rparr>)"
  by (simp add: untouched_def appended_def Let_def)

lemma respond_untouched: "untouched d e \<Longrightarrow> untouched d (respond_status E p op st e)"
  by (simp add: untouched_def)

lemma gated_request:
  assumes inv: "device_inv E d" and i: "endpoint (active d) = Some i" and g: "ep_require_auth (endpoints E ! i)"
    and na: "\<not> authorized d" "pop (config d) \<noteq> None"
    and fits: "\<not> overflow (active d)" "active_len (active d) + length data \<le> POUCH_PROV_MSG_MAX"
  defines "req \<equiv> take (active_len (active d)) (active_buf (active d)) @ data"
  shows "\<exists>e. downlink_data E 0 data True d = Some (respond_status E (ep_path (endpoints E ! i)) (peek_op req (length req))
      prov_status_status_unauthorized_m_c e) \<and> untouched d e \<and> trace e = trace d"
proof -
  let ?e = "(appended data d)\<lparr>active := (active (appended data d))\<lparr>endpoint := None\<rparr>\<rparr>"
  have a: "active_inv d" using inv by (simp add: device_inv_def)
  then have l: "length req = active_len (active d) + length data" by (simp add: req_def active_inv_def)
  have b: "active_buf (active ?e) = req @ drop (length req) (active_buf (active d))" "active_len (active ?e) = length req"
    "\<not> overflow (active ?e)" using fits l a by (simp_all add: appended_def req_def active_inv_def Let_def)
  have p: "peek_op (req @ x) (length req) = peek_op req (length req)" for x
    by (auto simp: peek_op_def nth_append)
  have "\<not> pouch_prov_session_authorized ?e" using na by (simp add: pouch_prov_session_authorized_def)
  then have "downlink_complete E (endpoints E ! i) ?e = Some (respond_status E (ep_path (endpoints E ! i))
      (peek_op req (length req)) prov_status_status_unauthorized_m_c ?e)"
    using g b by (simp add: downlink_complete_def p)
  then show ?thesis using downlink_data_eq[OF inv, of 0 data True] i appended_untouched by fastforce
qed

text \<open>Which endpoint a stream selects.\<close>

lemma start_selects:
  "endpoint (active (downlink_start E s path ct d)) = Some i \<longleftrightarrow>
     s = 0 \<and> ct = POUCH_CONTENT_TYPE_CBOR E \<and> i < length (endpoints E) \<and> ep_path (endpoints E ! i) = path"
proof -
  have "find_endpoint (endpoints E) 0 path = Some i \<longleftrightarrow> i < length (endpoints E) \<and> ep_path (endpoints E ! i) = path"
    using find_endpoint_Some[of "endpoints E" 0 path i] find_endpoint_nth[OF endpoints_distinct[of E], of i 0] by auto
  moreover have "i < length (endpoints E) \<Longrightarrow> prefix ''.prov/'' (ep_path (endpoints E ! i))"
    using endpoint_path_prefix[OF nth_mem] .
  ultimately show ?thesis
    by (auto simp: downlink_start_def Let_def split: option.splits)
qed

end
