(* ===== verification/Session.thy ===== *)
theory Session
  imports Dispatch
begin

text \<open>
  The library as a whole: every entry point the application, the pouch transport, the Bluetooth
  stack, the Wi-Fi driver and the kernel's work queue call, as one event each. An entry point runs
  to completion before the next one, and an event callback of the application does not call back
  into the library. Runs are arbitrary sequences of events, so they cover every order in which the
  callers may interleave.
\<close>

subsection \<open>Events\<close>

datatype event =
    E_init "pouch_prov_config option"
  | E_start
  | E_stop
  | E_reset
  | E_wait
  | E_connected nat
  | E_disconnected
  | E_recycled
  | E_downlink_start u32 string u16
  | E_downlink_data u32 bytes bool
  | E_uplink_flush
  | E_autostop
  | E_connect_result int conn_status
  | E_retry
  | E_scan_result wifi_scan_result
  | E_scan_done
  | E_tick nat

fun step :: "('e, 'd) env \<Rightarrow> event \<Rightarrow> device \<Rightarrow> device option" where
  "step E (E_init cfg) d = map_option snd (pouch_prov_mgr_init E cfg d)"
| "step E E_start d = map_option snd (pouch_prov_mgr_start E d)"
| "step E E_stop d = map_option snd (pouch_prov_mgr_stop E d)"
| "step E E_reset d = pouch_prov_mgr_reset E d"
| "step E E_wait d = Some (snd (pouch_prov_mgr_wait E d))"
| "step E (E_connected err) d = Some (connected E err d)"
| "step E E_disconnected d = disconnected E d"
| "step E E_recycled d = Some (recycled E d)"
| "step E (E_downlink_start s path ct) d = Some (downlink_start E s path ct d)"
| "step E (E_downlink_data s data l) d = downlink_data E s data l d"
| "step E E_uplink_flush d = rpc_uplink_flush E d"
| "step E E_autostop d = autostop_handler E d"
| "step E (E_connect_result st cs) d = Some (on_connect_result E st cs d)"
| "step E E_retry d = Some (retry_work_handler E d)"
| "step E (E_scan_result r) d = on_result E r d"
| "step E E_scan_done d = Some (scan_done d)"
| "step E (E_tick n) d = Some (log (X_tick n) d)"

text \<open>A scan result carries a whole hardware address.\<close>

fun valid_event :: "event \<Rightarrow> bool" where
  "valid_event (E_scan_result r) \<longleftrightarrow> length (r_mac r) = 6"
| "valid_event _ \<longleftrightarrow> True"

text \<open>A log in which the kernel objects are as at boot.\<close>

definition cold :: "trace \<Rightarrow> bool" where
  "cold t \<longleftrightarrow> fifo_of t = [] \<and> live_of t = 0"

inductive run :: "('e, 'd) env \<Rightarrow> device \<Rightarrow> event list \<Rightarrow> device \<Rightarrow> bool" for E d where
  run_nil: "run E d [] d"
| run_snoc: "run E d evs d' \<Longrightarrow> valid_event ev \<Longrightarrow> step E ev d' = Some d'' \<Longrightarrow> run E d (evs @ [ev]) d''"

inductive_cases run_nilE: "run E d [] d'"

inductive reachable :: "('e, 'd) env \<Rightarrow> device \<Rightarrow> bool" for E where
  reach_boot: "cold t \<Longrightarrow> reachable E (boot E t)"
| reach_step: "reachable E d \<Longrightarrow> valid_event ev \<Longrightarrow> step E ev d = Some d' \<Longrightarrow> reachable E d'"

lemma run_reachable: "run E (boot E t) evs d \<Longrightarrow> cold t \<Longrightarrow> reachable E d"
  by (induction rule: run.induct) (auto intro: reachable.intros)

subsection \<open>The invariant of every run\<close>

text \<open>What the code relies on outside: the kernel's objects, and bounds of the crypto provider.\<close>

locale platform = kernel E for E :: "('e, 'd) env" +
  assumes bounds: "identity_bounds E"

interpretation ref_platform: platform ref_env
  by unfold_locales (auto simp: identity_bounds_def ref_env_def)

text \<open>A change of the Wi-Fi, scan or advertising state alone.\<close>

lemma wifi_step_inv:
  assumes "device_inv E d" and o: "wifi_only d d'" and "wifi_inv d'"
  shows "device_inv E d'"
proof -
  have "no_leak (trace d')" using rpc_same_no_leak[OF wifi_onlyD(13)[OF o]] assms(1) by (simp add: device_inv_def)
  then show ?thesis using assms(1,3) wifi_onlyD[OF o] by (simp add: inv_unfold)
qed

lemma scan_step_inv:
  assumes "device_inv E d" and o: "scan_only d d'" and "scan_inv E d'"
  shows "device_inv E d'"
proof -
  have "no_leak (trace d')" using rpc_same_no_leak[OF scan_onlyD(14)[OF o]] assms(1) by (simp add: device_inv_def)
  then show ?thesis using assms(1,3) scan_onlyD[OF o] by (simp add: inv_unfold)
qed

text \<open>What every event but those of the downlink does to the request in progress and the authorization.\<close>

definition gentle :: "device \<Rightarrow> device \<Rightarrow> bool" where
  "gentle d d' \<longleftrightarrow> (endpoint (active d') = endpoint (active d) \<or> endpoint (active d') = None) \<and>
     (authorized d' \<longrightarrow> authorized d)"

lemma log_step_inv:
  assumes "device_inv E d" and "only_log d d'" and "no_leak (trace d) \<Longrightarrow> no_leak (trace d')"
    and "ended_of (trace d') = ended_of (trace d)"
  shows "device_inv E d'" and "gentle d d'" and "lively d d'"
  using assms only_logD[OF assms(2)] by (simp_all add: inv_unfold gentle_def lively_def)

lemma adv_step_inv:
  assumes "device_inv E d" and o: "adv_only d d'" and "adv_enabled d' = adv_enabled d"
  shows "device_inv E d'" and "gentle d d'" and "lively d d'"
proof -
  have "no_leak (trace d')" using rpc_same_no_leak[OF adv_onlyD(12)[OF o]] assms(1) by (simp add: device_inv_def)
  then show "device_inv E d'" "gentle d d'" "lively d d'" using assms(1,3) adv_onlyD[OF o] by (simp_all add: inv_unfold gentle_def livelyI)
qed

definition is_downlink :: "event \<Rightarrow> bool" where
  "is_downlink ev \<longleftrightarrow> (case ev of E_downlink_start s p c \<Rightarrow> True | E_downlink_data s x l \<Rightarrow> True | _ \<Rightarrow> False)"

context platform begin

lemma stop_step:
  assumes inv: "device_inv E d"
  shows "\<exists>r d'. pouch_prov_mgr_stop E d = Some (r, d') \<and> device_inv E d' \<and> gentle d d' \<and> lively d d'"
proof (cases "running d")
  case True
  from stop_effect[OF inv True] show ?thesis by (auto simp: gentle_def lively_def)
next
  case False
  then show ?thesis using inv by (simp add: pouch_prov_mgr_stop_def gentle_def lively_def)
qed

text \<open>Events outside the downlink return on every state, keep the invariant, and authorize nothing; only one starts the manager.\<close>

lemma other_step:
  assumes inv: "device_inv E d" and v: "valid_event ev" and nd: "\<not> is_downlink ev"
  shows "\<exists>d'. step E ev d = Some d' \<and> device_inv E d' \<and> gentle d d' \<and> (ev \<noteq> E_start \<longrightarrow> lively d d')"
proof (cases ev)
  case (E_init cfg)
  from init_effect[OF inv bounds, of cfg] E_init show ?thesis by (auto simp: gentle_def)
next
  case E_start
  from start_effect[OF inv] E_start show ?thesis by (auto simp: gentle_def)
next
  case E_stop
  with stop_step[OF inv] show ?thesis by auto
next
  case E_autostop
  with stop_step[OF inv] show ?thesis by (auto simp: autostop_handler_def)
next
  case E_reset
  from reset_effect[OF inv] E_reset show ?thesis by (auto simp: gentle_def)
next
  case E_disconnected
  from session_reset_inv[OF inv] E_disconnected show ?thesis
    by (auto simp: disconnected_def pouch_prov_mgr_session_ended_def gentle_def)
next
  case E_wait
  then show ?thesis
    using log_step_inv[OF inv, of "snd (pouch_prov_mgr_wait E d)"]
    by (auto simp: pouch_prov_mgr_wait_def Let_def no_leak_def)
next
  case (E_tick n)
  then show ?thesis using log_step_inv[OF inv, of "log (X_tick n) d"] by (auto simp: no_leak_def)
next
  case E_uplink_flush
  obtain d' where d': "rpc_uplink_flush E d = Some d'" "drained d d'" using flush_drains[of d] by blast
  from drainedD(1,5,6)[OF d'(2)] log_step_inv[OF inv, of d'] d'(1) E_uplink_flush show ?thesis by simp
next
  case (E_connected err)
  have "adv_enabled (connected E err d) = adv_enabled d" by (simp add: connected_def)
  from adv_step_inv[OF inv connected_only this] E_connected show ?thesis by simp
next
  case E_recycled
  have "adv_enabled (recycled E d) = adv_enabled d" by (simp add: recycled_def)
  from adv_step_inv[OF inv recycled_only this] E_recycled show ?thesis by simp
next
  case (E_connect_result st cs)
  have w: "wifi_inv d" using inv by (simp add: device_inv_def)
  note o = on_connect_result_only[of d E st cs]
  from wifi_step_inv[OF inv o on_connect_result_inv[OF w]] wifi_onlyD(3,7,8,13)[OF o] E_connect_result
  show ?thesis by (simp add: gentle_def livelyI)
next
  case E_retry
  have w: "wifi_inv d" using inv by (simp add: device_inv_def)
  note o = retry_work_only[of d E]
  from wifi_step_inv[OF inv o retry_work_inv[OF w]] wifi_onlyD(3,7,8,13)[OF o] E_retry show ?thesis by (simp add: gentle_def livelyI)
next
  case (E_scan_result r)
  have s: "scan_inv E d" and m: "length (r_mac r) = 6" using inv v E_scan_result by (simp_all add: device_inv_def)
  obtain d' where d': "on_result E r d = Some d'" "scan_inv E d'" "scan_only d d'" using on_result_effect[OF s m] by blast
  from scan_step_inv[OF inv d'(3,2)] scan_onlyD(3,8,9,14)[OF d'(3)] d'(1) E_scan_result show ?thesis by (simp add: gentle_def livelyI)
next
  case E_scan_done
  have "scan_only d (scan_done d)" "scan_inv E (scan_done d)" using inv
    by (simp_all add: scan_done_def scan_only_def device_inv_def scan_inv_def)
  from scan_step_inv[OF inv this] E_scan_done show ?thesis by (simp add: gentle_def scan_done_def lively_def)
qed (use nd in \<open>simp_all add: is_downlink_def\<close>)

lemma step_inv:
  assumes inv: "dispatch_inv E d" and v: "valid_event ev" and st: "step E ev d = Some d'"
  shows "dispatch_inv E d' \<and> (ev \<noteq> E_start \<longrightarrow> lively d d')"
proof (cases "is_downlink ev")
  case False
  have "device_inv E d" using inv by (simp add: dispatch_inv_def)
  from other_step[OF this v False] st have "device_inv E d'" "gentle d d'" "ev \<noteq> E_start \<longrightarrow> lively d d'" by auto
  with inv show ?thesis by (auto simp: dispatch_inv_def gentle_def)
next
  case True
  then show ?thesis
  proof (cases ev)
    case (E_downlink_start s p c)
    have "device_inv E d" using inv by (simp add: dispatch_inv_def)
    from downlink_start_inv[OF this, of s p c] downlink_start_lively st E_downlink_start show ?thesis by auto
  next
    case (E_downlink_data s x l)
    with st show ?thesis using downlink_data_inv[OF kernel_axioms inv] by simp
  qed (simp_all add: is_downlink_def)
qed

lemma reachable_inv: "reachable E d \<Longrightarrow> dispatch_inv E d"
proof (induction rule: reachable.induct)
  case (reach_boot t)
  have "device_inv E (boot E t)" using reach_boot by (intro boot_inv) (simp add: cold_def no_leak_def)
  then show ?case by (simp add: dispatch_inv_def boot_def)
next
  case (reach_step d ev d')
  then show ?case using step_inv by blast
qed

text \<open>Every event returns, the last fragment of a request on safe states.\<close>

lemma step_total:
  assumes inv: "dispatch_inv E d" and v: "valid_event ev" and s: "request_safe E d"
  shows "\<exists>d'. step E ev d = Some d'"
proof (cases "is_downlink ev")
  case False
  have "device_inv E d" using inv by (simp add: dispatch_inv_def)
  from other_step[OF this v False] show ?thesis by blast
next
  case True
  then show ?thesis
    by (cases ev) (use downlink_data_total[OF kernel_axioms inv s] in \<open>simp_all add: is_downlink_def\<close>)
qed

end

subsection \<open>Where an authorization comes from\<close>

text \<open>
  The event completes a request to the authentication endpoint that carries the HMAC of the two
  nonces under the proof of possession, in a session that was challenged and has attempts left.
\<close>

definition proof_step :: "('e, 'd) env \<Rightarrow> (bytes \<Rightarrow> bytes \<Rightarrow> bytes) \<Rightarrow> event \<Rightarrow> device \<Rightarrow> bool" where
  "proof_step E hmac ev d \<longleftrightarrow> (\<exists>data i p c K. ev = E_downlink_data 0 data True \<and>
     endpoint (active d) = Some i \<and> ep_path (endpoints E ! i) = POUCH_PROV_PATH_AUTH \<and>
     cbor_decode_auth_req (zdec E) (take (active_len (active (appended data d))) (active_buf (active (appended data d)))) =
       Some (auth_req_auth_proof_m p, c) \<and>
     challenged (auth d) \<and> attempts (auth d) + 1 \<le> MAX_ATTEMPTS \<and> pop (config d) = Some K \<and>
     p = hmac K (str_bytes ''cli'' @ dev_nonce (auth d) @ cli_nonce (auth d)))"

lemma auth_endpoint:
  "ep \<in> set (endpoints E) \<Longrightarrow> ep_path ep = POUCH_PROV_PATH_AUTH \<Longrightarrow> ep_handler ep = pouch_prov_handle_auth E"
  by (auto simp: endpoints_def path_defs split: if_splits)

lemma appended_auth [simp]: "auth (appended data d) = auth d"
  by (simp add: appended_def Let_def)

lemma authorizing_request:
  assumes P: "platform E" and inv: "dispatch_inv E d" and v: "valid_event ev"
    and st: "step E ev d = Some d'" and a: "authorized d'" "\<not> authorized d"
  shows "\<exists>data i r d1 e. ev = E_downlink_data 0 data True \<and> endpoint (active d) = Some i \<and> i < length (endpoints E) \<and>
    ep_path (endpoints E ! i) = POUCH_PROV_PATH_AUTH \<and> e = (appended data d)\<lparr>active := (active (appended data d))\<lparr>endpoint := None\<rparr>\<rparr> \<and>
    pouch_prov_handle_auth E (take (active_len (active e)) (active_buf (active e))) POUCH_PROV_MSG_MAX e = Some (r, d1) \<and>
    authorized d1 \<and> \<not> authorized e"
proof -
  have K: "kernel E" using P by (simp add: platform_def)
  have dv: "device_inv E d" using inv by (simp add: dispatch_inv_def)
  have "is_downlink ev" using platform.other_step[OF P dv v] st a by (auto simp: gentle_def)
  moreover have "\<not> (\<exists>s p c. ev = E_downlink_start s p c)"
    using st a by (auto simp: downlink_start_def Let_def split: if_splits option.splits)
  ultimately obtain s x l where ev: "ev = E_downlink_data s x l" by (cases ev) (auto simp: is_downlink_def)
  let ?e = "(appended x d)\<lparr>active := (active (appended x d))\<lparr>endpoint := None\<rparr>\<rparr>"
  from st ev have dd: "downlink_data E s x l d = Some d'" by simp
  from dd a downlink_data_eq[OF dv, of s x l] obtain i where i: "endpoint (active d) = Some i" "s = 0" "l"
    and c: "downlink_complete E (endpoints E ! i) ?e = Some d'"
    by (auto split: option.splits if_splits)
  have il: "i < length (endpoints E)" using inv i by (simp add: dispatch_inv_def)
  have ie: "device_inv E ?e" using end_request_inv[OF appended_inv[OF dv]] .
  have na: "\<not> authorized ?e" using a by simp
  note C = endpoint_contract[OF K nth_mem[OF il]]
  from endpoint_handler.complete_auth[OF C ie refl c a(1) na]
  have path: "ep_path (endpoints E ! i) = POUCH_PROV_PATH_AUTH" and
    h: "\<exists>r d1. ep_handler (endpoints E ! i) (take (active_len (active ?e)) (active_buf (active ?e)))
      POUCH_PROV_MSG_MAX ?e = Some (r, d1) \<and> authorized d1" by auto
  from h auth_endpoint[OF nth_mem[OF il] path] obtain r d1 where
    "pouch_prov_handle_auth E (take (active_len (active ?e)) (active_buf (active ?e))) POUCH_PROV_MSG_MAX ?e = Some (r, d1)"
    "authorized d1" by auto
  with ev i il path na show ?thesis by blast
qed

lemma authorizing_step:
  assumes P: "platform E" and H: "psa_hmac E hmac" and inv: "dispatch_inv E d" and v: "valid_event ev"
    and st: "step E ev d = Some d'" and a: "authorized d'" "\<not> authorized d"
  shows "proof_step E hmac ev d"
proof -
  from authorizing_request[OF P inv v st a] obtain data i r d1 e where r: "ev = E_downlink_data 0 data True"
    "endpoint (active d) = Some i" "ep_path (endpoints E ! i) = POUCH_PROV_PATH_AUTH"
    and e: "e = (appended data d)\<lparr>active := (active (appended data d))\<lparr>endpoint := None\<rparr>\<rparr>"
    and h: "pouch_prov_handle_auth E (take (active_len (active e)) (active_buf (active e))) POUCH_PROV_MSG_MAX e = Some (r, d1)"
      "authorized d1" "\<not> authorized e" by blast
  from psa_hmac.authorized_by_proof[OF H h] r e show ?thesis by (auto simp: proof_step_def)
qed

text \<open>Without the authentication endpoint no session is ever authorized.\<close>

lemma no_auth_endpoint: "\<not> CONFIG_POUCH_PROV_AUTH E \<Longrightarrow> ep \<in> set (endpoints E) \<Longrightarrow> ep_path ep \<noteq> POUCH_PROV_PATH_AUTH"
  by (auto simp: endpoints_def path_defs split: if_splits)

lemma never_authorized:
  assumes P: "platform E" and A: "\<not> CONFIG_POUCH_PROV_AUTH E" and "reachable E d"
  shows "\<not> authorized d"
  using assms(3)
proof (induction rule: reachable.induct)
  case (reach_step d ev d')
  show ?case
  proof
    assume "authorized d'"
    from authorizing_request[OF P platform.reachable_inv[OF P reach_step.hyps(1)] reach_step.hyps(2,3) this reach_step.IH]
    show False using no_auth_endpoint[OF A nth_mem] by blast
  qed
qed (simp add: boot_def)

text \<open>The last step to authorization in a run: afterwards the session has not been ended.\<close>

lemma authorized_origin:
  assumes P: "platform E" and H: "psa_hmac E hmac" and t: "cold t" and r: "run E (boot E t) evs d" and a: "authorized d"
  shows "\<exists>pre ev post d1. evs = pre @ ev # post \<and> run E (boot E t) pre d1 \<and> proof_step E hmac ev d1 \<and>
    E_disconnected \<notin> set post \<and> E_reset \<notin> set post"
  using r a
proof (induction rule: run.induct)
  case run_nil
  then show ?case by (simp add: boot_def)
next
  case (run_snoc evs d1 ev d2)
  have inv: "dispatch_inv E d1" using platform.reachable_inv[OF P run_reachable[OF run_snoc.hyps(1) t]] .
  have K: "kernel E" using P by (simp add: platform_def)
  show ?case
  proof (cases "authorized d1")
    case False
    from authorizing_step[OF P H inv run_snoc.hyps(2,3) run_snoc.prems False] run_snoc.hyps(1)
    have "evs @ [ev] = evs @ ev # []" "proof_step E hmac ev d1" by simp_all
    then show ?thesis using run_snoc.hyps(1) by fastforce
  next
    case True
    have dv: "device_inv E d1" using inv by (simp add: dispatch_inv_def)
    have "ev \<noteq> E_disconnected"
      using run_snoc.hyps(3) run_snoc.prems kernel.session_reset_inv[OF K dv]
      by (auto simp: disconnected_def pouch_prov_mgr_session_ended_def)
    moreover have "ev \<noteq> E_reset" using run_snoc.hyps(3) run_snoc.prems kernel.reset_effect[OF K dv] by auto
    moreover from run_snoc.IH[OF True] obtain pre e post d0 where
      "evs = pre @ e # post" "run E (boot E t) pre d0" "proof_step E hmac e d0"
      "E_disconnected \<notin> set post" "E_reset \<notin> set post" by blast
    ultimately show ?thesis
      by (intro exI[of _ pre] exI[of _ e] exI[of _ "post @ [ev]"] exI[of _ d0]) auto
  qed
qed

text \<open>The reference environment of a build without authentication.\<close>

definition ref_env_noauth :: "(est, dst) env" where
  "ref_env_noauth = ref_env\<lparr>CONFIG_POUCH_PROV_AUTH := False\<rparr>"

interpretation ref_noauth_platform: platform ref_env_noauth
  by unfold_locales (auto simp: identity_bounds_def ref_env_noauth_def ref_env_def)

interpretation ref_id_platform: platform ref_env_id
  by unfold_locales (auto simp: identity_bounds_def ref_env_id_def ref_env_def)

interpretation ref_id_wifi_store: wifi_store ref_env_id
  by unfold_locales (simp add: ref_env_id_def ref_wifi_store.is_empty)

end
