(* ===== verification/Samples.thy ===== *)
theory Samples
  imports Session
begin

text \<open>
  The sample applications (\<^verbatim>\<open>samples/basic\<close>, \<^verbatim>\<open>samples/cred_only\<close>, \<^verbatim>\<open>samples/golioth_bootstrap\<close>): what the
  library's callers do at boot, around it and after provisioning. A \<^verbatim>\<open>main\<close> runs up to a call that
  blocks, while the events of the library and of the network go on, and resumes when that call
  returns. The event callbacks of the samples only log.
\<close>

subsection \<open>State\<close>

text \<open>
  Where \<^verbatim>\<open>main\<close> is: before its first statement, in \<^verbatim>\<open>pouch_prov_mgr_wait(K_FOREVER)\<close>, in
  \<^verbatim>\<open>k_sem_take(&wifi_up, K_SECONDS(60))\<close>, or returned.
\<close>

datatype app_pc = At_start | At_wait | At_wifi | At_exit rc

text \<open>
  The library, the semaphore \<^verbatim>\<open>wifi_up\<close> (at most 1), the requests to connect to a stored network, and the
  length of the certificate reported at the end of \<^verbatim>\<open>cred_only\<close>.
\<close>

record app =
  app_dev :: device
  wifi_up :: bool
  connect_stored :: nat
  cert_report :: "nat option"

type_synonym main_result = "(app_pc \<times> app) option"

record sample =
  on_start :: "app \<Rightarrow> main_result"
  on_waited :: "app \<Rightarrow> main_result"
  on_wifi :: "app \<Rightarrow> main_result"

subsection \<open>basic\<close>

definition basic_config :: "bytes \<Rightarrow> pouch_prov_config" where
  "basic_config CONFIG_SAMPLE_POP = \<lparr>pop = (if CONFIG_SAMPLE_POP \<noteq> [] then Some CONFIG_SAMPLE_POP else None),
     device_id = Some (str_bytes ''pouch-prov-basic''), wifi_conn_attempts = 0, event_cb = True\<rparr>"

definition basic_main :: "('e, 'd) env \<Rightarrow> bytes \<Rightarrow> sample" where
  "basic_main E CONFIG_SAMPLE_POP = \<lparr>
     on_start = (\<lambda>a. do {
       (err, d) \<leftarrow> pouch_prov_mgr_init E (Some (basic_config CONFIG_SAMPLE_POP)) (app_dev a);
       (if err \<noteq> rc_ok then Some (At_exit err, a\<lparr>app_dev := d\<rparr>)
        else do {
          (err, d) \<leftarrow> pouch_prov_mgr_start E d;
          Some (if err \<noteq> rc_ok then At_exit err else At_wait, a\<lparr>app_dev := d\<rparr>)
        })
     }),
     on_waited = (\<lambda>a. Some (At_exit rc_ok, a)),
     on_wifi = (\<lambda>a. Some (At_exit rc_ok, a))\<rparr>"

subsection \<open>cred-only\<close>

definition cred_only_config :: "bytes \<Rightarrow> pouch_prov_config" where
  "cred_only_config CONFIG_SAMPLE_POP = \<lparr>pop = Some CONFIG_SAMPLE_POP,
     device_id = Some (str_bytes ''cred-only''), wifi_conn_attempts = 0, event_cb = True\<rparr>"

definition cred_only_ready :: "device \<Rightarrow> bool" where
  "cred_only_ready d \<longleftrightarrow> pouch_prov_cred_present POUCH_PROV_CRED_DEVICE_CERT d \<and>
     pouch_prov_cred_present POUCH_PROV_CRED_PRIVATE_KEY d"

text \<open>After provisioning, or instead of it.\<close>

definition cred_only_report :: "('e, 'd) env \<Rightarrow> app \<Rightarrow> main_result" where
  "cred_only_report E a = Some (At_exit rc_ok,
     if pouch_prov_mgr_is_provisioned E (app_dev a)
     then a\<lparr>cert_report := Some (case pouch_prov_cred_get POUCH_PROV_CRED_DEVICE_CERT (app_dev a) of
              None \<Rightarrow> 0 | Some cert \<Rightarrow> length cert)\<rparr>
     else a)"

definition cred_only_main :: "('e, 'd) env \<Rightarrow> bytes \<Rightarrow> sample" where
  "cred_only_main E CONFIG_SAMPLE_POP = \<lparr>
     on_start = (\<lambda>a. do {
       (err, d) \<leftarrow> pouch_prov_mgr_init E (Some (cred_only_config CONFIG_SAMPLE_POP)) (app_dev a);
       (if err \<noteq> rc_ok then Some (At_exit err, a\<lparr>app_dev := d\<rparr>)
        else if \<not> cred_only_ready d then do {
          (err, d) \<leftarrow> pouch_prov_mgr_start E d;
          Some (if err \<noteq> rc_ok then At_exit err else At_wait, a\<lparr>app_dev := d\<rparr>)
        }
        else cred_only_report E (a\<lparr>app_dev := d\<rparr>))
     }),
     on_waited = cred_only_report E,
     on_wifi = (\<lambda>a. Some (At_exit rc_ok, a))\<rparr>"

subsection \<open>golioth-bootstrap\<close>

text \<open>The client configuration and the entry points of the Golioth SDK that the sample calls.\<close>

record golioth_pki =
  public_cert :: bytes
  private_key :: bytes
  ca_cert :: "bytes option"

record golioth_sdk =
  golioth_client_create :: "golioth_pki \<Rightarrow> nat option"
  golioth_client_wait_for_connect :: "nat \<Rightarrow> nat \<Rightarrow> bool"

definition golioth_config :: "bytes \<Rightarrow> pouch_prov_config" where
  "golioth_config CONFIG_SAMPLE_POP = \<lparr>pop = Some CONFIG_SAMPLE_POP,
     device_id = Some (str_bytes ''golioth-bootstrap''), wifi_conn_attempts = 3, event_cb = True\<rparr>"

definition golioth_ready :: "('e, 'd) env \<Rightarrow> device \<Rightarrow> bool" where
  "golioth_ready E d \<longleftrightarrow> pouch_prov_mgr_is_provisioned E d \<and>
     pouch_prov_cred_present POUCH_PROV_CRED_DEVICE_CERT d \<and> pouch_prov_cred_present POUCH_PROV_CRED_PRIVATE_KEY d"

text \<open>
  \<open>pouch_prov_cred_get\<close> sets the length only when it returns a credential: without one, the length
  of the certificate or the key is read uninitialized. The length of the CA certificate starts at 0.
\<close>

definition connect_to_golioth :: "golioth_sdk \<Rightarrow> device \<Rightarrow> rc option" where
  "connect_to_golioth G d = do {
     cert \<leftarrow> pouch_prov_cred_get POUCH_PROV_CRED_DEVICE_CERT d;
     key \<leftarrow> pouch_prov_cred_get POUCH_PROV_CRED_PRIVATE_KEY d;
     let ca = pouch_prov_cred_get POUCH_PROV_CRED_CA_CERT d;
     Some (case golioth_client_create G \<lparr>public_cert = cert, private_key = key, ca_cert = ca\<rparr> of
             None \<Rightarrow> rc_err ENOMEM
           | Some client \<Rightarrow> if \<not> golioth_client_wait_for_connect G client 30000 then rc_err ETIMEDOUT else rc_ok)
   }"

definition golioth_main :: "('e, 'd) env \<Rightarrow> golioth_sdk \<Rightarrow> bytes \<Rightarrow> sample" where
  "golioth_main E G CONFIG_SAMPLE_POP = \<lparr>
     on_start = (\<lambda>a. do {
       (err, d) \<leftarrow> pouch_prov_mgr_init E (Some (golioth_config CONFIG_SAMPLE_POP))
                     (log (X_net_add_callback ''main'') (app_dev a));
       (if err \<noteq> rc_ok then Some (At_exit err, a\<lparr>app_dev := d\<rparr>)
        else if \<not> golioth_ready E d then do {
          (err, d) \<leftarrow> pouch_prov_mgr_start E d;
          Some (if err \<noteq> rc_ok then At_exit err else At_wait, a\<lparr>app_dev := d\<rparr>)
        }
        else Some (At_wifi, a\<lparr>app_dev := d, connect_stored :=
               (if net_if_get_first_wifi E (trace d) \<noteq> None then Suc (connect_stored a) else connect_stored a)\<rparr>))
     }),
     on_waited = (\<lambda>a. Some (At_wifi, a)),
     on_wifi = (\<lambda>a. do { rc \<leftarrow> connect_to_golioth G (app_dev a); Some (At_exit rc, a) })\<rparr>"

text \<open>The callback for the events of the network, and the one event it acts on: the network is up.\<close>

datatype net_mgmt_event = NET_EVENT_L4_CONNECTED | NET_EVENT_other nat

definition net_event :: "net_mgmt_event \<Rightarrow> app \<Rightarrow> app" where
  "net_event event a = (if event = NET_EVENT_L4_CONNECTED then a\<lparr>wifi_up := True\<rparr> else a)"

subsection \<open>Running a sample\<close>

text \<open>The entry points of the library that others than the application call.\<close>

fun outside_event :: "event \<Rightarrow> bool" where
  "outside_event (E_init c) \<longleftrightarrow> False"
| "outside_event E_start \<longleftrightarrow> False"
| "outside_event E_stop \<longleftrightarrow> False"
| "outside_event E_reset \<longleftrightarrow> False"
| "outside_event E_wait \<longleftrightarrow> False"
| "outside_event _ \<longleftrightarrow> True"

inductive app_step :: "('e, 'd) env \<Rightarrow> sample \<Rightarrow> app_pc \<times> app \<Rightarrow> app_pc \<times> app \<Rightarrow> bool" for E S where
  main_start: "on_start S a = Some r \<Longrightarrow> app_step E S (At_start, a) r"
| main_waited: "pouch_prov_mgr_wait E (app_dev a) = (rc_ok, d') \<Longrightarrow> on_waited S (a\<lparr>app_dev := d'\<rparr>) = Some r \<Longrightarrow>
    app_step E S (At_wait, a) r"
| main_wifi_up: "wifi_up a \<Longrightarrow> on_wifi S (a\<lparr>wifi_up := False\<rparr>) = Some r \<Longrightarrow> app_step E S (At_wifi, a) r"
| main_wifi_timeout: "\<not> wifi_up a \<Longrightarrow> app_step E S (At_wifi, a) (At_exit (rc_err ETIMEDOUT), a)"
| library: "valid_event ev \<Longrightarrow> outside_event ev \<Longrightarrow> step E ev (app_dev a) = Some d' \<Longrightarrow>
    app_step E S (pc, a) (pc, a\<lparr>app_dev := d'\<rparr>)"
| network: "pc \<noteq> At_start \<Longrightarrow> app_step E S (pc, a) (pc, net_event event a)"

inductive app_run :: "('e, 'd) env \<Rightarrow> sample \<Rightarrow> app_pc \<times> app \<Rightarrow> app_pc \<times> app \<Rightarrow> bool" for E S where
  app_nil: "app_run E S x x"
| app_snoc: "app_run E S x y \<Longrightarrow> app_step E S y z \<Longrightarrow> app_run E S x z"

inductive_cases app_stepE: "app_step E S x y"

definition app_boot :: "('e, 'd) env \<Rightarrow> trace \<Rightarrow> app_pc \<times> app" where
  "app_boot E t = (At_start, \<lparr>app_dev = boot E t, wifi_up = False, connect_stored = 0, cert_report = None\<rparr>)"

subsection \<open>What a sample relies on\<close>

text \<open>
  The library is in order; before its first statement and after provisioning the manager does not
  run, and while \<^verbatim>\<open>main\<close> waits the end event is not posted before the manager has stopped.
\<close>

definition sample_inv :: "('e, 'd) env \<Rightarrow> app_pc \<times> app \<Rightarrow> bool" where
  "sample_inv E = (\<lambda>(pc, a). dispatch_inv E (app_dev a) \<and>
     (running (app_dev a) \<longrightarrow> pc = At_wait \<and> \<not> ended_of (trace (app_dev a))))"

text \<open>
  The contract of a \<^verbatim>\<open>main\<close>: it starts the manager at most once and then waits for its end, and
  leaves the library alone afterwards.
\<close>

locale sample_main = platform E for E :: "('e, 'd) env" +
  fixes S :: sample
  assumes start: "sample_inv E (At_start, a) \<Longrightarrow> on_start S a = Some x \<Longrightarrow> sample_inv E x"
    and waited: "on_waited S a = Some (pc, a') \<Longrightarrow> app_dev a' = app_dev a"
    and wifi: "on_wifi S a = Some (pc, a') \<Longrightarrow> app_dev a' = app_dev a"
begin

lemma wait_after_end:
  assumes inv: "sample_inv E (At_wait, a)" and w: "pouch_prov_mgr_wait E (app_dev a) = (rc_ok, d')"
  shows "dispatch_inv E d'" and "\<not> running d'"
proof -
  have "step E E_wait (app_dev a) = Some d'" using w by simp
  with inv step_inv[of "app_dev a" E_wait d'] show "dispatch_inv E d'" by (simp add: sample_inv_def)
  have "ended_of (trace (app_dev a))" "running d' = running (app_dev a)"
    using w event_wait by (auto simp: pouch_prov_mgr_wait_def Let_def split: if_splits)
  with inv show "\<not> running d'" by (simp add: sample_inv_def)
qed

lemma app_step_inv:
  assumes "app_step E S x y" and "sample_inv E x"
  shows "sample_inv E y"
  using assms
proof cases
  case (main_start a)
  with assms(2) start show ?thesis by simp
next
  case (main_waited a d')
  obtain pc b where y: "y = (pc, b)" by (cases y)
  from waited[OF main_waited(3)[unfolded y]] wait_after_end[OF assms(2)[unfolded main_waited(1)] main_waited(2)] y
  show ?thesis by (simp add: sample_inv_def)
next
  case (main_wifi_up a)
  obtain pc b where y: "y = (pc, b)" by (cases y)
  from wifi[OF main_wifi_up(3)[unfolded y]] assms(2) main_wifi_up(1) y show ?thesis by (simp add: sample_inv_def)
next
  case (library ev a d' pc)
  have "ev \<noteq> E_start" using library(4) by auto
  with step_inv[OF _ library(3,5)] assms(2) library(1,2) show ?thesis by (auto simp: sample_inv_def lively_def)
qed (use assms(2) in \<open>auto simp: sample_inv_def net_event_def\<close>)

lemma app_boot_inv: "cold t \<Longrightarrow> sample_inv E (app_boot E t)"
  using reachable_inv[OF reach_boot, of t] by (simp add: sample_inv_def app_boot_def) (simp add: boot_def)

lemma app_run_inv: "app_run E S (app_boot E t) y \<Longrightarrow> cold t \<Longrightarrow> sample_inv E y"
  by (induction "app_boot E t" y rule: app_run.induct) (auto intro: app_boot_inv app_step_inv)

end

text \<open>Initialization and start, as the samples call them.\<close>

context platform begin

lemma boot_calls:
  assumes inv: "dispatch_inv E d" "\<not> running d" and i: "pouch_prov_mgr_init E cfg d = Some (r, d1)"
  shows "dispatch_inv E d1" and "\<not> running d1"
    and "pouch_prov_mgr_start E d1 = Some (r2, d2) \<Longrightarrow> dispatch_inv E d2 \<and> (running d2 \<longrightarrow> r2 = rc_ok \<and> \<not> ended_of (trace d2))"
proof -
  have dv: "device_inv E d" using inv(1) by (simp add: dispatch_inv_def)
  from init_effect[OF dv bounds, of cfg] i have e: "device_inv E d1" "active d1 = active d" "lively d d1" by auto
  then show d1: "dispatch_inv E d1" "\<not> running d1" using inv by (simp_all add: dispatch_inv_def lively_def)
  assume s: "pouch_prov_mgr_start E d1 = Some (r2, d2)"
  from start_effect[OF e(1)] s d1 show "dispatch_inv E d2 \<and> (running d2 \<longrightarrow> r2 = rc_ok \<and> \<not> ended_of (trace d2))"
    by (auto simp: dispatch_inv_def)
qed

end

lemma log_dispatch_inv: "dispatch_inv E d \<Longrightarrow> dispatch_inv E (log (X_net_add_callback s) d)"
  by (simp add: dispatch_inv_def inv_unfold no_leak_def)

lemma basic_sample:
  assumes P: "platform E"
  shows "sample_main E (basic_main E p)"
proof (intro sample_main.intro[OF P] sample_main_axioms.intro)
  fix a x
  assume i: "sample_inv E (At_start, a)" and x: "on_start (basic_main E p) a = Some x"
  have d: "dispatch_inv E (app_dev a)" "\<not> running (app_dev a)" using i by (simp_all add: sample_inv_def)
  from x platform.boot_calls[OF P d] show "sample_inv E x"
    by (fastforce simp: basic_main_def sample_inv_def split: bind_splits if_splits prod.splits)
qed (simp_all add: basic_main_def)

lemma cred_only_sample:
  assumes P: "platform E"
  shows "sample_main E (cred_only_main E p)"
proof (intro sample_main.intro[OF P] sample_main_axioms.intro)
  fix a x
  assume i: "sample_inv E (At_start, a)" and x: "on_start (cred_only_main E p) a = Some x"
  have d: "dispatch_inv E (app_dev a)" "\<not> running (app_dev a)" using i by (simp_all add: sample_inv_def)
  from x platform.boot_calls[OF P d] show "sample_inv E x"
    by (fastforce simp: cred_only_main_def cred_only_report_def sample_inv_def split: bind_splits if_splits prod.splits)
qed (auto simp: cred_only_main_def cred_only_report_def)

lemma golioth_sample:
  assumes P: "platform E"
  shows "sample_main E (golioth_main E G p)"
proof (intro sample_main.intro[OF P] sample_main_axioms.intro)
  fix a x
  assume i: "sample_inv E (At_start, a)" and x: "on_start (golioth_main E G p) a = Some x"
  have d: "dispatch_inv E (log (X_net_add_callback ''main'') (app_dev a))" "\<not> running (log (X_net_add_callback ''main'') (app_dev a))"
    using i by (simp_all add: sample_inv_def log_dispatch_inv)
  from x platform.boot_calls[OF P d] show "sample_inv E x"
    by (fastforce simp: golioth_main_def sample_inv_def split: bind_splits if_splits prod.splits)
qed (auto simp: golioth_main_def split: bind_splits)

interpretation ref_basic: sample_main ref_env "basic_main ref_env p" for p
  by (rule basic_sample) unfold_locales

interpretation ref_cred_only: sample_main ref_env "cred_only_main ref_env p" for p
  by (rule cred_only_sample) unfold_locales

interpretation ref_golioth: sample_main ref_env "golioth_main ref_env G p" for G p
  by (rule golioth_sample) unfold_locales

subsection \<open>Booting with stored credentials\<close>

lemma present_iff_get: "pouch_prov_cred_present k d \<longleftrightarrow> pouch_prov_cred_get k d \<noteq> None"
  by (simp add: pouch_prov_cred_get_def)

lemma golioth_start_ready:
  assumes "pouch_prov_mgr_init E (Some (golioth_config p)) (log (X_net_add_callback ''main'') (app_dev a)) = Some (rc_ok, d)"
    and "golioth_ready E d"
  shows "on_start (golioth_main E G p) a = Some (At_wifi, a\<lparr>app_dev := d, connect_stored :=
    (if net_if_get_first_wifi E (trace d) \<noteq> None then Suc (connect_stored a) else connect_stored a)\<rparr>)"
  using assms by (simp add: golioth_main_def del: not_None_eq)

subsection \<open>Ending without credentials\<close>

lemma golioth_ends_blank:
  assumes "kernel E" and run: "app_run E (golioth_main E G p) x (At_wait, a)" and e: "ended_of (trace (app_dev a))"
    and none: "pouch_prov_cred_get 0 (app_dev a) = None \<or> pouch_prov_cred_get 1 (app_dev a) = None"
  shows "\<exists>a'. app_run E (golioth_main E G p) x (At_wifi, a') \<and> wifi_up a' \<and> blobs (app_dev a') = blobs (app_dev a) \<and>
    on_wifi (golioth_main E G p) (a'\<lparr>wifi_up := False\<rparr>) = None"
proof -
  let ?S = "golioth_main E G p"
  obtain d' where d': "pouch_prov_mgr_wait E (app_dev a) = (rc_ok, d')" "blobs d' = blobs (app_dev a)"
    using e kernel.event_wait[OF assms(1)] by (simp add: pouch_prov_mgr_wait_def Let_def)
  let ?a = "net_event NET_EVENT_L4_CONNECTED (a\<lparr>app_dev := d'\<rparr>)"
  have "app_step E ?S (At_wait, a) (At_wifi, a\<lparr>app_dev := d'\<rparr>)"
    by (rule main_waited[OF d'(1)]) (simp add: golioth_main_def)
  moreover have "app_step E ?S (At_wifi, a\<lparr>app_dev := d'\<rparr>) (At_wifi, ?a)" by (rule network) simp
  ultimately have "app_run E ?S x (At_wifi, ?a)" using run by (blast intro: app_snoc)
  moreover have "connect_to_golioth G d' = None" using none get_cong[OF d'(2)]
    by (auto simp: connect_to_golioth_def split: bind_splits)
  ultimately show ?thesis using d'(2) by (intro exI[of _ ?a]) (simp add: net_event_def golioth_main_def)
qed

end
