(* ===== verification/Client_Base.thy ===== *)
theory Client_Base
  imports Cbor_Tokens
begin

text \<open>
  What the command line client (\<^verbatim>\<open>cli/src/pouchprov\<close>) uses of Python: the values that come out of a
  CBOR message, the built-in conversions applied to them, exceptions as values, \<^verbatim>\<open>struct\<close> fields,
  UTF-8; and the interface and contract of the package \<^verbatim>\<open>cbor2\<close>.
\<close>

subsection \<open>Exceptions\<close>

datatype Status = Status_OK | INVALID_PROTO | INVALID_ARGUMENT | INTERNAL_ERROR | UNAUTHORIZED | INVALID_STATE | BUSY

text \<open>The exceptions the client raises itself, and those of Python and its packages.\<close>

datatype py_exn =
    ProvError Status | DecodeError | PouchDecodeError | SarError | SessionError | AuthError | RuntimeError | TimeoutError
  | SystemExit
  | AssertionError | AttributeError | IndexError | InvalidTag | KeyError | OverflowError | StructError | TypeError
  | UnicodeDecodeError | ValueError

type_synonym 'a exc = "py_exn + 'a"

definition xbind :: "'a exc \<Rightarrow> ('a \<Rightarrow> 'b exc) \<Rightarrow> 'b exc" where
  "xbind m f = (case m of Inl e \<Rightarrow> Inl e | Inr x \<Rightarrow> f x)"

definition xassert :: "bool \<Rightarrow> py_exn \<Rightarrow> unit exc" where
  "xassert b e = (if b then Inr () else Inl e)"

definition xopt :: "py_exn \<Rightarrow> 'a option \<Rightarrow> 'a exc" where
  "xopt e v = (case v of None \<Rightarrow> Inl e | Some x \<Rightarrow> Inr x)"

fun xmap :: "('a \<Rightarrow> 'b exc) \<Rightarrow> 'a list \<Rightarrow> 'b list exc" where
  "xmap f [] = Inr []"
| "xmap f (x # xs) = xbind (f x) (\<lambda>y. xbind (xmap f xs) (\<lambda>ys. Inr (y # ys)))"

lemma xbind_simps [simp]: "xbind (Inl e) f = Inl e" "xbind (Inr x) f = f x"
  by (simp_all add: xbind_def)

lemma xbind_Inr: "xbind m f = Inr y \<longleftrightarrow> (\<exists>x. m = Inr x \<and> f x = Inr y)"
  by (cases m) auto

lemma xassert_simps [simp]:
  "xassert True e = Inr ()" "xassert False e = Inl e" "xassert b e = Inr u \<longleftrightarrow> b"
  by (simp_all add: xassert_def)

lemma xopt_simps [simp]: "xopt e None = Inl e" "xopt e (Some x) = Inr x" "xopt e v = Inr x \<longleftrightarrow> v = Some x"
  by (simp_all add: xopt_def split: option.split)

lemma xmap_Inr: "(\<And>x. x \<in> set xs \<Longrightarrow> f x = Inr (g x)) \<Longrightarrow> xmap f xs = Inr (map g xs)"
  by (induction xs) auto

subsection \<open>Values\<close>

text \<open>
  A \<^verbatim>\<open>str\<close> is its UTF-8 encoding. \<open>Py_obj\<close> is an object of any other type (a float, a date, ...), which
  answers the operations of this theory as its class does.
\<close>

datatype py = Py_none | Py_bool bool | Py_int int | Py_bytes bytes | Py_str bytes | Py_list "py list"
  | Py_dict "(py \<times> py) list" | Py_obj nat

text \<open>
  The package \<^verbatim>\<open>cbor2\<close>: \<^verbatim>\<open>dumps\<close>, \<^verbatim>\<open>loads\<close>, and a \<^verbatim>\<open>CBORDecoder\<close> on a stream, with the position it stops
  at; \<open>None\<close> is an exception. The classes of its other objects: the integer an object is equal to, and
  \<^verbatim>\<open>int\<close>, \<^verbatim>\<open>bool\<close>, \<^verbatim>\<open>bytes\<close>, iteration, subscription, \<^verbatim>\<open>get\<close>, \<^verbatim>\<open>items\<close>, \<^verbatim>\<open>len\<close> and order on it.
\<close>

record cbor2 =
  dumps :: "py \<Rightarrow> bytes"
  loads :: "bytes \<Rightarrow> py option"
  decode_first :: "bytes \<Rightarrow> (py \<times> nat) option"
  obj_num :: "nat \<Rightarrow> int option"
  obj_int :: "nat \<Rightarrow> int exc"
  obj_true :: "nat \<Rightarrow> bool"
  obj_bytes :: "nat \<Rightarrow> bytes exc"
  obj_iter :: "nat \<Rightarrow> py list exc"
  obj_item :: "nat \<Rightarrow> bytes \<Rightarrow> py exc"
  obj_get :: "nat \<Rightarrow> bytes \<Rightarrow> py \<Rightarrow> py exc"
  obj_items :: "nat \<Rightarrow> (py \<times> py) list exc"
  obj_index :: "nat \<Rightarrow> nat \<Rightarrow> py exc"
  obj_len :: "nat \<Rightarrow> nat exc"
  obj_less :: "nat \<Rightarrow> int \<Rightarrow> bool exc"

text \<open>The integer a value is equal to: \<^verbatim>\<open>True == 1\<close>.\<close>

fun py_num :: "cbor2 \<Rightarrow> py \<Rightarrow> int option" where
  "py_num C (Py_int i) = Some i"
| "py_num C (Py_bool b) = Some (if b then 1 else 0)"
| "py_num C (Py_obj k) = obj_num C k"
| "py_num C _ = None"

text \<open>Truth values.\<close>

fun py_true :: "cbor2 \<Rightarrow> py \<Rightarrow> bool" where
  "py_true C Py_none \<longleftrightarrow> False"
| "py_true C (Py_bool b) \<longleftrightarrow> b"
| "py_true C (Py_int i) \<longleftrightarrow> i \<noteq> 0"
| "py_true C (Py_bytes b) \<longleftrightarrow> b \<noteq> []"
| "py_true C (Py_str s) \<longleftrightarrow> s \<noteq> []"
| "py_true C (Py_list xs) \<longleftrightarrow> xs \<noteq> []"
| "py_true C (Py_dict m) \<longleftrightarrow> m \<noteq> []"
| "py_true C (Py_obj k) \<longleftrightarrow> obj_true C k"

text \<open>
  \<^verbatim>\<open>int(s)\<close> of text: white space around, a sign, decimal digits with single underscores between
  them, at most 4300. Digits outside ASCII do not occur in the messages and are refused here.
\<close>

definition is_space :: "u8 \<Rightarrow> bool" where
  "is_space b \<longleftrightarrow> (9 \<le> b \<and> b \<le> 13) \<or> (28 \<le> b \<and> b \<le> 32)"

definition is_digit :: "u8 \<Rightarrow> bool" where
  "is_digit b \<longleftrightarrow> 48 \<le> b \<and> b \<le> 57"

fun digits_value :: "int \<Rightarrow> bytes \<Rightarrow> int option" where
  "digits_value acc [] = None"
| "digits_value acc (b # bs) =
     (if \<not> is_digit b then None
      else let acc = 10 * acc + (uint b - 48) in
           case bs of
             [] \<Rightarrow> Some acc
           | c # cs \<Rightarrow> if c = 95 then digits_value acc cs else digits_value acc bs)"

definition strip :: "bytes \<Rightarrow> bytes" where
  "strip s = rev (dropWhile is_space (rev (dropWhile is_space s)))"

definition int_of_text :: "bytes \<Rightarrow> int option" where
  "int_of_text s =
     (let s = strip s in
      if 4300 < length (filter is_digit s) then None
      else case s of
        [] \<Rightarrow> None
      | b # bs \<Rightarrow> if b = 45 then map_option uminus (digits_value 0 bs) else if b = 43 then digits_value 0 bs else digits_value 0 s)"

fun py_int :: "cbor2 \<Rightarrow> py \<Rightarrow> int exc" where
  "py_int C (Py_int i) = Inr i"
| "py_int C (Py_bool b) = Inr (if b then 1 else 0)"
| "py_int C (Py_str s) = xopt ValueError (int_of_text s)"
| "py_int C (Py_bytes s) = xopt ValueError (int_of_text s)"
| "py_int C (Py_obj k) = obj_int C k"
| "py_int C _ = Inl TypeError"

text \<open>Iteration: over the items of a list, the characters of a \<^verbatim>\<open>str\<close>, the bytes of a \<^verbatim>\<open>bytes\<close>, the keys of a \<^verbatim>\<open>dict\<close>.\<close>

definition is_cont :: "u8 \<Rightarrow> bool" where
  "is_cont b \<longleftrightarrow> 0x80 \<le> b \<and> b \<le> 0xBF"

function chars :: "bytes \<Rightarrow> bytes list" where
  "chars [] = []"
| "chars (b # bs) = (b # takeWhile is_cont bs) # chars (dropWhile is_cont bs)"
  by pat_completeness auto
termination
  by (relation "measure length") (simp_all add: le_imp_less_Suc length_dropWhile_le)

fun py_iter :: "cbor2 \<Rightarrow> py \<Rightarrow> py list exc" where
  "py_iter C (Py_list xs) = Inr xs"
| "py_iter C (Py_str s) = Inr (map Py_str (chars s))"
| "py_iter C (Py_bytes s) = Inr (map (\<lambda>b. Py_int (uint b)) s)"
| "py_iter C (Py_dict m) = Inr (map fst m)"
| "py_iter C (Py_obj k) = obj_iter C k"
| "py_iter C _ = Inl TypeError"

text \<open>\<^verbatim>\<open>bytes(x)\<close>: of an integer that many zeros, of an iterable its items.\<close>

fun py_byte :: "py \<Rightarrow> u8 exc" where
  "py_byte (Py_int i) = (if 0 \<le> i \<and> i < 256 then Inr (of_int i) else Inl ValueError)"
| "py_byte (Py_bool b) = Inr (if b then 1 else 0)"
| "py_byte _ = Inl TypeError"

fun py_bytes :: "cbor2 \<Rightarrow> py \<Rightarrow> bytes exc" where
  "py_bytes C (Py_bytes s) = Inr s"
| "py_bytes C (Py_int i) = (if i < 0 then Inl ValueError else if 2 ^ 63 \<le> i then Inl OverflowError else Inr (replicate (nat i) 0))"
| "py_bytes C (Py_bool b) = Inr (if b then [0] else [])"
| "py_bytes C (Py_list xs) = xmap py_byte xs"
| "py_bytes C (Py_dict m) = xmap (\<lambda>(k, v). py_byte k) m"
| "py_bytes C (Py_obj k) = obj_bytes C k"
| "py_bytes C _ = Inl TypeError"

text \<open>\<^verbatim>\<open>x["key"]\<close>, \<^verbatim>\<open>x.get("key", default)\<close>, \<^verbatim>\<open>x.items()\<close>, and \<^verbatim>\<open>msg[i]\<close> of a list.\<close>

fun py_lookup :: "bytes \<Rightarrow> (py \<times> py) list \<Rightarrow> py option" where
  "py_lookup k [] = None"
| "py_lookup k ((k', v) # m) = (if k' = Py_str k then Some v else py_lookup k m)"

fun py_item :: "cbor2 \<Rightarrow> py \<Rightarrow> string \<Rightarrow> py exc" where
  "py_item C (Py_dict m) k = xopt KeyError (py_lookup (str_bytes k) m)"
| "py_item C (Py_obj x) k = obj_item C x (str_bytes k)"
| "py_item C _ k = Inl TypeError"

fun py_get :: "cbor2 \<Rightarrow> py \<Rightarrow> string \<Rightarrow> py \<Rightarrow> py exc" where
  "py_get C (Py_dict m) k v = Inr (case py_lookup (str_bytes k) m of None \<Rightarrow> v | Some w \<Rightarrow> w)"
| "py_get C (Py_obj x) k v = obj_get C x (str_bytes k) v"
| "py_get C _ k v = Inl AttributeError"

fun py_items :: "cbor2 \<Rightarrow> py \<Rightarrow> (py \<times> py) list exc" where
  "py_items C (Py_dict m) = Inr m"
| "py_items C (Py_obj x) = obj_items C x"
| "py_items C _ = Inl AttributeError"

definition py_nth :: "'a list \<Rightarrow> nat \<Rightarrow> 'a exc" where
  "py_nth xs i = (if i < length xs then Inr (xs ! i) else Inl IndexError)"

text \<open>\<^verbatim>\<open>len(x)\<close> and \<^verbatim>\<open>x[i]\<close> of any value.\<close>

fun py_len :: "cbor2 \<Rightarrow> py \<Rightarrow> nat exc" where
  "py_len C (Py_list xs) = Inr (length xs)"
| "py_len C (Py_bytes s) = Inr (length s)"
| "py_len C (Py_str s) = Inr (length (chars s))"
| "py_len C (Py_dict m) = Inr (length m)"
| "py_len C (Py_obj k) = obj_len C k"
| "py_len C _ = Inl TypeError"

fun py_index :: "cbor2 \<Rightarrow> py \<Rightarrow> nat \<Rightarrow> py exc" where
  "py_index C (Py_list xs) i = py_nth xs i"
| "py_index C (Py_bytes s) i = xbind (py_nth s i) (\<lambda>b. Inr (Py_int (uint b)))"
| "py_index C (Py_str s) i = xbind (py_nth (chars s) i) (\<lambda>c. Inr (Py_str c))"
| "py_index C (Py_dict m) i = xopt KeyError (map_option snd (List.find (\<lambda>(k, v). py_num C k = Some (int i)) m))"
| "py_index C (Py_obj k) i = obj_index C k i"
| "py_index C _ i = Inl TypeError"

text \<open>\<open>n > x\<close> for a length \<open>n\<close>.\<close>

fun py_less :: "cbor2 \<Rightarrow> py \<Rightarrow> int \<Rightarrow> bool exc" where
  "py_less C (Py_int i) n = Inr (i < n)"
| "py_less C (Py_bool b) n = Inr ((if b then 1 else 0) < n)"
| "py_less C (Py_obj k) n = obj_less C k n"
| "py_less C _ n = Inl TypeError"

subsection \<open>UTF-8 and fixed-width fields\<close>

text \<open>\<^verbatim>\<open>bytes.decode()\<close>: the shortest form of each code point, no surrogates, at most U+10FFFF.\<close>

fun utf8_ok :: "bytes \<Rightarrow> bool" where
  "utf8_ok [] \<longleftrightarrow> True"
| "utf8_ok (a # s) \<longleftrightarrow>
     (if a < 0x80 then utf8_ok s
      else if 0xC2 \<le> a \<and> a \<le> 0xDF then (case s of b # s \<Rightarrow> is_cont b \<and> utf8_ok s | _ \<Rightarrow> False)
      else if 0xE0 \<le> a \<and> a \<le> 0xEF then (case s of b # c # s \<Rightarrow>
          is_cont b \<and> is_cont c \<and> (a = 0xE0 \<longrightarrow> 0xA0 \<le> b) \<and> (a = 0xED \<longrightarrow> b \<le> 0x9F) \<and> utf8_ok s | _ \<Rightarrow> False)
      else if 0xF0 \<le> a \<and> a \<le> 0xF4 then (case s of b # c # d # s \<Rightarrow>
          is_cont b \<and> is_cont c \<and> is_cont d \<and> (a = 0xF0 \<longrightarrow> 0x90 \<le> b) \<and> (a = 0xF4 \<longrightarrow> b \<le> 0x8F) \<and> utf8_ok s | _ \<Rightarrow> False)
      else False)"

definition decode_str :: "bytes \<Rightarrow> bytes exc" where
  "decode_str s = (if utf8_ok s then Inr s else Inl UnicodeDecodeError)"

lemma utf8_ascii: "list_all (\<lambda>b. b < 0x80) s \<Longrightarrow> utf8_ok s"
  by (induction s) auto

text \<open>\<^verbatim>\<open>struct.pack\<close> of one big-endian unsigned field of \<open>k\<close> bytes, and \<^verbatim>\<open>struct.unpack_from\<close>.\<close>

definition pack_be :: "nat \<Rightarrow> int \<Rightarrow> bytes exc" where
  "pack_be k n = (if 0 \<le> n \<and> n < 256 ^ k then Inr (be_bytes k (nat n)) else Inl StructError)"

definition unpack_be :: "nat \<Rightarrow> bytes \<Rightarrow> nat \<Rightarrow> nat exc" where
  "unpack_be k data pos = (if pos + k \<le> length data then Inr (be_value (take k (drop pos data))) else Inl StructError)"

lemma pack_be_nat: "n < 256 ^ k \<Longrightarrow> pack_be k (int n) = Inr (be_bytes k n)"
proof -
  assume "n < 256 ^ k"
  then have "int n < int (256 ^ k)" by (simp only: of_nat_less_iff)
  then show ?thesis by (simp add: pack_be_def)
qed

lemma pack_be_Inr: "pack_be k (int n) = Inr b \<longleftrightarrow> n < 256 ^ k \<and> b = be_bytes k n"
proof -
  have "int n < 256 ^ k \<longleftrightarrow> n < 256 ^ k" using of_nat_less_iff[of n "256 ^ k", where 'a = int] by simp
  then show ?thesis by (auto simp: pack_be_def)
qed

lemma unpack_be_append: "n < 256 ^ k \<Longrightarrow> unpack_be k (pre @ be_bytes k n @ r) (length pre) = Inr n"
  by (simp add: unpack_be_def be_value_be_bytes)

subsection \<open>The contract of cbor2\<close>

text \<open>A value as tokens, and the values for which the contract speaks.\<close>

definition int_toks :: "int \<Rightarrow> tok" where
  "int_toks i = (if 0 \<le> i then T_uint (nat i) else T_nint (nat (- 1 - i)))"

fun py_toks :: "py \<Rightarrow> tok list" where
  "py_toks (Py_int i) = [int_toks i]"
| "py_toks (Py_bool b) = [T_bool b]"
| "py_toks (Py_bytes b) = [T_bstr b]"
| "py_toks (Py_str b) = [T_tstr b]"
| "py_toks (Py_list xs) = T_list (length xs) # concat (map py_toks xs)"
| "py_toks (Py_dict m) = T_map (length m) # concat (map (\<lambda>(k, v). py_toks k @ py_toks v) m)"
| "py_toks _ = []"

fun py_ok :: "py \<Rightarrow> bool" where
  "py_ok (Py_int i) \<longleftrightarrow> - (2 ^ 64) \<le> i \<and> i < 2 ^ 64"
| "py_ok (Py_bool b) \<longleftrightarrow> True"
| "py_ok (Py_bytes b) \<longleftrightarrow> length b < 2 ^ 64"
| "py_ok (Py_str b) \<longleftrightarrow> length b < 2 ^ 64 \<and> utf8_ok b"
| "py_ok (Py_list xs) \<longleftrightarrow> length xs < 2 ^ 64 \<and> list_all py_ok xs"
| "py_ok (Py_dict m) \<longleftrightarrow> length m < 2 ^ 64 \<and> distinct (map fst m) \<and>
     list_all (\<lambda>(k, v). (\<exists>s. k = Py_str s) \<and> py_ok k \<and> py_ok v) m"
| "py_ok _ \<longleftrightarrow> False"

definition py_wire :: "py \<Rightarrow> bytes" where
  "py_wire v = toks_bytes (py_toks v)"

text \<open>
  \<^verbatim>\<open>dumps\<close> writes the shortest form and the entries of a \<^verbatim>\<open>dict\<close> in their order; \<^verbatim>\<open>loads\<close> and the stream decoder
  read it back.
\<close>

locale cbor2_codec =
  fixes C :: cbor2
  assumes dumps: "py_ok v \<Longrightarrow> dumps C v = py_wire v"
    and loads: "py_ok v \<Longrightarrow> loads C (py_wire v) = Some v"
    and decode_first: "py_ok v \<Longrightarrow> decode_first C (py_wire v @ r) = Some (v, length (py_wire v))"

text \<open>A reference implementation: a parser over the lexer of \<open>Cbor_Tokens\<close>.\<close>

primrec parse_many :: "(bytes \<Rightarrow> ('a \<times> bytes) option) \<Rightarrow> nat \<Rightarrow> bytes \<Rightarrow> ('a list \<times> bytes) option" where
  "parse_many f 0 bs = Some ([], bs)"
| "parse_many f (Suc n) bs = do {
     (x, bs) \<leftarrow> f bs;
     (xs, bs) \<leftarrow> parse_many f n bs;
     Some (x # xs, bs)
   }"

definition parse_pair :: "(bytes \<Rightarrow> ('a \<times> bytes) option) \<Rightarrow> bytes \<Rightarrow> (('a \<times> 'a) \<times> bytes) option" where
  "parse_pair f bs = do { (k, bs) \<leftarrow> f bs; (v, bs) \<leftarrow> f bs; Some ((k, v), bs) }"

primrec parse_py :: "nat \<Rightarrow> bytes \<Rightarrow> (py \<times> bytes) option" where
  "parse_py 0 bs = None"
| "parse_py (Suc k) bs = do {
     (t, r) \<leftarrow> lex_tok bs;
     (case t of
        T_uint n \<Rightarrow> Some (Py_int (int n), r)
      | T_nint n \<Rightarrow> Some (Py_int (- 1 - int n), r)
      | T_bstr b \<Rightarrow> Some (Py_bytes b, r)
      | T_tstr b \<Rightarrow> if utf8_ok b then Some (Py_str b, r) else None
      | T_bool b \<Rightarrow> Some (Py_bool b, r)
      | T_list n \<Rightarrow> map_option (\<lambda>(xs, r). (Py_list xs, r)) (parse_many (parse_py k) n r)
      | T_map n \<Rightarrow> map_option (\<lambda>(m, r). (Py_dict m, r)) (parse_many (parse_pair (parse_py k)) n r))
   }"

definition ref_cbor2 :: cbor2 where
  "ref_cbor2 = \<lparr>
     dumps = py_wire,
     loads = (\<lambda>bs. case parse_py (length bs) bs of Some (v, []) \<Rightarrow> Some v | _ \<Rightarrow> None),
     decode_first = (\<lambda>bs. map_option (\<lambda>(v, r). (v, length bs - length r)) (parse_py (length bs) bs)),
     obj_num = (\<lambda>k. None),
     obj_int = (\<lambda>k. Inl TypeError),
     obj_true = (\<lambda>k. True),
     obj_bytes = (\<lambda>k. Inl TypeError),
     obj_iter = (\<lambda>k. Inl TypeError),
     obj_item = (\<lambda>k i. Inl TypeError),
     obj_get = (\<lambda>k i v. Inl AttributeError),
     obj_items = (\<lambda>k. Inl AttributeError),
     obj_index = (\<lambda>k i. Inl TypeError),
     obj_len = (\<lambda>k. Inl TypeError),
     obj_less = (\<lambda>k i. Inl TypeError)\<rparr>"

lemma parse_many_ok:
  "(\<And>x r. x \<in> set xs \<Longrightarrow> f (g x @ r) = Some (x, r)) \<Longrightarrow> parse_many f (length xs) (concat (map g xs) @ r) = Some (xs, r)"
  by (induction xs arbitrary: r) auto

lemma toks_bytes_concat: "toks_bytes (concat (map f xs)) = concat (map (\<lambda>x. toks_bytes (f x)) xs)"
  by (induction xs) auto

lemma length_concat_ge: "x \<in> set xs \<Longrightarrow> length (f x) \<le> length (concat (map f xs))"
  by (induction xs) auto

lemma int_toks_bytes: "- (2 ^ 64) \<le> i \<Longrightarrow> i < 2 ^ 64 \<Longrightarrow> wf_tok (int_toks i)"
  by (simp add: int_toks_def) linarith

lemma parse_py_wire: "py_ok v \<Longrightarrow> length (py_toks v) \<le> k \<Longrightarrow> parse_py k (py_wire v @ r) = Some (v, r)"
proof (induction k arbitrary: v r)
  case 0
  then show ?case by (cases v) auto
next
  case (Suc k)
  show ?case
  proof (cases v)
    case (Py_int i)
    then show ?thesis using Suc.prems lex_tok_bytes[OF int_toks_bytes, of i r]
      by (auto simp: py_wire_def int_toks_def split: if_splits)
  next
    case (Py_list xs)
    have "parse_py k (py_wire x @ s) = Some (x, s)" if "x \<in> set xs" for x s
      using Suc.prems Py_list that length_concat_ge[OF that, of py_toks] by (intro Suc.IH) (auto simp: list_all_iff)
    from parse_many_ok[OF this, of xs r]
    show ?thesis using Py_list Suc.prems lex_tok_bytes[of "T_list (length xs)"]
      by (simp add: py_wire_def toks_bytes_concat)
  next
    case (Py_dict m)
    let ?g = "\<lambda>(x, y). py_wire x @ py_wire y"
    have p: "parse_pair (parse_py k) (?g x @ s) = Some (x, s)" if "x \<in> set m" for x s
    proof -
      obtain a b where x: "x = (a, b)" by (cases x)
      have "length (py_toks a) + length (py_toks b) \<le> k"
        using length_concat_ge[OF that, of "\<lambda>(x, y). py_toks x @ py_toks y"] x Suc.prems(2) Py_dict by simp
      moreover have "py_ok a" "py_ok b" using that x Suc.prems(1) Py_dict by (auto simp: list_all_iff)
      ultimately show ?thesis using Suc.IH[of a "py_wire b @ s"] Suc.IH[of b s] x by (simp add: parse_pair_def)
    qed
    have "toks_bytes (concat (map (\<lambda>(k, v). py_toks k @ py_toks v) m)) = concat (map ?g m)"
      unfolding toks_bytes_concat by (simp add: py_wire_def case_prod_unfold)
    with parse_many_ok[of m "parse_pair (parse_py k)" ?g r, OF p]
    show ?thesis using Py_dict Suc.prems(1) lex_tok_bytes[of "T_map (length m)"] by (simp add: py_wire_def)
  qed (use Suc.prems in \<open>simp_all add: py_wire_def lex_tok_bytes del: tok_bytes.simps\<close>)
qed

lemma parse_py_enough: "py_ok v \<Longrightarrow> parse_py (length (py_wire v @ r)) (py_wire v @ r) = Some (v, r)"
proof (rule parse_py_wire)
  have "length (py_toks v) \<le> length (py_wire v)" unfolding py_wire_def by (rule length_toks_bytes_ge)
  then show "length (py_toks v) \<le> length (py_wire v @ r)" by simp
qed

interpretation ref_cbor2: cbor2_codec ref_cbor2
proof
  fix v r
  assume "py_ok v"
  then show "dumps ref_cbor2 v = py_wire v" "loads ref_cbor2 (py_wire v) = Some v"
    "decode_first ref_cbor2 (py_wire v @ r) = Some (v, length (py_wire v))"
    using parse_py_enough[of v "[]"] parse_py_enough[of v r] by (simp_all add: ref_cbor2_def)
qed

end
