(* ===== verification/Client_Codec.thy ===== *)
theory Client_Codec
  imports Client_Base Codec_Rsp "HOL-Library.AList"
begin

text \<open>
  The message codec of the client (\<^verbatim>\<open>cli/src/pouchprov/codec.py\<close>), and its agreement with the codec of the
  device: the client writes byte for byte what the device's own encoders write, and reads what they
  write. Functions carry the prefix \<open>cli_\<close>, since the generated C functions have the same names.
\<close>

subsection \<open>Enumerations\<close>

datatype StaState = StaState_CONNECTED | StaState_CONNECTING | StaState_DISCONNECTED | StaState_FAILED
datatype FailReason = FailReason_AUTH_ERROR | FailReason_NETWORK_NOT_FOUND
datatype CredKind = CredKind_DEVICE_CERT | CredKind_PRIVATE_KEY | CredKind_CA_CERT
datatype CtrlOp = CtrlOp_RESET | CtrlOp_REPROVISION | CtrlOp_END

text \<open>The member of an enumeration with the value of a number; there is none for any other value.\<close>

definition enum_member :: "'a list \<Rightarrow> int option \<Rightarrow> 'a exc" where
  "enum_member ms v = (case v of None \<Rightarrow> Inl ValueError
     | Some i \<Rightarrow> if 0 \<le> i \<and> i < int (length ms) then Inr (ms ! nat i) else Inl ValueError)"

definition Status_of :: "int option \<Rightarrow> Status exc" where
  "Status_of = enum_member [Status_OK, INVALID_PROTO, INVALID_ARGUMENT, INTERNAL_ERROR, UNAUTHORIZED, INVALID_STATE, BUSY]"

definition StaState_of :: "int option \<Rightarrow> StaState exc" where
  "StaState_of = enum_member [StaState_CONNECTED, StaState_CONNECTING, StaState_DISCONNECTED, StaState_FAILED]"

definition FailReason_of :: "int option \<Rightarrow> FailReason exc" where
  "FailReason_of = enum_member [FailReason_AUTH_ERROR, FailReason_NETWORK_NOT_FOUND]"

definition CredKind_of :: "int option \<Rightarrow> CredKind exc" where
  "CredKind_of = enum_member [CredKind_DEVICE_CERT, CredKind_PRIVATE_KEY, CredKind_CA_CERT]"

primrec CredKind_int :: "CredKind \<Rightarrow> nat" where
  "CredKind_int CredKind_DEVICE_CERT = 0"
| "CredKind_int CredKind_PRIVATE_KEY = 1"
| "CredKind_int CredKind_CA_CERT = 2"

primrec CtrlOp_int :: "CtrlOp \<Rightarrow> nat" where
  "CtrlOp_int CtrlOp_RESET = 0"
| "CtrlOp_int CtrlOp_REPROVISION = 1"
| "CtrlOp_int CtrlOp_END = 2"

subsection \<open>Requests\<close>

definition cli_encode_ver_req :: "cbor2 \<Rightarrow> bytes" where
  "cli_encode_ver_req C = dumps C (Py_list [Py_int 0])"

definition cli_encode_auth_challenge :: "cbor2 \<Rightarrow> bytes \<Rightarrow> bytes exc" where
  "cli_encode_auth_challenge C cli_nonce =
     xbind (xassert (length cli_nonce = 16) AssertionError) (\<lambda>_. Inr (dumps C (Py_list [Py_int 0, Py_bytes cli_nonce])))"

definition cli_encode_auth_proof :: "cbor2 \<Rightarrow> bytes \<Rightarrow> bytes exc" where
  "cli_encode_auth_proof C cli_proof =
     xbind (xassert (length cli_proof = 32) AssertionError) (\<lambda>_. Inr (dumps C (Py_list [Py_int 1, Py_bytes cli_proof])))"

definition cli_encode_config_get_status :: "cbor2 \<Rightarrow> bytes" where
  "cli_encode_config_get_status C = dumps C (Py_list [Py_int 0])"

definition opt_entry :: "string \<Rightarrow> ('a \<Rightarrow> py) \<Rightarrow> 'a option \<Rightarrow> (py \<times> py) list" where
  "opt_entry k f v = (case v of None \<Rightarrow> [] | Some x \<Rightarrow> [(Py_str (str_bytes k), f x)])"

definition cli_encode_config_set :: "cbor2 \<Rightarrow> bytes \<Rightarrow> bytes option \<Rightarrow> bytes option \<Rightarrow> int option \<Rightarrow> bytes" where
  "cli_encode_config_set C ssid password bssid channel =
     dumps C (Py_list [Py_int 1, Py_dict ([(Py_str (str_bytes ''ssid''), Py_bytes ssid)] @ opt_entry ''pass'' Py_bytes password @
       opt_entry ''bssid'' Py_bytes bssid @ opt_entry ''ch'' Py_int channel)])"

definition cli_encode_config_apply :: "cbor2 \<Rightarrow> bytes" where
  "cli_encode_config_apply C = dumps C (Py_list [Py_int 2])"

definition cli_encode_scan_start :: "cbor2 \<Rightarrow> bool option \<Rightarrow> int option \<Rightarrow> bytes" where
  "cli_encode_scan_start C passive period_ms =
     dumps C (Py_list [Py_int 0, Py_dict (opt_entry ''passive'' Py_bool passive @ opt_entry ''period-ms'' Py_int period_ms)])"

definition cli_encode_scan_get_status :: "cbor2 \<Rightarrow> bytes" where
  "cli_encode_scan_get_status C = dumps C (Py_list [Py_int 1])"

definition cli_encode_scan_get_results :: "cbor2 \<Rightarrow> int \<Rightarrow> int \<Rightarrow> bytes" where
  "cli_encode_scan_get_results C start count = dumps C (Py_list [Py_int 2, Py_int start, Py_int count])"

definition cli_encode_cred_write :: "cbor2 \<Rightarrow> CredKind \<Rightarrow> int \<Rightarrow> int \<Rightarrow> bytes \<Rightarrow> bytes" where
  "cli_encode_cred_write C kind offset tot data =
     dumps C (Py_list [Py_int 0, Py_dict [(Py_str (str_bytes ''kind''), Py_int (int (CredKind_int kind))),
       (Py_str (str_bytes ''off''), Py_int offset), (Py_str (str_bytes ''total''), Py_int tot),
       (Py_str (str_bytes ''data''), Py_bytes data)]])"

definition cli_encode_cred_finalize :: "cbor2 \<Rightarrow> bytes" where
  "cli_encode_cred_finalize C = dumps C (Py_list [Py_int 1])"

definition cli_encode_cred_get_status :: "cbor2 \<Rightarrow> bytes" where
  "cli_encode_cred_get_status C = dumps C (Py_list [Py_int 2])"

definition cli_encode_ctrl :: "cbor2 \<Rightarrow> CtrlOp \<Rightarrow> bytes" where
  "cli_encode_ctrl C op = dumps C (Py_list [Py_int (int (CtrlOp_int op))])"

subsection \<open>Responses\<close>

definition cli_decode :: "cbor2 \<Rightarrow> bytes \<Rightarrow> int \<Rightarrow> py list exc" where
  "cli_decode C data expect_op =
     (case loads C data of
        Some (Py_list msg) \<Rightarrow>
          if length msg < 2 then Inl DecodeError
          else if py_num C (msg ! 0) \<noteq> Some expect_op then Inl DecodeError
          else xbind (Status_of (py_num C (msg ! 1))) (\<lambda>status.
            if status \<noteq> Status_OK then Inl (ProvError status) else Inr msg)
      | _ \<Rightarrow> Inl DecodeError)"

record VersionInfo =
  vi_proto :: py
  vi_caps :: "py list"
  vi_block_size :: py
  vi_lib :: py
  vi_pop_required :: bool

definition cli_decode_ver_rsp :: "cbor2 \<Rightarrow> bytes \<Rightarrow> VersionInfo exc" where
  "cli_decode_ver_rsp C data =
     xbind (cli_decode C data 0) (\<lambda>msg.
     xbind (py_nth msg 2) (\<lambda>info.
     xbind (py_item C info ''proto'') (\<lambda>proto.
     xbind (xbind (py_item C info ''caps'') (py_iter C)) (\<lambda>caps.
     xbind (py_item C info ''blk'') (\<lambda>blk.
     xbind (py_item C info ''lib'') (\<lambda>lib.
     xbind (py_get C info ''pop'' (Py_bool False)) (\<lambda>p.
     Inr \<lparr>vi_proto = proto, vi_caps = caps, vi_block_size = blk, vi_lib = lib, vi_pop_required = py_true C p\<rparr>)))))))"

definition cli_decode_auth_challenge_rsp :: "cbor2 \<Rightarrow> bytes \<Rightarrow> (bytes \<times> bytes) exc" where
  "cli_decode_auth_challenge_rsp C data =
     xbind (cli_decode C data 0) (\<lambda>msg.
     xbind (xbind (py_nth msg 2) (py_bytes C)) (\<lambda>dev_nonce.
     xbind (xbind (py_nth msg 3) (py_bytes C)) (\<lambda>dev_proof.
     if length dev_nonce \<noteq> 16 \<or> length dev_proof \<noteq> 32 then Inl DecodeError else Inr (dev_nonce, dev_proof))))"

definition cli_decode_auth_proof_rsp :: "cbor2 \<Rightarrow> bytes \<Rightarrow> unit exc" where
  "cli_decode_auth_proof_rsp C data = xbind (cli_decode C data 1) (\<lambda>_. Inr ())"

record WifiStatus =
  ws_state :: StaState
  ws_fail_reason :: "FailReason option"
  ws_ip4 :: "bytes option"
  ws_ssid :: "bytes option"
  ws_rssi :: py

definition wifi_status_detail :: "cbor2 \<Rightarrow> py \<Rightarrow> WifiStatus \<Rightarrow> WifiStatus exc" where
  "wifi_status_detail C detail status =
     (case detail of
        Py_int i \<Rightarrow> xbind (FailReason_of (Some i)) (\<lambda>f. Inr (status\<lparr>ws_fail_reason := Some f\<rparr>))
      | Py_bool b \<Rightarrow> xbind (FailReason_of (py_num C detail)) (\<lambda>f. Inr (status\<lparr>ws_fail_reason := Some f\<rparr>))
      | Py_dict m \<Rightarrow>
          xbind (xbind (py_item C detail ''ip4'') (py_bytes C)) (\<lambda>ip4.
          xbind (xbind (py_item C detail ''ssid'') (py_bytes C)) (\<lambda>ssid.
          xbind (py_get C detail ''rssi'' Py_none) (\<lambda>rssi.
          Inr (status\<lparr>ws_ip4 := Some ip4, ws_ssid := Some ssid, ws_rssi := rssi\<rparr>))))
      | _ \<Rightarrow> Inl DecodeError)"

definition cli_decode_config_status_rsp :: "cbor2 \<Rightarrow> bytes \<Rightarrow> WifiStatus exc" where
  "cli_decode_config_status_rsp C data =
     xbind (cli_decode C data 0) (\<lambda>msg.
     xbind (xbind (py_nth msg 2) (\<lambda>v. StaState_of (py_num C v))) (\<lambda>state.
     let status = \<lparr>ws_state = state, ws_fail_reason = None, ws_ip4 = None, ws_ssid = None, ws_rssi = Py_none\<rparr> in
     if 3 < length msg then wifi_status_detail C (msg ! 3) status else Inr status))"

definition cli_decode_config_set_rsp :: "cbor2 \<Rightarrow> bytes \<Rightarrow> unit exc" where
  "cli_decode_config_set_rsp C data = xbind (cli_decode C data 1) (\<lambda>_. Inr ())"

definition cli_decode_config_apply_rsp :: "cbor2 \<Rightarrow> bytes \<Rightarrow> unit exc" where
  "cli_decode_config_apply_rsp C data = xbind (cli_decode C data 2) (\<lambda>_. Inr ())"

record ScanEntry =
  se_ssid :: bytes
  se_bssid :: bytes
  se_channel :: py
  se_rssi :: py
  se_auth :: py

definition cli_decode_scan_start_rsp :: "cbor2 \<Rightarrow> bytes \<Rightarrow> unit exc" where
  "cli_decode_scan_start_rsp C data = xbind (cli_decode C data 0) (\<lambda>_. Inr ())"

definition cli_decode_scan_status_rsp :: "cbor2 \<Rightarrow> bytes \<Rightarrow> (bool \<times> int) exc" where
  "cli_decode_scan_status_rsp C data =
     xbind (cli_decode C data 1) (\<lambda>msg.
     xbind (py_nth msg 2) (\<lambda>finished.
     xbind (xbind (py_nth msg 3) (py_int C)) (\<lambda>total.
     Inr (py_true C finished, total))))"

definition cli_scan_entry :: "cbor2 \<Rightarrow> py \<Rightarrow> ScanEntry exc" where
  "cli_scan_entry C e =
     xbind (xbind (py_item C e ''ssid'') (py_bytes C)) (\<lambda>ssid.
     xbind (xbind (py_item C e ''bssid'') (py_bytes C)) (\<lambda>bssid.
     xbind (py_item C e ''ch'') (\<lambda>channel.
     xbind (py_item C e ''rssi'') (\<lambda>rssi.
     xbind (py_item C e ''auth'') (\<lambda>auth.
     Inr \<lparr>se_ssid = ssid, se_bssid = bssid, se_channel = channel, se_rssi = rssi, se_auth = auth\<rparr>)))))"

definition cli_decode_scan_results_rsp :: "cbor2 \<Rightarrow> bytes \<Rightarrow> ScanEntry list exc" where
  "cli_decode_scan_results_rsp C data =
     xbind (cli_decode C data 2) (\<lambda>msg.
     xbind (xbind (py_nth msg 2) (py_iter C)) (xmap (cli_scan_entry C)))"

definition cli_decode_cred_write_rsp :: "cbor2 \<Rightarrow> bytes \<Rightarrow> int exc" where
  "cli_decode_cred_write_rsp C data = xbind (cli_decode C data 0) (\<lambda>msg. xbind (py_nth msg 2) (py_int C))"

definition cli_decode_cred_finalize_rsp :: "cbor2 \<Rightarrow> bytes \<Rightarrow> unit exc" where
  "cli_decode_cred_finalize_rsp C data = xbind (cli_decode C data 1) (\<lambda>_. Inr ())"

definition cli_cred_count :: "cbor2 \<Rightarrow> py \<times> py \<Rightarrow> (CredKind \<times> int) exc" where
  "cli_cred_count C = (\<lambda>(k, v).
     xbind (xbind (py_int C k) (\<lambda>i. CredKind_of (Some i))) (\<lambda>kind. xbind (py_int C v) (\<lambda>n. Inr (kind, n))))"

definition cli_decode_cred_status_rsp :: "cbor2 \<Rightarrow> bytes \<Rightarrow> (CredKind \<times> int) list exc" where
  "cli_decode_cred_status_rsp C data =
     xbind (cli_decode C data 2) (\<lambda>msg.
     xbind (xbind (py_nth msg 2) (py_items C)) (\<lambda>kvs.
     xbind (xmap (cli_cred_count C) kvs) (\<lambda>cs. Inr (fold (\<lambda>(k, n). AList.update k n) cs []))))"

definition cli_decode_ctrl_rsp :: "cbor2 \<Rightarrow> bytes \<Rightarrow> CtrlOp \<Rightarrow> unit exc" where
  "cli_decode_ctrl_rsp C data op = xbind (cli_decode C data (int (CtrlOp_int op))) (\<lambda>_. Inr ())"

lemmas cli_encode_defs = cli_encode_ver_req_def cli_encode_auth_challenge_def cli_encode_auth_proof_def
  cli_encode_config_get_status_def cli_encode_config_set_def cli_encode_config_apply_def cli_encode_scan_start_def
  cli_encode_scan_get_status_def cli_encode_scan_get_results_def cli_encode_cred_write_def cli_encode_cred_finalize_def
  cli_encode_cred_get_status_def cli_encode_ctrl_def

lemmas cli_decode_defs = cli_decode_ver_rsp_def cli_decode_auth_challenge_rsp_def cli_decode_auth_proof_rsp_def
  cli_decode_config_status_rsp_def cli_decode_config_set_rsp_def cli_decode_config_apply_rsp_def
  cli_decode_scan_start_rsp_def cli_decode_scan_status_rsp_def cli_decode_scan_results_rsp_def
  cli_decode_cred_write_rsp_def cli_decode_cred_finalize_rsp_def cli_decode_cred_status_rsp_def cli_decode_ctrl_rsp_def

subsection \<open>Agreement with the device's codec\<close>

lemma str_bytes_inject [simp]: "str_bytes a = str_bytes b \<longleftrightarrow> a = b"
proof -
  have "inj (of_char :: char \<Rightarrow> u8)"
  proof (rule injI)
    fix c d :: char
    assume "(of_char c :: u8) = of_char d"
    moreover have "unat (of_char e :: u8) = of_char e" for e :: char
      using unat_of_nat_small[of "of_char e", where 'a = 8] nat_of_char_less_256[of e] by (simp add: of_nat_of_char)
    ultimately show "c = d" by (metis of_char_eq_iff)
  qed
  then show ?thesis by (simp add: str_bytes_def inj_map_eq_map)
qed

lemma utf8_keys [simp]:
  "utf8_ok (str_bytes ''ssid'')" "utf8_ok (str_bytes ''pass'')" "utf8_ok (str_bytes ''bssid'')" "utf8_ok (str_bytes ''ch'')"
  "utf8_ok (str_bytes ''passive'')" "utf8_ok (str_bytes ''period-ms'')" "utf8_ok (str_bytes ''kind'')" "utf8_ok (str_bytes ''off'')"
  "utf8_ok (str_bytes ''total'')" "utf8_ok (str_bytes ''data'')" "utf8_ok (str_bytes ''proto'')" "utf8_ok (str_bytes ''caps'')"
  "utf8_ok (str_bytes ''blk'')" "utf8_ok (str_bytes ''lib'')" "utf8_ok (str_bytes ''pop'')" "utf8_ok (str_bytes ''ip4'')"
  "utf8_ok (str_bytes ''rssi'')" "utf8_ok (str_bytes ''auth'')"
  by code_simp+

lemma int_toks_uint [simp]: "int_toks (uint (x :: u32)) = u32_tok x"
  by (simp add: int_toks_def u32_tok_def nat_uint_eq)

lemma int_toks_nat [simp]: "int_toks (int n) = T_uint n"
  by (simp add: int_toks_def)

lemma int_toks_num [simp]: "int_toks 0 = T_uint 0" "int_toks 1 = T_uint 1" "int_toks 2 = T_uint 2"
  by (simp_all add: int_toks_def)

lemma uint_bounds [simp]: "- 18446744073709551616 \<le> uint (x :: u32)" "uint x < 18446744073709551616"
  using uint_lt2p[of x] uint_ge_0[of x] by (simp_all add: order_trans[OF _ uint_ge_0])

context cbor2_codec begin

lemma loads_toks: "py_ok v \<Longrightarrow> py_toks v = ts \<Longrightarrow> loads C (toks_bytes ts) = Some v"
  using loads by (auto simp: py_wire_def)

lemma requests_match:
  "cli_encode_ver_req C = toks_bytes [T_list 1, T_uint 0]"
  "length n = 16 \<Longrightarrow> cli_encode_auth_challenge C n = Inr (toks_bytes (auth_req_toks (auth_req_auth_challenge_m n)))"
  "length p = 32 \<Longrightarrow> cli_encode_auth_proof C p = Inr (toks_bytes (auth_req_toks (auth_req_auth_proof_m p)))"
  "cli_encode_config_get_status C = toks_bytes (config_req_toks config_req_config_get_status_m)"
  "cli_encode_config_apply C = toks_bytes (config_req_toks config_req_config_apply_m)"
  "cli_encode_scan_get_status C = toks_bytes (scan_req_toks scan_req_scan_get_status_m)"
  "cli_encode_scan_get_results C (uint a) (uint b) = toks_bytes (scan_req_toks (scan_req_scan_get_results_m a b))"
  "cli_encode_cred_finalize C = toks_bytes (cred_req_toks cred_req_cred_finalize_m)"
  "cli_encode_cred_get_status C = toks_bytes (cred_req_toks cred_req_cred_get_status_m)"
  "cli_encode_ctrl C CtrlOp_RESET = toks_bytes (ctrl_req_toks ctrl_req_ctrl_reset_m)"
  "cli_encode_ctrl C CtrlOp_REPROVISION = toks_bytes (ctrl_req_toks ctrl_req_ctrl_reprovision_m)"
  "cli_encode_ctrl C CtrlOp_END = toks_bytes (ctrl_req_toks ctrl_req_ctrl_end_m)"
  by (simp_all add: cli_encode_defs dumps py_wire_def numeral_2_eq_2[symmetric])

lemma config_set_match:
  assumes "wifi_config_ok c"
  shows "cli_encode_config_set C (wifi_config_ssid c) (wifi_config_pass c) (wifi_config_bssid c) (map_option uint (wifi_config_ch c)) =
    toks_bytes (config_req_toks (config_req_config_set_m c))"
  using assms by (cases "wifi_config_pass c"; cases "wifi_config_bssid c"; cases "wifi_config_ch c")
    (auto simp: cli_encode_defs dumps py_wire_def opt_entry_def wifi_config_ok_def toks_defs numeral_2_eq_2[symmetric])

lemma scan_start_match:
  "cli_encode_scan_start C (scan_params_passive q) (map_option uint (scan_params_period_ms q)) =
    toks_bytes (scan_req_toks (scan_req_scan_start_m q))"
  by (cases "scan_params_passive q"; cases "scan_params_period_ms q")
    (auto simp: cli_encode_defs dumps py_wire_def opt_entry_def toks_defs numeral_2_eq_2[symmetric])

lemma cred_write_match:
  assumes "length (cred_chunk_data c) < 18446744073709551616" and "cred_chunk_kind c = CredKind_int k"
  shows "cli_encode_cred_write C k (uint (cred_chunk_off c)) (uint (cred_chunk_total c)) (cred_chunk_data c) =
    toks_bytes (cred_req_toks (cred_req_cred_write_m c))"
  using assms by (cases k) (auto simp: cli_encode_defs dumps py_wire_def toks_defs numeral_2_eq_2[symmetric])

end

text \<open>The responses of the device as values, and what the client makes of them.\<close>

definition u32_py :: "u32 \<Rightarrow> py" where
  "u32_py x = Py_int (uint x)"

definition ver_info_py :: "ver_info \<Rightarrow> py" where
  "ver_info_py v = Py_dict ([(Py_str (str_bytes ''proto''), u32_py (ver_info_proto v)),
     (Py_str (str_bytes ''caps''), Py_list (map Py_str (ver_info_caps_tstr v))),
     (Py_str (str_bytes ''blk''), u32_py (ver_info_blk v)), (Py_str (str_bytes ''lib''), Py_str (ver_info_lib v))] @
     opt_entry ''pop'' Py_bool (ver_info_pop v))"

definition ver_info_ok :: "ver_info \<Rightarrow> bool" where
  "ver_info_ok v \<longleftrightarrow> list_all (\<lambda>s. utf8_ok s \<and> length s < 18446744073709551616) (ver_info_lib v # ver_info_caps_tstr v)"

definition VersionInfo_of :: "ver_info \<Rightarrow> VersionInfo" where
  "VersionInfo_of v = \<lparr>vi_proto = u32_py (ver_info_proto v), vi_caps = map Py_str (ver_info_caps_tstr v),
     vi_block_size = u32_py (ver_info_blk v), vi_lib = Py_str (ver_info_lib v), vi_pop_required = (ver_info_pop v = Some True)\<rparr>"

definition connected_info_py :: "connected_info \<Rightarrow> py" where
  "connected_info_py i = Py_dict ([(Py_str (str_bytes ''ip4''), Py_bytes (connected_info_ip4 i)),
     (Py_str (str_bytes ''ssid''), Py_bytes (connected_info_ssid i))] @
     opt_entry ''rssi'' (\<lambda>x. Py_int (sint x)) (connected_info_rssi i))"

fun config_detail_py :: "config_detail_r \<Rightarrow> py" where
  "config_detail_py (config_detail_fail_reason_m c) = u32_py c"
| "config_detail_py (config_detail_connected_info_m i) = connected_info_py i"

definition WifiStatus_of :: "u32 \<Rightarrow> config_detail_r option \<Rightarrow> WifiStatus" where
  "WifiStatus_of sta detail =
     (let status = \<lparr>ws_state = [StaState_CONNECTED, StaState_CONNECTING, StaState_DISCONNECTED, StaState_FAILED] ! unat sta,
        ws_fail_reason = None, ws_ip4 = None, ws_ssid = None, ws_rssi = Py_none\<rparr> in
      case detail of
        None \<Rightarrow> status
      | Some (config_detail_fail_reason_m c) \<Rightarrow>
          status\<lparr>ws_fail_reason := Some ([FailReason_AUTH_ERROR, FailReason_NETWORK_NOT_FOUND] ! unat c)\<rparr>
      | Some (config_detail_connected_info_m i) \<Rightarrow>
          status\<lparr>ws_ip4 := Some (connected_info_ip4 i), ws_ssid := Some (connected_info_ssid i),
            ws_rssi := (case connected_info_rssi i of None \<Rightarrow> Py_none | Some x \<Rightarrow> Py_int (sint x))\<rparr>)"

definition scan_entry_py :: "scan_entry \<Rightarrow> py" where
  "scan_entry_py v = Py_dict [(Py_str (str_bytes ''ssid''), Py_bytes (scan_entry_ssid v)),
     (Py_str (str_bytes ''bssid''), Py_bytes (scan_entry_bssid v)), (Py_str (str_bytes ''ch''), u32_py (scan_entry_ch v)),
     (Py_str (str_bytes ''rssi''), Py_int (sint (scan_entry_rssi v))), (Py_str (str_bytes ''auth''), u32_py (scan_entry_auth v))]"

definition ScanEntry_of :: "scan_entry \<Rightarrow> ScanEntry" where
  "ScanEntry_of v = \<lparr>se_ssid = scan_entry_ssid v, se_bssid = scan_entry_bssid v, se_channel = u32_py (scan_entry_ch v),
     se_rssi = Py_int (sint (scan_entry_rssi v)), se_auth = u32_py (scan_entry_auth v)\<rparr>"

definition kind_text :: "CredKind \<Rightarrow> bytes" where
  "kind_text k = [48 + of_nat (CredKind_int k)]"

definition count_entry :: "CredKind \<times> u32 \<Rightarrow> map_tstruint" where
  "count_entry = (\<lambda>(k, n). \<lparr>cred_status_rsp_map_tstruint_key = kind_text k, map_tstruint = n\<rparr>)"

definition Status_name :: "u32 \<Rightarrow> Status" where
  "Status_name st = [Status_OK, INVALID_PROTO, INVALID_ARGUMENT, INTERNAL_ERROR, UNAUTHORIZED, INVALID_STATE, BUSY] ! unat st"

definition on_ok :: "u32 \<Rightarrow> 'a \<Rightarrow> 'a exc" where
  "on_ok st x = (if st = 0 then Inr x else Inl (ProvError (Status_name st)))"

lemma Status_of_u32: "status_ok st \<Longrightarrow> Status_of (Some (uint st)) = Inr (Status_name st)"
  using u32_le_6[of st] by (auto simp: status_ok_def Status_of_def Status_name_def enum_member_def)

lemma Status_name_OK: "status_ok st \<Longrightarrow> Status_name st = Status_OK \<longleftrightarrow> st = 0"
  using u32_le_6[of st] by (auto simp: status_ok_def Status_name_def)

lemma int_toks_sint [simp]: "int_toks (sint (x :: u32)) = int_tok x"
  by (simp add: int_toks_def int_tok_def)

lemma sint_bounds [simp]: "- 18446744073709551616 \<le> sint (x :: u32)" "sint x < 18446744073709551616"
  using sint_lt[of x] sint_ge[of x] by simp_all

lemma u32_py_simps [simp]: "py_toks (u32_py x) = [u32_tok x]" "py_ok (u32_py x)" "py_num C (u32_py x) = Some (uint x)"
  "py_int C (u32_py x) = Inr (uint x)"
  by (simp_all add: u32_py_def)

lemma ver_info_py_toks: "py_toks (ver_info_py v) = ver_info_toks v"
  by (cases "ver_info_pop v") (simp_all add: ver_info_py_def opt_entry_def toks_defs comp_def)

lemma config_detail_py_toks: "py_toks (config_detail_py d) = config_detail_toks d"
  by (cases d) (auto simp: connected_info_py_def opt_entry_def toks_defs split: option.split)

lemma scan_entry_py_toks: "py_toks (scan_entry_py e) = scan_entry_toks e"
  by (simp add: scan_entry_py_def toks_defs)

lemma ver_info_py_ok: "ver_info_ok v \<Longrightarrow> length (ver_info_caps_tstr v) \<le> 8 \<Longrightarrow> py_ok (ver_info_py v)"
  by (cases "ver_info_pop v") (simp_all add: ver_info_py_def ver_info_ok_def opt_entry_def list_all_iff)

lemma config_detail_py_ok: "config_detail_ok d \<Longrightarrow> py_ok (config_detail_py d)"
  by (cases d) (auto simp: connected_info_py_def opt_entry_def split: option.split)

lemma scan_entry_py_ok: "scan_entry_ok e \<Longrightarrow> py_ok (scan_entry_py e)"
  by (simp add: scan_entry_py_def scan_entry_ok_def)

lemma count_entry_toks: "concat (map map_tstruint_toks (map count_entry cs)) =
    concat (map (\<lambda>(k, v). py_toks k @ py_toks v) (map (\<lambda>(k, n). (Py_str (kind_text k), u32_py n)) cs))"
  by (induction cs) (auto simp: count_entry_def toks_defs)

lemma CredKind_text: "int_of_text (kind_text k) = Some (int (CredKind_int k))" "utf8_ok (kind_text k)"
  by (cases k; simp add: kind_text_def int_of_text_def strip_def is_space_def is_digit_def)+

lemma CredKind_of_int: "CredKind_of (Some (int (CredKind_int k))) = Inr k"
  by (cases k) (simp_all add: CredKind_of_def enum_member_def)

lemma CredKind_key_inject: "kind_text k = kind_text k' \<longleftrightarrow> k = k'"
  by (cases k; cases k') (simp_all add: kind_text_def)

lemma fold_update_distinct: "distinct (map fst (acc @ cs)) \<Longrightarrow> fold (\<lambda>(k, n). AList.update k n) cs acc = acc @ cs"
proof (induction cs arbitrary: acc)
  case (Cons c cs)
  obtain k n where c: "c = (k, n)" by (cases c)
  have "k \<notin> fst ` set acc" using Cons.prems c by auto
  then have "AList.update k n acc = acc @ [(k, n)]" by (induction acc) auto
  with Cons.IH[of "acc @ [c]"] Cons.prems c show ?case by simp
qed simp

context cbor2_codec begin

lemma decode_list:
  assumes "list_all py_ok xs" and "length xs < 1000" and "status_ok st" and "op < 1000"
    and "ts = T_list (Suc (Suc (length xs))) # T_uint op # u32_tok st # concat (map py_toks xs)"
  shows "cli_decode C (toks_bytes ts) (int op) = on_ok st (Py_int (int op) # u32_py st # xs)"
proof -
  have "loads C (toks_bytes ts) = Some (Py_list (Py_int (int op) # u32_py st # xs))"
    by (rule loads_toks) (use assms in simp_all)
  then show ?thesis using assms(3) by (simp add: cli_decode_def Status_of_u32 on_ok_def Status_name_OK)
qed

lemma ver_rsp_read:
  assumes "ver_rsp_ok v" and "ver_info_ok (ver_rsp_ver_info_m v)"
  shows "cli_decode_ver_rsp C (toks_bytes (ver_rsp_toks v)) = on_ok (ver_rsp_prov_status_m v) (VersionInfo_of (ver_rsp_ver_info_m v))"
proof -
  have "cli_decode C (toks_bytes (ver_rsp_toks v)) (int 0) =
      on_ok (ver_rsp_prov_status_m v) [Py_int (int 0), u32_py (ver_rsp_prov_status_m v), ver_info_py (ver_rsp_ver_info_m v)]"
    by (rule decode_list) (use assms in \<open>simp_all add: ver_rsp_ok_def ver_rsp_toks_def ver_info_py_toks ver_info_py_ok\<close>)
  then show ?thesis
    by (cases "ver_info_pop (ver_rsp_ver_info_m v)")
       (simp_all add: cli_decode_ver_rsp_def on_ok_def py_nth_def ver_info_py_def VersionInfo_of_def opt_entry_def)
qed

lemma auth_rsp_read:
  "auth_rsp_ok (auth_rsp_auth_challenge_rsp_m st n q) \<Longrightarrow>
    cli_decode_auth_challenge_rsp C (toks_bytes (auth_rsp_toks (auth_rsp_auth_challenge_rsp_m st n q))) = on_ok st (n, q)"
  "auth_rsp_ok (auth_rsp_auth_proof_rsp_m st) \<Longrightarrow>
    cli_decode_auth_proof_rsp C (toks_bytes (auth_rsp_toks (auth_rsp_auth_proof_rsp_m st))) = on_ok st ()"
  using decode_list[of "[Py_bytes n, Py_bytes q]" st 0 "auth_rsp_toks (auth_rsp_auth_challenge_rsp_m st n q)"]
    decode_list[of "[]" st 1 "auth_rsp_toks (auth_rsp_auth_proof_rsp_m st)"]
  by (simp_all add: cli_decode_defs on_ok_def py_nth_def)

lemma config_status_read:
  assumes "config_rsp_ok (config_rsp_config_status_rsp_m s)"
  shows "cli_decode_config_status_rsp C (toks_bytes (config_rsp_toks (config_rsp_config_status_rsp_m s))) =
    on_ok (config_status_rsp_prov_status_m s) (WifiStatus_of (config_status_rsp_sta_state_m s) (config_status_rsp_config_detail_m s))"
proof -
  let ?st = "config_status_rsp_prov_status_m s" and ?sta = "config_status_rsp_sta_state_m s"
  let ?d = "case config_status_rsp_config_detail_m s of None \<Rightarrow> [] | Some d \<Rightarrow> [config_detail_py d]"
  have l: "cli_decode C (toks_bytes (config_rsp_toks (config_rsp_config_status_rsp_m s))) (int 0) = on_ok ?st (Py_int (int 0) # u32_py ?st # u32_py ?sta # ?d)"
    by (rule decode_list) (use assms in \<open>simp_all add: config_detail_py_ok config_detail_py_toks present_def split: option.splits\<close>)
  have sta: "StaState_of (Some (uint ?sta)) =
      Inr ([StaState_CONNECTED, StaState_CONNECTING, StaState_DISCONNECTED, StaState_FAILED] ! unat ?sta)"
    using u32_le_3[of ?sta] assms by (auto simp: StaState_of_def enum_member_def)
  have fr: "FailReason_of (Some (uint x)) = Inr ([FailReason_AUTH_ERROR, FailReason_NETWORK_NOT_FOUND] ! unat x)" if "x \<le> 1" for x :: u32
    using u32_le_3[of x] order_trans[OF that, of 3] that by (auto simp: word_le_nat_alt FailReason_of_def enum_member_def)
  show ?thesis
  proof (cases "config_status_rsp_config_detail_m s")
    case None
    with l sta show ?thesis by (simp add: cli_decode_defs on_ok_def py_nth_def WifiStatus_of_def)
  next
    case (Some d)
    with assms have "config_detail_ok d" by simp
    then have "wifi_status_detail C (config_detail_py d) (WifiStatus_of ?sta None) = Inr (WifiStatus_of ?sta (Some d))"
      by (cases d) (auto simp: wifi_status_detail_def u32_py_def fr WifiStatus_of_def connected_info_py_def opt_entry_def split: option.split)
    with l sta Some show ?thesis by (simp add: cli_decode_defs on_ok_def py_nth_def WifiStatus_of_def)
  qed
qed

lemma config_rsp_read:
  "status_ok st \<Longrightarrow> cli_decode_config_set_rsp C (toks_bytes (config_rsp_toks (config_rsp_config_set_rsp_m st))) = on_ok st ()"
  "status_ok st \<Longrightarrow> cli_decode_config_apply_rsp C (toks_bytes (config_rsp_toks (config_rsp_config_apply_rsp_m st))) = on_ok st ()"
  using decode_list[of "[]" st 1 "config_rsp_toks (config_rsp_config_set_rsp_m st)"]
    decode_list[of "[]" st 2 "config_rsp_toks (config_rsp_config_apply_rsp_m st)"]
  by (simp_all add: cli_decode_defs on_ok_def)

lemma scan_rsp_read:
  "status_ok st \<Longrightarrow> cli_decode_scan_start_rsp C (toks_bytes (scan_rsp_toks (scan_rsp_scan_start_rsp_m st))) = on_ok st ()"
  "status_ok st \<Longrightarrow> cli_decode_scan_status_rsp C (toks_bytes (scan_rsp_toks (scan_rsp_scan_status_rsp_m st fin n))) = on_ok st (fin, uint n)"
  using decode_list[of "[]" st 0 "scan_rsp_toks (scan_rsp_scan_start_rsp_m st)"]
    decode_list[of "[Py_bool fin, u32_py n]" st 1 "scan_rsp_toks (scan_rsp_scan_status_rsp_m st fin n)"]
  by (simp_all add: cli_decode_defs on_ok_def py_nth_def)

lemma scan_results_read:
  assumes "scan_rsp_ok (scan_rsp_scan_results_rsp_m st es)"
  shows "cli_decode_scan_results_rsp C (toks_bytes (scan_rsp_toks (scan_rsp_scan_results_rsp_m st es))) = on_ok st (map ScanEntry_of es)"
proof -
  have "cli_decode C (toks_bytes (scan_rsp_toks (scan_rsp_scan_results_rsp_m st es))) (int 2) =
      on_ok st [Py_int (int 2), u32_py st, Py_list (map scan_entry_py es)]"
    by (rule decode_list) (use assms in \<open>simp_all add: list_all_iff scan_entry_py_ok scan_entry_py_toks comp_def\<close>)
  moreover have "xmap (cli_scan_entry C) (map scan_entry_py es) = Inr (map ScanEntry_of es)"
    by (induction es) (auto simp: cli_scan_entry_def scan_entry_py_def ScanEntry_of_def)
  ultimately show ?thesis by (simp add: cli_decode_defs on_ok_def py_nth_def)
qed

lemma cred_rsp_read:
  "status_ok st \<Longrightarrow> cli_decode_cred_write_rsp C (toks_bytes (cred_rsp_toks (cred_rsp_cred_write_rsp_m st n))) = on_ok st (uint n)"
  "status_ok st \<Longrightarrow> cli_decode_cred_finalize_rsp C (toks_bytes (cred_rsp_toks (cred_rsp_cred_finalize_rsp_m st))) = on_ok st ()"
  using decode_list[of "[u32_py n]" st 0 "cred_rsp_toks (cred_rsp_cred_write_rsp_m st n)"]
    decode_list[of "[]" st 1 "cred_rsp_toks (cred_rsp_cred_finalize_rsp_m st)"]
  by (simp_all add: cli_decode_defs on_ok_def py_nth_def)

lemma cred_status_read:
  assumes "status_ok st" and "distinct (map fst cs)"
  shows "cli_decode_cred_status_rsp C (toks_bytes (cred_rsp_toks (cred_rsp_cred_status_rsp_m st (map count_entry cs)))) =
    on_ok st (map (\<lambda>(k, n). (k, uint n)) cs)"
proof -
  let ?m = "map (\<lambda>(k, n). (Py_str (kind_text k), u32_py n)) cs"
  have card: "length cs < 1000"
  proof -
    have "set (map fst cs) \<subseteq> {CredKind_DEVICE_CERT, CredKind_PRIVATE_KEY, CredKind_CA_CERT}" using CredKind.exhaust by auto
    from card_mono[OF _ this] distinct_card[OF assms(2)] show ?thesis by simp
  qed
  have "distinct (map fst ?m)"
    using assms(2) CredKind_key_inject by (auto simp: distinct_map comp_def case_prod_unfold inj_on_def)
  then have "cli_decode C (toks_bytes (cred_rsp_toks (cred_rsp_cred_status_rsp_m st (map count_entry cs)))) (int 2) =
      on_ok st [Py_int (int 2), u32_py st, Py_dict ?m]"
    using card assms(1) by (intro decode_list) (simp_all add: count_entry_toks[simplified] list_all_iff case_prod_unfold CredKind_text(2) kind_text_def[THEN arg_cong[where f = length]])
  moreover have "xmap (cli_cred_count C) ?m = Inr (map (\<lambda>(k, n). (k, uint n)) cs)"
    by (induction cs) (auto simp: cli_cred_count_def CredKind_text CredKind_of_int)
  moreover have "fold (\<lambda>(k, n). AList.update k n) (map (\<lambda>(k, n). (k, uint n)) cs) [] = map (\<lambda>(k, n). (k, uint n)) cs"
    using fold_update_distinct[of "[]" "map (\<lambda>(k, n). (k, uint n)) cs"] assms(2) by (simp add: comp_def case_prod_unfold)
  ultimately show ?thesis by (simp add: cli_decode_defs on_ok_def py_nth_def)
qed

lemma ctrl_rsp_read:
  assumes "status_ok st"
  shows "cli_decode_ctrl_rsp C (toks_bytes (ctrl_rsp_toks \<lparr>ctrl_rsp_ctrl_op_m = of_nat (CtrlOp_int op), ctrl_rsp_prov_status_m = st\<rparr>)) op = on_ok st ()"
proof -
  have "CtrlOp_int op < 1000" "u32_tok (of_nat (CtrlOp_int op)) = T_uint (CtrlOp_int op)" by (cases op; simp)+
  then show ?thesis using decode_list[of "[]" st "CtrlOp_int op"] assms by (simp add: cli_decode_defs on_ok_def ctrl_rsp_toks_def numeral_2_eq_2)
qed

end

text \<open>The decoders of the device read back the tokens of every request.\<close>

lemma requests_read:
  assumes D: "zcbor_decoder Z R"
  shows "auth_req_ok a \<Longrightarrow> cbor_decode_auth_req Z (toks_bytes (auth_req_toks a)) = Some (a, length (toks_bytes (auth_req_toks a)))"
    and "config_req_ok w \<Longrightarrow> cbor_decode_config_req Z (toks_bytes (config_req_toks w)) = Some (w, length (toks_bytes (config_req_toks w)))"
    and "cbor_decode_scan_req Z (toks_bytes (scan_req_toks s)) = Some (s, length (toks_bytes (scan_req_toks s)))"
    and "cred_req_ok c \<Longrightarrow> cbor_decode_cred_req Z (toks_bytes (cred_req_toks c)) = Some (c, length (toks_bytes (cred_req_toks c)))"
    and "cbor_decode_ctrl_req Z (toks_bytes (ctrl_req_toks x)) = Some (x, length (toks_bytes (ctrl_req_toks x)))"
  using exact_auth_req[OF D wf_auth_req, of a a] exact_config_req[OF D wf_config_req, of w w] exact_cred_req[OF D wf_cred_req, of c c]
    dec_scan_req[OF wf_scan_req, of s s] zcbor_decoder.cbor_decode_scan_req_ref[OF D wf_scan_req, of s]
    dec_ctrl_req[OF wf_ctrl_req, of x x] zcbor_decoder.cbor_decode_ctrl_req_ref[OF D wf_ctrl_req, of x]
  by (simp_all del: auth_req_toks.simps config_req_toks.simps scan_req_toks.simps cred_req_toks.simps ctrl_req_toks.simps)

subsection \<open>Properties\<close>





end
