(* ===== verification/Client_Pouch.thy ===== *)
theory Client_Pouch
  imports Client_Base
begin

text \<open>
  The framing of the transport as the client writes and reads it (\<^verbatim>\<open>cli/src/pouchprov/pouchlink/pouch.py\<close>):
  entries, blocks and headers of a pouch, and that a pouch is read back as it was built.
\<close>

unbundle bit_operations_syntax

subsection \<open>Constants\<close>

definition POUCH_VERSION :: int where "POUCH_VERSION = 1"
definition CONTENT_TYPE_CBOR :: int where "CONTENT_TYPE_CBOR = 60"
definition BLOCK_ID_ENTRY :: int where "BLOCK_ID_ENTRY = 0x00"
definition BLOCK_ID_MASK :: int where "BLOCK_ID_MASK = 0x1F"
definition BLOCK_FIRST :: int where "BLOCK_FIRST = 0x40"
definition BLOCK_LAST :: int where "BLOCK_LAST = 0x80"
definition BLOCK_HEADER_SIZE :: nat where "BLOCK_HEADER_SIZE = 3"
definition ENTRY_HEADER_OVERHEAD :: nat where "ENTRY_HEADER_OVERHEAD = 5"
definition ENCRYPTION_NONE :: int where "ENCRYPTION_NONE = 0"
definition ENCRYPTION_SAEAD :: int where "ENCRYPTION_SAEAD = 1"

lemmas pouch_consts = POUCH_VERSION_def BLOCK_ID_ENTRY_def BLOCK_ID_MASK_def BLOCK_FIRST_def BLOCK_LAST_def
  BLOCK_HEADER_SIZE_def ENTRY_HEADER_OVERHEAD_def ENCRYPTION_NONE_def ENCRYPTION_SAEAD_def

subsection \<open>Entries\<close>

record Entry =
  entry_path :: bytes
  entry_content_type :: int
  entry_data :: bytes

definition Entry_encode :: "Entry \<Rightarrow> bytes exc" where
  "Entry_encode e =
     (if 255 < length (entry_path e) then Inl ValueError
      else xbind (pack_be 2 (int (length (entry_data e)))) (\<lambda>data_len.
           xbind (pack_be 2 (entry_content_type e)) (\<lambda>content_type.
           xbind (pack_be 1 (int (length (entry_path e)))) (\<lambda>path_len.
           Inr (data_len @ content_type @ path_len @ entry_path e @ entry_data e)))))"

text \<open>The loop of \<^verbatim>\<open>parse_entry_blocks\<close>, on the data from \<^verbatim>\<open>pos\<close> on.\<close>

function parse_entries :: "bytes \<Rightarrow> Entry list exc" where
  "parse_entries data =
     (if data = [] then Inr []
      else if length data < ENTRY_HEADER_OVERHEAD then Inl PouchDecodeError
      else let data_len = be_value (take 2 data);
               content_type = be_value (take 2 (drop 2 data));
               path_len = be_value (take 1 (drop 4 data));
               rest = drop ENTRY_HEADER_OVERHEAD data
           in if length rest < path_len + data_len then Inl PouchDecodeError
              else xbind (decode_str (take path_len rest)) (\<lambda>path.
                   xbind (parse_entries (drop data_len (drop path_len rest))) (\<lambda>es.
                   Inr (\<lparr>entry_path = path, entry_content_type = int content_type,
                         entry_data = take data_len (drop path_len rest)\<rparr> # es))))"
  by pat_completeness auto
termination
  by (relation "measure length") (auto simp: ENTRY_HEADER_OVERHEAD_def)

declare parse_entries.simps [simp del]

definition parse_entry_blocks :: "bytes list \<Rightarrow> Entry list exc" where
  "parse_entry_blocks payloads = parse_entries (concat payloads)"

subsection \<open>Headers\<close>

text \<open>The fields of a header that was read are whatever the sender wrote.\<close>

record SessionInfo =
  session_id :: bytes
  initiator :: py
  algorithm :: py
  max_block_size_log :: py
  cert_ref :: bytes
  sequential_seq :: "int option"

definition to_cbor_obj :: "SessionInfo \<Rightarrow> py" where
  "to_cbor_obj s = Py_list
     [Py_list (case sequential_seq s of Some q \<Rightarrow> [Py_bytes (session_id s), Py_int q] | None \<Rightarrow> [Py_bytes (session_id s)]),
      initiator s, algorithm s, max_block_size_log s, Py_bytes (cert_ref s)]"

definition from_cbor_obj :: "cbor2 \<Rightarrow> py \<Rightarrow> SessionInfo exc" where
  "from_cbor_obj C obj =
     xbind (py_iter C obj) (\<lambda>fields.
     case fields of
       [sid, ini, alg, mbsl, ref] \<Rightarrow>
         xbind (py_len C sid) (\<lambda>n.
         xbind (xbind (py_index C sid 0) (py_bytes C)) (\<lambda>b.
         xbind (py_bytes C ref) (\<lambda>r.
         if n = 2
         then xbind (xbind (py_index C sid 1) (py_int C)) (\<lambda>q.
              Inr \<lparr>session_id = b, initiator = ini, algorithm = alg, max_block_size_log = mbsl, cert_ref = r, sequential_seq = Some q\<rparr>)
         else Inr \<lparr>session_id = b, initiator = ini, algorithm = alg, max_block_size_log = mbsl, cert_ref = r, sequential_seq = None\<rparr>)))
     | _ \<Rightarrow> Inl ValueError)"

record PouchHeader =
  encryption :: int
  header_device_id :: py
  header_session :: "SessionInfo option"
  pouch_id :: py

definition PouchHeader_encode :: "cbor2 \<Rightarrow> PouchHeader \<Rightarrow> bytes exc" where
  "PouchHeader_encode C h =
     (if encryption h = ENCRYPTION_NONE
      then if header_device_id h = Py_none then Inl ValueError
           else Inr (dumps C (Py_list [Py_int POUCH_VERSION, Py_list [Py_int ENCRYPTION_NONE, header_device_id h]]))
      else case header_session h of
             None \<Rightarrow> Inl ValueError
           | Some s \<Rightarrow> Inr (dumps C (Py_list [Py_int POUCH_VERSION, Py_list [Py_int ENCRYPTION_SAEAD, to_cbor_obj s, pouch_id h]])))"

definition PouchHeader_decode :: "cbor2 \<Rightarrow> bytes \<Rightarrow> (PouchHeader \<times> nat) exc" where
  "PouchHeader_decode C data =
     (case decode_first C data of
        None \<Rightarrow> Inl PouchDecodeError
      | Some (Py_list [version, info], consumed) \<Rightarrow>
          if py_num C version \<noteq> Some POUCH_VERSION then Inl PouchDecodeError
          else (case info of
            Py_list (kind # args) \<Rightarrow>
              if py_num C kind = Some ENCRYPTION_NONE
              then xbind (py_nth args 0) (\<lambda>dev.
                   Inr (\<lparr>encryption = ENCRYPTION_NONE, header_device_id = dev, header_session = None, pouch_id = Py_int 0\<rparr>, consumed))
              else if py_num C kind = Some ENCRYPTION_SAEAD
              then xbind (xbind (py_nth args 0) (from_cbor_obj C)) (\<lambda>s.
                   xbind (py_nth args 1) (\<lambda>pid.
                   Inr (\<lparr>encryption = ENCRYPTION_SAEAD, header_device_id = Py_none, header_session = Some s, pouch_id = pid\<rparr>, consumed)))
              else Inl PouchDecodeError
          | _ \<Rightarrow> Inl PouchDecodeError)
      | _ \<Rightarrow> Inl PouchDecodeError)"

subsection \<open>Blocks\<close>

record Block =
  payload :: bytes
  stream_id :: int
  block_first :: bool
  block_last :: bool

definition block_id_byte :: "int \<Rightarrow> bool \<Rightarrow> bool \<Rightarrow> int" where
  "block_id_byte stream f l =
     (let id_byte = stream AND BLOCK_ID_MASK;
          id_byte = (if f then id_byte OR BLOCK_FIRST else id_byte)
      in if l then id_byte OR BLOCK_LAST else id_byte)"

definition Block_encode :: "Block \<Rightarrow> bytes exc" where
  "Block_encode b =
     xbind (pack_be 2 (int (length (payload b)) + 1)) (\<lambda>size.
     xbind (pack_be 1 (block_id_byte (stream_id b) (block_first b) (block_last b))) (\<lambda>id_byte.
     Inr (size @ id_byte @ payload b)))"

text \<open>The loop of \<^verbatim>\<open>split_blocks\<close>, on the data from \<^verbatim>\<open>pos\<close> on.\<close>

function split_blocks :: "bytes \<Rightarrow> Block list exc" where
  "split_blocks data =
     (if data = [] then Inr []
      else if length data < BLOCK_HEADER_SIZE then Inl PouchDecodeError
      else let size = be_value (take 2 data);
               id_byte = uint (data ! 2);
               rest = drop BLOCK_HEADER_SIZE data
           in if size < 1 \<or> length rest < size - 1 then Inl PouchDecodeError
              else xbind (split_blocks (drop (size - 1) rest)) (\<lambda>bs.
                   Inr (\<lparr>payload = take (size - 1) rest, stream_id = id_byte AND BLOCK_ID_MASK,
                         block_first = (id_byte AND BLOCK_FIRST \<noteq> 0), block_last = (id_byte AND BLOCK_LAST \<noteq> 0)\<rparr> # bs)))"
  by pat_completeness auto
termination
  by (relation "measure length") (auto simp: BLOCK_HEADER_SIZE_def)

declare split_blocks.simps [simp del]

subsection \<open>Pouches\<close>

definition Pouch_encode :: "cbor2 \<Rightarrow> PouchHeader \<Rightarrow> Block list \<Rightarrow> bytes exc" where
  "Pouch_encode C header blocks =
     xbind (PouchHeader_encode C header) (\<lambda>h. xbind (xmap Block_encode blocks) (\<lambda>bs. Inr (h @ concat bs)))"

text \<open>The loop of \<^verbatim>\<open>build_entry_pouch\<close>: the blocks so far and the payload of the next one.\<close>

fun pack_entries :: "cbor2 \<Rightarrow> py \<Rightarrow> Block list \<Rightarrow> bytes \<Rightarrow> Entry list \<Rightarrow> (Block list \<times> bytes) exc" where
  "pack_entries C block_size blocks current [] = Inr (blocks, current)"
| "pack_entries C block_size blocks current (e # es) =
     xbind (Entry_encode e) (\<lambda>encoded.
     xbind (py_less C block_size (int (length encoded))) (\<lambda>big.
     if big then Inl ValueError
     else xbind (if current \<noteq> [] then py_less C block_size (int (length current + length encoded)) else Inr False) (\<lambda>full.
          if full
          then pack_entries C block_size
                 (blocks @ [\<lparr>payload = current, stream_id = BLOCK_ID_ENTRY, block_first = (blocks = []), block_last = False\<rparr>]) encoded es
          else pack_entries C block_size blocks (current @ encoded) es)))"

definition build_entry_pouch :: "cbor2 \<Rightarrow> py \<Rightarrow> Entry list \<Rightarrow> py \<Rightarrow> bytes exc" where
  "build_entry_pouch C dev entries block_size =
     xbind (pack_entries C block_size [] [] entries) (\<lambda>(blocks, current).
     Pouch_encode C \<lparr>encryption = ENCRYPTION_NONE, header_device_id = dev, header_session = None, pouch_id = Py_int 0\<rparr>
       (blocks @ [\<lparr>payload = current, stream_id = BLOCK_ID_ENTRY, block_first = (blocks = []), block_last = True\<rparr>]))"

definition parse_pouch :: "cbor2 \<Rightarrow> bytes \<Rightarrow> (PouchHeader \<times> Entry list) exc" where
  "parse_pouch C data =
     xbind (PouchHeader_decode C data) (\<lambda>(header, consumed).
     xbind (split_blocks (drop consumed data)) (\<lambda>raw_blocks.
     if encryption header \<noteq> ENCRYPTION_NONE then Inl PouchDecodeError
     else xbind (parse_entry_blocks (map payload (filter (\<lambda>b. stream_id b = BLOCK_ID_ENTRY) raw_blocks))) (\<lambda>es.
          Inr (header, es))))"

subsection \<open>Reading back\<close>

lemma Entry_encode_Inr:
  assumes "Entry_encode e = Inr b"
  obtains ct where "entry_content_type e = int ct" "ct < 65536" "length (entry_data e) < 65536" "length (entry_path e) < 256"
    "b = be_bytes 2 (length (entry_data e)) @ be_bytes 2 ct @ be_bytes 1 (length (entry_path e)) @ entry_path e @ entry_data e"
proof -
  from assms obtain x where x: "pack_be 2 (entry_content_type e) = Inr x"
    by (auto simp: Entry_encode_def xbind_Inr split: if_splits)
  then have "entry_content_type e = int (nat (entry_content_type e))" by (simp add: pack_be_def split: if_splits)
  then obtain ct where ct: "entry_content_type e = int ct" by blast
  show thesis by (rule that[OF ct]) (use assms ct in \<open>auto simp: Entry_encode_def xbind_Inr pack_be_Inr split: if_splits\<close>)
qed

lemma be_value_one: "n < 256 \<Longrightarrow> be_value (be_bytes 1 n) = n" "n < 65536 \<Longrightarrow> be_value (be_bytes 2 n) = n"
  by (rule be_value_be_bytes, simp)+

lemma parse_entries_encoded:
  assumes "Entry_encode e = Inr b" and "utf8_ok (entry_path e)"
  shows "parse_entries (b @ r) = xbind (parse_entries r) (\<lambda>es. Inr (e # es))"
proof -
  obtain ct where ct: "entry_content_type e = int ct" "ct < 65536" "length (entry_data e) < 65536" "length (entry_path e) < 256"
    and b: "b = be_bytes 2 (length (entry_data e)) @ be_bytes 2 ct @ be_bytes 1 (length (entry_path e)) @ entry_path e @ entry_data e"
    using Entry_encode_Inr[OF assms(1)] by blast
  have n: "b @ r \<noteq> []" "\<not> length (b @ r) < ENTRY_HEADER_OVERHEAD" by (auto simp: b ENTRY_HEADER_OVERHEAD_def)
  have f: "be_value (take 2 (b @ r)) = length (entry_data e)" "be_value (take 2 (drop 2 (b @ r))) = ct"
    "be_value (take 1 (drop 4 (b @ r))) = length (entry_path e)"
    "drop ENTRY_HEADER_OVERHEAD (b @ r) = entry_path e @ entry_data e @ r"
    using ct be_value_one by (simp_all add: b ENTRY_HEADER_OVERHEAD_def del: be_bytes.simps One_nat_def)
  show ?thesis using assms(2) ct(1)
    by (subst parse_entries.simps) (simp only: n f if_False Let_def, cases e, simp add: decode_str_def)
qed

lemma parse_entries_all:
  "xmap Entry_encode es = Inr bs \<Longrightarrow> list_all (\<lambda>e. utf8_ok (entry_path e)) es \<Longrightarrow> parse_entries (concat bs) = Inr es"
proof (induction es arbitrary: bs)
  case Nil
  then show ?case by (simp add: parse_entries.simps)
next
  case (Cons e es)
  then obtain b bs' where "Entry_encode e = Inr b" "xmap Entry_encode es = Inr bs'" "bs = b # bs'" by (auto simp: xbind_Inr)
  with Cons parse_entries_encoded[of e b "concat bs'"] show ?case by simp
qed

text \<open>Blocks of entries only, and what they carry.\<close>

definition entry_blocks :: "Block list \<Rightarrow> bool" where
  "entry_blocks bs \<longleftrightarrow> list_all (\<lambda>b. stream_id b = BLOCK_ID_ENTRY) bs"

lemma block_id_byte_entry:
  "0 \<le> block_id_byte BLOCK_ID_ENTRY f l" "block_id_byte BLOCK_ID_ENTRY f l < 256"
  "block_id_byte BLOCK_ID_ENTRY f l AND BLOCK_ID_MASK = BLOCK_ID_ENTRY"
  "block_id_byte BLOCK_ID_ENTRY f l AND BLOCK_FIRST \<noteq> 0 \<longleftrightarrow> f" "block_id_byte BLOCK_ID_ENTRY f l AND BLOCK_LAST \<noteq> 0 \<longleftrightarrow> l"
  by (cases f; cases l; simp add: block_id_byte_def pouch_consts)+

lemma split_blocks_encoded:
  assumes "Block_encode k = Inr b" and "stream_id k = BLOCK_ID_ENTRY"
  shows "split_blocks (b @ r) = xbind (split_blocks r) (\<lambda>bs. Inr (k # bs))"
proof -
  let ?id = "block_id_byte BLOCK_ID_ENTRY (block_first k) (block_last k)"
  have l: "int (length (payload k)) + 1 = int (Suc (length (payload k)))" by simp
  obtain x y where x: "pack_be 2 (int (Suc (length (payload k)))) = Inr x" "pack_be 1 ?id = Inr y" and bxy: "b = x @ y @ payload k"
    using assms unfolding Block_encode_def l by (auto simp: xbind_Inr simp del: of_nat_Suc)
  have y: "y = be_bytes 1 (nat ?id)" using x(2) by (simp add: pack_be_def split: if_splits)
  have p: "Suc (length (payload k)) < 65536" and b: "b = be_bytes 2 (Suc (length (payload k))) @ be_bytes 1 (nat ?id) @ payload k"
    using x(1)[unfolded pack_be_Inr] bxy y by simp_all
  have n: "b @ r \<noteq> []" "\<not> length (b @ r) < BLOCK_HEADER_SIZE" by (auto simp: b BLOCK_HEADER_SIZE_def)
  have "uint ((b @ r) ! 2) = int (be_value (be_bytes 1 (nat ?id)))"
    by (simp add: b nth_append be_value_def)
  also have "\<dots> = ?id" using be_value_one(1)[of "nat ?id"] block_id_byte_entry(1,2) by (simp add: nat_less_iff)
  finally have i: "uint ((b @ r) ! 2) = ?id" .
  have f: "be_value (take 2 (b @ r)) = Suc (length (payload k))" "drop BLOCK_HEADER_SIZE (b @ r) = payload k @ r"
    using p be_value_one(2) by (simp_all add: b BLOCK_HEADER_SIZE_def del: be_bytes.simps)
  show ?thesis using assms(2)
    by (subst split_blocks.simps) (simp only: n f i if_False Let_def, cases k, simp add: block_id_byte_entry)
qed

lemma split_blocks_all: "xmap Block_encode ks = Inr bs \<Longrightarrow> entry_blocks ks \<Longrightarrow> split_blocks (concat bs) = Inr ks"
proof (induction ks arbitrary: bs)
  case Nil
  then show ?case by (simp add: split_blocks.simps)
next
  case (Cons k ks)
  then obtain b bs' where "Block_encode k = Inr b" "xmap Block_encode ks = Inr bs'" "bs = b # bs'" by (auto simp: xbind_Inr)
  with Cons split_blocks_encoded[of k b "concat bs'"] show ?case by (simp add: entry_blocks_def)
qed

text \<open>Packing keeps the entries whole and in order.\<close>

lemma pack_entries_keeps:
  "pack_entries C n blocks current es = Inr (blocks', current') \<Longrightarrow> entry_blocks blocks \<Longrightarrow>
   \<exists>bs. xmap Entry_encode es = Inr bs \<and> entry_blocks blocks' \<and>
     concat (map payload blocks') @ current' = concat (map payload blocks) @ current @ concat bs"
proof (induction C n blocks current es rule: pack_entries.induct)
  case (2 C n blocks current e es)
  let ?k = "\<lparr>payload = current, stream_id = BLOCK_ID_ENTRY, block_first = (blocks = []), block_last = False\<rparr>"
  from "2.prems"(1) obtain b big where b1: "Entry_encode e = Inr b" "py_less C n (int (length b)) = Inr big"
    by (auto simp: xbind_Inr split del: if_split)
  with "2.prems"(1) have "\<not> big" by (cases big) simp_all
  let ?full = "if current \<noteq> [] then py_less C n (int (length current + length b)) else Inr False"
  from "2.prems"(1) b1 \<open>\<not> big\<close> obtain full where b2: "?full = Inr full"
    "(if full then pack_entries C n (blocks @ [?k]) b es else pack_entries C n blocks (current @ b) es) = Inr (blocks', current')"
    by (simp only: pack_entries.simps xbind_simps if_False xbind_Inr) blast
  note b = b1 b2
  have k: "entry_blocks (blocks @ [?k])" using "2.prems"(2) by (simp add: entry_blocks_def)
  show ?case
  proof (cases full)
    case True
    with "2.IH"(1)[of big full b] b \<open>\<not> big\<close> k obtain bs where
      "xmap Entry_encode es = Inr bs" "entry_blocks blocks'" "concat (map payload blocks') @ current' = concat (map payload (blocks @ [?k])) @ b @ concat bs"
      by auto
    with b(1) show ?thesis by simp
  next
    case False
    with "2.IH"(2)[of big full b] b \<open>\<not> big\<close> "2.prems"(2) obtain bs where
      "xmap Entry_encode es = Inr bs" "entry_blocks blocks'" "concat (map payload blocks') @ current' = concat (map payload blocks) @ (current @ b) @ concat bs"
      by auto
    with b(1) show ?thesis by simp
  qed
qed simp

context cbor2_codec begin

lemma plain_header:
  assumes "utf8_ok dev" and "length dev < 18446744073709551616"
  shows "PouchHeader_encode C \<lparr>encryption = ENCRYPTION_NONE, header_device_id = Py_str dev, header_session = None, pouch_id = Py_int 0\<rparr> =
      Inr (py_wire (Py_list [Py_int 1, Py_list [Py_int 0, Py_str dev]]))"
    and "PouchHeader_decode C (py_wire (Py_list [Py_int 1, Py_list [Py_int 0, Py_str dev]]) @ r) =
      Inr (\<lparr>encryption = ENCRYPTION_NONE, header_device_id = Py_str dev, header_session = None, pouch_id = Py_int 0\<rparr>,
        length (py_wire (Py_list [Py_int 1, Py_list [Py_int 0, Py_str dev]])))"
  using assms dumps[of "Py_list [Py_int 1, Py_list [Py_int 0, Py_str dev]]"]
    decode_first[of "Py_list [Py_int 1, Py_list [Py_int 0, Py_str dev]]" r]
  by (simp_all add: PouchHeader_encode_def PouchHeader_decode_def pouch_consts py_nth_def)

lemma pouch_roundtrip:
  assumes "build_entry_pouch C (Py_str dev) es n = Inr data" and "utf8_ok dev" and "length dev < 18446744073709551616"
    and "list_all (\<lambda>e. utf8_ok (entry_path e)) es"
  shows "parse_pouch C data = Inr (\<lparr>encryption = ENCRYPTION_NONE, header_device_id = Py_str dev, header_session = None, pouch_id = Py_int 0\<rparr>, es)"
proof -
  let ?h = "py_wire (Py_list [Py_int 1, Py_list [Py_int 0, Py_str dev]])"
  obtain blocks current where p: "pack_entries C n [] [] es = Inr (blocks, current)"
    using assms(1) by (auto simp: build_entry_pouch_def xbind_Inr)
  let ?ks = "blocks @ [\<lparr>payload = current, stream_id = BLOCK_ID_ENTRY, block_first = (blocks = []), block_last = True\<rparr>]"
  obtain kb where k: "xmap Block_encode ?ks = Inr kb" "data = ?h @ concat kb"
    using assms(1) p plain_header(1)[OF assms(2,3)] by (auto simp: build_entry_pouch_def Pouch_encode_def xbind_Inr)
  obtain bs where bs: "xmap Entry_encode es = Inr bs" "entry_blocks blocks" "concat (map payload blocks) @ current = concat bs"
    using pack_entries_keeps[OF p] by (auto simp: entry_blocks_def)
  have e: "entry_blocks ?ks" using bs(2) by (simp add: entry_blocks_def)
  then have "filter (\<lambda>b. stream_id b = BLOCK_ID_ENTRY) ?ks = ?ks" by (simp add: entry_blocks_def list_all_iff)
  with split_blocks_all[OF k(1) e] parse_entries_all[OF bs(1) assms(4)] bs(3) show ?thesis
    by (simp add: parse_pouch_def k(2) plain_header(2)[OF assms(2,3)] parse_entry_blocks_def)
qed

end

end
