(* ===== verification/Client_Saead.thy ===== *)
theory Client_Saead
  imports Client_Pouch
begin

text \<open>
  The encrypted framing of the client (\<^verbatim>\<open>cli/src/pouchprov/pouchlink/saead.py\<close>) and the peer it is tested
  against (\<^verbatim>\<open>DeviceSaead\<close> of \<^verbatim>\<open>transport/mock.py\<close>): session keys, nonces, sealed blocks. The package
  \<^verbatim>\<open>cryptography\<close> is a parameter.
\<close>

unbundle bit_operations_syntax

subsection \<open>The primitives\<close>

text \<open>
  Key agreement, key derivation with an info string and a length, and authenticated encryption;
  the first argument of the latter says whether it is ChaCha20-Poly1305 or AES-GCM. \<open>None\<close> is \<^verbatim>\<open>InvalidTag\<close>.
\<close>

record crypto =
  public_key :: "bytes \<Rightarrow> bytes"
  exchange :: "bytes \<Rightarrow> bytes \<Rightarrow> bytes"
  hkdf :: "bytes \<Rightarrow> bytes \<Rightarrow> nat \<Rightarrow> bytes"
  aead_encrypt :: "bool \<Rightarrow> bytes \<Rightarrow> bytes \<Rightarrow> bytes \<Rightarrow> bytes \<Rightarrow> bytes"
  aead_decrypt :: "bool \<Rightarrow> bytes \<Rightarrow> bytes \<Rightarrow> bytes \<Rightarrow> bytes \<Rightarrow> bytes option"

subsection \<open>Key derivation\<close>

definition AUTH_TAG_LEN :: nat where "AUTH_TAG_LEN = 16"
definition SESSION_ID_LEN :: nat where "SESSION_ID_LEN = 16"
definition CERT_REF_LEN :: nat where "CERT_REF_LEN = 6"
definition ROLE_DEVICE :: int where "ROLE_DEVICE = 0"
definition ROLE_SERVER :: int where "ROLE_SERVER = 1"
definition ALG_CHACHA20_POLY1305 :: int where "ALG_CHACHA20_POLY1305 = 1"

definition is_chacha :: "cbor2 \<Rightarrow> py \<Rightarrow> bool" where
  "is_chacha C alg \<longleftrightarrow> py_num C alg = Some ALG_CHACHA20_POLY1305"

definition key_size :: "cbor2 \<Rightarrow> py \<Rightarrow> nat" where
  "key_size C alg = (if is_chacha C alg then 32 else 16)"

text \<open>\<^verbatim>\<open>base64.b64encode\<close>.\<close>

definition b64_alphabet :: string where
  "b64_alphabet = ''ABCDEFGHIJKLMNOPQRSTUVWXYZabcdefghijklmnopqrstuvwxyz0123456789+/''"

definition b64_char :: "nat \<Rightarrow> u8" where
  "b64_char n = str_bytes b64_alphabet ! n"

definition b64_group :: "u8 \<Rightarrow> u8 \<Rightarrow> u8 \<Rightarrow> nat list" where
  "b64_group a b c = (let n = unat a * 65536 + unat b * 256 + unat c in [n div 262144, n div 4096 mod 64, n div 64 mod 64, n mod 64])"

fun b64encode :: "bytes \<Rightarrow> bytes" where
  "b64encode [] = []"
| "b64encode [a] = map b64_char (take 2 (b64_group a 0 0)) @ str_bytes ''==''"
| "b64encode [a, b] = map b64_char (take 3 (b64_group a b 0)) @ str_bytes ''=''"
| "b64encode (a # b # c # r) = map b64_char (b64_group a b c) @ b64encode r"

text \<open>\<^verbatim>\<open>format(n, "02X")\<close>.\<close>

definition hex_char :: "nat \<Rightarrow> u8" where
  "hex_char n = str_bytes ''0123456789ABCDEF'' ! n"

fun hex_digits :: "nat \<Rightarrow> bytes" where
  "hex_digits n = (if n < 16 then [hex_char n] else hex_digits (n div 16) @ [hex_char (n mod 16)])"

declare hex_digits.simps [simp del]

definition pad2 :: "bytes \<Rightarrow> bytes" where
  "pad2 s = (if length s < 2 then str_bytes ''0'' @ s else s)"

fun format_02X :: "py \<Rightarrow> bytes exc" where
  "format_02X (Py_int i) = Inr (if 0 \<le> i then pad2 (hex_digits (nat i)) else str_bytes ''-'' @ hex_digits (nat (- i)))"
| "format_02X (Py_bool b) = Inr (str_bytes (if b then ''01'' else ''00''))"
| "format_02X (Py_str s) = Inl ValueError"
| "format_02X _ = Inl TypeError"

definition session_key_info :: "cbor2 \<Rightarrow> bytes \<Rightarrow> py \<Rightarrow> py \<Rightarrow> py \<Rightarrow> bytes exc" where
  "session_key_info C sid ini alg log =
     xbind (format_02X log) (\<lambda>l.
     Inr (str_bytes ''E0:'' @ str_bytes (if py_num C ini = Some ROLE_DEVICE then ''D'' else ''S'') @ str_bytes '':'' @ b64encode sid @
          str_bytes '':C'' @ str_bytes (if is_chacha C alg then ''C'' else ''A'') @ str_bytes ''R:'' @ l))"

definition derive_session_key :: "crypto \<Rightarrow> cbor2 \<Rightarrow> bytes \<Rightarrow> bytes \<Rightarrow> bytes \<Rightarrow> py \<Rightarrow> py \<Rightarrow> py \<Rightarrow> bytes exc" where
  "derive_session_key X C our_private peer_public sid ini alg log =
     xbind (session_key_info C sid ini alg log) (\<lambda>info.
     Inr (hkdf X (exchange X our_private peer_public) info (key_size C alg)))"

text \<open>\<^verbatim>\<open>struct.pack\<close> of a field that came out of a message.\<close>

fun pack_py :: "nat \<Rightarrow> py \<Rightarrow> bytes exc" where
  "pack_py k (Py_int i) = pack_be k i"
| "pack_py k (Py_bool b) = pack_be k (if b then 1 else 0)"
| "pack_py k _ = Inl StructError"

definition saead_nonce :: "py \<Rightarrow> nat \<Rightarrow> int \<Rightarrow> bytes exc" where
  "saead_nonce pid block_index sender_role =
     xbind (pack_py 2 pid) (\<lambda>a.
     xbind (pack_be 2 (int block_index)) (\<lambda>b.
     xbind (pack_be 1 sender_role) (\<lambda>c.
     Inr (a @ b @ c @ replicate 7 0))))"

subsection \<open>Sessions\<close>

record session_state =
  st_key :: bytes
  st_algorithm :: py

record SaeadSession =
  server_private :: bytes
  device_public :: bytes
  saead_cert_ref :: bytes
  saead_algorithm :: int
  saead_block_log :: int
  saead_down :: "session_state option"
  saead_up :: "session_state option"

definition SaeadSession_init :: "bytes \<Rightarrow> bytes \<Rightarrow> bytes \<Rightarrow> int \<Rightarrow> int \<Rightarrow> SaeadSession" where
  "SaeadSession_init priv pub ref alg log =
     (let r = take CERT_REF_LEN ref in
      \<lparr>server_private = priv, device_public = pub, saead_cert_ref = r @ replicate (CERT_REF_LEN - length r) 0,
       saead_algorithm = alg, saead_block_log = log, saead_down = None, saead_up = None\<rparr>)"

definition new_downlink :: "crypto \<Rightarrow> cbor2 \<Rightarrow> SaeadSession \<Rightarrow> bytes \<Rightarrow> (SessionInfo \<times> SaeadSession) exc" where
  "new_downlink X C s sid =
     xbind (xassert (length sid = SESSION_ID_LEN) AssertionError) (\<lambda>_.
     xbind (derive_session_key X C (server_private s) (device_public s) sid (Py_int ROLE_SERVER) (Py_int (saead_algorithm s))
              (Py_int (saead_block_log s))) (\<lambda>key.
     Inr (\<lparr>session_id = sid, initiator = Py_int ROLE_SERVER, algorithm = Py_int (saead_algorithm s),
           max_block_size_log = Py_int (saead_block_log s), cert_ref = saead_cert_ref s, sequential_seq = None\<rparr>,
          s\<lparr>saead_down := Some \<lparr>st_key = key, st_algorithm = Py_int (saead_algorithm s)\<rparr>\<rparr>)))"

text \<open>\<^verbatim>\<open>sealed[-AUTH_TAG_LEN:]\<close>.\<close>

definition auth_tag :: "bytes \<Rightarrow> bytes" where
  "auth_tag sealed = drop (length sealed - AUTH_TAG_LEN) sealed"

definition encrypt_downlink_block :: "crypto \<Rightarrow> cbor2 \<Rightarrow> SaeadSession \<Rightarrow> bytes \<Rightarrow> nat \<Rightarrow> py \<Rightarrow> bytes \<Rightarrow> (bytes \<times> bytes) exc" where
  "encrypt_downlink_block X C s plaintext block_index pid prev_tag =
     (case saead_down s of
        None \<Rightarrow> Inl AssertionError
      | Some st \<Rightarrow>
          xbind (saead_nonce pid block_index ROLE_SERVER) (\<lambda>nonce.
          let sealed = aead_encrypt X (is_chacha C (st_algorithm st)) (st_key st) nonce plaintext (if 0 < block_index then prev_tag else [])
          in Inr (sealed, auth_tag sealed)))"

definition adopt_uplink :: "crypto \<Rightarrow> cbor2 \<Rightarrow> SaeadSession \<Rightarrow> SessionInfo \<Rightarrow> SaeadSession exc" where
  "adopt_uplink X C s info =
     (if py_num C (initiator info) \<noteq> Some ROLE_DEVICE then Inl ValueError
      else xbind (derive_session_key X C (server_private s) (device_public s) (session_id info) (Py_int ROLE_DEVICE)
                    (algorithm info) (max_block_size_log info)) (\<lambda>key.
           Inr (s\<lparr>saead_up := Some \<lparr>st_key = key, st_algorithm = algorithm info\<rparr>\<rparr>)))"

definition decrypt_uplink_block :: "crypto \<Rightarrow> cbor2 \<Rightarrow> SaeadSession \<Rightarrow> bytes \<Rightarrow> nat \<Rightarrow> py \<Rightarrow> bytes \<Rightarrow> (bytes \<times> bytes) exc" where
  "decrypt_uplink_block X C s ciphertext block_index pid prev_tag =
     (case saead_up s of
        None \<Rightarrow> Inl AssertionError
      | Some st \<Rightarrow>
          xbind (saead_nonce pid block_index ROLE_DEVICE) (\<lambda>nonce.
          xbind (xopt InvalidTag (aead_decrypt X (is_chacha C (st_algorithm st)) (st_key st) nonce ciphertext
                   (if 0 < block_index then prev_tag else []))) (\<lambda>plaintext.
          Inr (plaintext, auth_tag ciphertext))))"

subsection \<open>Pouches\<close>

text \<open>The payloads of the blocks; unlike the plaintext path this one does not refuse an entry larger than a block.\<close>

fun pack_payloads :: "cbor2 \<Rightarrow> py \<Rightarrow> bytes list \<Rightarrow> bytes \<Rightarrow> Entry list \<Rightarrow> bytes list exc" where
  "pack_payloads C block_size blocks current [] = Inr (blocks @ [current])"
| "pack_payloads C block_size blocks current (e # es) =
     xbind (Entry_encode e) (\<lambda>encoded.
     xbind (if current \<noteq> [] then py_less C block_size (int (length current + length encoded)) else Inr False) (\<lambda>full.
     if full then pack_payloads C block_size (blocks @ [current]) encoded es
     else pack_payloads C block_size blocks (current @ encoded) es))"

text \<open>The sealed blocks from index \<open>i\<close> on; \<open>n\<close> is the number of all.\<close>

fun seal_blocks :: "crypto \<Rightarrow> cbor2 \<Rightarrow> SaeadSession \<Rightarrow> py \<Rightarrow> nat \<Rightarrow> nat \<Rightarrow> bytes \<Rightarrow> bytes list \<Rightarrow> bytes exc" where
  "seal_blocks X C s pid n i prev_tag [] = Inr []"
| "seal_blocks X C s pid n i prev_tag (p # ps) =
     xbind (encrypt_downlink_block X C s (of_int (block_id_byte BLOCK_ID_ENTRY (i = 0) (i = n - 1)) # p) i pid prev_tag) (\<lambda>(sealed, tag).
     xbind (pack_be 2 (int (length sealed))) (\<lambda>size.
     xbind (seal_blocks X C s pid n (Suc i) tag ps) (\<lambda>out.
     Inr (size @ sealed @ out))))"

definition build_downlink_pouch :: "crypto \<Rightarrow> cbor2 \<Rightarrow> SaeadSession \<Rightarrow> bytes \<Rightarrow> Entry list \<Rightarrow> py \<Rightarrow> py \<Rightarrow> (bytes \<times> SaeadSession) exc" where
  "build_downlink_pouch X C s sid entries pid block_size =
     xbind (new_downlink X C s sid) (\<lambda>(info, s).
     xbind (pack_payloads C block_size [] [] entries) (\<lambda>payloads.
     xbind (PouchHeader_encode C \<lparr>encryption = ENCRYPTION_SAEAD, header_device_id = Py_none, header_session = Some info, pouch_id = pid\<rparr>) (\<lambda>h.
     xbind (seal_blocks X C s pid (length payloads) 0 [] payloads) (\<lambda>out.
     Inr (h @ out, s)))))"

text \<open>The loop over the sealed blocks of a pouch, on the data from \<^verbatim>\<open>pos\<close> on, given how one is opened.\<close>

function open_blocks :: "(bytes \<Rightarrow> nat \<Rightarrow> bytes \<Rightarrow> (bytes \<times> bytes) exc) \<Rightarrow> nat \<Rightarrow> bytes \<Rightarrow> bytes \<Rightarrow> bytes list exc" where
  "open_blocks f i prev_tag data =
     (if data = [] then Inr []
      else xbind (unpack_be 2 data 0) (\<lambda>size.
           let sealed = take size (drop 2 data) in
           xbind (f sealed i prev_tag) (\<lambda>(plaintext, tag).
           xbind (open_blocks f (Suc i) tag (drop size (drop 2 data))) (\<lambda>ps. Inr (plaintext # ps)))))"
  by pat_completeness auto
termination
  by (relation "measure (\<lambda>(f, i, t, data). length data)") auto

declare open_blocks.simps [simp del]

definition is_entry_plaintext :: "bytes \<Rightarrow> bool" where
  "is_entry_plaintext p \<longleftrightarrow> p \<noteq> [] \<and> uint (hd p) AND BLOCK_ID_MASK = BLOCK_ID_ENTRY"

definition parse_uplink_pouch :: "crypto \<Rightarrow> cbor2 \<Rightarrow> SaeadSession \<Rightarrow> bytes \<Rightarrow> (Entry list \<times> SaeadSession) exc" where
  "parse_uplink_pouch X C s data =
     xbind (PouchHeader_decode C data) (\<lambda>(header, consumed).
     case header_session header of
       None \<Rightarrow> Inl PouchDecodeError
     | Some info \<Rightarrow>
         if encryption header \<noteq> ENCRYPTION_SAEAD then Inl PouchDecodeError
         else xbind (adopt_uplink X C s info) (\<lambda>s.
              xbind (open_blocks (\<lambda>c i t. decrypt_uplink_block X C s c i (pouch_id header) t) 0 [] (drop consumed data)) (\<lambda>ps.
              xbind (parse_entry_blocks (map tl (filter is_entry_plaintext ps))) (\<lambda>es.
              Inr (es, s)))))"

subsection \<open>The peer\<close>

record DeviceSaead =
  dev_priv :: bytes
  dev_server_pub :: bytes
  dev_algorithm :: int
  dev_block_log :: int

definition dev_open :: "crypto \<Rightarrow> cbor2 \<Rightarrow> DeviceSaead \<Rightarrow> bytes \<Rightarrow> py \<Rightarrow> bytes \<Rightarrow> nat \<Rightarrow> bytes \<Rightarrow> (bytes \<times> bytes) exc" where
  "dev_open X C d key pid sealed i prev_tag =
     xbind (saead_nonce pid i ROLE_SERVER) (\<lambda>nonce.
     xbind (xopt InvalidTag (aead_decrypt X (is_chacha C (Py_int (dev_algorithm d))) key nonce sealed (if 0 < i then prev_tag else []))) (\<lambda>plain.
     Inr (plain, auth_tag sealed)))"

definition decrypt_downlink :: "crypto \<Rightarrow> cbor2 \<Rightarrow> DeviceSaead \<Rightarrow> bytes \<Rightarrow> Entry list exc" where
  "decrypt_downlink X C d data =
     xbind (PouchHeader_decode C data) (\<lambda>(header, consumed).
     case header_session header of
       None \<Rightarrow> Inl AttributeError
     | Some info \<Rightarrow>
         xbind (derive_session_key X C (dev_priv d) (dev_server_pub d) (session_id info) (Py_int ROLE_SERVER) (algorithm info)
                  (max_block_size_log info)) (\<lambda>key.
         xbind (open_blocks (dev_open X C d key (pouch_id header)) 0 [] (drop consumed data)) (\<lambda>ps.
         parse_entry_blocks (map tl ps))))"

definition encrypt_uplink :: "crypto \<Rightarrow> cbor2 \<Rightarrow> DeviceSaead \<Rightarrow> Entry list \<Rightarrow> bytes \<Rightarrow> int \<Rightarrow> bytes exc" where
  "encrypt_uplink X C d entries sid pid =
     xbind (derive_session_key X C (dev_priv d) (dev_server_pub d) sid (Py_int ROLE_DEVICE) (Py_int (dev_algorithm d))
              (Py_int (dev_block_log d))) (\<lambda>key.
     let info = \<lparr>session_id = sid, initiator = Py_int ROLE_DEVICE, algorithm = Py_int (dev_algorithm d),
                 max_block_size_log = Py_int (dev_block_log d), cert_ref = replicate 6 0, sequential_seq = None\<rparr>;
         header = \<lparr>encryption = ENCRYPTION_SAEAD, header_device_id = Py_none, header_session = Some info, pouch_id = Py_int pid\<rparr>
     in xbind (xmap Entry_encode entries) (\<lambda>bs.
        let plain = of_int (block_id_byte BLOCK_ID_ENTRY True True) # concat bs in
        xbind (saead_nonce (Py_int pid) 0 ROLE_DEVICE) (\<lambda>nonce.
        let sealed = aead_encrypt X (is_chacha C (Py_int (dev_algorithm d))) key nonce plain [] in
        xbind (PouchHeader_encode C header) (\<lambda>h.
        xbind (pack_be 2 (int (length sealed))) (\<lambda>size.
        Inr (h @ size @ sealed))))))"

subsection \<open>Contracts\<close>

text \<open>Both sides agree on a secret, and what was sealed opens; a block that opens was sealed so.\<close>

locale aead_crypto =
  fixes X :: crypto
  assumes agree: "exchange X a (public_key X b) = exchange X b (public_key X a)"
    and opens: "aead_decrypt X g k n (aead_encrypt X g k n m a) a = Some m"
    and sealed: "aead_decrypt X g k n c a = Some m \<Longrightarrow> c = aead_encrypt X g k n m a"

text \<open>Idealized: a sealed block is not one under another nonce.\<close>

locale ideal_crypto = aead_crypto +
  assumes separate: "aead_encrypt X g k n m a = aead_encrypt X g k n' m' a' \<Longrightarrow> n = n'"

text \<open>A reference instance: self-delimiting fields in the clear.\<close>

definition delimited :: "bytes \<Rightarrow> bytes" where
  "delimited b = concat (map (\<lambda>x. [1, x]) b) @ [0]"

fun undelimit :: "bytes \<Rightarrow> (bytes \<times> bytes) option" where
  "undelimit [] = None"
| "undelimit (t # r) = (if t = 0 then Some ([], r) else case r of [] \<Rightarrow> None | x # r \<Rightarrow>
     if t = 1 then map_option (\<lambda>(b, r). (x # b, r)) (undelimit r) else None)"

lemma undelimit_delimited: "undelimit (delimited b @ r) = Some (b, r)"
  by (induction b) (simp_all add: delimited_def)

lemma undelimit_Some: "undelimit c = Some (b, r) \<Longrightarrow> c = delimited b @ r"
  by (induction c arbitrary: b r rule: undelimit.induct)
     (auto simp: delimited_def split: if_splits list.splits)

definition ref_crypto :: crypto where
  "ref_crypto = \<lparr>
     public_key = (\<lambda>k. k),
     exchange = (\<lambda>a b. map (\<lambda>(x, y). x + y) (zip a b)),
     hkdf = (\<lambda>secret info n. take n (info @ secret)),
     aead_encrypt = (\<lambda>g k n m a. delimited k @ delimited n @ delimited a @ delimited m),
     aead_decrypt = (\<lambda>g k n c a. do {
       (k', c) \<leftarrow> undelimit c; (n', c) \<leftarrow> undelimit c; (a', c) \<leftarrow> undelimit c; (m, c) \<leftarrow> undelimit c;
       if k' = k \<and> n' = n \<and> a' = a \<and> c = [] then Some m else None
     })\<rparr>"

interpretation ref_crypto: ideal_crypto ref_crypto
proof
  fix a b :: bytes
  show "exchange ref_crypto a (public_key ref_crypto b) = exchange ref_crypto b (public_key ref_crypto a)"
    by (simp add: ref_crypto_def zip_commute[of a b] comp_def case_prod_unfold add.commute)
next
  fix g and k n m a c :: bytes
  show "aead_decrypt ref_crypto g k n (aead_encrypt ref_crypto g k n m a) a = Some m"
    using undelimit_delimited[of m "[]"] by (simp add: ref_crypto_def undelimit_delimited)
  assume "aead_decrypt ref_crypto g k n c a = Some m"
  then show "c = aead_encrypt ref_crypto g k n m a"
    by (auto simp: ref_crypto_def split: bind_splits if_splits dest!: undelimit_Some)
next
  fix g and k n m a n' m' a' :: bytes
  assume "aead_encrypt ref_crypto g k n m a = aead_encrypt ref_crypto g k n' m' a'"
  then have "undelimit (delimited n @ delimited a @ delimited m) = undelimit (delimited n' @ delimited a' @ delimited m')"
    by (simp add: ref_crypto_def)
  then show "n = n'" by (simp add: undelimit_delimited)
qed

subsection \<open>Opening what was sealed\<close>

text \<open>A block on the wire.\<close>

definition framed :: "bytes \<Rightarrow> bytes" where
  "framed c = be_bytes 2 (length c) @ c"

lemma open_blocks_framed:
  assumes "length c < 65536"
  shows "open_blocks f i t (framed c @ r) =
    xbind (f c i t) (\<lambda>(m, t'). xbind (open_blocks f (Suc i) t' r) (\<lambda>ps. Inr (m # ps)))"
proof -
  have "unpack_be 2 (framed c @ r) 0 = Inr (length c)" "framed c @ r \<noteq> []"
    using unpack_be_append[of "length c" 2 "[]" "c @ r"] assms length_be_bytes[of 2 "length c"] by (auto simp: framed_def simp del: length_be_bytes)
  moreover have "take (length c) (drop 2 (framed c @ r)) = c" "drop (length c) (drop 2 (framed c @ r)) = r"
    by (simp_all add: framed_def del: be_bytes.simps)
  ultimately show ?thesis by (subst open_blocks.simps) (simp only: if_False Let_def xbind_simps)
qed

lemma open_blocks_Nil [simp]: "open_blocks f i t [] = Inr []"
  by (simp add: open_blocks.simps)

lemma pack_payloads_keeps:
  "pack_payloads C n blocks current es = Inr ps \<Longrightarrow>
   \<exists>bs. xmap Entry_encode es = Inr bs \<and> concat ps = concat blocks @ current @ concat bs \<and> ps \<noteq> []"
proof (induction C n blocks current es arbitrary: ps rule: pack_payloads.induct)
  case (2 C n blocks current e es)
  let ?full = "\<lambda>b. if current \<noteq> [] then py_less C n (int (length current + length b)) else Inr False"
  from "2.prems" obtain b full where b: "Entry_encode e = Inr b" "?full b = Inr full"
    "(if full then pack_payloads C n (blocks @ [current]) b es else pack_payloads C n blocks (current @ b) es) = Inr ps"
    by (simp only: pack_payloads.simps xbind_Inr) blast
  show ?case using "2.IH"(1)[of full b ps] "2.IH"(2)[of full b ps] b by (cases full) auto
qed auto

lemma seal_opens:
  assumes dn: "saead_down s = Some st" and f: "\<And>m i t x. encrypt_downlink_block X C s m i pid t = Inr x \<Longrightarrow> f (fst x) i t = Inr (m, snd x)"
  shows "seal_blocks X C s pid n i t ps = Inr out \<Longrightarrow> \<exists>ms. open_blocks f i t out = Inr ms \<and> map tl ms = ps"
proof (induction ps arbitrary: i t out)
  case (Cons p ps)
  let ?m = "of_int (block_id_byte BLOCK_ID_ENTRY (i = 0) (i = n - 1)) # p"
  from Cons.prems obtain c t' size out' where c: "encrypt_downlink_block X C s ?m i pid t = Inr (c, t')"
    "pack_be 2 (int (length c)) = Inr size" "seal_blocks X C s pid n (Suc i) t' ps = Inr out'" "out = size @ c @ out'"
    by (auto simp: xbind_Inr)
  have l: "length c < 65536" "out = framed c @ out'" using c(2,4) unfolding pack_be_Inr by (simp_all add: framed_def)
  from Cons.IH[OF c(3)] obtain ms where "open_blocks f (Suc i) t' out' = Inr ms" "map tl ms = ps" by blast
  with f[OF c(1)] open_blocks_framed[OF l(1), of f i t out'] l(2) show ?case by simp
qed auto

text \<open>The header of an encrypted pouch.\<close>

definition saead_header :: "SessionInfo \<Rightarrow> int \<Rightarrow> PouchHeader" where
  "saead_header info pid = \<lparr>encryption = ENCRYPTION_SAEAD, header_device_id = Py_none, header_session = Some info, pouch_id = Py_int pid\<rparr>"

definition info_ok :: "SessionInfo \<Rightarrow> bool" where
  "info_ok info \<longleftrightarrow> sequential_seq info = None \<and> length (session_id info) < 18446744073709551616 \<and>
     length (cert_ref info) < 18446744073709551616 \<and> py_ok (initiator info) \<and> py_ok (algorithm info) \<and> py_ok (max_block_size_log info)"

locale saead_link = cbor2_codec C + aead_crypto X for C X
begin

lemma saead_header_read:
  assumes "info_ok info" and "0 \<le> pid" and "pid < 65536"
  shows "\<exists>h. PouchHeader_encode C (saead_header info pid) = Inr h \<and>
    (\<forall>r. PouchHeader_decode C (h @ r) = Inr (saead_header info pid, length h))"
proof -
  let ?v = "Py_list [Py_int 1, Py_list [Py_int 1, to_cbor_obj info, Py_int pid]]"
  have ok: "py_ok ?v" using assms by (simp add: info_ok_def to_cbor_obj_def)
  have f: "from_cbor_obj C (to_cbor_obj info) = Inr info"
    using assms(1) by (cases info) (simp add: from_cbor_obj_def to_cbor_obj_def info_ok_def py_nth_def)
  from dumps[OF ok] decode_first[OF ok] f show ?thesis
    by (intro exI[of _ "py_wire ?v"])
       (simp add: PouchHeader_encode_def PouchHeader_decode_def saead_header_def pouch_consts py_nth_def to_cbor_obj_def)
qed

lemma derive_agrees:
  "derive_session_key X C a (public_key X b) sid ini alg log = derive_session_key X C b (public_key X a) sid ini alg log"
  by (simp add: derive_session_key_def agree)

lemma downlink_opens:
  assumes b: "build_downlink_pouch X C s sid es (Py_int pid) n = Inr (data, s')"
    and d: "device_public s = public_key X (dev_priv d)" "dev_server_pub d = public_key X (server_private s)"
      "dev_algorithm d = saead_algorithm s"
    and ok: "py_ok (Py_int (saead_algorithm s))" "py_ok (Py_int (saead_block_log s))" "length (saead_cert_ref s) = 6"
    and u: "list_all (\<lambda>e. utf8_ok (entry_path e)) es"
  shows "decrypt_downlink X C d data = Inr es"
proof -
  let ?info = "\<lparr>session_id = sid, initiator = Py_int ROLE_SERVER, algorithm = Py_int (saead_algorithm s),
    max_block_size_log = Py_int (saead_block_log s), cert_ref = saead_cert_ref s, sequential_seq = None\<rparr>"
  obtain key payloads h out where sid: "length sid = 16"
    and key: "derive_session_key X C (server_private s) (device_public s) sid (Py_int ROLE_SERVER) (Py_int (saead_algorithm s)) (Py_int (saead_block_log s)) = Inr key"
    and s': "s' = s\<lparr>saead_down := Some \<lparr>st_key = key, st_algorithm = Py_int (saead_algorithm s)\<rparr>\<rparr>"
    and p: "pack_payloads C n [] [] es = Inr payloads" and h: "PouchHeader_encode C (saead_header ?info pid) = Inr h"
    and out: "seal_blocks X C s' (Py_int pid) (length payloads) 0 [] payloads = Inr out" and data: "data = h @ out"
    using b by (auto simp: build_downlink_pouch_def new_downlink_def xbind_Inr SESSION_ID_LEN_def saead_header_def)
  obtain bs where bs: "xmap Entry_encode es = Inr bs" "concat payloads = concat bs" "payloads \<noteq> []" using pack_payloads_keeps[OF p] by auto
  have pid: "0 \<le> pid" "pid < 65536"
    using out s' bs(3) by (cases payloads; auto simp: encrypt_downlink_block_def saead_nonce_def xbind_Inr pack_be_def Let_def split: if_splits)+
  have "info_ok ?info" using ok sid by (simp add: info_ok_def ROLE_SERVER_def)
  from saead_header_read[OF this pid] h have hd: "PouchHeader_decode C (h @ r) = Inr (saead_header ?info pid, length h)" for r by auto
  let ?f = "dev_open X C d key (Py_int pid)"
  have f: "?f (fst x) i t = Inr (m, snd x)" if "encrypt_downlink_block X C s' m i (Py_int pid) t = Inr x" for m i t x
    using that s' d(3) opens by (auto simp: encrypt_downlink_block_def dev_open_def xbind_Inr Let_def)
  from seal_opens[of s' _ X C "Py_int pid" ?f, OF _ f out] s' obtain ms where ms: "open_blocks ?f 0 [] out = Inr ms" "map tl ms = payloads"
    by auto
  have "derive_session_key X C (dev_priv d) (dev_server_pub d) sid (Py_int ROLE_SERVER) (Py_int (saead_algorithm s)) (Py_int (saead_block_log s)) = Inr key"
    using key d(1,2) derive_agrees by simp
  with ms hd bs(1,2) parse_entries_all[OF bs(1) u] show ?thesis
    by (simp add: decrypt_downlink_def data saead_header_def parse_entry_blocks_def)
qed

lemma uplink_opens:
  assumes b: "encrypt_uplink X C d es sid pid = Inr data"
    and d: "device_public s = public_key X (dev_priv d)" "dev_server_pub d = public_key X (server_private s)"
    and ok: "py_ok (Py_int (dev_algorithm d))" "py_ok (Py_int (dev_block_log d))" "length sid < 18446744073709551616"
    and u: "list_all (\<lambda>e. utf8_ok (entry_path e)) es"
  shows "\<exists>s'. parse_uplink_pouch X C s data = Inr (es, s')"
proof -
  let ?info = "\<lparr>session_id = sid, initiator = Py_int ROLE_DEVICE, algorithm = Py_int (dev_algorithm d),
    max_block_size_log = Py_int (dev_block_log d), cert_ref = replicate 6 0, sequential_seq = None\<rparr>"
  obtain key bs nonce h size where key: "derive_session_key X C (dev_priv d) (dev_server_pub d) sid (Py_int ROLE_DEVICE) (Py_int (dev_algorithm d)) (Py_int (dev_block_log d)) = Inr key"
    and bs: "xmap Entry_encode es = Inr bs" and n: "saead_nonce (Py_int pid) 0 ROLE_DEVICE = Inr nonce"
    and h: "PouchHeader_encode C (saead_header ?info pid) = Inr h"
    and c: "pack_be 2 (int (length (aead_encrypt X (is_chacha C (Py_int (dev_algorithm d))) key nonce (of_int (block_id_byte BLOCK_ID_ENTRY True True) # concat bs) []))) = Inr size"
      "data = h @ size @ aead_encrypt X (is_chacha C (Py_int (dev_algorithm d))) key nonce (of_int (block_id_byte BLOCK_ID_ENTRY True True) # concat bs) []"
    using b by (auto simp: encrypt_uplink_def xbind_Inr Let_def saead_header_def)
  let ?m = "of_int (block_id_byte BLOCK_ID_ENTRY True True) # concat bs"
  let ?c = "aead_encrypt X (is_chacha C (Py_int (dev_algorithm d))) key nonce ?m []"
  have pid: "0 \<le> pid" "pid < 65536" using n by (auto simp: saead_nonce_def xbind_Inr pack_be_def split: if_splits)
  have "info_ok ?info" using ok by (simp add: info_ok_def ROLE_DEVICE_def)
  from saead_header_read[OF this pid] h have hd: "PouchHeader_decode C (h @ r) = Inr (saead_header ?info pid, length h)" for r by auto
  have l: "length ?c < 65536" "data = h @ framed ?c" using c unfolding pack_be_Inr by (simp_all add: framed_def)
  let ?s = "s\<lparr>saead_up := Some \<lparr>st_key = key, st_algorithm = Py_int (dev_algorithm d)\<rparr>\<rparr>"
  have a: "adopt_uplink X C s ?info = Inr ?s" using key d derive_agrees by (simp add: adopt_uplink_def)
  have "open_blocks (\<lambda>c i t. decrypt_uplink_block X C ?s c i (Py_int pid) t) 0 [] (framed ?c) = Inr [?m]"
    using open_blocks_framed[OF l(1), of _ 0 "[]" "[]"] n opens by (simp add: decrypt_uplink_block_def)
  moreover have "is_entry_plaintext ?m" by (simp add: is_entry_plaintext_def block_id_byte_def pouch_consts)
  ultimately show ?thesis using hd a parse_entries_all[OF bs u]
    by (simp add: parse_uplink_pouch_def l(2) saead_header_def parse_entry_blocks_def)
qed

end

interpretation ref_saead: saead_link ref_cbor2 ref_crypto ..

subsection \<open>Order and truncation\<close>

definition uplink_nonce :: "nat \<Rightarrow> nat \<Rightarrow> bytes" where
  "uplink_nonce pid i = be_bytes 2 pid @ be_bytes 2 i @ be_bytes 1 0 @ replicate 7 0"

text \<open>The blocks a device seals in one session and pouch, from index \<open>i\<close> on.\<close>

fun sealed_blocks :: "crypto \<Rightarrow> bool \<Rightarrow> bytes \<Rightarrow> nat \<Rightarrow> nat \<Rightarrow> bytes \<Rightarrow> bytes list \<Rightarrow> bytes list" where
  "sealed_blocks X g k pid i t [] = []"
| "sealed_blocks X g k pid i t (m # ms) =
     (let c = aead_encrypt X g k (uplink_nonce pid i) m (if 0 < i then t else [])
      in c # sealed_blocks X g k pid (Suc i) (auth_tag c) ms)"

lemma length_sealed_blocks [simp]: "length (sealed_blocks X g k pid i t ms) = length ms"
  by (induction ms arbitrary: i t) (simp_all add: Let_def)

lemma sealed_blocks_nth:
  "j < length ms \<Longrightarrow> \<exists>m a. sealed_blocks X g k pid i t ms ! j = aead_encrypt X g k (uplink_nonce pid (i + j)) m a"
proof (induction ms arbitrary: i t j)
  case (Cons m ms)
  show ?case
  proof (cases j)
    case 0
    then show ?thesis by (auto simp: Let_def)
  next
    case (Suc j')
    with Cons.IH[of j' "Suc i"] Cons.prems show ?thesis by (simp add: Let_def)
  qed
qed simp

lemma nonce_device: "pid < 65536 \<Longrightarrow> saead_nonce (Py_int (int pid)) i ROLE_DEVICE = (if i < 65536 then Inr (uplink_nonce pid i) else Inl StructError)"
proof (cases "i < 65536")
  case False
  then have "pack_be 2 (int i) = Inl StructError" by (simp add: pack_be_def)
  then show "pid < 65536 \<Longrightarrow> ?thesis" using False pack_be_nat[of pid 2] by (simp add: saead_nonce_def)
qed (simp add: saead_nonce_def uplink_nonce_def ROLE_DEVICE_def pack_be_def)

lemma uplink_nonce_inj: "i < 65536 \<Longrightarrow> j < 65536 \<Longrightarrow> uplink_nonce pid i = uplink_nonce pid j \<Longrightarrow> i = j"
proof -
  assume b: "i < 65536" "j < 65536" and "uplink_nonce pid i = uplink_nonce pid j"
  then have "be_bytes 2 i = be_bytes 2 j" by (simp add: uplink_nonce_def del: be_bytes.simps)
  then show "i = j" using be_value_one(2)[OF b(1)] be_value_one(2)[OF b(2)] by metis
qed

locale ideal_link = cbor2_codec C + ideal_crypto X for C X
begin

lemma accepted_in_order:
  assumes up: "saead_up s = Some st" and pid: "pid < 65536" and len: "length ms < 65536"
    and cs: "cs = sealed_blocks X (is_chacha C (st_algorithm st)) (st_key st) pid 0 [] ms" "list_all (\<lambda>c. length c < 65536) cs"
  shows "open_blocks (\<lambda>c i t. decrypt_uplink_block X C s c i (Py_int (int pid)) t) i t (concat (map (\<lambda>j. framed (cs ! j)) js)) = Inr qs \<Longrightarrow>
    set js \<subseteq> {..<length ms} \<Longrightarrow> js = [i..<i + length js]"
proof (induction js arbitrary: i t qs)
  case (Cons j js)
  let ?f = "\<lambda>c i t. decrypt_uplink_block X C s c i (Py_int (int pid)) t"
  have j: "j < length ms" "length (cs ! j) < 65536" using Cons.prems(2) cs by (auto simp: list_all_length)
  obtain m t' where m: "?f (cs ! j) i t = Inr (m, t')" and rest: "\<exists>ps. open_blocks ?f (Suc i) t' (concat (map (\<lambda>j. framed (cs ! j)) js)) = Inr ps"
    using Cons.prems(1) open_blocks_framed[OF j(2)] by (auto simp: xbind_Inr)
  have i: "i < 65536" using m up nonce_device[OF pid, of i] by (auto simp: decrypt_uplink_block_def xbind_Inr split: if_splits)
  then obtain a where "aead_decrypt X (is_chacha C (st_algorithm st)) (st_key st) (uplink_nonce pid i) (cs ! j) a = Some m"
    using m up nonce_device[OF pid, of i] by (auto simp: decrypt_uplink_block_def xbind_Inr)
  moreover obtain m' a' where "cs ! j = aead_encrypt X (is_chacha C (st_algorithm st)) (st_key st) (uplink_nonce pid j) m' a'"
    using sealed_blocks_nth[OF j(1), of X "is_chacha C (st_algorithm st)" "st_key st" pid 0 "[]"] cs(1) by auto
  ultimately have "uplink_nonce pid j = uplink_nonce pid i" using sealed separate by metis
  then have "i = j" using uplink_nonce_inj[of i j pid] i j(1) len by simp
  moreover obtain ps where "open_blocks ?f (Suc i) t' (concat (map (\<lambda>j. framed (cs ! j)) js)) = Inr ps" using rest by blast
  from Cons.IH[OF this] Cons.prems(2) have "js = [Suc i..<Suc i + length js]" by simp
  ultimately show ?case using upt_conv_Cons[of j "j + length (j # js)"] by (simp del: upt_Suc)
qed simp

lemma prefix_accepted:
  assumes up: "saead_up s = Some st" and pid: "pid < 65536"
  shows "i + length ms \<le> 65536 \<Longrightarrow> list_all (\<lambda>c. length c < 65536) (sealed_blocks X (is_chacha C (st_algorithm st)) (st_key st) pid i t ms) \<Longrightarrow>
    open_blocks (\<lambda>c i t. decrypt_uplink_block X C s c i (Py_int (int pid)) t) i t
      (concat (map framed (take n (sealed_blocks X (is_chacha C (st_algorithm st)) (st_key st) pid i t ms)))) = Inr (take n ms)"
proof (induction ms arbitrary: i t n)
  case (Cons m ms)
  let ?f = "\<lambda>c i t. decrypt_uplink_block X C s c i (Py_int (int pid)) t"
  let ?c = "aead_encrypt X (is_chacha C (st_algorithm st)) (st_key st) (uplink_nonce pid i) m (if 0 < i then t else [])"
  show ?case
  proof (cases n)
    case (Suc n')
    have "?f ?c i t = Inr (m, auth_tag ?c)" using up nonce_device[OF pid, of i] opens Cons.prems(1) by (simp add: decrypt_uplink_block_def)
    with Suc open_blocks_framed[of ?c ?f i t] Cons.IH[of "Suc i" "auth_tag ?c" n'] Cons.prems show ?thesis by (simp add: Let_def)
  qed simp
qed simp

end

sublocale ideal_link \<subseteq> saead_link C X ..

interpretation ref_ideal: ideal_link ref_cbor2 ref_crypto ..

subsection \<open>Session keys\<close>

lemma b64_char_inj: "m < 64 \<Longrightarrow> n < 64 \<Longrightarrow> b64_char m = b64_char n \<Longrightarrow> m = n"
proof -
  have "distinct (map b64_char [0..<64])" by code_simp
  then show "m < 64 \<Longrightarrow> n < 64 \<Longrightarrow> b64_char m = b64_char n \<Longrightarrow> m = n"
    by (auto simp: distinct_map inj_on_def)
qed

definition sextets :: "nat \<Rightarrow> nat list" where
  "sextets n = [n div 262144, n div 4096 mod 64, n div 64 mod 64, n mod 64]"

lemma b64_group_sextets: "b64_group a b c = sextets (unat a * 65536 + unat b * 256 + unat c)"
  by (simp add: b64_group_def sextets_def Let_def)

lemma sextets_bounds: "n < 64 * 262144 \<Longrightarrow> x \<in> set (sextets n) \<Longrightarrow> x < 64"
  using less_mult_imp_div_less[of n 64 262144] by (auto simp: sextets_def)

lemma divmod_inj: "m div 64 = n div 64 \<Longrightarrow> m mod 64 = n mod 64 \<Longrightarrow> m = (n :: nat)"
  by (metis div_mult_mod_eq)

lemma sextets_inj: "sextets m = sextets n \<Longrightarrow> m = n"
proof -
  assume s: "sextets m = sextets n"
  have d: "k div 4096 = k div 64 div 64" "k div 262144 = k div 64 div 64 div 64" for k :: nat
    by (simp_all add: div_mult2_eq[symmetric])
  have e: "m div 64 div 64 div 64 = n div 64 div 64 div 64" "m div 64 div 64 mod 64 = n div 64 div 64 mod 64"
    "m div 64 mod 64 = n div 64 mod 64" "m mod 64 = n mod 64"
    using s unfolding sextets_def d list.inject by blast+
  show "m = n" by (rule divmod_inj[OF divmod_inj[OF divmod_inj[OF e(1,2)] e(3)] e(4)])
qed

lemma octets_inj:
  assumes "m * 256 + x = m' * 256 + x'" "x < 256" "x' < 256"
  shows "m = m' \<and> x = (x' :: nat)"
proof -
  have "(m * 256 + x) div 256 = m" "(m' * 256 + x') div 256 = m'" using assms(2,3) by simp_all
  with assms(1) have "m = m'" by metis
  with assms(1) show ?thesis by simp
qed

lemma b64_group_inj:
  assumes "map b64_char (b64_group a b c) = map b64_char (b64_group a' b' c')"
  shows "a = a' \<and> b = b' \<and> c = c'"
proof -
  let ?n = "\<lambda>a b c. unat (a :: u8) * 65536 + unat (b :: u8) * 256 + unat (c :: u8)"
  have lt: "?n a b c < 64 * 262144" for a b c
    using unat_lt_u8[of a] unat_lt_u8[of b] unat_lt_u8[of c] by linarith
  have "sextets (?n a b c) = sextets (?n a' b' c')"
  proof (rule map_inj_on)
    show "map b64_char (sextets (?n a b c)) = map b64_char (sextets (?n a' b' c'))" using assms by (simp only: b64_group_sextets)
    show "inj_on b64_char (set (sextets (?n a b c)) \<union> set (sextets (?n a' b' c')))"
      using b64_char_inj sextets_bounds[OF lt] by (meson UnE inj_onI)
  qed
  then have e: "?n a b c = ?n a' b' c'" by (rule sextets_inj)
  have "(unat a * 256 + unat b) * 256 + unat c = (unat a' * 256 + unat b') * 256 + unat c'" using e by (simp add: add_mult_distrib)
  from octets_inj[OF this unat_lt_u8 unat_lt_u8] have c: "unat a * 256 + unat b = unat a' * 256 + unat b'" "unat c = unat c'" by blast+
  from octets_inj[OF c(1) unat_lt_u8 unat_lt_u8] c(2) show ?thesis by (simp only: word_unat_eq_iff)
qed

lemma b64_group_pads: "b64_group a b 0 = take 3 (b64_group a b 0) @ [0]" "b64_group a 0 0 = take 2 (b64_group a 0 0) @ [0, 0]"
proof -
  have e: "unat a * 65536 + unat b * 256 = 64 * (unat a * 1024 + unat b * 4)" by simp
  have "(unat a * 65536 + unat b * 256) mod 64 = 0" unfolding e by simp
  then show "b64_group a b 0 = take 3 (b64_group a b 0) @ [0]" by (simp add: b64_group_def Let_def numeral_3_eq_3)
  have e: "unat a * 65536 = 64 * (64 * (unat a * 16))" by simp
  have "unat a * 65536 mod 64 = 0" "unat a * 65536 div 64 mod 64 = 0" unfolding e by simp_all
  then show "b64_group a 0 0 = take 2 (b64_group a 0 0) @ [0, 0]" by (simp add: b64_group_def Let_def numeral_2_eq_2)
qed

lemma length_b64_group: "length (b64_group a b c) = 4"
  by (simp add: b64_group_def Let_def)

lemma three_more:
  assumes "length (a # b # c # r) = length s'"
  shows "\<exists>a' b' c' r'. s' = a' # b' # c' # r' \<and> length r = length r'"
proof -
  from assms obtain a' s1 where "s' = a' # s1" "length (b # c # r) = length s1" by (cases s') auto
  moreover then obtain b' s2 where "s1 = b' # s2" "length (c # r) = length s2" by (cases s1) auto
  moreover then obtain c' s3 where "s2 = c' # s3" "length r = length s3" by (cases s2) auto
  ultimately show ?thesis by simp
qed

lemma b64encode_length: "length s = length s' \<Longrightarrow> length (b64encode s) = length (b64encode s')"
proof (induction s arbitrary: s' rule: b64encode.induct)
  case (4 a b c r)
  from three_more[OF "4.prems"(1)] obtain a' b' c' r' where s': "s' = a' # b' # c' # r'" "length r = length r'" by blast
  with "4.IH"[of r'] show ?case by (simp add: length_b64_group)
next
  case (2 a)
  then obtain a' where "s' = [a']" by (cases s') auto
  then show ?case by (simp add: length_b64_group)
next
  case (3 a b)
  then obtain a' b' where "s' = [a', b']" by (cases s'; cases "tl s'") auto
  then show ?case by (simp add: length_b64_group)
qed simp

lemma b64encode_inj: "length s = length s' \<Longrightarrow> b64encode s = b64encode s' \<Longrightarrow> s = s'"
proof (induction s arbitrary: s' rule: b64encode.induct)
  case (2 a)
  then obtain a' where s': "s' = [a']" by (cases s') auto
  with "2.prems"(2) have "map b64_char (take 2 (b64_group a 0 0) @ [0, 0]) = map b64_char (take 2 (b64_group a' 0 0) @ [0, 0])" by simp
  with b64_group_inj[of a 0 0 a' 0 0] s' show ?case by (metis b64_group_pads(2))
next
  case (3 a b)
  then obtain a' b' where s': "s' = [a', b']" by (cases s'; cases "tl s'") auto
  with "3.prems"(2) have "map b64_char (take 3 (b64_group a b 0) @ [0]) = map b64_char (take 3 (b64_group a' b' 0) @ [0])" by simp
  with b64_group_inj[of a b 0 a' b' 0] s' show ?case by (metis b64_group_pads(1))
next
  case (4 a b c r)
  from three_more[OF "4.prems"(1)] obtain a' b' c' r' where s': "s' = a' # b' # c' # r'" "length r = length r'" by blast
  with "4.prems"(2) have "map b64_char (b64_group a b c) = map b64_char (b64_group a' b' c')" "b64encode r = b64encode r'"
    by (simp_all add: length_b64_group)
  with b64_group_inj "4.IH"[of r'] s' show ?case by metis
qed simp

lemma hex_char_inj: "m < 16 \<Longrightarrow> n < 16 \<Longrightarrow> hex_char m = hex_char n \<Longrightarrow> m = n"
proof -
  have "distinct (map hex_char [0..<16])" by code_simp
  then show "m < 16 \<Longrightarrow> n < 16 \<Longrightarrow> hex_char m = hex_char n \<Longrightarrow> m = n"
    by (auto simp: distinct_map inj_on_def)
qed

lemma hex_digits_nonempty [simp]: "hex_digits n \<noteq> []"
  by (subst hex_digits.simps) simp

lemma hex_digits_inj: "hex_digits m = hex_digits n \<Longrightarrow> m = n"
proof (induction m arbitrary: n rule: hex_digits.induct)
  case (1 m)
  have last: "hex_char (m mod 16) = hex_char (n mod 16)"
    using arg_cong[OF "1.prems", of "\<lambda>s. s ! (length s - 1)"] by (subst (asm) (1 2 3 4) hex_digits.simps) (auto split: if_splits)
  have front: "butlast (hex_digits k) = (if k < 16 then [] else hex_digits (k div 16))" for k by (subst hex_digits.simps) simp
  have mods: "m mod 16 = n mod 16" by (rule hex_char_inj[OF _ _ last]) simp_all
  show ?case
  proof (cases "m < 16")
    case True
    with front[of m] front[of n] "1.prems" have "n < 16" by (auto split: if_splits)
    with True mods show ?thesis by simp
  next
    case False
    with front[of m] front[of n] "1.prems" have n: "\<not> n < 16"
      using hex_digits_nonempty[of "m div 16", symmetric] by (auto split: if_splits)
    from False n front[of m] front[of n] "1.prems" have "hex_digits (m div 16) = hex_digits (n div 16)" by simp
    from "1.IH"[OF False this] mods show ?thesis by (metis div_mult_mod_eq)
  qed
qed

lemma hex_char_text: "n < 16 \<Longrightarrow> hex_char n \<noteq> hd (str_bytes ''-'')"
proof -
  have "\<forall>c \<in> set (map hex_char [0..<16]). c \<noteq> hd (str_bytes ''-'')" by code_simp
  then show "n < 16 \<Longrightarrow> hex_char n \<noteq> hd (str_bytes ''-'')" by simp
qed

text \<open>No leading zero, except for zero itself: padding to two digits keeps numbers apart.\<close>

lemma hex_digits_hd: "0 < n \<Longrightarrow> hd (hex_digits n) \<noteq> hex_char 0"
proof (induction n rule: hex_digits.induct)
  case (1 n)
  show ?case
  proof (cases "n < 16")
    case True
    with hex_char_inj[of n 0] "1.prems" show ?thesis by (subst hex_digits.simps) auto
  next
    case False
    with "1.IH" have "hd (hex_digits (n div 16)) \<noteq> hex_char 0" by simp
    with False show ?thesis by (subst hex_digits.simps) simp
  qed
qed

lemma zero_char: "str_bytes ''0'' = [hex_char 0]"
  by (simp add: hex_char_def str_bytes_def)

lemma pad2_inj: "pad2 (hex_digits m) = pad2 (hex_digits n) \<Longrightarrow> m = n"
proof -
  assume p: "pad2 (hex_digits m) = pad2 (hex_digits n)"
  have padded: False if "hex_char 0 # hex_digits i = hex_digits j" for i j
    using that hex_digits_hd[of j] hex_digits_nonempty[of i]
    by (cases "j = 0") (metis hex_digits.simps list.inject zero_less_numeral, metis gr0I list.sel(1))
  from p padded hex_digits_inj show "m = n" unfolding pad2_def zero_char by (metis append_Cons append_Nil list.inject)
qed

lemma hex_digits_chars: "c \<in> set (hex_digits n) \<Longrightarrow> \<exists>k < 16. c = hex_char k"
proof (induction n rule: hex_digits.induct)
  case (1 n)
  show ?case
  proof (cases "n < 16")
    case True
    with "1.prems" show ?thesis by (subst (asm) hex_digits.simps) auto
  next
    case False
    with "1.prems" have "c \<in> set (hex_digits (n div 16)) \<or> c = hex_char (n mod 16)" by (subst (asm) hex_digits.simps) auto
    with "1.IH"[OF False] show ?thesis by (metis mod_less_divisor zero_less_numeral)
  qed
qed

lemma hex_no_minus: "pad2 (hex_digits m) \<noteq> str_bytes ''-'' @ s"
proof
  assume "pad2 (hex_digits m) = str_bytes ''-'' @ s"
  then have "hd (str_bytes ''-'') \<in> set (hex_char 0 # hex_digits m)"
    unfolding pad2_def zero_char by (auto simp: str_bytes_def split: if_splits)
  with hex_digits_chars hex_char_text show False by (metis set_ConsD zero_less_numeral)
qed

lemma format_02X_inj: "format_02X (Py_int i) = format_02X (Py_int j) \<Longrightarrow> i = j"
proof -
  assume f: "format_02X (Py_int i) = format_02X (Py_int j)"
  consider "0 \<le> i" "0 \<le> j" | "i < 0" "j < 0" | "0 \<le> i" "j < 0" | "i < 0" "0 \<le> j" by linarith
  then show "i = j"
  proof cases
    case 1
    with f pad2_inj[of "nat i" "nat j"] show ?thesis by simp
  next
    case 2
    with f hex_digits_inj[of "nat (- i)" "nat (- j)"] show ?thesis by simp
  next
    case 3
    with f hex_no_minus[of "nat i"] show ?thesis by simp
  next
    case 4
    with f hex_no_minus[of "nat j", symmetric] show ?thesis by simp
  qed
qed

text \<open>The info string fixes every parameter of the session: two sessions that share a key share them all.\<close>

lemma session_key_info_inj:
  assumes len: "length sid = length sid'"
    and info: "session_key_info C sid ini alg (Py_int log) = session_key_info C sid' ini' alg' (Py_int log')"
  shows "sid = sid' \<and> (py_num C ini = Some ROLE_DEVICE \<longleftrightarrow> py_num C ini' = Some ROLE_DEVICE) \<and>
         is_chacha C alg = is_chacha C alg' \<and> log = log'"
proof -
  define r :: "bool \<Rightarrow> bytes" where "r P = str_bytes (if P then ''D'' else ''S'')" for P
  define g :: "bool \<Rightarrow> bytes" where "g P = str_bytes (if P then ''C'' else ''A'')" for P
  have rg: "length (r P) = 1" "length (g P) = 1" "r P = r Q \<longleftrightarrow> P = Q" "g P = g Q \<longleftrightarrow> P = Q" for P Q
    by (cases P; cases Q; simp add: r_def g_def str_bytes_def)+
  obtain l l' where l: "format_02X (Py_int log) = Inr l" "format_02X (Py_int log') = Inr l'" by simp
  from info have "r (py_num C ini = Some ROLE_DEVICE) @ str_bytes '':'' @ b64encode sid @ str_bytes '':C'' @ g (is_chacha C alg) @ str_bytes ''R:'' @ l =
    r (py_num C ini' = Some ROLE_DEVICE) @ str_bytes '':'' @ b64encode sid' @ str_bytes '':C'' @ g (is_chacha C alg') @ str_bytes ''R:'' @ l'"
    unfolding session_key_info_def l by (simp only: xbind_simps sum.inject same_append_eq r_def g_def)
  then have "r (py_num C ini = Some ROLE_DEVICE) = r (py_num C ini' = Some ROLE_DEVICE)" "b64encode sid = b64encode sid'"
    "g (is_chacha C alg) = g (is_chacha C alg')" "l = l'"
    using rg(1,2) b64encode_length[OF len] by (simp_all add: append_eq_append_conv)
  with rg(3,4) b64encode_inj[OF len] format_02X_inj[of log log'] l show ?thesis by simp
qed

subsection \<open>Properties\<close>

text \<open>
  C36: encrypted pouches open at the other end. With keys that belong together, the peer reads from
  an encrypted pouch of the client exactly its entries, and the client reads from an encrypted pouch
  of the peer exactly its entries.
\<close>

theorem saead_roundtrip:
  assumes "cbor2_codec C" and "aead_crypto X" and "device_public s = public_key X (dev_priv d)" and "dev_server_pub d = public_key X (server_private s)"
    and "dev_algorithm d = saead_algorithm s" and "py_ok (Py_int (saead_algorithm s))" and "py_ok (Py_int (saead_block_log s))"
    and "py_ok (Py_int (dev_block_log d))" and "length (saead_cert_ref s) = 6" and "list_all (\<lambda>e. utf8_ok (entry_path e)) es"
  shows "(build_downlink_pouch X C s sid es (Py_int pid) n = Inr (data, s') \<longrightarrow> decrypt_downlink X C d data = Inr es) \<and>
    (encrypt_uplink X C d es sid pid = Inr data' \<and> length sid < 2 ^ 64 \<longrightarrow> (\<exists>s'. parse_uplink_pouch X C s data' = Inr (es, s')))"
proof -
  have l: "saead_link C X" using assms(1,2) by (rule saead_link.intro)
  have "decrypt_downlink X C d data = Inr es" if "build_downlink_pouch X C s sid es (Py_int pid) n = Inr (data, s')"
    using saead_link.downlink_opens[OF l that assms(3-7,9,10)] .
  moreover have "\<exists>s'. parse_uplink_pouch X C s data' = Inr (es, s')" if "encrypt_uplink X C d es sid pid = Inr data'" "length sid < 2 ^ 64"
    using saead_link.uplink_opens[OF l that(1) assms(3,4)] assms(5,6,8,10) that(2) by simp
  ultimately show ?thesis by blast
qed

definition demo_saead :: SaeadSession where
  "demo_saead = SaeadSession_init [1] [2] [] ALG_CHACHA20_POLY1305 9"

definition demo_peer :: DeviceSaead where
  "demo_peer = \<lparr>dev_priv = [2], dev_server_pub = [1], dev_algorithm = ALG_CHACHA20_POLY1305, dev_block_log = 9\<rparr>"

definition demo_entry :: Entry where
  "demo_entry = \<lparr>entry_path = [97], entry_content_type = 60, entry_data = [1, 2]\<rparr>"

lemmas demo_saead_defs = demo_saead_def demo_peer_def demo_entry_def SaeadSession_init_def ALG_CHACHA20_POLY1305_def CERT_REF_LEN_def

lemma length_delimited: "length (delimited b) = 2 * length b + 1"
  by (induction b) (simp_all add: delimited_def)

lemma length_auth_tag: "length (auth_tag c) \<le> 16"
  by (simp add: auth_tag_def AUTH_TAG_LEN_def)

lemma demo_downlink: "\<exists>data s'. build_downlink_pouch ref_crypto ref_cbor2 demo_saead (replicate 16 3) [demo_entry] (Py_int 1) (Py_int 512) = Inr (data, s')"
proof -
  let ?sid = "replicate 16 3 :: bytes"
  let ?info = "\<lparr>session_id = ?sid, initiator = Py_int ROLE_SERVER, algorithm = Py_int 1, max_block_size_log = Py_int 9, cert_ref = replicate 6 0, sequential_seq = None\<rparr>"
  let ?s = "\<lambda>k. demo_saead\<lparr>saead_down := Some \<lparr>st_key = k, st_algorithm = Py_int 1\<rparr>\<rparr>"
  obtain i where i: "session_key_info ref_cbor2 ?sid (Py_int ROLE_SERVER) (Py_int 1) (Py_int 9) = Inr i" by (simp add: session_key_info_def)
  let ?n = "key_size ref_cbor2 (Py_int 1)"
  have "length (hkdf ref_crypto x i ?n) \<le> ?n" "?n \<le> 32" for x by (simp_all add: ref_crypto_def key_size_def)
  with i obtain k where k: "derive_session_key ref_crypto ref_cbor2 [1] [2] ?sid (Py_int ROLE_SERVER) (Py_int 1) (Py_int 9) = Inr k" "length k \<le> 32"
    unfolding derive_session_key_def by (metis order_trans xbind_simps(2))
  then have d: "new_downlink ref_crypto ref_cbor2 demo_saead ?sid = Inr (?info, ?s k)"
    by (simp add: new_downlink_def demo_saead_defs SESSION_ID_LEN_def Let_def)
  obtain p where p: "pack_payloads ref_cbor2 (Py_int 512) [] [] [demo_entry] = Inr [p]" "length p = 8"
    by (auto simp: demo_entry_def Entry_encode_def pack_be_def)
  obtain h where h: "PouchHeader_encode ref_cbor2 (saead_header ?info 1) = Inr h"
    using ref_saead.saead_header_read[of ?info 1] by (auto simp: info_ok_def ROLE_SERVER_def)
  let ?m = "of_int (block_id_byte BLOCK_ID_ENTRY True True) # p"
  obtain c t where c: "encrypt_downlink_block ref_crypto ref_cbor2 (?s k) ?m 0 (Py_int 1) [] = Inr (c, t)" "length c \<le> 200"
    using k(2) p(2) by (auto simp: encrypt_downlink_block_def saead_nonce_def pack_be_def Let_def ref_crypto_def length_delimited ROLE_SERVER_def)
  from d p h c show ?thesis by (simp add: build_downlink_pouch_def saead_header_def pack_be_def)
qed

theorem saead_roundtrip_witness:
  "\<exists>data s'. build_downlink_pouch ref_crypto ref_cbor2 demo_saead (replicate 16 3) [demo_entry] (Py_int 1) (Py_int 512) = Inr (data, s') \<and>
    decrypt_downlink ref_crypto ref_cbor2 demo_peer data = Inr [demo_entry]"
proof -
  obtain data s' where b: "build_downlink_pouch ref_crypto ref_cbor2 demo_saead (replicate 16 3) [demo_entry] (Py_int 1) (Py_int 512) = Inr (data, s')"
    using demo_downlink by blast
  have k: "device_public demo_saead = public_key ref_crypto (dev_priv demo_peer)" "dev_server_pub demo_peer = public_key ref_crypto (server_private demo_saead)"
    "dev_algorithm demo_peer = saead_algorithm demo_saead" "py_ok (Py_int (saead_algorithm demo_saead))" "py_ok (Py_int (saead_block_log demo_saead))"
    "py_ok (Py_int (dev_block_log demo_peer))" "length (saead_cert_ref demo_saead) = 6" "list_all (\<lambda>e. utf8_ok (entry_path e)) [demo_entry]"
    by (simp_all add: demo_saead_defs ref_crypto_def Let_def)
  from saead_roundtrip[OF ref_cbor2.cbor2_codec_axioms ref_crypto.aead_crypto_axioms k] b show ?thesis by blast
qed

text \<open>
  C38: of the sealed blocks of an uplink pouch the client accepts exactly the initial segments. If the
  blocks of one pouch arrive in another order, with repetitions or with gaps, they are refused; any
  number of them from the first on is accepted with its plaintexts, also one without the last block:
  the mark on the last block is not checked.
\<close>

theorem uplink_prefixes_accepted:
  assumes "cbor2_codec C" and "ideal_crypto X" and "saead_up s = Some st" and "pid < 65536" and "length ms < 65536"
    and "cs = sealed_blocks X (is_chacha C (st_algorithm st)) (st_key st) pid 0 [] ms" and "list_all (\<lambda>c. length c < 65536) cs"
    and "set js \<subseteq> {..<length ms}"
  shows "open_blocks (\<lambda>c i t. decrypt_uplink_block X C s c i (Py_int (int pid)) t) 0 [] (concat (map (\<lambda>j. framed (cs ! j)) js)) = Inr qs \<longleftrightarrow>
    js = [0..<length js] \<and> qs = take (length js) ms"
proof -
  let ?f = "\<lambda>c i t. decrypt_uplink_block X C s c i (Py_int (int pid)) t"
  have l: "ideal_link C X" using assms(1,2) by (rule ideal_link.intro)
  have opens: "open_blocks ?f 0 [] (concat (map (\<lambda>j. framed (cs ! j)) js)) = Inr (take (length js) ms)" if "js = [0..<length js]"
  proof -
    have "set [0..<length js] \<subseteq> {..<length ms}" using assms(8) that by simp
    then have "length js \<le> length ms" by (cases "length js") auto
    then have "map (\<lambda>j. framed (cs ! j)) [0..<length js] = map framed (take (length js) cs)" by (intro nth_equalityI) (simp_all add: assms(6))
    then have "map (\<lambda>j. framed (cs ! j)) js = map framed (take (length js) cs)" unfolding that[symmetric] .
    with ideal_link.prefix_accepted[OF l assms(3,4), of 0 ms "[]" "length js"] assms(5,6,7) show ?thesis by simp
  qed
  show ?thesis
  proof
    assume o: "open_blocks ?f 0 [] (concat (map (\<lambda>j. framed (cs ! j)) js)) = Inr qs"
    from ideal_link.accepted_in_order[OF l assms(3-7) o assms(8)] have "js = [0..<length js]" by simp
    with opens o show "js = [0..<length js] \<and> qs = take (length js) ms" by simp
  qed (use opens in simp)
qed

theorem uplink_prefixes_accepted_witness:
  "let s = demo_saead\<lparr>saead_up := Some \<lparr>st_key = [9], st_algorithm = Py_int 1\<rparr>\<rparr>;
       cs = sealed_blocks ref_crypto True [9] 1 0 [] [[0x40, 5], [0x80, 6]];
       f = \<lambda>c i t. decrypt_uplink_block ref_crypto ref_cbor2 s c i (Py_int 1) t
   in open_blocks f 0 [] (framed (cs ! 0)) = Inr [[0x40, 5]] \<and> (\<forall>qs. open_blocks f 0 [] (framed (cs ! 1)) \<noteq> Inr qs)"
proof -
  define s where "s = demo_saead\<lparr>saead_up := Some \<lparr>st_key = [9], st_algorithm = Py_int 1\<rparr>\<rparr>"
  define cs where "cs = sealed_blocks ref_crypto True [9] 1 0 [] [[0x40, 5], [0x80, 6]]"
  have u: "saead_up s = Some \<lparr>st_key = [9], st_algorithm = Py_int 1\<rparr>" by (simp add: s_def)
  have g: "is_chacha ref_cbor2 (st_algorithm \<lparr>st_key = [9], st_algorithm = Py_int 1\<rparr>)" by (simp add: is_chacha_def ALG_CHACHA20_POLY1305_def)
  have c: "cs = sealed_blocks ref_crypto (is_chacha ref_cbor2 (st_algorithm \<lparr>st_key = [9], st_algorithm = Py_int 1\<rparr>))
      (st_key \<lparr>st_key = [9], st_algorithm = Py_int 1\<rparr>) 1 0 [] [[0x40, 5], [0x80, 6]]"
    using g by (simp add: cs_def)
  have n: "list_all (\<lambda>c. length c < 65536) cs"
    using order_le_less_trans[OF length_auth_tag, of 32751] by (simp add: cs_def Let_def ref_crypto_def length_delimited uplink_nonce_def)
  note p = uplink_prefixes_accepted[OF ref_cbor2.cbor2_codec_axioms ref_crypto.ideal_crypto_axioms u _ _ c n]
  from p[of "[0]" "[[0x40, 5]]"] p[of "[1]"] show ?thesis unfolding Let_def s_def[symmetric] cs_def[symmetric] by simp
qed

text \<open>
  C39: different sessions have different key information. The string a session key is derived with
  determines the session id, the side that opened the session, the cipher and the block size, so
  sessions that differ in any of them do not share it.
\<close>

theorem session_key_info_separates:
  assumes "length sid = length sid'"
  shows "session_key_info C sid ini alg (Py_int log) = session_key_info C sid' ini' alg' (Py_int log') \<longleftrightarrow>
    sid = sid' \<and> (py_num C ini = Some ROLE_DEVICE \<longleftrightarrow> py_num C ini' = Some ROLE_DEVICE) \<and> is_chacha C alg = is_chacha C alg' \<and> log = log'"
proof
  show "session_key_info C sid ini alg (Py_int log) = session_key_info C sid' ini' alg' (Py_int log') \<Longrightarrow> sid = sid' \<and>
    (py_num C ini = Some ROLE_DEVICE \<longleftrightarrow> py_num C ini' = Some ROLE_DEVICE) \<and> is_chacha C alg = is_chacha C alg' \<and> log = log'"
    by (rule session_key_info_inj[OF assms])
next
  assume "sid = sid' \<and> (py_num C ini = Some ROLE_DEVICE \<longleftrightarrow> py_num C ini' = Some ROLE_DEVICE) \<and> is_chacha C alg = is_chacha C alg' \<and> log = log'"
  then show "session_key_info C sid ini alg (Py_int log) = session_key_info C sid' ini' alg' (Py_int log')" unfolding session_key_info_def by simp
qed

theorem session_key_info_separates_witness:
  "session_key_info ref_cbor2 (replicate 16 3) (Py_int 0) (Py_int 1) (Py_int 9) \<noteq> session_key_info ref_cbor2 (replicate 16 3) (Py_int 1) (Py_int 1) (Py_int 9)"
  using session_key_info_separates[of "replicate 16 3" "replicate 16 3" ref_cbor2 "Py_int 0" "Py_int 1" 9 "Py_int 1" "Py_int 1" 9]
  by (simp add: ROLE_DEVICE_def)

end
