(* ===== verification/Client_Sar.thy ===== *)
theory Client_Sar
  imports Client_Base
begin

text \<open>
  Segmentation and reassembly (\<^verbatim>\<open>cli/src/pouchprov/pouchlink/sar.py\<close>): \<^verbatim>\<open>SarSender\<close> and \<^verbatim>\<open>SarReceiver\<close> as
  state machines over packets, their composition over a channel that may lose, repeat and reorder,
  and over one that does not.
\<close>

unbundle bit_operations_syntax

definition FLAG_FIRST :: u8 where "FLAG_FIRST = 0x01"
definition FLAG_LAST :: u8 where "FLAG_LAST = 0x02"
definition FLAG_FIN :: u8 where "FLAG_FIN = 0x04"
definition CODE_ACK :: u8 where "CODE_ACK = 0"
definition HEADER_LEN :: nat where "HEADER_LEN = 2"

lemmas sar_consts = FLAG_FIRST_def FLAG_LAST_def FLAG_FIN_def CODE_ACK_def HEADER_LEN_def

text \<open>A call that has raised, has returned, or waits for the next packet.\<close>

datatype ('s, 'a) sar_result = Sar_raise py_exn | Sar_return 'a | Sar_loop 's

subsection \<open>The sender\<close>

record sar_sender =
  snd_seq :: u8
  snd_sent_last :: bool

text \<open>\<^verbatim>\<open>[data[i : i + frag] for i in range(0, len(data), frag)]\<close>.\<close>

function chunks_of :: "nat \<Rightarrow> bytes \<Rightarrow> bytes list" where
  "chunks_of n data = (if data = [] \<or> n = 0 then [] else take n data # chunks_of n (drop n data))"
  by pat_completeness auto
termination
  by (relation "measure (\<lambda>(n, data). length data)") auto

declare chunks_of.simps [simp del]

definition fragments :: "nat \<Rightarrow> bytes \<Rightarrow> bytes list" where
  "fragments frag data = (if chunks_of frag data = [] then [[]] else chunks_of frag data)"

text \<open>The constructor: the size of a fragment.\<close>

definition SarSender_init :: "nat \<Rightarrow> nat exc" where
  "SarSender_init maxlen = (if maxlen \<le> HEADER_LEN then Inl ValueError else Inr (maxlen - HEADER_LEN))"

text \<open>The inner loop of \<^verbatim>\<open>send\<close>: the packets written, and the state after it.\<close>

function send_window :: "bytes list \<Rightarrow> u8 \<Rightarrow> u8 \<Rightarrow> bool \<Rightarrow> (bytes list \<times> sar_sender) exc" where
  "send_window frags target seq sent_last =
     (if seq = target \<or> sent_last then Inr ([], \<lparr>snd_seq = seq, snd_sent_last = sent_last\<rparr>)
      else let idx = unat seq;
               flags = (if idx = 0 then FLAG_FIRST else 0);
               flags = (if idx = length frags - 1 then flags OR FLAG_LAST else flags)
           in xbind (py_nth frags idx) (\<lambda>frag.
              xbind (send_window frags target (seq + 1) (idx = length frags - 1)) (\<lambda>(pkts, s).
              Inr (([flags, seq] @ frag) # pkts, s))))"
  by pat_completeness auto
termination
proof (relation "measure (\<lambda>(frags, target, seq, sent_last). unat (target - seq))")
  fix frags :: "bytes list" and target seq :: u8 and sent_last x xa xb xc
  assume "\<not> (seq = target \<or> sent_last)"
  then have "target - seq \<noteq> 0" by auto
  then have "unat (target - seq - 1) < unat (target - seq)" by (metis measure_unat)
  then show "((frags, target, seq + 1, x = length frags - 1), frags, target, seq, sent_last)
      \<in> measure (\<lambda>(frags, target, seq, sent_last). unat (target - seq))"
    by (simp add: algebra_simps)
qed simp

declare send_window.simps [simp del]

text \<open>One turn of the loop of \<^verbatim>\<open>send\<close>: an acknowledgement arrives.\<close>

definition send_ack :: "bytes list \<Rightarrow> sar_sender \<Rightarrow> bytes \<Rightarrow> bytes list \<times> (sar_sender, unit) sar_result" where
  "send_ack frags s ack =
     (case ack of
        [code, ack_seq, window] \<Rightarrow>
          if code \<noteq> CODE_ACK then ([], Sar_raise SarError)
          else let target = ack_seq + window + 1 in
            if snd_sent_last s
            then if ack_seq = snd_seq s - 1 then ([[FLAG_FIN, CODE_ACK]], Sar_return ()) else ([], Sar_loop s)
            else (case send_window frags target (snd_seq s) False of
                    Inl e \<Rightarrow> ([], Sar_raise e)
                  | Inr (pkts, s') \<Rightarrow> (pkts, Sar_loop s'))
      | _ \<Rightarrow> ([], Sar_raise SarError))"

definition snd_start :: sar_sender where
  "snd_start = \<lparr>snd_seq = 0, snd_sent_last = False\<rparr>"

subsection \<open>The receiver\<close>

record sar_receiver =
  rcv_chunks :: "bytes list"
  rcv_expected :: u8
  rcv_last :: u8
  rcv_ended :: bool

definition SarReceiver_init :: "int \<Rightarrow> unit exc" where
  "SarReceiver_init window = (if 1 \<le> window \<and> window \<le> 127 then Inr () else Inl ValueError)"

definition sar_ack :: "u8 \<Rightarrow> u8 \<Rightarrow> bytes" where
  "sar_ack window seq = [CODE_ACK, seq, window]"

text \<open>One turn of the loop of \<^verbatim>\<open>receive\<close>: a packet arrives.\<close>

definition receive_packet :: "u8 \<Rightarrow> sar_receiver \<Rightarrow> bytes \<Rightarrow> bytes list \<times> (sar_receiver, bytes) sar_result" where
  "receive_packet window r pkt =
     (case pkt of
        flags # code # frag \<Rightarrow>
          if flags AND FLAG_FIN \<noteq> 0
          then if \<not> rcv_ended r then ([], Sar_raise SarError)
               else if code = CODE_ACK then ([], Sar_return (concat (rcv_chunks r)))
               else ([], Sar_raise SarError)
          else if code \<noteq> rcv_expected r then ([sar_ack window (rcv_last r)], Sar_loop r)
          else if rcv_ended r then ([], Sar_raise SarError)
          else ([sar_ack window code],
                Sar_loop \<lparr>rcv_chunks = rcv_chunks r @ [frag], rcv_expected = code + 1, rcv_last = code,
                          rcv_ended = (flags AND FLAG_LAST \<noteq> 0)\<rparr>)
      | _ \<Rightarrow> ([], Sar_raise SarError))"

definition rcv_start :: sar_receiver where
  "rcv_start = \<lparr>rcv_chunks = [], rcv_expected = 0, rcv_last = 0xFF, rcv_ended = False\<rparr>"

subsection \<open>The two over a channel\<close>

text \<open>What either has written so far stays on the channel.\<close>

record sar_link =
  sender :: "(sar_sender, unit) sar_result"
  receiver :: "(sar_receiver, bytes) sar_result"
  pkts :: "bytes list"
  acks :: "bytes list"

definition sar_open :: "u8 \<Rightarrow> sar_link" where
  "sar_open window = \<lparr>sender = Sar_loop snd_start, receiver = Sar_loop rcv_start, pkts = [], acks = [sar_ack window 0xFF]\<rparr>"

text \<open>
  Anything written may arrive, at any time, again, or never; the receiver repeats its
  acknowledgement when nothing arrives, and either side may run into its time-out.
\<close>

inductive sar_step :: "u8 \<Rightarrow> bytes list \<Rightarrow> sar_link \<Rightarrow> sar_link \<Rightarrow> bool" for window frags where
  ack_arrives: "sender l = Sar_loop s \<Longrightarrow> a \<in> set (acks l) \<Longrightarrow> send_ack frags s a = (out, s') \<Longrightarrow>
    sar_step window frags l (l\<lparr>sender := s', pkts := pkts l @ out\<rparr>)"
| packet_arrives: "receiver l = Sar_loop r \<Longrightarrow> p \<in> set (pkts l) \<Longrightarrow> receive_packet window r p = (out, r') \<Longrightarrow>
    sar_step window frags l (l\<lparr>receiver := r', acks := acks l @ out\<rparr>)"
| reack: "receiver l = Sar_loop r \<Longrightarrow> sar_step window frags l (l\<lparr>acks := acks l @ [sar_ack window (rcv_last r)]\<rparr>)"
| sender_timeout: "sender l = Sar_loop s \<Longrightarrow> sar_step window frags l (l\<lparr>sender := Sar_raise SarError\<rparr>)"
| receiver_timeout: "receiver l = Sar_loop r \<Longrightarrow> sar_step window frags l (l\<lparr>receiver := Sar_raise SarError\<rparr>)"

inductive sar_run :: "u8 \<Rightarrow> bytes list \<Rightarrow> sar_link \<Rightarrow> bool" for window frags where
  sar_run_open: "sar_run window frags (sar_open window)"
| sar_run_step: "sar_run window frags l \<Longrightarrow> sar_step window frags l l' \<Longrightarrow> sar_run window frags l'"

text \<open>A channel that delivers everything once and in order: how much of either direction has arrived.\<close>

inductive fifo_step :: "u8 \<Rightarrow> bytes list \<Rightarrow> sar_link \<times> nat \<times> nat \<Rightarrow> sar_link \<times> nat \<times> nat \<Rightarrow> bool" for window frags where
  fifo_ack: "sender l = Sar_loop s \<Longrightarrow> a < length (acks l) \<Longrightarrow> send_ack frags s (acks l ! a) = (out, s') \<Longrightarrow>
    fifo_step window frags (l, a, p) (l\<lparr>sender := s', pkts := pkts l @ out\<rparr>, Suc a, p)"
| fifo_packet: "receiver l = Sar_loop r \<Longrightarrow> p < length (pkts l) \<Longrightarrow> receive_packet window r (pkts l ! p) = (out, r') \<Longrightarrow>
    fifo_step window frags (l, a, p) (l\<lparr>receiver := r', acks := acks l @ out\<rparr>, a, Suc p)"

inductive fifo_run :: "u8 \<Rightarrow> bytes list \<Rightarrow> sar_link \<times> nat \<times> nat \<Rightarrow> bool" for window frags where
  fifo_run_open: "fifo_run window frags (sar_open window, 0, 0)"
| fifo_run_step: "fifo_run window frags x \<Longrightarrow> fifo_step window frags x y \<Longrightarrow> fifo_run window frags y"

subsection \<open>Fragments\<close>

lemma concat_chunks: "0 < n \<Longrightarrow> concat (chunks_of n data) = data"
  by (induction n data rule: chunks_of.induct) (subst chunks_of.simps, auto)

lemma concat_fragments: "0 < n \<Longrightarrow> concat (fragments n data) = data"
  using concat_chunks[of n data] by (auto simp: fragments_def)

lemma fragments_nonempty [simp]: "fragments n data \<noteq> []"
  by (simp add: fragments_def)

lemma length_chunks: "0 < n \<Longrightarrow> length data \<le> n * k \<Longrightarrow> length (chunks_of n data) \<le> k"
proof (induction k arbitrary: data)
  case 0
  then show ?case by (simp add: chunks_of.simps)
next
  case (Suc k)
  from Suc.IH[of "drop n data"] Suc.prems show ?case by (subst chunks_of.simps) simp
qed

text \<open>The packet of fragment \<open>i\<close>.\<close>

definition frag_packet :: "bytes list \<Rightarrow> nat \<Rightarrow> bytes" where
  "frag_packet frags i = ((if i = 0 then FLAG_FIRST else 0) OR (if i = length frags - 1 then FLAG_LAST else 0)) # of_nat i # frags ! i"

lemma send_window_packets:
  assumes "n < length frags" and "length frags \<le> 256" and "k < 256"
  shows "send_window frags (of_nat (n + k)) (of_nat n) False =
    Inr (map (frag_packet frags) [n..<min (n + k) (length frags)],
      \<lparr>snd_seq = of_nat (min (n + k) (length frags)), snd_sent_last = (length frags \<le> n + k)\<rparr>)"
  using assms
proof (induction k arbitrary: n)
  case 0
  then show ?case by (subst send_window.simps) simp
next
  case (Suc k)
  have u: "unat (of_nat n :: u8) = n" using Suc.prems by (intro unat_of_nat_small) simp
  have d: "of_nat n \<noteq> (of_nat (n + Suc k) :: u8)"
  proof
    assume "of_nat n = (of_nat (n + Suc k) :: u8)"
    then have "(of_nat (Suc k) :: u8) = 0" by simp
    then have "unat (of_nat (Suc k) :: u8) = 0" by (simp only: unsigned_0)
    then show False using unat_of_nat_small[of "Suc k", where 'a = 8] Suc.prems(3) by simp
  qed
  have p: "((if n = 0 then FLAG_FIRST else 0) OR (if n = length frags - 1 then FLAG_LAST else 0)) # of_nat n # frags ! n = frag_packet frags n"
    by (simp add: frag_packet_def)
  have "send_window frags (of_nat (n + Suc k)) (of_nat n + 1) (n = length frags - 1) =
    Inr (map (frag_packet frags) [Suc n..<min (n + Suc k) (length frags)],
      \<lparr>snd_seq = of_nat (min (n + Suc k) (length frags)), snd_sent_last = (length frags \<le> n + Suc k)\<rparr>)"
  proof (cases "n = length frags - 1")
    case True
    with Suc.prems have "length frags = Suc n" by simp
    then show ?thesis by (subst send_window.simps) (simp add: min_def)
  next
    case False
    with Suc.IH[of "Suc n"] Suc.prems show ?thesis by (simp add: add.commute)
  qed
  then show ?case using u d Suc.prems(1)
    by (subst send_window.simps) (simp add: Let_def py_nth_def p[symmetric] upt_conv_Cons)
qed

subsection \<open>Over any channel\<close>

text \<open>\<open>n\<close> fragments have been accepted; with at most 256 of them a sequence number names one.\<close>

definition snd_inv :: "bytes list \<Rightarrow> sar_sender \<Rightarrow> bool" where
  "snd_inv frags s \<longleftrightarrow> (\<exists>n \<le> length frags. snd_seq s = of_nat n \<and> (snd_sent_last s \<longleftrightarrow> n = length frags))"

definition rcv_inv :: "bytes list \<Rightarrow> nat \<Rightarrow> sar_receiver \<Rightarrow> bool" where
  "rcv_inv frags n r \<longleftrightarrow> rcv_chunks r = take n frags \<and> rcv_expected r = of_nat n \<and> rcv_last r = of_nat n - 1 \<and>
     (rcv_ended r \<longleftrightarrow> n = length frags)"

definition pkt_inv :: "bytes list \<Rightarrow> bytes \<Rightarrow> bool" where
  "pkt_inv frags p \<longleftrightarrow> p = [FLAG_FIN, CODE_ACK] \<or> (\<exists>i < length frags. p = frag_packet frags i)"

definition ack_inv :: "u8 \<Rightarrow> nat \<Rightarrow> bytes \<Rightarrow> bool" where
  "ack_inv window n a \<longleftrightarrow> (\<exists>m \<le> n. a = sar_ack window (of_nat m - 1))"

definition link_inv :: "u8 \<Rightarrow> bytes list \<Rightarrow> nat \<Rightarrow> sar_link \<Rightarrow> bool" where
  "link_inv window frags n l \<longleftrightarrow> n \<le> length frags \<and> list_all (pkt_inv frags) (pkts l) \<and> list_all (ack_inv window n) (acks l) \<and>
     (case sender l of Sar_loop s \<Rightarrow> snd_inv frags s | Sar_return u \<Rightarrow> length frags < 256 \<longrightarrow> n = length frags | Sar_raise e \<Rightarrow> True) \<and>
     (case receiver l of Sar_loop r \<Rightarrow> rcv_inv frags n r | Sar_return b \<Rightarrow> b = concat frags | Sar_raise e \<Rightarrow> True)"

lemma u8_inj:
  assumes "m < 256" and "n < 256"
  shows "(of_nat m :: u8) = of_nat n \<longleftrightarrow> m = n"
proof -
  have "unat (of_nat m :: u8) = m" "unat (of_nat n :: u8) = n" using assms by (intro unat_of_nat_small, simp)+
  then show ?thesis by metis
qed

lemma send_ack_inv:
  assumes len: "0 < length frags" "length frags \<le> 256" and s: "snd_inv frags s" and a: "ack_inv window n a" "n \<le> length frags"
    and st: "send_ack frags s a = (out, s')"
  shows "list_all (pkt_inv frags) out" and "s' = Sar_loop t \<Longrightarrow> snd_inv frags t"
    and "s' = Sar_return u \<Longrightarrow> length frags < 256 \<Longrightarrow> n = length frags"
proof -
  obtain m where m: "m \<le> n" "a = [CODE_ACK, of_nat m - 1, window]" using a(1) by (auto simp: ack_inv_def sar_ack_def)
  obtain q where q: "q \<le> length frags" "snd_seq s = of_nat q" "snd_sent_last s \<longleftrightarrow> q = length frags"
    using s by (auto simp: snd_inv_def)
  have "list_all (pkt_inv frags) out \<and> (\<forall>t. s' = Sar_loop t \<longrightarrow> snd_inv frags t) \<and>
    (\<forall>u. s' = Sar_return u \<longrightarrow> length frags < 256 \<longrightarrow> n = length frags)"
  proof (cases "q = length frags")
    case True
    have "(of_nat m :: u8) = of_nat q \<Longrightarrow> length frags < 256 \<Longrightarrow> n = length frags"
      using u8_inj[of m q] m(1) a(2) True by simp
    then show ?thesis using st m(2) q s True
      by (auto simp: send_ack_def pkt_inv_def split: if_splits)
  next
    case False
    let ?k = "unat (of_nat m - 1 + window + 1 - (of_nat q :: u8))"
    have k: "?k < 256" by (rule unat_lt_u8)
    have "of_nat m - 1 + window + 1 = (of_nat (q + ?k) :: u8)" by (simp add: algebra_simps)
    with send_window_packets[of q frags ?k] q False len k
    have "send_window frags (of_nat m - 1 + window + 1) (snd_seq s) False =
      Inr (map (frag_packet frags) [q..<min (q + ?k) (length frags)],
        \<lparr>snd_seq = of_nat (min (q + ?k) (length frags)), snd_sent_last = (length frags \<le> q + ?k)\<rparr>)" by simp
    moreover have "snd_inv frags \<lparr>snd_seq = of_nat (min (q + ?k) (length frags)), snd_sent_last = (length frags \<le> q + ?k)\<rparr>"
      unfolding snd_inv_def by (intro exI[of _ "min (q + ?k) (length frags)"]) auto
    moreover have "list_all (pkt_inv frags) (map (frag_packet frags) [q..<min (q + ?k) (length frags)])"
      by (auto simp: pkt_inv_def list_all_iff)
    ultimately show ?thesis using st m(2) q(3) False by (simp add: send_ack_def Let_def) blast
  qed
  then show "list_all (pkt_inv frags) out" "s' = Sar_loop t \<Longrightarrow> snd_inv frags t"
    "s' = Sar_return u \<Longrightarrow> length frags < 256 \<Longrightarrow> n = length frags" by auto
qed

lemma frag_flags:
  "((if a then FLAG_FIRST else 0) OR (if b then FLAG_LAST else 0)) AND FLAG_FIN = 0"
  "((if a then FLAG_FIRST else 0) OR (if b then FLAG_LAST else 0)) AND FLAG_LAST \<noteq> 0 \<longleftrightarrow> b"
  by (cases a; cases b; simp add: sar_consts)+

lemma receive_inv:
  assumes len: "length frags \<le> 256" and r: "rcv_inv frags n r" "n \<le> length frags" and p: "pkt_inv frags p"
    and st: "receive_packet window r p = (out, r')"
  shows "\<exists>n'\<ge>n. n' \<le> length frags \<and> list_all (ack_inv window n') out \<and>
    (case r' of Sar_loop t \<Rightarrow> rcv_inv frags n' t | Sar_return b \<Rightarrow> b = concat frags | Sar_raise e \<Rightarrow> True)"
proof -
  note rc = r(1)[unfolded rcv_inv_def]
  from p consider (fin) "p = [FLAG_FIN, CODE_ACK]" | (frag) i where "i < length frags" "p = frag_packet frags i"
    by (auto simp: pkt_inv_def)
  then show ?thesis
  proof cases
    case fin
    then show ?thesis using st rc r(2) by (intro exI[of _ n]) (auto simp: receive_packet_def FLAG_FIN_def)
  next
    case frag
    show ?thesis
    proof (cases "of_nat i = rcv_expected r \<and> \<not> rcv_ended r")
      case True
      then have n: "n < length frags" using rc r(2) by simp
      with True rc len frag(1) u8_inj[of i n] have i: "i = n" by simp
      have "take (Suc n) frags = take n frags @ [frags ! n]" using n by (simp add: take_Suc_conv_app_nth)
      moreover have "n = length frags - 1 \<longleftrightarrow> Suc n = length frags" using n by auto
      ultimately have "rcv_inv frags (Suc n) \<lparr>rcv_chunks = rcv_chunks r @ [frags ! i], rcv_expected = of_nat i + 1,
          rcv_last = of_nat i, rcv_ended = (i = length frags - 1)\<rparr>" using rc i by (simp add: rcv_inv_def)
      moreover have "ack_inv window (Suc n) (sar_ack window (of_nat i))"
        unfolding ack_inv_def using i by (intro exI[of _ "Suc n"]) simp
      ultimately show ?thesis using st True n frag(2)
        by (intro exI[of _ "Suc n"]) (auto simp: receive_packet_def frag_packet_def frag_flags)
    next
      case False
      have "ack_inv window n (sar_ack window (rcv_last r))" unfolding ack_inv_def using rc by (intro exI[of _ n]) simp
      then show ?thesis using st False r frag(2)
        by (intro exI[of _ n]) (auto simp: receive_packet_def frag_packet_def frag_flags split: if_splits)
    qed
  qed
qed

lemma ack_inv_mono: "n \<le> n' \<Longrightarrow> list_all (ack_inv window n) as \<Longrightarrow> list_all (ack_inv window n') as"
  by (auto simp: list_all_iff ack_inv_def intro: order_trans)

lemma link_step_inv:
  assumes len: "0 < length frags" "length frags \<le> 256" and i: "link_inv window frags n l" and st: "sar_step window frags l l'"
  shows "\<exists>n'. link_inv window frags n' l'"
  using st
proof cases
  case (ack_arrives s a out s')
  have "snd_inv frags s" "ack_inv window n a" "n \<le> length frags" using i ack_arrives(2,3) by (auto simp: link_inv_def list_all_iff)
  note k = send_ack_inv[OF len this ack_arrives(4)]
  show ?thesis using i k unfolding ack_arrives(1) link_inv_def by (intro exI[of _ n]) (auto split: sar_result.splits)
next
  case (packet_arrives r p out r')
  have "rcv_inv frags n r" "n \<le> length frags" "pkt_inv frags p" using i packet_arrives(2,3) by (auto simp: link_inv_def list_all_iff)
  from receive_inv[OF len(2) this packet_arrives(4)] obtain n' where n': "n \<le> n'" "n' \<le> length frags" "list_all (ack_inv window n') out"
    "case r' of Sar_loop t \<Rightarrow> rcv_inv frags n' t | Sar_return b \<Rightarrow> b = concat frags | Sar_raise e \<Rightarrow> True" by blast
  show ?thesis using i n' ack_inv_mono[OF n'(1)] unfolding packet_arrives(1) link_inv_def
    by (intro exI[of _ n']) (auto split: sar_result.splits)
next
  case (reack r)
  have "ack_inv window n (sar_ack window (rcv_last r))"
    unfolding ack_inv_def using i reack(2) by (intro exI[of _ n]) (simp add: link_inv_def rcv_inv_def)
  then show ?thesis using i unfolding reack(1) link_inv_def by (intro exI[of _ n]) auto
qed (use i in \<open>auto simp: link_inv_def split: sar_result.splits intro!: exI[of _ n]\<close>)

lemma link_run_inv:
  assumes "0 < length frags" "length frags \<le> 256" and "sar_run window frags l"
  shows "\<exists>n. link_inv window frags n l"
  using assms(3)
proof (induction rule: sar_run.induct)
  case sar_run_open
  show ?case using assms(1) by (intro exI[of _ 0])
    (auto simp: link_inv_def sar_open_def snd_inv_def snd_start_def rcv_inv_def rcv_start_def ack_inv_def sar_ack_def)
qed (use link_step_inv[OF assms(1,2)] in blast)

subsection \<open>More than 256 fragments\<close>

definition endless :: "sar_link \<Rightarrow> bool" where
  "endless l \<longleftrightarrow> list_all (\<lambda>p. \<exists>f r. p = f # r \<and> f AND FLAG_FIN = 0 \<and> f AND FLAG_LAST = 0) (pkts l) \<and>
     (case sender l of Sar_loop s \<Rightarrow> \<not> snd_sent_last s | Sar_return u \<Rightarrow> False | Sar_raise e \<Rightarrow> True) \<and>
     (case receiver l of Sar_loop r \<Rightarrow> \<not> rcv_ended r | Sar_return b \<Rightarrow> False | Sar_raise e \<Rightarrow> True)"

lemma send_window_endless:
  "send_window frags target seq fin = Inr (ps, s) \<Longrightarrow> \<not> fin \<Longrightarrow> 256 < length frags \<Longrightarrow>
   \<not> snd_sent_last s \<and> list_all (\<lambda>p. \<exists>f r. p = f # r \<and> f AND FLAG_FIN = 0 \<and> f AND FLAG_LAST = 0) ps"
proof (induction frags target seq fin arbitrary: ps s rule: send_window.induct)
  case (1 frags target seq fin)
  show ?case
  proof (cases "seq = target")
    case True
    then show ?thesis using "1.prems"(1,2) by (subst (asm) send_window.simps) auto
  next
    case False
    have n: "unat seq \<noteq> length frags - 1" using unat_lt_u8[of seq] "1.prems"(3) by simp
    let ?f = "if unat seq = 0 then FLAG_FIRST else 0"
    from "1.prems"(1,2) False n obtain ps' where ps': "send_window frags target (seq + 1) (unat seq = length frags - 1) = Inr (ps', s)"
      "ps = ([?f, seq] @ frags ! unat seq) # ps'"
      by (subst (asm) send_window.simps) (auto simp: Let_def xbind_Inr py_nth_def split: if_splits)
    have "\<not> snd_sent_last s \<and> list_all (\<lambda>p. \<exists>f r. p = f # r \<and> f AND FLAG_FIN = 0 \<and> f AND FLAG_LAST = 0) ps'"
      using "1.IH"[OF _ refl refl refl ps'(1)] False n "1.prems"(2,3) by simp
    then show ?thesis using ps'(2) by (simp add: sar_consts)
  qed
qed

lemma endless_step: "sar_step window frags l l' \<Longrightarrow> 256 < length frags \<Longrightarrow> endless l \<Longrightarrow> endless l'"
proof (induction rule: sar_step.induct)
  case (ack_arrives l s a out s')
  then have "\<not> snd_sent_last s" by (simp add: endless_def)
  with ack_arrives(3) have "(\<exists>e. s' = Sar_raise e \<and> out = []) \<or> (\<exists>t target. s' = Sar_loop t \<and> send_window frags target (snd_seq s) False = Inr (out, t))"
    by (auto simp: send_ack_def Let_def split: list.splits if_splits sum.splits)
  with ack_arrives send_window_endless[of frags _ "snd_seq s" False] show ?case by (fastforce simp: endless_def)
next
  case (packet_arrives l r p out r')
  then obtain f q where "p = f # q" "f AND FLAG_FIN = 0" "f AND FLAG_LAST = 0" "\<not> rcv_ended r"
    by (auto simp: endless_def list_all_iff)
  with packet_arrives(3) have "(\<exists>e. r' = Sar_raise e) \<or> (\<exists>t. r' = Sar_loop t \<and> \<not> rcv_ended t)"
    by (auto simp: receive_packet_def split: list.splits if_splits)
  with packet_arrives show ?case by (auto simp: endless_def)
qed (auto simp: endless_def)

lemma endless_run: "sar_run window frags l \<Longrightarrow> 256 < length frags \<Longrightarrow> endless l"
  by (induction rule: sar_run.induct) (auto simp: endless_step, simp add: endless_def sar_open_def snd_start_def rcv_start_def)

subsection \<open>Over a reliable channel\<close>

text \<open>After \<open>a\<close> acknowledgements the sender has sent \<open>sent_after w N a\<close> of \<open>N\<close> fragments.\<close>

definition sent_after :: "nat \<Rightarrow> nat \<Rightarrow> nat \<Rightarrow> nat" where
  "sent_after w N a = (if a = 0 then 0 else min N (a - 1 + w))"

definition rcv_at :: "bytes list \<Rightarrow> nat \<Rightarrow> sar_receiver" where
  "rcv_at frags p = \<lparr>rcv_chunks = take p frags, rcv_expected = of_nat p, rcv_last = of_nat p - 1, rcv_ended = (p = length frags)\<rparr>"

definition link_at :: "u8 \<Rightarrow> bytes list \<Rightarrow> nat \<Rightarrow> nat \<Rightarrow> sar_link" where
  "link_at window frags a p = (let N = length frags; m = sent_after (unat window) N a in
     \<lparr>sender = (if a = Suc N then Sar_return () else Sar_loop \<lparr>snd_seq = of_nat m, snd_sent_last = (m = N)\<rparr>),
      receiver = (if p = Suc N then Sar_return (concat frags) else Sar_loop (rcv_at frags p)),
      pkts = map (frag_packet frags) [0..<m] @ (if a = Suc N then [[FLAG_FIN, CODE_ACK]] else []),
      acks = map (\<lambda>m. sar_ack window (of_nat m - 1)) [0..<Suc (min p N)]\<rparr>)"

definition fifo_inv :: "u8 \<Rightarrow> bytes list \<Rightarrow> sar_link \<times> nat \<times> nat \<Rightarrow> bool" where
  "fifo_inv window frags = (\<lambda>(l, a, p). l = link_at window frags a p \<and> a \<le> Suc (min p (length frags)) \<and>
     p \<le> (if a = Suc (length frags) then a else sent_after (unat window) (length frags) a))"

lemma send_ack_at:
  assumes N: "0 < length frags" "length frags \<le> 256" and w: "0 < window" and a: "a \<le> length frags"
  defines "m \<equiv> sent_after (unat window) (length frags)"
  shows "send_ack frags \<lparr>snd_seq = of_nat (m a), snd_sent_last = (m a = length frags)\<rparr> (sar_ack window (of_nat a - 1)) =
    (map (frag_packet frags) [m a..<m (Suc a)] @ (if a = length frags then [[FLAG_FIN, CODE_ACK]] else []),
     if a = length frags then Sar_return () else Sar_loop \<lparr>snd_seq = of_nat (m (Suc a)), snd_sent_last = (m (Suc a) = length frags)\<rparr>)"
proof (cases "m a = length frags")
  case True
  then have a1: "0 < a" and s: "m (Suc a) = length frags" using N(1) by (auto simp: m_def sent_after_def split: if_splits)
  have "(of_nat a :: u8) = of_nat (length frags) \<longleftrightarrow> a = length frags"
  proof (cases "length frags = 256")
    case True
    then show ?thesis using u8_inj[of a 0] a a1 by (cases "a = 256") auto
  next
    case False
    then show ?thesis using u8_inj[of a "length frags"] a N(2) by simp
  qed
  with True s show ?thesis by (simp add: send_ack_def sar_ack_def)
next
  case False
  have w1: "0 < unat window" using w by (simp add: word_gt_0 unat_gt_0)
  have ma: "m a < length frags" using False by (auto simp: m_def sent_after_def split: if_splits)
  then have aN: "a < length frags" using a w1 by (cases "a = length frags") (auto simp: m_def sent_after_def split: if_splits)
  let ?k = "a + unat window - m a"
  have k: "m a + ?k = a + unat window" "?k < 256" using ma unat_lt_u8[of window] by (auto simp: m_def sent_after_def split: if_splits)
  have t: "of_nat a - 1 + window + 1 = (of_nat (m a + ?k) :: u8)" unfolding k(1) by simp
  have "send_window frags (of_nat a - 1 + window + 1) (of_nat (m a)) False =
      Inr (map (frag_packet frags) [m a..<min (a + unat window) (length frags)],
        \<lparr>snd_seq = of_nat (min (a + unat window) (length frags)), snd_sent_last = (length frags \<le> a + unat window)\<rparr>)"
    unfolding t using send_window_packets[OF ma N(2) k(2)] unfolding k(1) .
  moreover have "m (Suc a) = min (a + unat window) (length frags)" by (simp add: m_def sent_after_def min.commute)
  ultimately show ?thesis using False aN by (auto simp: send_ack_def sar_ack_def Let_def min_def)
qed

lemma sent_mono: "sent_after w N a \<le> sent_after w N (Suc a)"
  by (auto simp: sent_after_def)

lemma fifo_step_inv:
  assumes N: "0 < length frags" "length frags \<le> 256" and w: "0 < window" and st: "fifo_step window frags x y" and i: "fifo_inv window frags x"
  shows "fifo_inv window frags y"
  using st
proof cases
  case (fifo_ack l s a out s' p)
  have l: "l = link_at window frags a p" and ap: "a \<le> Suc (min p (length frags))"
    "p \<le> (if a = Suc (length frags) then a else sent_after (unat window) (length frags) a)"
    using i fifo_ack(1) by (simp_all add: fifo_inv_def)
  have a: "a \<le> length frags" "a < Suc (min p (length frags))"
    using fifo_ack(3,4) l ap(1) by (auto simp: link_at_def Let_def split: if_splits)
  let ?m = "sent_after (unat window) (length frags)"
  have s: "s = \<lparr>snd_seq = of_nat (?m a), snd_sent_last = (?m a = length frags)\<rparr>" "acks l ! a = sar_ack window (of_nat a - 1)"
    using fifo_ack(3) l a by (auto simp: link_at_def Let_def simp del: upt_Suc)
  note k = send_ack_at[OF N w a(1)] fifo_ack(5)[unfolded s]
  have m1: "?m (Suc (length frags)) = length frags" by (simp add: sent_after_def)
  have "[0..<?m a] @ [?m a..<?m (Suc a)] = [0..<?m (Suc a)]" using upt_add_eq_append[of 0 "?m a" "?m (Suc a) - ?m a"] sent_mono[of "unat window" "length frags" a] by simp
  then have "map (frag_packet frags) [0..<?m a] @ map (frag_packet frags) [?m a..<?m (Suc a)] = map (frag_packet frags) [0..<?m (Suc a)]"
    by (metis map_append)
  then have "l\<lparr>sender := s', pkts := pkts l @ out\<rparr> = link_at window frags (Suc a) p"
    using k a(1) l by (auto simp: link_at_def Let_def)
  moreover have "p \<le> (if Suc a = Suc (length frags) then Suc a else ?m (Suc a))"
    using ap(2) sent_mono[of "unat window" "length frags" a] a(1) by (auto simp: sent_after_def split: if_splits)
  ultimately show ?thesis using a unfolding fifo_ack(2) by (simp add: fifo_inv_def)
next
  case (fifo_packet l r p out r' a)
  have l: "l = link_at window frags a p" and ap: "a \<le> Suc (min p (length frags))"
    "p \<le> (if a = Suc (length frags) then a else sent_after (unat window) (length frags) a)"
    using i fifo_packet(1) by (simp_all add: fifo_inv_def)
  let ?m = "sent_after (unat window) (length frags) a"
  have mN: "?m \<le> length frags" by (simp add: sent_after_def)
  have r: "p \<noteq> Suc (length frags)" "r = rcv_at frags p" using fifo_packet(3) l by (auto simp: link_at_def Let_def split: if_splits)
  show ?thesis
  proof (cases "p < length frags")
    case True
    have pm: "p < ?m" using fifo_packet(4) True l by (auto simp: link_at_def Let_def sent_after_def split: if_splits)
    then have pk: "pkts l ! p = frag_packet frags p" by (simp add: l link_at_def Let_def nth_append)
    have "p = length frags - 1 \<longleftrightarrow> Suc p = length frags" using True by auto
    then have "receive_packet window r (pkts l ! p) = ([sar_ack window (of_nat p)], Sar_loop (rcv_at frags (Suc p)))"
      using True r(2) unfolding pk
      by (simp add: receive_packet_def frag_packet_def frag_flags rcv_at_def take_Suc_conv_app_nth add.commute del: One_nat_def)
    then have "l\<lparr>receiver := r', acks := acks l @ out\<rparr> = link_at window frags a (Suc p)"
      using fifo_packet(5) True l by (auto simp: link_at_def Let_def)
    then show ?thesis using ap pm True unfolding fifo_packet(2) by (auto simp: fifo_inv_def)
  next
    case False
    with ap(2) r(1) mN have p: "p = length frags" by (auto split: if_splits)
    with fifo_packet(4) l mN have a: "a = Suc (length frags)" by (auto simp: link_at_def Let_def split: if_splits)
    then have "?m = length frags" by (simp add: sent_after_def)
    then have "pkts l ! p = [FLAG_FIN, CODE_ACK]" using p a l by (simp add: link_at_def Let_def nth_append)
    then have "out = []" "r' = Sar_return (concat frags)" using fifo_packet(5) r(2) p
      by (simp_all add: receive_packet_def rcv_at_def FLAG_FIN_def)
    then have "l\<lparr>receiver := r', acks := acks l @ out\<rparr> = link_at window frags a (Suc p)"
      using l p by (simp add: link_at_def Let_def)
    then show ?thesis using p a unfolding fifo_packet(2) by (simp add: fifo_inv_def)
  qed
qed

lemma fifo_run_inv:
  assumes "fifo_run window frags x" and "0 < length frags" "length frags \<le> 256" and "0 < window"
  shows "fifo_inv window frags x"
  using assms(1)
proof (induction rule: fifo_run.induct)
  case fifo_run_open
  show ?case using assms(2) by (auto simp: fifo_inv_def sar_open_def link_at_def Let_def sent_after_def snd_start_def rcv_start_def rcv_at_def sar_ack_def)
qed (use fifo_step_inv[OF assms(2-4)] in blast)

lemma fifo_stuck:
  assumes i: "fifo_inv window frags (l, a, p)" and w: "0 < window" and stuck: "\<nexists>y. fifo_step window frags (l, a, p) y"
  shows "sender l = Sar_return ()" and "receiver l = Sar_return (concat frags)"
proof -
  let ?N = "length frags" and ?m = "sent_after (unat window) (length frags) a"
  have l: "l = link_at window frags a p" and ap: "a \<le> Suc (min p ?N)" "p \<le> (if a = Suc ?N then a else ?m)"
    using i by (simp_all add: fifo_inv_def)
  have w1: "0 < unat window" using w by (simp add: word_gt_0 unat_gt_0)
  have "a = Suc ?N"
  proof (rule ccontr)
    assume n: "a \<noteq> Suc ?N"
    then have s: "sender l = Sar_loop \<lparr>snd_seq = of_nat ?m, snd_sent_last = (?m = ?N)\<rparr>" by (simp add: l link_at_def Let_def)
    have "\<not> a < length (acks l)" using stuck fifo_ack[OF s] by (metis prod.collapse)
    then have a: "a = Suc (min p ?N)" using ap(1) by (simp add: l link_at_def Let_def)
    with n have pN: "p < ?N" by (auto simp: min_def split: if_splits)
    with a w1 have "p < ?m" by (simp add: sent_after_def)
    then have "p < length (pkts l)" by (simp add: l link_at_def Let_def)
    moreover have "receiver l = Sar_loop (rcv_at frags p)" using pN by (simp add: l link_at_def Let_def)
    ultimately show False using stuck fifo_packet[of l "rcv_at frags p" p] by (metis prod.collapse)
  qed
  moreover have "p = Suc ?N"
  proof (rule ccontr)
    assume n: "p \<noteq> Suc ?N"
    then have r: "receiver l = Sar_loop (rcv_at frags p)" by (simp add: l link_at_def Let_def)
    have "p < length (pkts l)" using ap \<open>a = Suc ?N\<close> n by (simp add: l link_at_def Let_def sent_after_def)
    then show False using stuck fifo_packet[OF r] by (metis prod.collapse)
  qed
  ultimately show "sender l = Sar_return ()" "receiver l = Sar_return (concat frags)" by (simp_all add: l link_at_def Let_def)
qed

lemma fifo_counts:
  assumes "fifo_inv window frags (l, a, p)"
  shows "a + p \<le> 2 * length frags + 2"
  using assms by (auto simp: fifo_inv_def sent_after_def split: if_splits)

lemma fifo_completes:
  assumes frags: "0 < length frags" "length frags \<le> 256" and w: "0 < window"
  shows "fifo_inv window frags (l, a, p) \<Longrightarrow>
    \<exists>l' a' p'. (fifo_step window frags)\<^sup>*\<^sup>* (l, a, p) (l', a', p') \<and> sender l' = Sar_return () \<and> receiver l' = Sar_return (concat frags)"
proof (induction "2 * length frags + 2 - (a + p)" arbitrary: l a p rule: less_induct)
  case less
  show ?case
  proof (cases "\<exists>y. fifo_step window frags (l, a, p) y")
    case False
    with fifo_stuck[OF less.prems w] show ?thesis by blast
  next
    case True
    then obtain l1 a1 p1 where y: "fifo_step window frags (l, a, p) (l1, a1, p1)" by (metis prod_cases3)
    then have "a1 + p1 = Suc (a + p)" by (auto elim: fifo_step.cases)
    moreover have i: "fifo_inv window frags (l1, a1, p1)" using fifo_step_inv[OF frags w y less.prems] .
    moreover note fifo_counts[OF i]
    ultimately have "2 * length frags + 2 - (a1 + p1) < 2 * length frags + 2 - (a + p)" by simp
    from less.hyps[OF this i] y show ?thesis by (meson converse_rtranclp_into_rtranclp)
  qed
qed

lemma chunks_cover: "0 < n \<Longrightarrow> length data \<le> n * length (chunks_of n data)"
proof (induction n data rule: chunks_of.induct)
  case (1 n data)
  show ?case
  proof (cases "data = []")
    case False
    with 1 have "length (drop n data) \<le> n * length (chunks_of n (drop n data))" by simp
    with False "1.prems" show ?thesis by (subst chunks_of.simps) simp
  qed simp
qed

subsection \<open>Properties\<close>

text \<open>
  C18: what the receiver returns is what was sent. Over a channel that loses, repeats and reorders
  packets and acknowledgements at will, a transfer of at most 256 fragments never returns anything but
  the data, and with fewer than 256 the sender reports success only once the receiver has all of it.
\<close>

theorem sar_returns_only_data:
  assumes "0 < n" and "length (fragments n data) \<le> 256" and "sar_run window (fragments n data) l"
  shows "(\<forall>b. receiver l = Sar_return b \<longrightarrow> b = data) \<and>
    (length (fragments n data) < 256 \<and> sender l = Sar_return () \<longrightarrow>
      (case receiver l of Sar_loop r \<Rightarrow> rcv_ended r \<and> concat (rcv_chunks r) = data | Sar_return b \<Rightarrow> b = data | Sar_raise e \<Rightarrow> True))"
proof -
  have "0 < length (fragments n data)" by simp
  then obtain m where m: "link_inv window (fragments n data) m l" using link_run_inv assms(2,3) by blast
  then show ?thesis using concat_fragments[OF assms(1), of data]
    by (auto simp: link_inv_def rcv_inv_def split: sar_result.splits)
qed

text \<open>A transfer of two fragments over a channel without losses, packet by packet.\<close>

lemma demo_fragments: "fragments 2 [1, 2, 3] = [[1, 2], [3]]"
  by (simp add: fragments_def chunks_of.simps)

lemma demo_transfer:
  "sar_run 2 [[1, 2], [3]] \<lparr>sender = Sar_return (), receiver = Sar_return [1, 2, 3],
     pkts = [[1, 0, 1, 2], [2, 1, 3], [4, 0]], acks = [[0, 0xFF, 2], [0, 0, 2], [0, 1, 2]]\<rparr>"
proof -
  let ?l = "\<lambda>s r p a. \<lparr>sender = s, receiver = r, pkts = p, acks = a\<rparr>"
  let ?r = "\<lambda>c e k f. Sar_loop \<lparr>rcv_chunks = c, rcv_expected = e, rcv_last = k, rcv_ended = f\<rparr>"
  let ?s = "Sar_loop \<lparr>snd_seq = 2, snd_sent_last = True\<rparr>"
  let ?P = "[[1, 0, 1, 2], [2, 1, 3]] :: bytes list" and ?A = "[[0, 0xFF, 2], [0, 0, 2], [0, 1, 2]] :: bytes list"
  note c = sar_consts sar_ack_def
  have 0: "sar_run 2 [[1, 2], [3]] (sar_open 2)" by (rule sar_run_open)
  have 1: "sar_run 2 [[1, 2], [3]] (?l ?s (Sar_loop rcv_start) ?P (take 1 ?A))"
    using sar_run_step[OF 0 ack_arrives[of _ snd_start "[0, 0xFF, 2]" _ ?P ?s]]
    by (simp add: sar_open_def c send_ack_def snd_start_def send_window.simps py_nth_def)
  have 2: "sar_run 2 [[1, 2], [3]] (?l ?s (?r [[1, 2]] 1 0 False) ?P (take 2 ?A))"
    using sar_run_step[OF 1 packet_arrives[of _ rcv_start "[1, 0, 1, 2]" _ "[[0, 0, 2]]"]] by (simp add: receive_packet_def rcv_start_def c)
  have 3: "sar_run 2 [[1, 2], [3]] (?l ?s (?r [[1, 2], [3]] 2 1 True) ?P ?A)"
    using sar_run_step[OF 2 packet_arrives[of _ _ "[2, 1, 3]" _ "[[0, 1, 2]]"]] by (simp add: receive_packet_def c)
  have 4: "sar_run 2 [[1, 2], [3]] (?l (Sar_return ()) (?r [[1, 2], [3]] 2 1 True) (?P @ [[4, 0]]) ?A)"
    using sar_run_step[OF 3 ack_arrives[of _ _ "[0, 1, 2]" _ "[[4, 0]]" "Sar_return ()"]] by (simp add: send_ack_def c)
  show ?thesis
    using sar_run_step[OF 4 packet_arrives[of _ _ "[4, 0]" _ "[]" "Sar_return [1, 2, 3]"]] by (simp add: receive_packet_def c)
qed

theorem sar_returns_only_data_witness:
  "\<exists>l. sar_run 2 (fragments 2 [1, 2, 3]) l \<and> sender l = Sar_return () \<and> receiver l = Sar_return [1, 2, 3] \<and>
    (\<forall>b. receiver l = Sar_return b \<longrightarrow> b = [1, 2, 3])"
  using sar_returns_only_data[of 2 "[1, 2, 3]", unfolded demo_fragments, OF _ _ demo_transfer] demo_transfer unfolding demo_fragments by fastforce

text \<open>
  C29: over a channel that delivers, a transfer completes. When everything written arrives once and in
  order, a transfer of at most 256 fragments makes at most two steps for each fragment and two more,
  from every state it reaches it can go on to the end, and it cannot stop before: a state without a next
  step is one where the sender is done and the receiver has returned the data.
\<close>

theorem sar_transfer_completes:
  assumes "0 < n" and "length (fragments n data) \<le> 256" and "0 < window" and "fifo_run window (fragments n data) (l, a, p)"
  shows "a + p \<le> 2 * length (fragments n data) + 2 \<and>
    (\<exists>l' a' p'. (fifo_step window (fragments n data))\<^sup>*\<^sup>* (l, a, p) (l', a', p') \<and> sender l' = Sar_return () \<and> receiver l' = Sar_return data) \<and>
    ((\<nexists>y. fifo_step window (fragments n data) (l, a, p) y) \<longrightarrow> sender l = Sar_return () \<and> receiver l = Sar_return data)"
proof -
  have f: "0 < length (fragments n data)" by simp
  have i: "fifo_inv window (fragments n data) (l, a, p)" using fifo_run_inv[OF assms(4) f assms(2,3)] .
  show ?thesis using fifo_counts[OF i] fifo_completes[OF f assms(2,3) i] fifo_stuck[OF i assms(3)] concat_fragments[OF assms(1), of data] by auto
qed

theorem sar_transfer_completes_witness:
  "\<exists>l a p. (fifo_step 2 (fragments 2 [1, 2, 3]))\<^sup>*\<^sup>* (sar_open 2, 0, 0) (l, a, p) \<and> sender l = Sar_return () \<and> receiver l = Sar_return [1, 2, 3]"
  using sar_transfer_completes[of 2 "[1, 2, 3]" 2 "sar_open 2" 0 0] fifo_run_open[of 2 "fragments 2 [1, 2, 3]"] by (simp add: demo_fragments)

text \<open>
  C25: a transfer of more than 256 fragments never completes. The sequence number is a byte that also
  indexes the fragments, so beyond 256 of them the sender never reaches its last: whatever the channel
  does, neither side ever returns.
\<close>

theorem sar_fragment_limit:
  assumes "0 < n" and "256 * n < length data" and "sar_run window (fragments n data) l"
  shows "sender l \<noteq> Sar_return () \<and> receiver l \<noteq> Sar_return b"
proof -
  have "n * 256 < n * length (chunks_of n data)" using chunks_cover[OF assms(1), of data] assms(2) by linarith
  then have "256 < length (fragments n data)" by (auto simp: fragments_def)
  from endless_run[OF assms(3) this] show ?thesis by (auto simp: endless_def)
qed

theorem sar_fragment_limit_witness:
  "sar_run 16 (fragments 18 (replicate 5000 7)) (sar_open 16) \<and> sender (sar_open 16) \<noteq> Sar_return () \<and> receiver (sar_open 16) \<noteq> Sar_return []"
  using sar_fragment_limit[of 18 "replicate 5000 7" 16 "sar_open 16" "[]"] sar_run_open[of 16] by simp

end
