(* ===== verification/Client_Session.thy ===== *)
theory Client_Session
  imports Client_Codec Client_Saead Client_Sar
begin

text \<open>
  The request engine of the client (\<^verbatim>\<open>cli/src/pouchprov/session.py\<close>), the proof-of-possession handshake
  (\<^verbatim>\<open>auth.py\<close>) and the provisioning flows (\<^verbatim>\<open>flows.py\<close>), over a link that carries whole pouches.
\<close>

subsection \<open>Actions\<close>

text \<open>
  What lies below a session: a segmented transfer over either channel of the transport, each
  between a subscription and its end (\<^verbatim>\<open>SarSender.send\<close> with the largest packet, \<^verbatim>\<open>SarReceiver.receive\<close>),
  random bytes, the clock of the event loop and sleeping, in milliseconds.
\<close>

record 'w link =
  link_send :: "nat \<Rightarrow> bytes \<Rightarrow> 'w \<Rightarrow> unit exc \<times> 'w"
  link_receive :: "'w \<Rightarrow> bytes exc \<times> 'w"
  link_token :: "nat \<Rightarrow> 'w \<Rightarrow> bytes \<times> 'w"
  link_time :: "'w \<Rightarrow> int \<times> 'w"
  link_sleep :: "nat \<Rightarrow> 'w \<Rightarrow> 'w"

text \<open>What the client is linked with: the packages, and the keyed hash of \<^verbatim>\<open>hmac\<close> with SHA-256.\<close>

record libs =
  lib_cbor2 :: cbor2
  lib_crypto :: crypto
  lib_hmac :: "bytes \<Rightarrow> bytes \<Rightarrow> bytes"

record 'w ProvSession =
  ps_maxlen :: nat
  ps_saead :: "SaeadSession option"
  ps_device_id :: py
  ps_block_size :: py
  ps_world :: 'w

definition ProvSession_init :: "bytes \<Rightarrow> nat \<Rightarrow> SaeadSession option \<Rightarrow> 'w \<Rightarrow> 'w ProvSession" where
  "ProvSession_init dev n saead w =
     \<lparr>ps_maxlen = n, ps_saead = saead, ps_device_id = Py_str dev, ps_block_size = Py_int 512, ps_world = w\<rparr>"

definition enable_encryption :: "SaeadSession \<Rightarrow> 'w ProvSession \<Rightarrow> 'w ProvSession" where
  "enable_encryption saead s = s\<lparr>ps_saead := Some saead\<rparr>"

text \<open>\<open>None\<close> is a call that does not return.\<close>

type_synonym ('w, 'a) act = "'w ProvSession \<Rightarrow> ('a exc \<times> 'w ProvSession) option"

definition aret :: "'a \<Rightarrow> ('w, 'a) act" where
  "aret x s = Some (Inr x, s)"

definition alift :: "'a exc \<Rightarrow> ('w, 'a) act" where
  "alift m s = Some (m, s)"

definition aupd :: "('w ProvSession \<Rightarrow> 'w ProvSession) \<Rightarrow> ('w, unit) act" where
  "aupd f s = Some (Inr (), f s)"

definition aget :: "('w ProvSession \<Rightarrow> 'a) \<Rightarrow> ('w, 'a) act" where
  "aget f s = Some (Inr (f s), s)"

definition aworld :: "('w \<Rightarrow> 'a \<times> 'w) \<Rightarrow> ('w, 'a) act" where
  "aworld f s = (case f (ps_world s) of (x, w) \<Rightarrow> Some (Inr x, s\<lparr>ps_world := w\<rparr>))"

definition aexc :: "('w \<Rightarrow> 'a exc \<times> 'w) \<Rightarrow> ('w, 'a) act" where
  "aexc f s = (case f (ps_world s) of (x, w) \<Rightarrow> Some (x, s\<lparr>ps_world := w\<rparr>))"

definition abind :: "('w, 'a) act \<Rightarrow> ('a \<Rightarrow> ('w, 'b) act) \<Rightarrow> ('w, 'b) act" where
  "abind m f s = (case m s of None \<Rightarrow> None | Some (Inl e, s) \<Rightarrow> Some (Inl e, s) | Some (Inr x, s) \<Rightarrow> f x s)"

subsection \<open>Requests\<close>

definition py_or :: "cbor2 \<Rightarrow> py \<Rightarrow> py \<Rightarrow> py" where
  "py_or C x y = (if py_true C x then x else y)"

text \<open>
  Sealing and opening replace the session keys before they use them; of a pouch that fails nothing
  is kept.
\<close>

definition send_pouch :: "libs \<Rightarrow> 'w link \<Rightarrow> Entry list \<Rightarrow> ('w, unit) act" where
  "send_pouch L T entries =
     abind (aget ps_saead) (\<lambda>saead.
     abind (case saead of
              Some k \<Rightarrow>
                abind (aworld (link_token T 16)) (\<lambda>sid.
                abind (aget ps_block_size) (\<lambda>n.
                abind (alift (build_downlink_pouch (lib_crypto L) (lib_cbor2 L) k sid entries (Py_int 0) n)) (\<lambda>(data, k).
                abind (aupd (ps_saead_update (\<lambda>_. Some k))) (\<lambda>_. aret data))))
            | None \<Rightarrow>
                abind (aget ps_device_id) (\<lambda>dev.
                abind (aget ps_block_size) (\<lambda>n.
                alift (build_entry_pouch (lib_cbor2 L) (py_or (lib_cbor2 L) dev (Py_str (str_bytes ''?''))) entries n)))) (\<lambda>data.
     abind (aget ps_maxlen) (\<lambda>n.
     abind (alift (SarSender_init n)) (\<lambda>_.
     aexc (link_send T n data)))))"

definition receive_pouch :: "libs \<Rightarrow> 'w link \<Rightarrow> ('w, PouchHeader \<times> Entry list) act" where
  "receive_pouch L T =
     abind (aexc (link_receive T)) (\<lambda>data.
     abind (alift (PouchHeader_decode (lib_cbor2 L) data)) (\<lambda>(header, consumed).
     abind (aget ps_saead) (\<lambda>saead.
     case saead of
       Some k \<Rightarrow>
         if encryption header = ENCRYPTION_SAEAD
         then abind (alift (PouchHeader_encode (lib_cbor2 L) header)) (\<lambda>h.
              if length h < length data
              then abind (alift (parse_uplink_pouch (lib_crypto L) (lib_cbor2 L) k data)) (\<lambda>(es, k).
                   abind (aupd (ps_saead_update (\<lambda>_. Some k))) (\<lambda>_. aret (header, es)))
              else aret (header, []))
         else alift (parse_pouch (lib_cbor2 L) data)
     | None \<Rightarrow> alift (parse_pouch (lib_cbor2 L) data))))"

text \<open>The loop of \<^verbatim>\<open>request_entries\<close>: the attempts left and the time to wait before the next.\<close>

fun poll_response :: "libs \<Rightarrow> 'w link \<Rightarrow> nat \<Rightarrow> nat \<Rightarrow> ('w, Entry list) act" where
  "poll_response L T 0 backoff = alift (Inl SessionError)"
| "poll_response L T (Suc n) backoff =
     abind (receive_pouch L T) (\<lambda>(header, rsp).
     abind (aupd (\<lambda>s. s\<lparr>ps_device_id := py_or (lib_cbor2 L) (header_device_id header) (ps_device_id s)\<rparr>)) (\<lambda>_.
     if rsp \<noteq> [] then aret rsp
     else abind (aworld (\<lambda>w. ((), link_sleep T backoff w))) (\<lambda>_.
          poll_response L T n (min (backoff * 2) 2000))))"

definition request_entries :: "libs \<Rightarrow> 'w link \<Rightarrow> Entry list \<Rightarrow> ('w, Entry list) act" where
  "request_entries L T entries = abind (send_pouch L T entries) (\<lambda>_. poll_response L T 5 200)"

definition request :: "libs \<Rightarrow> 'w link \<Rightarrow> string \<Rightarrow> bytes \<Rightarrow> ('w, bytes) act" where
  "request L T path msg =
     abind (request_entries L T [\<lparr>entry_path = str_bytes path, entry_content_type = CONTENT_TYPE_CBOR, entry_data = msg\<rparr>]) (\<lambda>entries.
     case List.find (\<lambda>e. entry_path e = str_bytes path) entries of
       Some e \<Rightarrow> aret (entry_data e)
     | None \<Rightarrow> alift (Inl SessionError))"

subsection \<open>The handshake\<close>

definition PATH_VER :: string where "PATH_VER = ''.prov/ver''"
definition PATH_AUTH :: string where "PATH_AUTH = ''.prov/auth''"
definition PATH_CONFIG :: string where "PATH_CONFIG = ''.prov/config''"
definition PATH_SCAN :: string where "PATH_SCAN = ''.prov/scan''"
definition PATH_CRED :: string where "PATH_CRED = ''.prov/cred''"
definition PATH_CTRL :: string where "PATH_CTRL = ''.prov/ctrl''"
definition cli_PROTO_VERSION :: int where "cli_PROTO_VERSION = 1"

definition auth_proof :: "libs \<Rightarrow> bytes \<Rightarrow> string \<Rightarrow> bytes \<Rightarrow> bytes \<Rightarrow> bytes" where
  "auth_proof L pop tag fst_nonce snd_nonce = lib_hmac L pop (str_bytes tag @ fst_nonce @ snd_nonce)"

definition device_proof :: "libs \<Rightarrow> bytes \<Rightarrow> bytes \<Rightarrow> bytes \<Rightarrow> bytes" where
  "device_proof L pop cli_nonce dev_nonce = auth_proof L pop ''dev'' cli_nonce dev_nonce"

definition client_proof :: "libs \<Rightarrow> bytes \<Rightarrow> bytes \<Rightarrow> bytes \<Rightarrow> bytes" where
  "client_proof L pop dev_nonce cli_nonce = auth_proof L pop ''cli'' dev_nonce cli_nonce"

text \<open>A request whose message is to be built first, and whose response is then decoded.\<close>

definition exchange_msg :: "libs \<Rightarrow> 'w link \<Rightarrow> string \<Rightarrow> bytes exc \<Rightarrow> (bytes \<Rightarrow> 'a exc) \<Rightarrow> ('w, 'a) act" where
  "exchange_msg L T path msg decode =
     abind (alift msg) (\<lambda>m. abind (request L T path m) (\<lambda>rsp. alift (decode rsp)))"

definition authorize :: "libs \<Rightarrow> 'w link \<Rightarrow> bytes \<Rightarrow> ('w, unit) act" where
  "authorize L T pop =
     abind (aworld (link_token T 16)) (\<lambda>cli_nonce.
     abind (exchange_msg L T PATH_AUTH (cli_encode_auth_challenge (lib_cbor2 L) cli_nonce)
              (cli_decode_auth_challenge_rsp (lib_cbor2 L))) (\<lambda>(dev_nonce, dev_proof).
     if dev_proof \<noteq> device_proof L pop cli_nonce dev_nonce then alift (Inl AuthError)
     else exchange_msg L T PATH_AUTH (cli_encode_auth_proof (lib_cbor2 L) (client_proof L pop dev_nonce cli_nonce))
            (cli_decode_auth_proof_rsp (lib_cbor2 L))))"

subsection \<open>Flows\<close>

definition get_version :: "libs \<Rightarrow> 'w link \<Rightarrow> ('w, VersionInfo) act" where
  "get_version L T =
     abind (exchange_msg L T PATH_VER (Inr (cli_encode_ver_req (lib_cbor2 L))) (cli_decode_ver_rsp (lib_cbor2 L))) (\<lambda>info.
     if py_num (lib_cbor2 L) (vi_proto info) \<noteq> Some cli_PROTO_VERSION then alift (Inl RuntimeError)
     else abind (aupd (\<lambda>s. s\<lparr>ps_block_size := vi_block_size info\<rparr>)) (\<lambda>_. aret info))"

definition authorize_if_needed :: "libs \<Rightarrow> 'w link \<Rightarrow> VersionInfo \<Rightarrow> bytes option \<Rightarrow> ('w, unit) act" where
  "authorize_if_needed L T info pop =
     (if vi_pop_required info
      then case pop of
             None \<Rightarrow> alift (Inl RuntimeError)
           | Some p \<Rightarrow> if p = [] then alift (Inl RuntimeError) else authorize L T p
      else aret ())"

text \<open>The first loop of \<^verbatim>\<open>scan\<close>, with the total it ends with.\<close>

partial_function (option) scan_wait :: "libs \<Rightarrow> 'w link \<Rightarrow> int \<Rightarrow> 'w ProvSession \<Rightarrow> (int exc \<times> 'w ProvSession) option" where
  "scan_wait L T deadline s =
     (case exchange_msg L T PATH_SCAN (Inr (cli_encode_scan_get_status (lib_cbor2 L))) (cli_decode_scan_status_rsp (lib_cbor2 L)) s of
        None \<Rightarrow> None
      | Some (r, s) \<Rightarrow>
          (case r of
             Inl e \<Rightarrow> Some (Inl e, s)
           | Inr (finished, n) \<Rightarrow>
               if finished then Some (Inr n, s)
               else let (now, w) = link_time T (ps_world s) in
                 if deadline < now then Some (Inl TimeoutError, s\<lparr>ps_world := w\<rparr>)
                 else scan_wait L T deadline (s\<lparr>ps_world := link_sleep T 500 w\<rparr>)))"

text \<open>The second: a page that is not empty brings the end nearer.\<close>

function scan_collect :: "libs \<Rightarrow> 'w link \<Rightarrow> int \<Rightarrow> ScanEntry list \<Rightarrow> 'w ProvSession \<Rightarrow> (ScanEntry list exc \<times> 'w ProvSession) option" where
  "scan_collect L T n results s =
     (if int (length results) < n
      then case exchange_msg L T PATH_SCAN (Inr (cli_encode_scan_get_results (lib_cbor2 L) (int (length results)) 6))
                  (cli_decode_scan_results_rsp (lib_cbor2 L)) s of
             None \<Rightarrow> None
           | Some (r, s) \<Rightarrow>
               (case r of
                  Inl e \<Rightarrow> Some (Inl e, s)
                | Inr page \<Rightarrow> if page = [] then Some (Inr results, s) else scan_collect L T n (results @ page) s)
      else Some (Inr results, s))"
  by pat_completeness auto
termination
  by (relation "measure (\<lambda>(L, T, n, results, s). nat (n - int (length results)))") auto

declare scan_collect.simps [simp del]

definition scan :: "libs \<Rightarrow> 'w link \<Rightarrow> int \<Rightarrow> ('w, ScanEntry list) act" where
  "scan L T timeout =
     abind (exchange_msg L T PATH_SCAN (Inr (cli_encode_scan_start (lib_cbor2 L) None None)) (cli_decode_scan_start_rsp (lib_cbor2 L))) (\<lambda>_.
     abind (aworld (link_time T)) (\<lambda>now.
     abind (scan_wait L T (now + timeout)) (\<lambda>n.
     scan_collect L T n [])))"

text \<open>The loop of \<^verbatim>\<open>configure_wifi\<close>.\<close>

partial_function (option) config_wait :: "libs \<Rightarrow> 'w link \<Rightarrow> int \<Rightarrow> 'w ProvSession \<Rightarrow> (WifiStatus exc \<times> 'w ProvSession) option" where
  "config_wait L T deadline s =
     (case exchange_msg L T PATH_CONFIG (Inr (cli_encode_config_get_status (lib_cbor2 L))) (cli_decode_config_status_rsp (lib_cbor2 L)) s of
        None \<Rightarrow> None
      | Some (r, s) \<Rightarrow>
          (case r of
             Inl e \<Rightarrow> Some (Inl e, s)
           | Inr status \<Rightarrow>
               if ws_state status = StaState_CONNECTED \<or> ws_state status = StaState_FAILED then Some (Inr status, s)
               else let (now, w) = link_time T (ps_world s) in
                 if deadline < now then Some (Inl TimeoutError, s\<lparr>ps_world := w\<rparr>)
                 else config_wait L T deadline (s\<lparr>ps_world := link_sleep T 1000 w\<rparr>)))"

definition configure_wifi :: "libs \<Rightarrow> 'w link \<Rightarrow> bytes \<Rightarrow> bytes option \<Rightarrow> int \<Rightarrow> ('w, WifiStatus) act" where
  "configure_wifi L T ssid password timeout =
     abind (exchange_msg L T PATH_CONFIG (Inr (cli_encode_config_set (lib_cbor2 L) ssid password None None)) (cli_decode_config_set_rsp (lib_cbor2 L))) (\<lambda>_.
     abind (exchange_msg L T PATH_CONFIG (Inr (cli_encode_config_apply (lib_cbor2 L))) (cli_decode_config_apply_rsp (lib_cbor2 L))) (\<lambda>_.
     abind (aworld (link_time T)) (\<lambda>now.
     config_wait L T (now + timeout))))"

text \<open>The loop of \<^verbatim>\<open>push_credential\<close>, from an offset on.\<close>

partial_function (option) push_chunks :: "libs \<Rightarrow> 'w link \<Rightarrow> CredKind \<Rightarrow> bytes \<Rightarrow> nat \<Rightarrow> nat \<Rightarrow> 'w ProvSession \<Rightarrow> (unit exc \<times> 'w ProvSession) option" where
  "push_chunks L T kind der chunk off s =
     (if off < length der
      then let piece = take chunk (drop off der) in
        case exchange_msg L T PATH_CRED (Inr (cli_encode_cred_write (lib_cbor2 L) kind (int off) (int (length der)) piece))
               (cli_decode_cred_write_rsp (lib_cbor2 L)) s of
          None \<Rightarrow> None
        | Some (r, s) \<Rightarrow>
            (case r of
               Inl e \<Rightarrow> Some (Inl e, s)
             | Inr received \<Rightarrow>
                 let off = off + length piece in
                 if received \<noteq> int off then Some (Inl RuntimeError, s) else push_chunks L T kind der chunk off s)
      else Some (Inr (), s))"

definition push_credential :: "libs \<Rightarrow> 'w link \<Rightarrow> CredKind \<Rightarrow> bytes \<Rightarrow> nat \<Rightarrow> ('w, unit) act" where
  "push_credential L T kind der chunk = push_chunks L T kind der chunk 0"

definition bootstrap_credentials :: "libs \<Rightarrow> 'w link \<Rightarrow> bytes \<Rightarrow> bytes \<Rightarrow> bytes option \<Rightarrow> ('w, unit) act" where
  "bootstrap_credentials L T cert_der key_der ca_der =
     abind (push_credential L T CredKind_DEVICE_CERT cert_der 256) (\<lambda>_.
     abind (push_credential L T CredKind_PRIVATE_KEY key_der 256) (\<lambda>_.
     abind (case ca_der of Some ca \<Rightarrow> push_credential L T CredKind_CA_CERT ca 256 | None \<Rightarrow> aret ()) (\<lambda>_.
     exchange_msg L T PATH_CRED (Inr (cli_encode_cred_finalize (lib_cbor2 L))) (cli_decode_cred_finalize_rsp (lib_cbor2 L)))))"

definition cred_status :: "libs \<Rightarrow> 'w link \<Rightarrow> ('w, (CredKind \<times> int) list) act" where
  "cred_status L T =
     exchange_msg L T PATH_CRED (Inr (cli_encode_cred_get_status (lib_cbor2 L))) (cli_decode_cred_status_rsp (lib_cbor2 L))"

definition ctrl_flow :: "libs \<Rightarrow> 'w link \<Rightarrow> CtrlOp \<Rightarrow> ('w, unit) act" where
  "ctrl_flow L T op =
     exchange_msg L T PATH_CTRL (Inr (cli_encode_ctrl (lib_cbor2 L) op)) (\<lambda>rsp. cli_decode_ctrl_rsp (lib_cbor2 L) rsp op)"

definition reset_flow :: "libs \<Rightarrow> 'w link \<Rightarrow> ('w, unit) act" where
  "reset_flow L T = ctrl_flow L T CtrlOp_RESET"

definition reprovision :: "libs \<Rightarrow> 'w link \<Rightarrow> ('w, unit) act" where
  "reprovision L T = ctrl_flow L T CtrlOp_REPROVISION"

definition end_session :: "libs \<Rightarrow> 'w link \<Rightarrow> ('w, unit) act" where
  "end_session L T = ctrl_flow L T CtrlOp_END"

subsection \<open>The provisioning command\<close>

text \<open>
  The body of \<^verbatim>\<open>provision\<close> in \<^verbatim>\<open>main.py\<close>, once the session is open: credentials in DER form, read from the
  given files or minted for the name of the device; the results it prints are left out.
\<close>

datatype creds_source = No_creds | Cred_files bytes bytes "bytes option" | Minted "py \<Rightarrow> bytes \<times> bytes \<times> bytes option"

definition provision_creds :: "libs \<Rightarrow> VersionInfo \<Rightarrow> creds_source \<Rightarrow> ('w, (bytes \<times> bytes \<times> bytes option) option) act" where
  "provision_creds L info src =
     (case src of
        No_creds \<Rightarrow> aret None
      | Cred_files cert key ca \<Rightarrow> aret (Some (cert, key, ca))
      | Minted mint \<Rightarrow>
          if Py_str (str_bytes ''cred'') \<notin> set (vi_caps info) then alift (Inl SystemExit)
          else abind (aget ps_device_id) (\<lambda>dev. aret (Some (mint (py_or (lib_cbor2 L) dev (Py_str (str_bytes ''pouch-device'')))))))"

definition provision_wifi :: "libs \<Rightarrow> 'w link \<Rightarrow> VersionInfo \<Rightarrow> bytes \<Rightarrow> bytes option \<Rightarrow> ('w, unit) act" where
  "provision_wifi L T info ssid password =
     (if Py_str (str_bytes ''wifi'') \<notin> set (vi_caps info) then alift (Inl SystemExit)
      else abind (configure_wifi L T ssid (if password = Some [] then None else password) 40000) (\<lambda>status.
           if ws_state status = StaState_CONNECTED
           then (case ws_ssid status of None \<Rightarrow> alift (Inl AttributeError) | Some name \<Rightarrow> aret ())
           else alift (Inl SystemExit)))"

definition provision :: "libs \<Rightarrow> 'w link \<Rightarrow> bytes option \<Rightarrow> creds_source \<Rightarrow> bytes option \<Rightarrow> bytes option \<Rightarrow> ('w, unit) act" where
  "provision L T pop src ssid password =
     abind (get_version L T) (\<lambda>info.
     abind (authorize_if_needed L T info pop) (\<lambda>_.
     abind (provision_creds L info src) (\<lambda>creds.
     abind (case creds of
              Some (cert, key, ca) \<Rightarrow>
                if cert \<noteq> [] then abind (bootstrap_credentials L T cert key ca) (\<lambda>_. abind (cred_status L T) (\<lambda>received. aret ()))
                else aret ()
            | None \<Rightarrow> aret ()) (\<lambda>_.
     abind (case ssid of Some name \<Rightarrow> if name \<noteq> [] then provision_wifi L T info name password else aret () | None \<Rightarrow> aret ()) (\<lambda>_.
     end_session L T)))))"

subsection \<open>Every command returns\<close>

text \<open>A link whose clock never goes back and advances while the client sleeps.\<close>

locale clocked_link =
  fixes T :: "'w link" and clock :: "'w \<Rightarrow> int"
  assumes send_clock: "link_send T n data w = (r, w') \<Longrightarrow> clock w \<le> clock w'"
    and receive_clock: "link_receive T w = (r', w') \<Longrightarrow> clock w \<le> clock w'"
    and token_clock: "link_token T k w = (bs, w') \<Longrightarrow> clock w \<le> clock w'"
    and time_clock: "link_time T w = (now, w') \<Longrightarrow> now = clock w \<and> clock w \<le> clock w'"
    and sleep_clock: "clock w + int k \<le> clock (link_sleep T k w)"

text \<open>Calls that return, later than they started.\<close>

definition returns :: "('w \<Rightarrow> int) \<Rightarrow> ('w, 'a) act \<Rightarrow> bool" where
  "returns clock m \<longleftrightarrow> (\<forall>s. \<exists>r s'. m s = Some (r, s') \<and> clock (ps_world s) \<le> clock (ps_world s'))"

lemma returnsD: "returns clock m \<Longrightarrow> \<exists>r s'. m s = Some (r, s')"
  unfolding returns_def by blast

lemma returnsI: "(\<And>s. \<exists>r s'. m s = Some (r, s') \<and> clock (ps_world s) \<le> clock (ps_world s')) \<Longrightarrow> returns clock m"
  by (simp add: returns_def)

lemma returns_abind:
  assumes "returns clock m" and "\<And>x. returns clock (f x)"
  shows "returns clock (abind m f)"
proof (rule returnsI)
  fix s
  obtain r t where t: "m s = Some (r, t)" "clock (ps_world s) \<le> clock (ps_world t)" using assms(1) unfolding returns_def by blast
  show "\<exists>r s'. abind m f s = Some (r, s') \<and> clock (ps_world s) \<le> clock (ps_world s')"
  proof (cases r)
    case (Inl e)
    then show ?thesis using t by (simp add: abind_def)
  next
    case (Inr x)
    obtain r' s' where "f x t = Some (r', s')" "clock (ps_world t) \<le> clock (ps_world s')" using assms(2) unfolding returns_def by blast
    then show ?thesis using t Inr by (auto simp: abind_def)
  qed
qed

lemma returns_pure: "returns clock (aret x)" "returns clock (alift m)" "returns clock (aget g)"
  by (simp_all add: returns_def aret_def alift_def aget_def)

lemma returns_upd: "(\<And>s. ps_world (f s) = ps_world s) \<Longrightarrow> returns clock (aupd f)"
  by (simp add: returns_def aupd_def)

context clocked_link begin

lemma returns_world:
  "returns clock (aexc (link_send T n data))" "returns clock (aexc (link_receive T))" "returns clock (aworld (link_token T k))"
  "returns clock (aworld (link_time T))" "returns clock (aworld (\<lambda>w. ((), link_sleep T k w)))"
  using send_clock[of n data] receive_clock token_clock[of k] time_clock order_trans[OF _ sleep_clock[of _ k]]
  by (auto simp: returns_def aexc_def aworld_def split: prod.split) blast+

lemmas returns_intros = returns_abind returns_pure returns_world returns_upd

lemma returns_send: "returns clock (send_pouch L T es)"
  unfolding send_pouch_def by (intro returns_intros) (auto split: option.split prod.split intro!: returns_intros)

lemma returns_receive: "returns clock (receive_pouch L T)"
  unfolding receive_pouch_def by (intro returns_intros) (auto split: option.split prod.split intro!: returns_intros)

lemma returns_poll: "returns clock (poll_response L T n b)"
  by (induction n arbitrary: b) (auto split: prod.split intro!: returns_intros returns_receive)

lemma returns_exchange: "returns clock (exchange_msg L T p m d)"
  unfolding exchange_msg_def request_def request_entries_def
  by (intro returns_intros returns_send returns_poll) (auto split: option.split intro!: returns_intros)

lemma exchange_returns:
  obtains r t where "exchange_msg L T p m d s = Some (r, t)" "clock (ps_world s) \<le> clock (ps_world t)"
  using returns_exchange[of L p m d] unfolding returns_def by blast

lemma returns_scan_wait: "returns clock (scan_wait L T deadline)"
proof (rule returnsI)
  fix s
  show "\<exists>r s'. scan_wait L T deadline s = Some (r, s') \<and> clock (ps_world s) \<le> clock (ps_world s')"
  proof (induction "nat (deadline + 1 - clock (ps_world s))" arbitrary: s rule: less_induct)
    case less
    let ?x = "exchange_msg L T PATH_SCAN (Inr (cli_encode_scan_get_status (lib_cbor2 L))) (cli_decode_scan_status_rsp (lib_cbor2 L)) s"
    obtain r t where t: "?x = Some (r, t)" "clock (ps_world s) \<le> clock (ps_world t)" by (rule exchange_returns)
    obtain now w where w: "link_time T (ps_world t) = (now, w)" "now = clock (ps_world t)" "clock (ps_world t) \<le> clock w"
      using time_clock by (metis surj_pair)
    let ?s = "t\<lparr>ps_world := link_sleep T 500 w\<rparr>"
    have c: "clock w + 500 \<le> clock (ps_world ?s)" using sleep_clock[of w 500] by simp
    show ?case
    proof (cases "isl r \<or> fst (projr r) \<or> deadline < now")
      case True
      then show ?thesis using t w by (subst scan_wait.simps) (cases r, auto simp: Let_def)
    next
      case False
      with w t(2) c have "nat (deadline + 1 - clock (ps_world ?s)) < nat (deadline + 1 - clock (ps_world s))" by simp
      from less.hyps[OF this] obtain r' s' where "scan_wait L T deadline ?s = Some (r', s')" "clock (ps_world ?s) \<le> clock (ps_world s')" by blast
      then show ?thesis using t w c False by (subst scan_wait.simps) (cases r, auto simp: Let_def)
    qed
  qed
qed

lemma returns_config_wait: "returns clock (config_wait L T deadline)"
proof (rule returnsI)
  fix s
  show "\<exists>r s'. config_wait L T deadline s = Some (r, s') \<and> clock (ps_world s) \<le> clock (ps_world s')"
  proof (induction "nat (deadline + 1 - clock (ps_world s))" arbitrary: s rule: less_induct)
    case less
    let ?x = "exchange_msg L T PATH_CONFIG (Inr (cli_encode_config_get_status (lib_cbor2 L))) (cli_decode_config_status_rsp (lib_cbor2 L)) s"
    obtain r t where t: "?x = Some (r, t)" "clock (ps_world s) \<le> clock (ps_world t)" by (rule exchange_returns)
    obtain now w where w: "link_time T (ps_world t) = (now, w)" "now = clock (ps_world t)" "clock (ps_world t) \<le> clock w"
      using time_clock by (metis surj_pair)
    let ?s = "t\<lparr>ps_world := link_sleep T 1000 w\<rparr>"
    let ?done = "\<lambda>st. ws_state st = StaState_CONNECTED \<or> ws_state st = StaState_FAILED"
    have c: "clock w + 1000 \<le> clock (ps_world ?s)" using sleep_clock[of w 1000] by simp
    show ?case
    proof (cases "isl r \<or> ?done (projr r) \<or> deadline < now")
      case True
      then show ?thesis using t w by (subst config_wait.simps) (cases r, auto simp: Let_def)
    next
      case False
      with w t(2) c have "nat (deadline + 1 - clock (ps_world ?s)) < nat (deadline + 1 - clock (ps_world s))" by simp
      from less.hyps[OF this] obtain r' s' where "config_wait L T deadline ?s = Some (r', s')" "clock (ps_world ?s) \<le> clock (ps_world s')" by blast
      then show ?thesis using t w c False by (subst config_wait.simps) (cases r, auto simp: Let_def)
    qed
  qed
qed

lemma returns_push:
  assumes "0 < chunk"
  shows "returns clock (push_credential L T k der chunk)"
  unfolding push_credential_def
proof (rule returnsI)
  fix s
  show "\<exists>r s'. push_chunks L T k der chunk off s = Some (r, s') \<and> clock (ps_world s) \<le> clock (ps_world s')" for off
  proof (induction "length der - off" arbitrary: off s rule: less_induct)
    case less
    let ?p = "take chunk (drop off der)"
    obtain r t where t: "exchange_msg L T PATH_CRED (Inr (cli_encode_cred_write (lib_cbor2 L) k (int off) (int (length der)) ?p))
      (cli_decode_cred_write_rsp (lib_cbor2 L)) s = Some (r, t)" "clock (ps_world s) \<le> clock (ps_world t)" by (rule exchange_returns)
    show ?case
    proof (cases "off < length der \<and> r = Inr (int (off + length ?p))")
      case False
      then show ?thesis using t by (subst push_chunks.simps) (cases r, auto simp: Let_def)
    next
      case True
      then have "length der - (off + length ?p) < length der - off" using assms by auto
      from less[OF this, of t] obtain r' s' where "push_chunks L T k der chunk (off + length ?p) t = Some (r', s')" "clock (ps_world t) \<le> clock (ps_world s')" by blast
      then show ?thesis using t True by (subst push_chunks.simps) (auto simp: Let_def)
    qed
  qed
qed

lemma returns_scan_collect: "returns clock (scan_collect L T n results)"
proof (rule returnsI)
  fix s
  show "\<exists>r s'. scan_collect L T n results s = Some (r, s') \<and> clock (ps_world s) \<le> clock (ps_world s')"
  proof (induction "nat (n - int (length results))" arbitrary: results s rule: less_induct)
    case less
    obtain r t where t: "exchange_msg L T PATH_SCAN (Inr (cli_encode_scan_get_results (lib_cbor2 L) (int (length results)) 6))
      (cli_decode_scan_results_rsp (lib_cbor2 L)) s = Some (r, t)" "clock (ps_world s) \<le> clock (ps_world t)" by (rule exchange_returns)
    show ?case
    proof (cases "int (length results) < n \<and> \<not> isl r \<and> projr r \<noteq> []")
      case False
      then show ?thesis using t by (subst scan_collect.simps) (cases r, auto)
    next
      case True
      then obtain page where p: "r = Inr page" "page \<noteq> []" by (cases r) auto
      have "nat (n - int (length (results @ page))) < nat (n - int (length results))" using True p(2) by (simp add: length_greater_0_conv[symmetric] del: length_greater_0_conv)
      from less.hyps[OF this, of t] obtain r' s' where "scan_collect L T n (results @ page) t = Some (r', s')" "clock (ps_world t) \<le> clock (ps_world s')" by blast
      then show ?thesis using t True p by (subst scan_collect.simps) auto
    qed
  qed
qed

lemmas returns_loops = returns_exchange returns_scan_wait returns_scan_collect returns_config_wait returns_push

lemma returns_flows:
  "returns clock (scan L T timeout)" "returns clock (configure_wifi L T ssid pw timeout)" "returns clock (bootstrap_credentials L T cert key ca)"
  "returns clock (get_version L T)" "returns clock (authorize_if_needed L T info pop)" "returns clock (cred_status L T)" "returns clock (ctrl_flow L T op)"
  unfolding scan_def configure_wifi_def bootstrap_credentials_def get_version_def authorize_if_needed_def authorize_def cred_status_def ctrl_flow_def
  by (auto split: option.split prod.split intro!: returns_loops returns_intros)

lemma returns_provision: "returns clock (provision L T pop src ssid password)"
  unfolding provision_def provision_creds_def provision_wifi_def end_session_def
  by (auto split: option.split creds_source.split intro!: returns_flows returns_intros)

end

end
