(* ===== verification/Client_Device.thy ===== *)
theory Client_Device
  imports Client_Session Session
begin

text \<open>
  The client against the device: its requests travel through the link, the dispatcher and the
  handlers, its responses through the response queue and back. The pouch library on the device is a
  parameter, with what both sides rely on as the locale \<open>device_link\<close>.
\<close>

subsection \<open>A request at the device\<close>

lemma peek_op_append: "peek_op (req @ x) (length req) = peek_op req (length req)"
  by (auto simp: peek_op_def nth_append)

lemma entry_served:
  assumes inv: "device_inv E d" and ep: "ep \<in> set (endpoints E)" and len: "length (concat fs) \<le> POUCH_PROV_MSG_MAX" and "fs \<noteq> []"
    and gate: "ep_require_auth ep \<longrightarrow> pouch_prov_session_authorized d"
  shows "\<exists>a. device_inv E (d\<lparr>active := a\<rparr>) \<and>
    (\<forall>rsp d'. ep_handler ep (concat fs) POUCH_PROV_MSG_MAX (d\<lparr>active := a\<rparr>) = Some (Inr rsp, d') \<longrightarrow>
      downlink_entry E 0 (ep_path ep) (POUCH_CONTENT_TYPE_CBOR E) fs d =
        Some (if rsp = [] then d' else snd (pouch_prov_rpc_enqueue E (ep_path ep) rsp d'))) \<and>
    (\<forall>e d'. ep_handler ep (concat fs) POUCH_PROV_MSG_MAX (d\<lparr>active := a\<rparr>) = Some (Inl e, d') \<longrightarrow> active d' = a \<longrightarrow>
      downlink_entry E 0 (ep_path ep) (POUCH_CONTENT_TYPE_CBOR E) fs d =
        Some (respond_status E (ep_path ep) (peek_op (concat fs) (length (concat fs)))
          (if e = EBADMSG then prov_status_status_invalid_argument_m_c else prov_status_status_internal_error_m_c) d'))"
proof -
  obtain i where i: "i < length (endpoints E)" "endpoints E ! i = ep" using ep by (auto simp: in_set_conv_nth)
  let ?d = "downlink_start E 0 (ep_path ep) (POUCH_CONTENT_TYPE_CBOR E) d"
  have e: "endpoint (active ?d) = Some i" using start_selects[of E 0 "ep_path ep"] i by simp
  have s: "active_len (active ?d) = 0" "\<not> overflow (active ?d)" "?d = d\<lparr>active := active ?d\<rparr>"
    by (simp_all add: downlink_start_def Let_def split: option.split)
  have inv': "device_inv E ?d" using downlink_start_inv[OF inv] by (simp add: dispatch_inv_def)
  then have buf: "length (active_buf (active ?d)) = POUCH_PROV_MSG_MAX" by (simp add: device_inv_def active_inv_def)
  let ?e = "(appended (concat fs) ?d)\<lparr>active := (active (appended (concat fs) ?d))\<lparr>endpoint := None\<rparr>\<rparr>"
  have "downlink_fragments E 0 fs ?d = downlink_data E 0 (concat fs) True ?d"
    using reassembly[of fs ?d E 0] \<open>fs \<noteq> []\<close> buf s(1) len by simp
  also have "\<dots> = downlink_complete E ep ?e" using downlink_data_eq[OF inv', of 0 "concat fs" True] e i(2) by simp
  finally have c: "downlink_entry E 0 (ep_path ep) (POUCH_CONTENT_TYPE_CBOR E) fs d = downlink_complete E ep ?e"
    by (simp add: downlink_entry_def)
  have ed: "?e = d\<lparr>active := active ?e\<rparr>" by (subst s(3)) (simp add: appended_def Let_def)
  have r: "mem_read (active_buf (active ?e)) 0 (active_len (active ?e)) = Some (concat fs)" "\<not> overflow (active ?e)"
    using s buf len by (simp_all add: appended_def Let_def)
  have g: "ep_require_auth ep \<longrightarrow> pouch_prov_session_authorized ?e"
    using gate by (subst ed) (simp add: pouch_prov_session_authorized_def)
  show ?thesis
  proof (intro exI[of _ "active ?e"] conjI allI impI)
    show "device_inv E (d\<lparr>active := active ?e\<rparr>)" using end_request_inv[OF appended_inv[OF inv']] ed by metis
  next
    fix rsp d'
    assume "ep_handler ep (concat fs) POUCH_PROV_MSG_MAX (d\<lparr>active := active ?e\<rparr>) = Some (Inr rsp, d')"
    then have "ep_handler ep (concat fs) POUCH_PROV_MSG_MAX ?e = Some (Inr rsp, d')" using ed by metis
    then show "downlink_entry E 0 (ep_path ep) (POUCH_CONTENT_TYPE_CBOR E) fs d =
        Some (if rsp = [] then d' else snd (pouch_prov_rpc_enqueue E (ep_path ep) rsp d'))"
      unfolding c downlink_complete_def using r g by auto
  next
    fix e d'
    assume h: "ep_handler ep (concat fs) POUCH_PROV_MSG_MAX (d\<lparr>active := active ?e\<rparr>) = Some (Inl e, d')" and a: "active d' = active ?e"
    have "active_buf (active ?e) = concat fs @ drop (length (concat fs)) (active_buf (active ?d))" "active_len (active ?e) = length (concat fs)"
      using s buf len by (simp_all add: appended_def Let_def)
    then have "peek_op (active_buf (active d')) (active_len (active d')) = peek_op (concat fs) (length (concat fs))"
      unfolding a by (simp add: peek_op_append)
    moreover have "ep_handler ep (concat fs) POUCH_PROV_MSG_MAX ?e = Some (Inl e, d')" using ed h by metis
    ultimately show "downlink_entry E 0 (ep_path ep) (POUCH_CONTENT_TYPE_CBOR E) fs d =
        Some (respond_status E (ep_path ep) (peek_op (concat fs) (length (concat fs)))
          (if e = EBADMSG then prov_status_status_invalid_argument_m_c else prov_status_status_internal_error_m_c) d')"
      unfolding c downlink_complete_def using r g by auto
  qed
qed

lemma entry_inv:
  assumes K: "kernel E" and "device_inv E d" and "downlink_entry E s p ct fs d = Some d'"
  shows "device_inv E d'"
proof -
  have "downlink_fragments E s fs e = Some d' \<Longrightarrow> kernel E \<Longrightarrow> dispatch_inv E e \<Longrightarrow> dispatch_inv E d'" for e
  proof (induction E s fs e rule: downlink_fragments.induct)
    case (3 E s f g fs d)
    then obtain e where "downlink_data E s f False d = Some e" "downlink_fragments E s (g # fs) e = Some d'" by (auto split: bind_splits)
    with 3 downlink_data_inv[of E d s f False e] show ?case by simp
  next
    case (2 E s f d)
    with downlink_data_inv[of E d s f True d'] show ?case by simp
  qed simp
  from this[OF assms(3)[unfolded downlink_entry_def] K downlink_start_inv[OF assms(2)]] show ?thesis by (simp add: dispatch_inv_def)
qed

text \<open>What the response leaves of the state the handler left: all but the log.\<close>

definition answered :: "device \<Rightarrow> device \<Rightarrow> bool" where
  "answered d d' \<longleftrightarrow> only_log d d' \<and> fifo_of (trace d') = [] \<and> settings_of (trace d') = settings_of (trace d) \<and>
     wifi_creds_of (trace d') = wifi_creds_of (trace d) \<and> ended_of (trace d') = ended_of (trace d)"

lemma answered_queue: "drained (snd (pouch_prov_rpc_enqueue E p m d)) d' \<Longrightarrow> answered d d'"
proof -
  assume a: "drained (snd (pouch_prov_rpc_enqueue E p m d)) d'"
  have "only_log d (snd (pouch_prov_rpc_enqueue E p m d))" by (auto simp: pouch_prov_rpc_enqueue_def Let_def)
  from only_log_trans[OF this drainedD(1)[OF a]] drainedD[OF a] show ?thesis by (simp add: answered_def)
qed

subsection \<open>The link\<close>

text \<open>
  The pouch library hands the entries of a downlink pouch to the dispatcher in order, each in
  fragments \<open>split\<close> chooses.
\<close>

definition path_text :: "bytes \<Rightarrow> string" where
  "path_text bs = map (\<lambda>b. char_of (unat b)) bs"

fun deliver_entries :: "('e, 'd) env \<Rightarrow> (bytes \<Rightarrow> bytes list) \<Rightarrow> Entry list \<Rightarrow> device \<Rightarrow> device option" where
  "deliver_entries E split [] d = Some d"
| "deliver_entries E split (e # es) d =
     downlink_entry E 0 (path_text (entry_path e)) (of_int (entry_content_type e)) (split (entry_data e)) d \<bind> deliver_entries E split es"

definition rsp_entry :: "rpc_rsp \<Rightarrow> Entry" where
  "rsp_entry r = \<lparr>entry_path = str_bytes (rsp_path r), entry_content_type = CONTENT_TYPE_CBOR, entry_data = rsp_msg r\<rparr>"

definition plain_PouchHeader :: "bytes \<Rightarrow> PouchHeader" where
  "plain_PouchHeader did = \<lparr>encryption = ENCRYPTION_NONE, header_device_id = Py_str did, header_session = None, pouch_id = Py_int 0\<rparr>"

definition id_ok :: "bytes \<Rightarrow> bool" where
  "id_ok did \<longleftrightarrow> utf8_ok did \<and> length did < 256"

lemma char_of_byte: "char_of (unat (of_char c :: u8)) = c"
proof -
  have "unat (of_char c :: u8) = of_char c"
    using unat_of_nat_small[of "of_char c", where 'a = 8] nat_of_char_less_256[of c] by (simp add: of_nat_of_char)
  then show ?thesis by simp
qed

lemma path_text_bytes [simp]: "path_text (str_bytes p) = p"
  by (induction p) (simp_all add: path_text_def str_bytes_def char_of_byte)

text \<open>
  A plaintext link to a device \<open>dev\<close> of the world: a pouch of fewer than 256 fragments arrives, and
  the response that waits in the queue comes back in a pouch that names the device. There is
  memory for a response and room for it in the pouch.
\<close>

locale device_link = cbor2_codec "lib_cbor2 L" + kernel E
  for L :: libs and E :: "('e, 'd) env" +
  fixes T :: "'w link" and dev :: "'w \<Rightarrow> device" and split :: "bytes \<Rightarrow> bytes list"
  assumes content_type: "POUCH_CONTENT_TYPE_CBOR E = 60"
    and split: "concat (split bs) = bs" "split bs \<noteq> []"
    and memory: "k_malloc E n t"
    and room: "pouch_uplink_entry_write E p m t = rc_ok"
    and send: "parse_pouch (lib_cbor2 L) data = Inr (h, es) \<Longrightarrow> length (fragments (n - HEADER_LEN) data) < 256 \<Longrightarrow>
      deliver_entries E split es (dev w) = Some d \<Longrightarrow> \<exists>w'. link_send T n data w = (Inr (), w') \<and> dev w' = d"
    and receive: "fifo_of (trace (dev w)) = [r] \<Longrightarrow> length (rsp_msg r) \<le> POUCH_PROV_MSG_MAX \<Longrightarrow> length (rsp_path r) < 256 \<Longrightarrow>
      utf8_ok (str_bytes (rsp_path r)) \<Longrightarrow> (\<And>t. pouch_uplink_entry_write E (rsp_path r) (rsp_msg r) t = rc_ok) \<Longrightarrow>
      rpc_uplink_flush E (dev w) = Some d \<Longrightarrow>
      \<exists>data w' did. link_receive T w = (Inr data, w') \<and> dev w' = d \<and> id_ok did \<and>
        parse_pouch (lib_cbor2 L) data = Inr (plain_PouchHeader did, [rsp_entry r])"
    and token: "\<exists>bs w'. link_token T n w = (bs, w') \<and> length bs = n \<and> dev w' = dev w"

text \<open>A session in the clear whose blocks hold the largest request, over packets that hold a payload.\<close>

definition plain_session :: "'w ProvSession \<Rightarrow> bool" where
  "plain_session s \<longleftrightarrow> ps_saead s = None \<and> 20 \<le> ps_maxlen s \<and> (\<exists>did. ps_device_id s = Py_str did \<and> id_ok did) \<and>
     (\<exists>n. ps_block_size s = Py_int n \<and> 408 \<le> n)"

subsection \<open>One request\<close>

lemma act_simps [simp]:
  "aret x s = Some (Inr x, s)" "alift m s = Some (m, s)" "aupd f s = Some (Inr (), f s)" "aget g s = Some (Inr (g s), s)"
  by (simp_all add: aret_def alift_def aupd_def aget_def)

lemma abind_Inr: "m s = Some (Inr x, s') \<Longrightarrow> abind m f s = f x s'"
  by (simp add: abind_def)

lemma abind_Inl: "m s = Some (Inl e, s') \<Longrightarrow> abind m f s = Some (Inl e, s')"
  by (simp add: abind_def)

lemma abind_simps [simp]:
  "abind (aret x) f s = f x s" "abind (alift (Inr y)) f s = f y s" "abind (alift (Inl e)) f s = Some (Inl e, s)"
  "abind (aupd h) f s = f () (h s)" "abind (aget g) f s = f (g s) s"
  by (simp_all add: abind_def)

lemma utf8_paths:
  "utf8_ok (str_bytes ''.prov/ver'')" "utf8_ok (str_bytes ''.prov/auth'')" "utf8_ok (str_bytes ''.prov/config'')"
  "utf8_ok (str_bytes ''.prov/scan'')" "utf8_ok (str_bytes ''.prov/cred'')" "utf8_ok (str_bytes ''.prov/ctrl'')"
  by code_simp+

lemma endpoint_path_ok:
  assumes "ep \<in> set (endpoints E)"
  shows "length (ep_path ep) \<le> 12" "utf8_ok (str_bytes (ep_path ep))"
proof -
  have "ep_path ep \<in> {''.prov/ver'', ''.prov/auth'', ''.prov/config'', ''.prov/scan'', ''.prov/cred'', ''.prov/ctrl''}"
    using assms by (auto simp: endpoints_def path_defs split: if_splits)
  then show "length (ep_path ep) \<le> 12" "utf8_ok (str_bytes (ep_path ep))" using utf8_paths by auto
qed

context device_link begin

lemma header_size: "id_ok did \<Longrightarrow> length (py_wire (Py_list [Py_int 1, Py_list [Py_int 0, Py_str did]])) \<le> 270"
  by (simp add: py_wire_def id_ok_def cbor_head_def numeral_2_eq_2[symmetric])

lemma request_pouch:
  assumes "id_ok did" and "length p \<le> 12" and "length m \<le> POUCH_PROV_MSG_MAX" and "408 \<le> n"
  shows "\<exists>data. build_entry_pouch (lib_cbor2 L) (Py_str did)
      [\<lparr>entry_path = str_bytes p, entry_content_type = CONTENT_TYPE_CBOR, entry_data = m\<rparr>] (Py_int n) = Inr data \<and> length data \<le> 690"
proof -
  let ?e = "\<lparr>entry_path = str_bytes p, entry_content_type = CONTENT_TYPE_CBOR, entry_data = m\<rparr>"
  obtain b where b: "Entry_encode ?e = Inr b" "length b \<le> 401"
    using assms(2,3) by (auto simp: Entry_encode_def pack_be_def CONTENT_TYPE_CBOR_def POUCH_PROV_MSG_MAX_def)
  have "pack_entries (lib_cbor2 L) (Py_int n) [] [] [?e] = Inr ([], b)" using b assms(4) by simp
  moreover obtain k where "Block_encode \<lparr>payload = b, stream_id = BLOCK_ID_ENTRY, block_first = True, block_last = True\<rparr> = Inr k" "length k \<le> 404"
    using b(2) block_id_byte_entry(1,2)[of True True] by (auto simp: Block_encode_def pack_be_def)
  ultimately show ?thesis using plain_header(1)[of did] assms(1) header_size[OF assms(1)]
    by (auto simp: build_entry_pouch_def Pouch_encode_def id_ok_def)
qed

lemma send_request:
  assumes s: "plain_session s" and p: "length p \<le> 12" "utf8_ok (str_bytes p)" and m: "length m \<le> POUCH_PROV_MSG_MAX"
    and d: "downlink_entry E 0 p 60 (split m) (dev (ps_world s)) = Some d"
  shows "\<exists>w. send_pouch L T [\<lparr>entry_path = str_bytes p, entry_content_type = CONTENT_TYPE_CBOR, entry_data = m\<rparr>] s =
    Some (Inr (), s\<lparr>ps_world := w\<rparr>) \<and> dev w = d"
proof -
  let ?e = "\<lparr>entry_path = str_bytes p, entry_content_type = CONTENT_TYPE_CBOR, entry_data = m\<rparr>"
  obtain did n where did: "ps_device_id s = Py_str did" "id_ok did" and n: "ps_block_size s = Py_int n" "408 \<le> n"
    and x: "ps_saead s = None" "20 \<le> ps_maxlen s" using s by (auto simp: plain_session_def)
  let ?did = "if did = [] then str_bytes ''?'' else did"
  have o: "py_or (lib_cbor2 L) (ps_device_id s) (Py_str (str_bytes ''?'')) = Py_str ?did" using did(1) by (simp add: py_or_def)
  have id: "id_ok ?did" using did(2) by (simp add: id_ok_def str_bytes_def)
  obtain data where data: "build_entry_pouch (lib_cbor2 L) (Py_str ?did) [?e] (Py_int n) = Inr data" "length data \<le> 690"
    using request_pouch[OF id p(1) m n(2)] by blast
  have "parse_pouch (lib_cbor2 L) data = Inr (plain_PouchHeader ?did, [?e])"
    using pouch_roundtrip[OF data(1)] id p(2) by (simp add: id_ok_def plain_PouchHeader_def)
  moreover have "length (fragments (ps_maxlen s - HEADER_LEN) data) < 256"
  proof -
    have "length data \<le> (ps_maxlen s - HEADER_LEN) * 39"
      using data(2) x(2) mult_le_mono1[of 18 "ps_maxlen s - HEADER_LEN" 39] by (simp add: HEADER_LEN_def)
    then have "length (chunks_of (ps_maxlen s - HEADER_LEN) data) \<le> 39" using x(2) by (intro length_chunks) (simp_all add: HEADER_LEN_def)
    then show ?thesis by (auto simp: fragments_def)
  qed
  moreover have "deliver_entries E split [?e] (dev (ps_world s)) = Some d" using d by (simp add: CONTENT_TYPE_CBOR_def)
  ultimately obtain w where "link_send T (ps_maxlen s) data (ps_world s) = (Inr (), w)" "dev w = d" using send by blast
  then show ?thesis using x n(1) o data(1)
    by (auto simp: send_pouch_def SarSender_init_def HEADER_LEN_def aexc_def abind_def)
qed

lemma receive_response:
  assumes s: "plain_session s" and q: "fifo_of (trace (dev (ps_world s))) = [\<lparr>rsp_path = p, rsp_msg = r\<rparr>]"
    and p: "length p \<le> 12" "utf8_ok (str_bytes p)" and r: "length r \<le> POUCH_PROV_MSG_MAX"
  shows "\<exists>w did. receive_pouch L T s = Some (Inr (plain_PouchHeader did, [rsp_entry \<lparr>rsp_path = p, rsp_msg = r\<rparr>]), s\<lparr>ps_world := w\<rparr>) \<and>
    id_ok did \<and> drained (dev (ps_world s)) (dev w)"
proof -
  let ?r = "\<lparr>rsp_path = p, rsp_msg = r\<rparr>"
  obtain d where d: "rpc_uplink_flush E (dev (ps_world s)) = Some d" "drained (dev (ps_world s)) d" using flush_drains by blast
  obtain data w did where w: "link_receive T (ps_world s) = (Inr data, w)" "dev w = d" "id_ok did"
    "parse_pouch (lib_cbor2 L) data = Inr (plain_PouchHeader did, [rsp_entry ?r])"
    using receive[OF q _ _ _ room d(1)] p r by auto
  then obtain c where "PouchHeader_decode (lib_cbor2 L) data = Inr (plain_PouchHeader did, c)"
    by (auto simp: parse_pouch_def xbind_Inr split: if_splits)
  then have "receive_pouch L T s = Some (Inr (plain_PouchHeader did, [rsp_entry ?r]), s\<lparr>ps_world := w\<rparr>)"
    using w s by (simp add: receive_pouch_def plain_session_def aexc_def abind_def)
  with w d(2) show ?thesis by blast
qed

lemma request_served:
  assumes s: "plain_session s" and p: "length p \<le> 12" "utf8_ok (str_bytes p)" and m: "length m \<le> POUCH_PROV_MSG_MAX"
    and d: "downlink_entry E 0 p 60 (split m) (dev (ps_world s)) = Some d"
    and q: "fifo_of (trace d) = [\<lparr>rsp_path = p, rsp_msg = r\<rparr>]" "length r \<le> POUCH_PROV_MSG_MAX"
  shows "\<exists>s'. request L T p m s = Some (Inr r, s') \<and> plain_session s' \<and> drained d (dev (ps_world s'))"
proof -
  obtain w where w: "send_pouch L T [\<lparr>entry_path = str_bytes p, entry_content_type = CONTENT_TYPE_CBOR, entry_data = m\<rparr>] s =
    Some (Inr (), s\<lparr>ps_world := w\<rparr>)" "dev w = d" using send_request[OF s p m d] by blast
  let ?s = "s\<lparr>ps_world := w\<rparr>"
  have ps: "plain_session ?s" "fifo_of (trace (dev (ps_world ?s))) = [\<lparr>rsp_path = p, rsp_msg = r\<rparr>]"
    using s q(1) w(2) by (simp_all add: plain_session_def)
  obtain w' did where w': "receive_pouch L T ?s = Some (Inr (plain_PouchHeader did, [rsp_entry \<lparr>rsp_path = p, rsp_msg = r\<rparr>]), ?s\<lparr>ps_world := w'\<rparr>)"
    "id_ok did" "drained d (dev w')" using receive_response[OF ps p q(2)] w(2) by auto
  let ?t = "s\<lparr>ps_world := w', ps_device_id := py_or (lib_cbor2 L) (Py_str did) (ps_device_id s)\<rparr>"
  have "poll_response L T 5 200 ?s = Some (Inr [rsp_entry \<lparr>rsp_path = p, rsp_msg = r\<rparr>], ?t)"
    using w'(1) by (simp add: numeral_eq_Suc abind_def plain_PouchHeader_def)
  then have "request L T p m s = Some (Inr r, ?t)"
    using w(1) by (simp add: request_def request_entries_def abind_def rsp_entry_def)
  moreover have "plain_session ?t" using s w'(2) by (auto simp: plain_session_def py_or_def)
  ultimately show ?thesis using w'(3) by auto
qed

text \<open>A request of the client and the handler it reaches.\<close>

lemma exchange_queued:
  assumes s: "plain_session s" and inv: "device_inv E (dev (ps_world s))" and ep: "ep \<in> set (endpoints E)"
    and m: "length m \<le> POUCH_PROV_MSG_MAX" and r: "length rsp \<le> POUCH_PROV_MSG_MAX"
    and e: "downlink_entry E 0 (ep_path ep) 60 (split m) (dev (ps_world s)) = Some (snd (pouch_prov_rpc_enqueue E (ep_path ep) rsp d'))"
    and q: "fifo_of (trace d') = []"
  shows "\<exists>s'. exchange_msg L T (ep_path ep) (Inr m) decode s = Some (decode rsp, s') \<and> plain_session s' \<and>
    answered d' (dev (ps_world s')) \<and> device_inv E (dev (ps_world s'))"
proof -
  let ?e = "snd (pouch_prov_rpc_enqueue E (ep_path ep) rsp d')"
  have f: "fifo_of (trace ?e) = [\<lparr>rsp_path = ep_path ep, rsp_msg = rsp\<rparr>]" using enqueue_fifo[OF r memory] q by simp
  obtain s' where s': "request L T (ep_path ep) m s = Some (Inr rsp, s')" "plain_session s'" "drained ?e (dev (ps_world s'))"
    using request_served[OF s endpoint_path_ok[OF ep] m e f r] by blast
  have "device_inv E (dev (ps_world s'))"
    using drained_inv[OF s'(3)] entry_inv[OF _ inv e] kernel_axioms by blast
  moreover have "exchange_msg L T (ep_path ep) (Inr m) decode s = Some (decode rsp, s')" using s'(1) by (simp add: exchange_msg_def abind_def)
  ultimately show ?thesis using s'(2) answered_queue[OF s'(3)] by blast
qed

lemma split_fits: "length m \<le> POUCH_PROV_MSG_MAX \<Longrightarrow> length (concat (split m)) \<le> POUCH_PROV_MSG_MAX"
  by (simp only: split(1))

lemma exchange_served:
  assumes s: "plain_session s" and inv: "device_inv E (dev (ps_world s))" and q: "fifo_of (trace (dev (ps_world s))) = []"
    and ep: "ep \<in> set (endpoints E)" and gate: "ep_require_auth ep \<longrightarrow> pouch_prov_session_authorized (dev (ps_world s))"
    and m: "length m \<le> POUCH_PROV_MSG_MAX" and r: "rsp \<noteq> []" "length rsp \<le> POUCH_PROV_MSG_MAX"
    and h: "\<And>a. device_inv E ((dev (ps_world s))\<lparr>active := a\<rparr>) \<Longrightarrow> \<exists>d'. ep_handler ep m POUCH_PROV_MSG_MAX ((dev (ps_world s))\<lparr>active := a\<rparr>) = Some (Inr rsp, d') \<and>
      fifo_of (trace d') = [] \<and> Q d'"
  shows "\<exists>s' d'. exchange_msg L T (ep_path ep) (Inr m) decode s = Some (decode rsp, s') \<and> plain_session s' \<and> Q d' \<and>
    answered d' (dev (ps_world s')) \<and> device_inv E (dev (ps_world s'))"
proof -
  let ?d = "dev (ps_world s)"
  obtain a where a: "device_inv E (?d\<lparr>active := a\<rparr>)" "\<And>rsp d'. ep_handler ep (concat (split m)) POUCH_PROV_MSG_MAX (?d\<lparr>active := a\<rparr>) = Some (Inr rsp, d') \<Longrightarrow>
    downlink_entry E 0 (ep_path ep) (POUCH_CONTENT_TYPE_CBOR E) (split m) ?d = Some (if rsp = [] then d' else snd (pouch_prov_rpc_enqueue E (ep_path ep) rsp d'))"
    using entry_served[OF inv ep split_fits[OF m] split(2) gate] by blast
  obtain d' where d': "ep_handler ep m POUCH_PROV_MSG_MAX (?d\<lparr>active := a\<rparr>) = Some (Inr rsp, d')" "fifo_of (trace d') = []" "Q d'"
    using h[OF a(1)] by blast
  have "downlink_entry E 0 (ep_path ep) 60 (split m) ?d = Some (snd (pouch_prov_rpc_enqueue E (ep_path ep) rsp d'))"
    using a(2)[of rsp d'] d'(1) r(1) by (simp only: split(1) content_type if_False)
  from exchange_queued[OF s inv ep m r(2) this d'(2)] d'(3) show ?thesis by blast
qed

text \<open>A request the handler refuses is answered with a status.\<close>

lemma exchange_refused:
  assumes Z: "zcbor_encoder (zenc E) R" and s: "plain_session s" and inv: "device_inv E (dev (ps_world s))" and q: "fifo_of (trace (dev (ps_world s))) = []"
    and ep: "ep \<in> set (endpoints E)" and gate: "ep_require_auth ep \<longrightarrow> pouch_prov_session_authorized (dev (ps_world s))"
    and m: "length m \<le> POUCH_PROV_MSG_MAX" "peek_op m (length m) \<le> 2" and e: "e \<noteq> EBADMSG"
    and h: "\<And>a. device_inv E ((dev (ps_world s))\<lparr>active := a\<rparr>) \<Longrightarrow>
      ep_handler ep m POUCH_PROV_MSG_MAX ((dev (ps_world s))\<lparr>active := a\<rparr>) = Some (Inl e, (dev (ps_world s))\<lparr>active := a\<rparr>)"
  shows "\<exists>s' a. exchange_msg L T (ep_path ep) (Inr m) decode s = Some (decode (status_bytes (peek_op m (length m)) 3), s') \<and> plain_session s' \<and>
    answered ((dev (ps_world s))\<lparr>active := a\<rparr>) (dev (ps_world s')) \<and> device_inv E (dev (ps_world s'))"
proof -
  let ?d = "dev (ps_world s)" and ?op = "peek_op m (length m)"
  obtain a where a: "device_inv E (?d\<lparr>active := a\<rparr>)" "\<And>e d'. ep_handler ep (concat (split m)) POUCH_PROV_MSG_MAX (?d\<lparr>active := a\<rparr>) = Some (Inl e, d') \<Longrightarrow> active d' = a \<Longrightarrow>
    downlink_entry E 0 (ep_path ep) (POUCH_CONTENT_TYPE_CBOR E) (split m) ?d = Some (respond_status E (ep_path ep) (peek_op (concat (split m)) (length (concat (split m))))
      (if e = EBADMSG then prov_status_status_invalid_argument_m_c else prov_status_status_internal_error_m_c) d')"
    using entry_served[OF inv ep split_fits[OF m(1)] split(2) gate] by blast
  have "downlink_entry E 0 (ep_path ep) 60 (split m) ?d = Some (respond_status E (ep_path ep) ?op prov_status_status_internal_error_m_c (?d\<lparr>active := a\<rparr>))"
    using a(2)[of e "?d\<lparr>active := a\<rparr>"] h[OF a(1)] e unfolding split(1) content_type by simp
  also have "\<dots> = Some (snd (pouch_prov_rpc_enqueue E (ep_path ep) (status_bytes ?op 3) (?d\<lparr>active := a\<rparr>)))"
    using respond_status_effect[OF Z, of 3 "ep_path ep" ?op] m(2) by (simp add: status_ok_def)
  finally have d: "downlink_entry E 0 (ep_path ep) 60 (split m) ?d = Some (snd (pouch_prov_rpc_enqueue E (ep_path ep) (status_bytes ?op 3) (?d\<lparr>active := a\<rparr>)))" .
  have l: "length (status_bytes ?op 3) \<le> POUCH_PROV_MSG_MAX" by (simp add: status_bytes_def POUCH_PROV_MSG_MAX_def)
  have "fifo_of (trace (?d\<lparr>active := a\<rparr>)) = []" using q by simp
  from exchange_queued[OF s inv ep m(1) l d this, of decode] show ?thesis by blast
qed

end

subsection \<open>The handshake\<close>

text \<open>A device whose CBOR library conforms.\<close>

locale codec_link = device_link L E T dev split
  for L :: libs and E :: "('e, 'd) env" and T :: "'w link" and dev and split +
  fixes RE RD
  assumes enc: "zcbor_encoder (zenc E) RE" and dec: "zcbor_decoder (zdec E) RD"

text \<open>Both sides compute the same keyed hash, and the device is built with the authentication endpoint.\<close>

locale auth_link = codec_link L E T dev split RE RD + psa_hmac_live E "lib_hmac L"
  for L :: libs and E :: "('e, 'd) env" and T :: "'w link" and dev and split and RE RD +
  assumes auth_config: "CONFIG_POUCH_PROV_AUTH E"

definition auth_ep :: "('e, 'd) env \<Rightarrow> pouch_prov_endpoint" where
  "auth_ep E = \<lparr>ep_path = POUCH_PROV_PATH_AUTH, ep_handler = pouch_prov_handle_auth E, ep_require_auth = False\<rparr>"

lemma auth_ep_sel [simp]: "ep_path (auth_ep E) = PATH_AUTH" "ep_handler (auth_ep E) = pouch_prov_handle_auth E" "\<not> ep_require_auth (auth_ep E)"
  by (simp_all add: auth_ep_def PATH_AUTH_def path_defs)

text \<open>A session that is ready for the next request, with the device at its other end.\<close>

definition ready_session :: "('e, 'd) env \<Rightarrow> ('w \<Rightarrow> device) \<Rightarrow> 'w ProvSession \<Rightarrow> bool" where
  "ready_session E dev s \<longleftrightarrow> plain_session s \<and> device_inv E (dev (ps_world s)) \<and> fifo_of (trace (dev (ps_world s))) = []"

text \<open>What an exchange over the authentication endpoint keeps.\<close>

definition auth_kept :: "('w \<Rightarrow> device) \<Rightarrow> 'w ProvSession \<Rightarrow> 'w ProvSession \<Rightarrow> bool" where
  "auth_kept dev s s' \<longleftrightarrow> (let d = dev (ps_world s); d' = dev (ps_world s') in
     config d' = config d \<and> running d' = running d \<and> blobs d' = blobs d \<and> wc d' = wc d \<and> settings_of (trace d') = settings_of (trace d) \<and>
     wifi_creds_of (trace d') = wifi_creds_of (trace d))"

context auth_link begin

lemma auth_decodes: "auth_req_ok v \<Longrightarrow> cbor_decode_auth_req (zdec E) (toks_bytes (auth_req_toks v)) = Some (v, length (toks_bytes (auth_req_toks v)))"
  by (rule requests_read(1)[OF dec])

lemma auth_endpoint_listed: "auth_ep E \<in> set (endpoints E)"
  using auth_config by (simp add: endpoints_def auth_ep_def)

lemma auth_exchange:
  assumes s: "ready_session E dev s" and m: "length m \<le> POUCH_PROV_MSG_MAX" and r: "rsp \<noteq> []" "length rsp \<le> POUCH_PROV_MSG_MAX"
    and h: "\<And>a. \<exists>d'. pouch_prov_handle_auth E m POUCH_PROV_MSG_MAX ((dev (ps_world s))\<lparr>active := a\<rparr>) = Some (Inr rsp, d') \<and> P (auth d') (authorized d')"
  shows "\<exists>s'. exchange_msg L T PATH_AUTH (Inr m) decode s = Some (decode rsp, s') \<and> ready_session E dev s' \<and> auth_kept dev s s' \<and>
    P (auth (dev (ps_world s'))) (authorized (dev (ps_world s')))"
proof -
  let ?d = "dev (ps_world s)"
  let ?Q = "\<lambda>d'. (\<exists>a. auth_only (?d\<lparr>active := a\<rparr>) d') \<and> P (auth d') (authorized d')"
  have "\<exists>d'. ep_handler (auth_ep E) m POUCH_PROV_MSG_MAX (?d\<lparr>active := a\<rparr>) = Some (Inr rsp, d') \<and> fifo_of (trace d') = [] \<and> ?Q d'" for a
  proof -
    obtain d' where d': "pouch_prov_handle_auth E m POUCH_PROV_MSG_MAX (?d\<lparr>active := a\<rparr>) = Some (Inr rsp, d')" "P (auth d') (authorized d')" using h by blast
    note o = handle_auth_only[OF d'(1)]
    have "fifo_of (trace d') = []" using auth_onlyD(13)[OF o] s by (simp add: rpc_same_def ready_session_def)
    with d' o show ?thesis by auto
  qed
  then obtain s' d' where s': "exchange_msg L T PATH_AUTH (Inr m) decode s = Some (decode rsp, s')" "plain_session s'" "?Q d'"
    "answered d' (dev (ps_world s'))" "device_inv E (dev (ps_world s'))"
    using exchange_served[OF _ _ _ auth_endpoint_listed _ m r, of s ?Q decode] s by (auto simp: ready_session_def)
  then obtain a where a: "auth_only (?d\<lparr>active := a\<rparr>) d'" by blast
  have l: "only_log d' (dev (ps_world s'))" using s'(4) by (simp add: answered_def)
  have "auth_kept dev s s'" using auth_onlyD[OF a] only_logD[OF l] s'(4) by (simp add: auth_kept_def answered_def)
  moreover have "ready_session E dev s'" using s'(2,4,5) by (simp add: ready_session_def answered_def)
  ultimately show ?thesis using s'(1,3) only_logD(8,10)[OF l] by auto
qed

lemma challenge_exchange:
  assumes s: "ready_session E dev s" and K: "pop (config (dev (ps_world s))) = Some K" and n: "length n = 16"
  shows "\<exists>s' r. exchange_msg L T PATH_AUTH (cli_encode_auth_challenge (lib_cbor2 L) n) (cli_decode_auth_challenge_rsp (lib_cbor2 L)) s =
      Some (Inr (r, lib_hmac L K (str_bytes ''dev'' @ n @ r)), s') \<and> length r = 16 \<and> ready_session E dev s' \<and> auth_kept dev s s' \<and>
    auth (dev (ps_world s')) = \<lparr>cli_nonce = n, dev_nonce = r, challenged = True, attempts = attempts (auth (dev (ps_world s)))\<rparr> \<and>
    authorized (dev (ps_world s')) = authorized (dev (ps_world s))"
proof -
  let ?d = "dev (ps_world s)"
  let ?v = "auth_req_auth_challenge_m n"
  let ?r = "map (sys_rand_byte E (trace ?d)) [0..<16]"
  let ?w = "auth_rsp_auth_challenge_rsp_m 0 ?r (lib_hmac L K (str_bytes ''dev'' @ n @ ?r))"
  have v: "auth_req_ok ?v" "auth_rsp_ok ?w" using n hmac_length by (simp_all add: status_ok_def)
  have m: "cli_encode_auth_challenge (lib_cbor2 L) n = Inr (toks_bytes (auth_req_toks ?v))" by (rule requests_match(2)[OF n])
  have l: "length (toks_bytes (auth_req_toks ?v)) \<le> POUCH_PROV_MSG_MAX" "toks_bytes (auth_rsp_toks ?w) \<noteq> []" "length (toks_bytes (auth_rsp_toks ?w)) \<le> POUCH_PROV_MSG_MAX"
    using n hmac_length by (simp_all add: POUCH_PROV_MSG_MAX_def length_cbor_head u32_tok_def)
  have "\<exists>d'. pouch_prov_handle_auth E (toks_bytes (auth_req_toks ?v)) POUCH_PROV_MSG_MAX (?d\<lparr>active := a\<rparr>) = Some (Inr (toks_bytes (auth_rsp_toks ?w)), d') \<and>
     (auth d' = \<lparr>cli_nonce = n, dev_nonce = ?r, challenged = True, attempts = attempts (auth ?d)\<rparr> \<and> authorized d' = authorized ?d)" for a
    using challenge_answered[OF enc auth_decodes[OF v(1)] n, of "?d\<lparr>active := a\<rparr>" K POUCH_PROV_MSG_MAX] K by (simp add: POUCH_PROV_MSG_MAX_def)
  from auth_exchange[OF s l this, of "cli_decode_auth_challenge_rsp (lib_cbor2 L)"] m auth_rsp_read(1)[OF v(2)] show ?thesis by (fastforce simp: on_ok_def)
qed

lemma proof_exchange:
  assumes s: "ready_session E dev s" and K: "pop (config (dev (ps_world s))) = Some K" and c: "challenged (auth (dev (ps_world s)))"
    and at: "attempts (auth (dev (ps_world s))) < 3"
  shows "\<exists>s'. exchange_msg L T PATH_AUTH (cli_encode_auth_proof (lib_cbor2 L)
        (lib_hmac L K (str_bytes ''cli'' @ dev_nonce (auth (dev (ps_world s))) @ cli_nonce (auth (dev (ps_world s))))))
      (cli_decode_auth_proof_rsp (lib_cbor2 L)) s = Some (Inr (), s') \<and> ready_session E dev s' \<and> auth_kept dev s s' \<and> authorized (dev (ps_world s'))"
proof -
  let ?d = "dev (ps_world s)"
  let ?p = "lib_hmac L K (str_bytes ''cli'' @ dev_nonce (auth ?d) @ cli_nonce (auth ?d))"
  let ?v = "auth_req_auth_proof_m ?p" and ?w = "auth_rsp_auth_proof_rsp_m 0"
  have v: "auth_req_ok ?v" "auth_rsp_ok ?w" using hmac_length by (simp_all add: status_ok_def)
  have m: "cli_encode_auth_proof (lib_cbor2 L) ?p = Inr (toks_bytes (auth_req_toks ?v))" by (rule requests_match(3)[OF hmac_length])
  have l: "length (toks_bytes (auth_req_toks ?v)) \<le> POUCH_PROV_MSG_MAX" "toks_bytes (auth_rsp_toks ?w) \<noteq> []" "length (toks_bytes (auth_rsp_toks ?w)) \<le> POUCH_PROV_MSG_MAX"
    using hmac_length by (simp_all add: POUCH_PROV_MSG_MAX_def length_cbor_head u32_tok_def)
  have "unat (attempts (auth ?d)) < 3" using at by (simp add: word_less_nat_alt)
  then have a3: "attempts (auth ?d) + 1 \<le> MAX_ATTEMPTS" by (simp add: MAX_ATTEMPTS_def word_le_nat_alt unat_word_ariths)
  have e: "auth_respond_status E prov_status_status_ok_m_c POUCH_PROV_MSG_MAX = Inr (toks_bytes (auth_rsp_toks ?w))"
    using zcbor_encoder.cbor_encode_auth_rsp_ref[OF enc] enc_auth_rsp[OF v(2)] l(3) by (simp add: auth_respond_status_def emit_toks_def)
  have "\<exists>d'. pouch_prov_handle_auth E (toks_bytes (auth_req_toks ?v)) POUCH_PROV_MSG_MAX (?d\<lparr>active := a\<rparr>) = Some (Inr (toks_bytes (auth_rsp_toks ?w)), d') \<and> authorized d'" for a
    using good_proof_authorizes[OF auth_decodes[OF v(1)], of "?d\<lparr>active := a\<rparr>" K POUCH_PROV_MSG_MAX] c K a3 e by simp
  from auth_exchange[OF s l this, of "cli_decode_auth_proof_rsp (lib_cbor2 L)"] m auth_rsp_read(2)[OF v(2)] show ?thesis by (auto simp: on_ok_def)
qed

lemma take_token: "\<exists>n w. abind (aworld (link_token T 16)) f s = f n (s\<lparr>ps_world := w\<rparr>) \<and> length n = 16 \<and> dev w = dev (ps_world s) \<and>
    n = fst (link_token T 16 (ps_world s))"
proof -
  obtain n w where "link_token T 16 (ps_world s) = (n, w)" "length n = 16" "dev w = dev (ps_world s)" using token by blast
  then show ?thesis by (intro exI[of _ n] exI[of _ w]) (simp add: abind_def aworld_def)
qed

lemma session_world: "ready_session E dev s \<Longrightarrow> dev w = dev (ps_world s) \<Longrightarrow> ready_session E dev (s\<lparr>ps_world := w\<rparr>) \<and> auth_kept dev s (s\<lparr>ps_world := w\<rparr>)"
  by (simp add: ready_session_def plain_session_def auth_kept_def)

lemma auth_kept_trans: "auth_kept dev s s' \<Longrightarrow> auth_kept dev s' s'' \<Longrightarrow> auth_kept dev s s''"
  by (simp add: auth_kept_def Let_def)

lemma authorize_succeeds:
  assumes s: "ready_session E dev s" and K: "pop (config (dev (ps_world s))) = Some K" and at: "attempts (auth (dev (ps_world s))) < 3"
  shows "\<exists>s'. authorize L T K s = Some (Inr (), s') \<and> ready_session E dev s' \<and> auth_kept dev s s' \<and> authorized (dev (ps_world s'))"
proof -
  obtain n w where w: "authorize L T K s =
      abind (exchange_msg L T PATH_AUTH (cli_encode_auth_challenge (lib_cbor2 L) n) (cli_decode_auth_challenge_rsp (lib_cbor2 L))) (\<lambda>(dev_nonce, dev_proof).
        if dev_proof \<noteq> device_proof L K n dev_nonce then alift (Inl AuthError)
        else exchange_msg L T PATH_AUTH (cli_encode_auth_proof (lib_cbor2 L) (client_proof L K dev_nonce n)) (cli_decode_auth_proof_rsp (lib_cbor2 L)))
      (s\<lparr>ps_world := w\<rparr>)" "length n = 16" "dev w = dev (ps_world s)"
    unfolding authorize_def using take_token by blast
  let ?s = "s\<lparr>ps_world := w\<rparr>"
  note r = session_world[OF s w(3)]
  obtain t q where t: "exchange_msg L T PATH_AUTH (cli_encode_auth_challenge (lib_cbor2 L) n) (cli_decode_auth_challenge_rsp (lib_cbor2 L)) ?s =
      Some (Inr (q, lib_hmac L K (str_bytes ''dev'' @ n @ q)), t)" "ready_session E dev t" "auth_kept dev ?s t"
    "auth (dev (ps_world t)) = \<lparr>cli_nonce = n, dev_nonce = q, challenged = True, attempts = attempts (auth (dev (ps_world s)))\<rparr>"
    using challenge_exchange[of ?s K n] r K w(2,3) by auto
  have "pop (config (dev (ps_world t))) = Some K" using t(3) K w(3) by (simp add: auth_kept_def Let_def)
  from proof_exchange[OF t(2) this] t(4) at obtain s' where s': "exchange_msg L T PATH_AUTH (cli_encode_auth_proof (lib_cbor2 L) (lib_hmac L K (str_bytes ''cli'' @ q @ n)))
      (cli_decode_auth_proof_rsp (lib_cbor2 L)) t = Some (Inr (), s')" "ready_session E dev s'" "auth_kept dev t s'" "authorized (dev (ps_world s'))" by auto
  have "authorize L T K s = Some (Inr (), s')"
    unfolding w(1) using t(1) s'(1) by (simp add: abind_def device_proof_def client_proof_def auth_proof_def)
  moreover have "auth_kept dev s s'" using r t(3) s'(3) auth_kept_trans by blast
  ultimately show ?thesis using s' by blast
qed

lemma authorize_wrong_secret:
  assumes s: "ready_session E dev s" and K: "pop (config (dev (ps_world s))) = Some K"
    and n: "n = fst (link_token T 16 (ps_world s))" and ne: "\<And>q. length q = 16 \<Longrightarrow> lib_hmac L K (str_bytes ''dev'' @ n @ q) \<noteq> lib_hmac L secret (str_bytes ''dev'' @ n @ q)"
  shows "\<exists>s'. authorize L T secret s = Some (Inl AuthError, s') \<and> ready_session E dev s' \<and> auth_kept dev s s' \<and>
    authorized (dev (ps_world s')) = authorized (dev (ps_world s)) \<and> attempts (auth (dev (ps_world s'))) = attempts (auth (dev (ps_world s)))"
proof -
  obtain w where w: "authorize L T secret s =
      abind (exchange_msg L T PATH_AUTH (cli_encode_auth_challenge (lib_cbor2 L) n) (cli_decode_auth_challenge_rsp (lib_cbor2 L))) (\<lambda>(dev_nonce, dev_proof).
        if dev_proof \<noteq> device_proof L secret n dev_nonce then alift (Inl AuthError)
        else exchange_msg L T PATH_AUTH (cli_encode_auth_proof (lib_cbor2 L) (client_proof L secret dev_nonce n)) (cli_decode_auth_proof_rsp (lib_cbor2 L)))
      (s\<lparr>ps_world := w\<rparr>)" "length n = 16" "dev w = dev (ps_world s)"
    unfolding authorize_def n using take_token by blast
  let ?s = "s\<lparr>ps_world := w\<rparr>"
  note r = session_world[OF s w(3)]
  obtain t q where t: "exchange_msg L T PATH_AUTH (cli_encode_auth_challenge (lib_cbor2 L) n) (cli_decode_auth_challenge_rsp (lib_cbor2 L)) ?s =
      Some (Inr (q, lib_hmac L K (str_bytes ''dev'' @ n @ q)), t)" "ready_session E dev t" "length q = 16" "auth_kept dev ?s t"
    "attempts (auth (dev (ps_world t))) = attempts (auth (dev (ps_world s)))" "authorized (dev (ps_world t)) = authorized (dev (ps_world s))"
    using challenge_exchange[of ?s K n] r K w(2,3) by auto
  have "authorize L T secret s = Some (Inl AuthError, t)"
    unfolding w(1) using t(1) ne[OF t(3)] by (simp add: abind_def device_proof_def auth_proof_def)
  then show ?thesis using t r auth_kept_trans by blast
qed

end

end
