(* ===== verification/Client_Upload.thy ===== *)
theory Client_Upload
  imports Client_Device
begin

text \<open>
  The credential upload of the client against the credential store of the device: chunks, the
  check of the running count, and finalize.
\<close>

text \<open>A device with the credential endpoint, whose settings can be written.\<close>

locale cred_link = codec_link L E T dev split RE RD
  for L :: libs and E :: "('e, 'd) env" and T :: "'w link" and dev and split and RE RD +
  assumes cred_config: "CONFIG_POUCH_PROV_CRED E" and saves: "settings_save_one E k v t = rc_ok"

definition cred_ep :: "('e, 'd) env \<Rightarrow> pouch_prov_endpoint" where
  "cred_ep E = \<lparr>ep_path = POUCH_PROV_PATH_CRED, ep_handler = pouch_prov_handle_cred E, ep_require_auth = True\<rparr>"

lemma cred_ep_sel [simp]: "ep_path (cred_ep E) = PATH_CRED" "ep_handler (cred_ep E) = pouch_prov_handle_cred E" "ep_require_auth (cred_ep E)"
  by (simp_all add: cred_ep_def PATH_CRED_def path_defs)

text \<open>A session with a running device that is ready for the next request and may use the gated endpoints.\<close>

definition open_session :: "('e, 'd) env \<Rightarrow> ('w \<Rightarrow> device) \<Rightarrow> 'w ProvSession \<Rightarrow> bool" where
  "open_session E dev s \<longleftrightarrow> ready_session E dev s \<and> running (dev (ps_world s)) \<and> pouch_prov_session_authorized (dev (ps_world s))"

lemma cred_only_authorized: "cred_only d d' \<Longrightarrow> pouch_prov_session_authorized d' = pouch_prov_session_authorized d"
  using cred_onlyD[of d d'] by (simp add: pouch_prov_session_authorized_def)

lemma finalize_loop_saves:
  assumes "\<And>k v t. settings_save_one E k v t = rc_ok"
  shows "finalize_loop E ks d = Some (r, d') \<Longrightarrow> r = rc_ok"
proof (induction ks arbitrary: d)
  case (Cons k ks)
  then show ?case using assms by (auto simp: Let_def split: if_splits bind_splits)
qed simp

lemma finalize_saves:
  assumes "\<And>k v t. settings_save_one E k v t = rc_ok" and "pouch_prov_cred_finalize E d = Some (r, d')"
  shows "r \<noteq> rc_err EIO"
proof
  assume "r = rc_err EIO"
  with assms(2) obtain r' d0 where "finalize_loop E [0, 1, 2] d = Some (r', d0)" "r' \<noteq> rc_ok"
    by (auto simp: pouch_prov_cred_finalize_def Let_def split: if_splits bind_splits simp del: finalize_loop.simps)
  with finalize_loop_saves[OF assms(1)] show False by blast
qed

primrec kind_max :: "CredKind \<Rightarrow> nat" where
  "kind_max CredKind_DEVICE_CERT = DEVICE_CERT_MAX"
| "kind_max CredKind_PRIVATE_KEY = PRIVATE_KEY_MAX"
| "kind_max CredKind_CA_CERT = CA_CERT_MAX"

lemma cap_kind: "cred_inv d \<Longrightarrow> cap (blobs d ! CredKind_int k) = kind_max k"
proof -
  assume inv: "cred_inv d"
  have "cap (blobs d ! CredKind_int k) = map cap (blobs d) ! CredKind_int k" using cred_inv_length[OF inv] by (cases k) simp_all
  then show ?thesis using inv by (cases k) (simp_all add: cred_inv_def)
qed

lemma stage_active:
  "pouch_prov_cred_stage k off tot data d = Some (r, d') \<Longrightarrow> pouch_prov_cred_stage k off tot data (d\<lparr>active := a\<rparr>) = Some (r, d'\<lparr>active := a\<rparr>)"
  by (auto simp: pouch_prov_cred_stage_def kind_valid_def Let_def split: if_splits bind_splits)

context cred_link begin

lemma cred_decodes: "cred_req_ok v \<Longrightarrow> cbor_decode_cred_req (zdec E) (toks_bytes (cred_req_toks v)) = Some (v, length (toks_bytes (cred_req_toks v)))"
  by (rule requests_read(4)[OF dec])

lemma cred_endpoint_listed: "cred_ep E \<in> set (endpoints E)"
  using cred_config by (simp add: endpoints_def cred_ep_def)

lemma cred_answer:
  assumes "cred_rsp_ok v" and "length (toks_bytes (cred_rsp_toks v)) \<le> n"
  shows "cred_respond E n v = Inr (toks_bytes (cred_rsp_toks v))"
  using zcbor_encoder.cbor_encode_cred_rsp_ref[OF enc] enc_cred_rsp[OF assms(1)] assms(2) by (simp add: cred_respond_def emit_toks_def)

lemma cred_exchange:
  assumes s: "open_session E dev s" and m: "length m \<le> POUCH_PROV_MSG_MAX" and r: "rsp \<noteq> []" "length rsp \<le> POUCH_PROV_MSG_MAX"
    and h: "\<And>a. \<exists>d'. pouch_prov_handle_cred E m POUCH_PROV_MSG_MAX ((dev (ps_world s))\<lparr>active := a\<rparr>) = Some (Inr rsp, d') \<and>
      P (blobs d') (settings_of (trace d'))"
  shows "\<exists>s'. exchange_msg L T PATH_CRED (Inr m) decode s = Some (decode rsp, s') \<and> open_session E dev s' \<and>
    P (blobs (dev (ps_world s'))) (settings_of (trace (dev (ps_world s'))))"
proof -
  let ?d = "dev (ps_world s)"
  let ?Q = "\<lambda>d'. (\<exists>a. cred_only (?d\<lparr>active := a\<rparr>) d') \<and> P (blobs d') (settings_of (trace d'))"
  have "\<exists>d'. ep_handler (cred_ep E) m POUCH_PROV_MSG_MAX (?d\<lparr>active := a\<rparr>) = Some (Inr rsp, d') \<and> fifo_of (trace d') = [] \<and> ?Q d'"
    if inv: "device_inv E (?d\<lparr>active := a\<rparr>)" for a
  proof -
    obtain d' where d': "pouch_prov_handle_cred E m POUCH_PROV_MSG_MAX (?d\<lparr>active := a\<rparr>) = Some (Inr rsp, d')" "P (blobs d') (settings_of (trace d'))"
      using h by blast
    have o: "cred_only (?d\<lparr>active := a\<rparr>) d'" using handle_cred_effect[OF inv, of m POUCH_PROV_MSG_MAX] d'(1) by auto
    have "fifo_of (trace d') = []" using cred_onlyD(12)[OF o] s by (simp add: rpc_same_def open_session_def ready_session_def)
    with d' o show ?thesis by auto
  qed
  then obtain s' d' where s': "exchange_msg L T PATH_CRED (Inr m) decode s = Some (decode rsp, s')" "plain_session s'" "?Q d'"
    "answered d' (dev (ps_world s'))" "device_inv E (dev (ps_world s'))"
    using exchange_served[OF _ _ _ cred_endpoint_listed _ m r, of s ?Q decode] s by (auto simp: open_session_def ready_session_def)
  then obtain a where a: "cred_only (?d\<lparr>active := a\<rparr>) d'" by blast
  have l: "only_log d' (dev (ps_world s'))" using s'(4) by (simp add: answered_def)
  have "pouch_prov_session_authorized d'" using cred_only_authorized[OF a] s by (simp add: open_session_def pouch_prov_session_authorized_def)
  then have "pouch_prov_session_authorized (dev (ps_world s'))" "running (dev (ps_world s'))"
    using only_logD[OF l] cred_onlyD(3)[OF a] s by (simp_all add: pouch_prov_session_authorized_def open_session_def)
  with s' only_logD(4)[OF l] show ?thesis by (auto simp: open_session_def ready_session_def answered_def)
qed

lemma write_exchange:
  assumes s: "open_session E dev s" and tot: "tot \<le> cap (blobs (dev (ps_world s)) ! CredKind_int k)" and c: "length c \<le> 256"
    and u: "off = 0 \<and> x = [] \<or> upload_of (blobs (dev (ps_world s)) ! CredKind_int k) = \<lparr>up_expected = tot, up_data = x\<rparr> \<and> off = length x"
    and fits: "off + length c \<le> tot"
  shows "\<exists>s' b. exchange_msg L T PATH_CRED (Inr (cli_encode_cred_write (lib_cbor2 L) k (int off) (int tot) c)) (cli_decode_cred_write_rsp (lib_cbor2 L)) s =
      Some (Inr (int (off + length c)), s') \<and> open_session E dev s' \<and>
    blobs (dev (ps_world s')) = (blobs (dev (ps_world s)))[CredKind_int k := b] \<and>
    settings_of (trace (dev (ps_world s'))) = settings_of (trace (dev (ps_world s))) \<and>
    cap b = cap (blobs (dev (ps_world s)) ! CredKind_int k) \<and> upload_of b = \<lparr>up_expected = tot, up_data = x @ c\<rparr>"
proof -
  let ?d = "dev (ps_world s)" and ?k = "CredKind_int k"
  let ?c = "\<lparr>cred_chunk_kind = ?k, cred_chunk_off = of_nat off, cred_chunk_total = of_nat tot, cred_chunk_data = c\<rparr>"
  let ?v = "cred_req_cred_write_m ?c" and ?w = "cred_rsp_cred_write_rsp_m 0 (of_nat (off + length c))"
  have k3: "?k < 3" by (cases k) simp_all
  have cinv: "cred_inv ?d" using s by (simp add: open_session_def ready_session_def device_inv_def)
  have small: "tot \<le> 2048" using cap_nth[OF cinv k3] tot by simp
  then have un: "unat (of_nat off :: u32) = off" "unat (of_nat tot :: u32) = tot" "unat (of_nat (off + length c) :: u32) = off + length c"
    using fits by (intro unat_of_nat_small, simp)+
  then have ui: "uint (of_nat off :: u32) = int off" "uint (of_nat tot :: u32) = int tot" "uint (of_nat (off + length c) :: u32) = int (off + length c)"
    by (metis uint_nat)+
  have v: "cred_req_ok ?v" "cred_rsp_ok ?w" using k3 c by (simp_all add: status_ok_def)
  have m: "cli_encode_cred_write (lib_cbor2 L) k (int off) (int tot) c = toks_bytes (cred_req_toks ?v)"
    using cred_write_match[of ?c k] c ui by simp
  have l: "length (toks_bytes (cred_req_toks ?v)) \<le> POUCH_PROV_MSG_MAX" "toks_bytes (cred_rsp_toks ?w) \<noteq> []" "length (toks_bytes (cred_rsp_toks ?w)) \<le> POUCH_PROV_MSG_MAX"
    using k3 c small fits un by (simp_all add: POUCH_PROV_MSG_MAX_def length_cbor_head u32_tok_def cred_chunk_toks_def)
  obtain b' where b': "pouch_prov_cred_stage ?k (of_nat off) (of_nat tot) c ?d = Some (Inr (off + length c), ?d\<lparr>blobs := (blobs ?d)[?k := b']\<rparr>)"
    "cap b' = cap (blobs ?d ! ?k)" "upload_of b' = \<lparr>up_expected = tot, up_data = x @ c\<rparr>"
  proof -
    obtain r b' where st: "pouch_prov_cred_stage ?k (of_nat off) (of_nat tot) c ?d = Some (r, ?d\<lparr>blobs := (blobs ?d)[?k := b']\<rparr>)"
      "cap b' = cap (blobs ?d ! ?k)" and w: "up_write (cap (blobs ?d ! ?k)) off tot c (upload_of (blobs ?d ! ?k)) = (r, upload_of b')"
      using stage_refines[OF cinv k3, of "of_nat off" "of_nat tot" c] un by metis
    have "up_write (cap (blobs ?d ! ?k)) off tot c (upload_of (blobs ?d ! ?k)) = (Inr (off + length c), \<lparr>up_expected = tot, up_data = x @ c\<rparr>)"
      using tot u fits by (cases "off = 0") (auto simp: up_write_def)
    with st w that show thesis by auto
  qed
  have st: "pouch_prov_cred_stage ?k (of_nat off) (of_nat tot) c (?d\<lparr>active := a\<rparr>) =
    Some (Inr (off + length c), ?d\<lparr>active := a, blobs := (blobs ?d)[?k := b']\<rparr>)" for a
    using stage_active[OF b'(1)] by simp
  have "\<exists>d'. pouch_prov_handle_cred E (toks_bytes (cred_req_toks ?v)) POUCH_PROV_MSG_MAX (?d\<lparr>active := a\<rparr>) = Some (Inr (toks_bytes (cred_rsp_toks ?w)), d') \<and>
    (blobs d' = (blobs ?d)[?k := b'] \<and> settings_of (trace d') = settings_of (trace ?d))" for a
    using cred_answer[OF v(2) l(3)] unfolding pouch_prov_handle_cred_def cred_decodes[OF v(1)] by (simp add: st status_map_def)
  from cred_exchange[OF s l this, of "cli_decode_cred_write_rsp (lib_cbor2 L)"] m b'(2,3) cred_rsp_read(1)[of 0 "of_nat (off + length c)"] ui(3)
  show ?thesis by (auto simp: on_ok_def status_ok_def)
qed

text \<open>The whole of one credential.\<close>

lemma push_from:
  assumes "open_session E dev s" and "length der \<le> cap (blobs (dev (ps_world s)) ! CredKind_int k)" and "0 < chunk" "chunk \<le> 256"
    and "off = 0 \<and> der \<noteq> [] \<or> upload_of (blobs (dev (ps_world s)) ! CredKind_int k) = \<lparr>up_expected = length der, up_data = take off der\<rparr>" and "off \<le> length der"
  shows "\<exists>s' b. push_chunks L T k der chunk off s = Some (Inr (), s') \<and> open_session E dev s' \<and>
    blobs (dev (ps_world s')) = (blobs (dev (ps_world s)))[CredKind_int k := b] \<and>
    settings_of (trace (dev (ps_world s'))) = settings_of (trace (dev (ps_world s))) \<and> upload_of b = \<lparr>up_expected = length der, up_data = der\<rparr>"
  using assms
proof (induction "length der - off" arbitrary: off s rule: less_induct)
  case less
  let ?k = "CredKind_int k" and ?d = "dev (ps_world s)"
  show ?case
  proof (cases "off < length der")
    case False
    then have "upload_of (blobs ?d ! ?k) = \<lparr>up_expected = length der, up_data = der\<rparr>" using less.prems(5,6) by auto
    then show ?thesis using False less.prems(1) by (intro exI[of _ s] exI[of _ "blobs ?d ! ?k"]) (subst push_chunks.simps, simp)
  next
    case True
    let ?p = "take chunk (drop off der)"
    have p: "length ?p \<le> 256" "off + length ?p \<le> length der" "0 < length ?p" "take off der @ ?p = take (off + length ?p) der"
      using True less.prems(3,4) by (auto simp: take_add min_def)
    obtain t b where t: "exchange_msg L T PATH_CRED (Inr (cli_encode_cred_write (lib_cbor2 L) k (int off) (int (length der)) ?p)) (cli_decode_cred_write_rsp (lib_cbor2 L)) s =
        Some (Inr (int (off + length ?p)), t)" "open_session E dev t" "blobs (dev (ps_world t)) = (blobs ?d)[?k := b]"
      "settings_of (trace (dev (ps_world t))) = settings_of (trace ?d)" "cap b = cap (blobs ?d ! ?k)"
      "upload_of b = \<lparr>up_expected = length der, up_data = take off der @ ?p\<rparr>"
      using write_exchange[OF less.prems(1,2) p(1) _ p(2), of "take off der"] less.prems(5,6) by auto
    have l: "?k < length (blobs ?d)" using less.prems(1) by (cases k) (simp_all add: open_session_def ready_session_def device_inv_def cred_inv_length)
    have dec: "length der - (off + length ?p) < length der - off" using True p(3) by linarith
    from less.hyps[OF dec t(2)] p less.prems(2-4) t l obtain s' b' where
      s': "push_chunks L T k der chunk (off + length ?p) t = Some (Inr (), s')" "open_session E dev s'"
      "blobs (dev (ps_world s')) = (blobs (dev (ps_world t)))[?k := b']" "settings_of (trace (dev (ps_world s'))) = settings_of (trace (dev (ps_world t)))"
      "upload_of b' = \<lparr>up_expected = length der, up_data = der\<rparr>"
      by auto
    have "push_chunks L T k der chunk off s = Some (Inr (), s')"
      using True t(1) s'(1) by (subst push_chunks.simps) (simp add: Let_def)
    with s' t(3,4) show ?thesis by (intro exI[of _ s'] exI[of _ b']) simp
  qed
qed

text \<open>The store after an upload: what a complete blob holds.\<close>

lemma complete_blob:
  assumes "cred_inv d" and "k < 3" and "upload_of (blobs d ! k) = \<lparr>up_expected = length der, up_data = der\<rparr>" and "der \<noteq> []"
  shows "Cred_Store.ready (blobs d ! k)" "staged_data (blobs d ! k) = der"
proof -
  have u: "expected (blobs d ! k) = length der" "take (staged (blobs d ! k)) (buf (blobs d ! k)) = der"
    using assms(3) by (simp_all add: upload_of_def)
  have "length (take (staged (blobs d ! k)) (buf (blobs d ! k))) = staged (blobs d ! k)"
    using cred_inv_nth[OF assms(1,2)] by (simp add: blob_inv_def)
  with u assms(4) show "Cred_Store.ready (blobs d ! k)" "staged_data (blobs d ! k) = der"
    by (auto simp: Cred_Store.ready_def staged_data_def)
qed

lemma finalize_exchange:
  assumes s: "open_session E dev s" and r: "Cred_Store.ready (blobs (dev (ps_world s)) ! 0)" "Cred_Store.ready (blobs (dev (ps_world s)) ! 1)"
    and der: "der_spans (staged_data (blobs (dev (ps_world s)) ! 0))"
  shows "\<exists>s'. exchange_msg L T PATH_CRED (Inr (cli_encode_cred_finalize (lib_cbor2 L))) (cli_decode_cred_finalize_rsp (lib_cbor2 L)) s =
      Some (Inr (), s') \<and> open_session E dev s' \<and>
    (\<forall>k<3. Cred_Store.ready (blobs (dev (ps_world s)) ! k) \<longrightarrow>
       pouch_prov_cred_get k (dev (ps_world s')) = Some (staged_data (blobs (dev (ps_world s)) ! k)) \<and>
       stored k (dev (ps_world s')) = Some (staged_data (blobs (dev (ps_world s)) ! k)))"
proof -
  let ?d = "dev (ps_world s)" and ?v = cred_req_cred_finalize_m and ?w = "cred_rsp_cred_finalize_rsp_m 0"
  let ?P = "\<lambda>bs st. \<forall>k<3. Cred_Store.ready (blobs ?d ! k) \<longrightarrow> (if \<not> (k < length bs \<and> 0 < len (bs ! k)) then None else Some (take (len (bs ! k)) (buf (bs ! k)))) =
      Some (staged_data (blobs ?d ! k)) \<and> map_of st (setting_key ! k) = Some (staged_data (blobs ?d ! k))"
  have P: "?P (blobs d) (settings_of (trace d)) \<longleftrightarrow> (\<forall>k<3. Cred_Store.ready (blobs ?d ! k) \<longrightarrow>
      pouch_prov_cred_get k d = Some (staged_data (blobs ?d ! k)) \<and> stored k d = Some (staged_data (blobs ?d ! k)))" for d
    by (simp only: pouch_prov_cred_get_def pouch_prov_cred_present_def kind_valid_def stored_def)
  have v: "cred_req_ok ?v" "cred_rsp_ok ?w" by (simp_all add: status_ok_def)
  have l: "length (toks_bytes (cred_req_toks ?v)) \<le> POUCH_PROV_MSG_MAX" "toks_bytes (cred_rsp_toks ?w) \<noteq> []" "length (toks_bytes (cred_rsp_toks ?w)) \<le> POUCH_PROV_MSG_MAX"
    by (simp_all add: POUCH_PROV_MSG_MAX_def length_cbor_head)
  have "\<exists>d'. pouch_prov_handle_cred E (toks_bytes (cred_req_toks ?v)) POUCH_PROV_MSG_MAX (?d\<lparr>active := a\<rparr>) = Some (Inr (toks_bytes (cred_rsp_toks ?w)), d') \<and>
    ?P (blobs d') (settings_of (trace d'))" for a
  proof -
    let ?a = "?d\<lparr>active := a\<rparr>"
    have c: "cred_inv ?a" using s by (simp add: open_session_def ready_session_def device_inv_def cred_inv_def)
    obtain r' d' where f: "pouch_prov_cred_finalize E ?a = Some (r', d')" "finalize_outcome E ?a r' d'" using finalize_total[OF c] by blast
    have "r' \<noteq> rc_err EIO" using finalize_saves[OF saves f(1)] .
    with f(2) r der have ok: "r' = rc_ok" by (auto simp: finalize_outcome_def)
    with f(2) r der obtain d0 where d0: "persisted [0, 1, 2] ?a rc_ok d0" "d' = pouch_prov_emit E POUCH_PROV_EVENT_CLOUD_CRED_STORED None d0"
      by (auto simp: finalize_outcome_def)
    have "?P (blobs d') (settings_of (trace d'))" unfolding P using persisted_get[OF d0(1) c] d0(2) by simp
    moreover have "pouch_prov_handle_cred E (toks_bytes (cred_req_toks ?v)) POUCH_PROV_MSG_MAX ?a = Some (Inr (toks_bytes (cred_rsp_toks ?w)), d')"
      using cred_answer[OF v(2) l(3)] f(1) ok unfolding pouch_prov_handle_cred_def cred_decodes[OF v(1)] by (simp add: status_map_def)
    ultimately show ?thesis by blast
  qed
  from cred_exchange[OF s l this, of "cli_decode_cred_finalize_rsp (lib_cbor2 L)"] requests_match(8) cred_rsp_read(2)[of 0]
  show ?thesis unfolding P by (auto simp: on_ok_def status_ok_def)
qed

lemma open_cred_inv: "open_session E dev s \<Longrightarrow> cred_inv (dev (ps_world s))"
  by (simp add: open_session_def ready_session_def device_inv_def)

lemma push_whole:
  assumes s: "open_session E dev s" and der: "der \<noteq> []" "length der \<le> kind_max k" and chunk: "0 < chunk" "chunk \<le> 256"
  shows "\<exists>s'. push_credential L T k der chunk s = Some (Inr (), s') \<and> open_session E dev s' \<and>
    Cred_Store.ready (blobs (dev (ps_world s')) ! CredKind_int k) \<and> staged_data (blobs (dev (ps_world s')) ! CredKind_int k) = der \<and>
    (\<forall>j. j \<noteq> CredKind_int k \<longrightarrow> blobs (dev (ps_world s')) ! j = blobs (dev (ps_world s)) ! j)"
proof -
  let ?k = "CredKind_int k"
  have k3: "?k < 3" by (cases k) simp_all
  obtain s' b where s': "push_chunks L T k der chunk 0 s = Some (Inr (), s')" "open_session E dev s'"
    "blobs (dev (ps_world s')) = (blobs (dev (ps_world s)))[?k := b]" "upload_of b = \<lparr>up_expected = length der, up_data = der\<rparr>"
    using push_from[OF s _ chunk, of der k 0] der cap_kind[OF open_cred_inv[OF s]] by auto
  have "upload_of (blobs (dev (ps_world s')) ! ?k) = \<lparr>up_expected = length der, up_data = der\<rparr>"
    using s'(3,4) k3 cred_inv_length[OF open_cred_inv[OF s]] by simp
  note c = complete_blob[OF open_cred_inv[OF s'(2)] k3 this der(1)]
  show ?thesis using s' c by (intro exI[of _ s']) (auto simp: push_credential_def)
qed

lemma bootstrap_stores:
  assumes s: "open_session E dev s" and cert: "der_spans cert" "length cert \<le> DEVICE_CERT_MAX" and key: "key \<noteq> []" "length key \<le> PRIVATE_KEY_MAX"
    and ca: "\<And>c. ca = Some c \<Longrightarrow> c \<noteq> [] \<and> length c \<le> CA_CERT_MAX"
  shows "\<exists>s'. bootstrap_credentials L T cert key ca s = Some (Inr (), s') \<and> open_session E dev s' \<and>
    (\<forall>k v. (k, Some v) \<in> {(0, Some cert), (1, Some key), (2, ca)} \<longrightarrow>
       pouch_prov_cred_get k (dev (ps_world s')) = Some v \<and> stored k (dev (ps_world s')) = Some v)"
proof -
  let ?R = "\<lambda>s k v. Cred_Store.ready (blobs (dev (ps_world s)) ! k) \<and> staged_data (blobs (dev (ps_world s)) ! k) = v"
  have ne: "cert \<noteq> []" using cert(1) by (auto simp: der_spans_def)
  obtain s1 where s1: "push_credential L T CredKind_DEVICE_CERT cert 256 s = Some (Inr (), s1)" "open_session E dev s1" "?R s1 0 cert"
    using push_whole[OF s ne, of CredKind_DEVICE_CERT 256] cert(2) by auto
  obtain s2 where s2: "push_credential L T CredKind_PRIVATE_KEY key 256 s1 = Some (Inr (), s2)" "open_session E dev s2" "?R s2 0 cert" "?R s2 1 key"
    using push_whole[OF s1(2) key(1), of CredKind_PRIVATE_KEY 256] key(2) s1(3) by auto
  obtain s3 where s3: "(case ca of Some c \<Rightarrow> push_credential L T CredKind_CA_CERT c 256 | None \<Rightarrow> aret ()) s2 = Some (Inr (), s3)" "open_session E dev s3"
    "?R s3 0 cert" "?R s3 1 key" "\<And>c. ca = Some c \<Longrightarrow> ?R s3 2 c"
  proof (cases ca)
    case None
    with s2 that[of s2] show thesis by simp
  next
    case (Some c)
    from push_whole[OF s2(2), of c CredKind_CA_CERT 256] ca[OF Some] obtain t where
      "push_credential L T CredKind_CA_CERT c 256 s2 = Some (Inr (), t)" "open_session E dev t" "?R t 2 c"
      "\<And>j. j \<noteq> 2 \<Longrightarrow> blobs (dev (ps_world t)) ! j = blobs (dev (ps_world s2)) ! j" by auto
    with Some s2 that[of t] show thesis by simp
  qed
  obtain s' where s': "exchange_msg L T PATH_CRED (Inr (cli_encode_cred_finalize (lib_cbor2 L))) (cli_decode_cred_finalize_rsp (lib_cbor2 L)) s3 = Some (Inr (), s')"
    "open_session E dev s'" "\<And>k. k < 3 \<Longrightarrow> Cred_Store.ready (blobs (dev (ps_world s3)) ! k) \<Longrightarrow>
       pouch_prov_cred_get k (dev (ps_world s')) = Some (staged_data (blobs (dev (ps_world s3)) ! k)) \<and>
       stored k (dev (ps_world s')) = Some (staged_data (blobs (dev (ps_world s3)) ! k))"
    using finalize_exchange[OF s3(2)] s3(3,4) cert(1) by auto
  have "bootstrap_credentials L T cert key ca s = Some (Inr (), s')"
    using s1(1) s2(1) s3(1) s'(1) by (simp add: bootstrap_credentials_def abind_def)
  moreover have "pouch_prov_cred_get k (dev (ps_world s')) = Some v \<and> stored k (dev (ps_world s')) = Some v"
    if "(k, Some v) \<in> {(0, Some cert), (1, Some key), (2, ca)}" for k v
  proof -
    from that consider "k = 0" "v = cert" | "k = 1" "v = key" | "k = 2" "ca = Some v" by auto
    then show ?thesis using s'(3)[of k] s3(3,4) s3(5)[of v] by cases simp_all
  qed
  ultimately show ?thesis using s'(2) by blast
qed

end

end
