(* ===== verification/Client_Provision.thy ===== *)
theory Client_Provision
  imports Client_Upload
begin

text \<open>
  The provisioning command of the client run against the device, from the version request to the
  end of the session.
\<close>

locale provision_link = auth_link L E T dev split RE RD + cred_link L E T dev split RE RD
  for L :: libs and E :: "('e, 'd) env" and T :: "'w link" and dev and split and RE RD +
  assumes block_size: "408 \<le> CONFIG_POUCH_BLOCK_SIZE E"

subsection \<open>The version\<close>

definition ver_ep :: "('e, 'd) env \<Rightarrow> pouch_prov_endpoint" where
  "ver_ep E = \<lparr>ep_path = POUCH_PROV_PATH_VER, ep_handler = pouch_prov_handle_ver E, ep_require_auth = False\<rparr>"

definition ctrl_ep :: "('e, 'd) env \<Rightarrow> pouch_prov_endpoint" where
  "ctrl_ep E = \<lparr>ep_path = POUCH_PROV_PATH_CTRL, ep_handler = pouch_prov_handle_ctrl E, ep_require_auth = True\<rparr>"

lemma ver_ep_sel [simp]: "ep_path (ver_ep E) = PATH_VER" "ep_handler (ver_ep E) = pouch_prov_handle_ver E" "\<not> ep_require_auth (ver_ep E)"
  "ver_ep E \<in> set (endpoints E)"
  by (simp_all add: ver_ep_def PATH_VER_def path_defs endpoints_def)

lemma ctrl_ep_sel [simp]: "ep_path (ctrl_ep E) = PATH_CTRL" "ep_handler (ctrl_ep E) = pouch_prov_handle_ctrl E" "ep_require_auth (ctrl_ep E)"
  "ctrl_ep E \<in> set (endpoints E)"
  by (simp_all add: ctrl_ep_def PATH_CTRL_def path_defs endpoints_def)

definition VersionInfo_at :: "('e, 'd) env \<Rightarrow> device \<Rightarrow> VersionInfo" where
  "VersionInfo_at E d = VersionInfo_of (ver_rsp_ver_info_m (ver_out E d))"

lemma ver_out_ok: "ver_rsp_ok (ver_out E d)" "ver_info_ok (ver_rsp_ver_info_m (ver_out E d))"
proof -
  have u: "utf8_ok (str_bytes ''wifi'')" "utf8_ok (str_bytes ''scan'')" "utf8_ok (str_bytes ''cred'')" "utf8_ok (str_bytes ''auth'')" "utf8_ok (str_bytes LIB_VERSION)"
    by code_simp+
  show "ver_rsp_ok (ver_out E d)" by (simp add: ver_rsp_ok_def ver_out_def ver_caps_def status_ok_def)
  show "ver_info_ok (ver_rsp_ver_info_m (ver_out E d))" using u
    by (auto simp: ver_info_ok_def ver_out_def ver_caps_def str_bytes_def LIB_VERSION_def)
qed

definition received_kinds :: "device \<Rightarrow> CredKind list" where
  "received_kinds d = filter (\<lambda>k. pouch_prov_cred_received (CredKind_int k) d \<noteq> 0) [CredKind_DEVICE_CERT, CredKind_PRIVATE_KEY, CredKind_CA_CERT]"

definition received_counts :: "device \<Rightarrow> (CredKind \<times> int) list" where
  "received_counts d = map (\<lambda>k. (k, int (pouch_prov_cred_received (CredKind_int k) d))) (received_kinds d)"

lemma status_entries_counts:
  "cred_status_entries [0, 1, 2] d = map count_entry (map (\<lambda>k. (k, of_nat (pouch_prov_cred_received (CredKind_int k) d))) (received_kinds d))"
  by (simp add: received_kinds_def count_entry_def kind_text_def key_name_def str_bytes_def Let_def numeral_2_eq_2)

lemma count_entries_size: "length (toks_bytes (concat (map map_tstruint_toks (map count_entry cs)))) \<le> 7 * length cs"
proof (induction cs)
  case (Cons c cs)
  obtain k n where "c = (k, n)" by (cases c)
  then have "length (toks_bytes (map_tstruint_toks (count_entry c))) \<le> 7"
    using u32_tok_size[of n] by (simp add: count_entry_def map_tstruint_toks_def kind_text_def cbor_head_def)
  with Cons show ?case by simp
qed simp

lemma received_bound: "cred_inv d \<Longrightarrow> pouch_prov_cred_received (CredKind_int k) d < 4294967296"
  using cred_inv_nth[of d "CredKind_int k"] cap_kind[of d k]
  by (cases k) (auto simp: pouch_prov_cred_received_def blob_inv_def DEVICE_CERT_MAX_def PRIVATE_KEY_MAX_def CA_CERT_MAX_def)

context provision_link begin

lemma get_version_reads:
  assumes s: "ready_session E dev s"
  shows "\<exists>s'. get_version L T s = Some (Inr (VersionInfo_at E (dev (ps_world s))), s') \<and> ready_session E dev s' \<and> auth_kept dev s s' \<and>
    auth (dev (ps_world s')) = auth (dev (ps_world s)) \<and> authorized (dev (ps_world s')) = authorized (dev (ps_world s))"
proof -
  let ?d = "dev (ps_world s)"
  let ?rsp = "toks_bytes (ver_rsp_toks (ver_out E ?d))"
  let ?Q = "\<lambda>d'. \<exists>a. d' = ?d\<lparr>active := a\<rparr>"
  have m: "cli_encode_ver_req (lib_cbor2 L) = [0x81, 0]" using requests_match(1) by (simp add: cbor_head_def)
  have l: "length [0x81, 0 :: u8] \<le> POUCH_PROV_MSG_MAX" "?rsp \<noteq> []" "length ?rsp \<le> POUCH_PROV_MSG_MAX"
    using ver_rsp_size[of E ?d] by (simp_all add: POUCH_PROV_MSG_MAX_def ver_rsp_toks_def)
  have o: "ver_out E (?d\<lparr>active := a\<rparr>) = ver_out E ?d" for a by (simp add: ver_out_def ver_caps_def)
  have "\<exists>d'. ep_handler (ver_ep E) [0x81, 0] POUCH_PROV_MSG_MAX (?d\<lparr>active := a\<rparr>) = Some (Inr ?rsp, d') \<and> fifo_of (trace d') = [] \<and> ?Q d'" for a
    using version_answered[OF enc dec, of "?d\<lparr>active := a\<rparr>"] s unfolding o by (auto simp: ready_session_def)
  from exchange_served[OF _ _ _ ver_ep_sel(4) _ l, of s ?Q "cli_decode_ver_rsp (lib_cbor2 L)"] this s obtain t a where
    t: "exchange_msg L T PATH_VER (Inr [0x81, 0]) (cli_decode_ver_rsp (lib_cbor2 L)) s = Some (cli_decode_ver_rsp (lib_cbor2 L) ?rsp, t)" "plain_session t"
    "answered (?d\<lparr>active := a\<rparr>) (dev (ps_world t))" "device_inv E (dev (ps_world t))" by (auto simp: ready_session_def)
  have r: "cli_decode_ver_rsp (lib_cbor2 L) ?rsp = Inr (VersionInfo_at E ?d)"
    using ver_rsp_read[OF ver_out_ok] by (simp add: on_ok_def VersionInfo_at_def ver_out_def)
  let ?s = "t\<lparr>ps_block_size := u32_py (CONFIG_POUCH_BLOCK_SIZE E)\<rparr>"
  have "get_version L T s = Some (Inr (VersionInfo_at E ?d), ?s)"
    using t(1) r by (simp add: get_version_def m abind_def VersionInfo_at_def VersionInfo_of_def ver_out_def cli_PROTO_VERSION_def PROTO_VERSION_def)
  moreover have "408 \<le> uint (CONFIG_POUCH_BLOCK_SIZE E)" using block_size by (simp add: word_le_def)
  then have "plain_session ?s" using t(2) by (auto simp: plain_session_def u32_py_def)
  moreover have l: "only_log (?d\<lparr>active := a\<rparr>) (dev (ps_world t))" using t(3) by (simp add: answered_def)
  moreover note only_logD[OF l]
  ultimately show ?thesis using t(3,4) by (intro exI[of _ ?s]) (simp add: ready_session_def auth_kept_def answered_def)
qed

lemma authorize_opens:
  assumes s: "ready_session E dev s" and run: "running (dev (ps_world s))" and K: "pop (config (dev (ps_world s))) \<noteq> Some []"
    and at: "attempts (auth (dev (ps_world s))) < 3"
  shows "\<exists>s'. authorize_if_needed L T (VersionInfo_at E (dev (ps_world s))) (pop (config (dev (ps_world s)))) s = Some (Inr (), s') \<and> open_session E dev s' \<and>
    auth_kept dev s s'"
proof (cases "pop (config (dev (ps_world s)))")
  case None
  then show ?thesis using s run by (intro exI[of _ s])
    (simp add: authorize_if_needed_def VersionInfo_at_def VersionInfo_of_def ver_out_def open_session_def pouch_prov_session_authorized_def auth_kept_def)
next
  case (Some p)
  obtain s' where s': "authorize L T p s = Some (Inr (), s')" "ready_session E dev s'" "auth_kept dev s s'" "authorized (dev (ps_world s'))"
    using authorize_succeeds[OF s Some at] by blast
  have "vi_pop_required (VersionInfo_at E (dev (ps_world s)))" using Some auth_config by (simp add: VersionInfo_at_def VersionInfo_of_def ver_out_def)
  then have "authorize_if_needed L T (VersionInfo_at E (dev (ps_world s))) (pop (config (dev (ps_world s)))) s = Some (Inr (), s')"
    using s'(1) Some K by (simp add: authorize_if_needed_def)
  moreover have "open_session E dev s'" using s'(2-4) run by (simp add: open_session_def pouch_prov_session_authorized_def auth_kept_def Let_def)
  ultimately show ?thesis using s'(3) by blast
qed

text \<open>The counts the device reports are the bytes it has received of each kind.\<close>

lemma cred_status_reads:
  assumes s: "open_session E dev s"
  shows "\<exists>s'. cred_status L T s = Some (Inr (received_counts (dev (ps_world s))), s') \<and> open_session E dev s' \<and>
    blobs (dev (ps_world s')) = blobs (dev (ps_world s)) \<and> settings_of (trace (dev (ps_world s'))) = settings_of (trace (dev (ps_world s)))"
proof -
  let ?d = "dev (ps_world s)" and ?v = cred_req_cred_get_status_m
  let ?cs = "map (\<lambda>k. (k, of_nat (pouch_prov_cred_received (CredKind_int k) ?d) :: u32)) (received_kinds ?d)"
  let ?w = "cred_rsp_cred_status_rsp_m 0 (map count_entry ?cs)"
  have kinds: "distinct (received_kinds ?d)" "length (received_kinds ?d) \<le> 3" by (simp_all add: received_kinds_def)
  have v: "cred_req_ok ?v" "cred_rsp_ok ?w" using kinds(2) by (simp_all add: status_ok_def)
  have l: "length (toks_bytes (cred_req_toks ?v)) \<le> POUCH_PROV_MSG_MAX" "toks_bytes (cred_rsp_toks ?w) \<noteq> []" "length (toks_bytes (cred_rsp_toks ?w)) \<le> POUCH_PROV_MSG_MAX"
    using count_entries_size[of ?cs] kinds(2) by (simp_all add: POUCH_PROV_MSG_MAX_def length_cbor_head)
  have "pouch_prov_cred_received k (?d\<lparr>active := a\<rparr>) = pouch_prov_cred_received k ?d" for a k
    by (simp add: pouch_prov_cred_received_def kind_valid_def)
  then have e: "cred_status_entries [0, 1, 2] (?d\<lparr>active := a\<rparr>) = map count_entry ?cs" for a
    using status_entries_counts[of "?d\<lparr>active := a\<rparr>"] by (simp add: received_kinds_def comp_def)
  have "\<exists>d'. pouch_prov_handle_cred E (toks_bytes (cred_req_toks ?v)) POUCH_PROV_MSG_MAX (?d\<lparr>active := a\<rparr>) = Some (Inr (toks_bytes (cred_rsp_toks ?w)), d') \<and>
    (blobs d' = blobs ?d \<and> settings_of (trace d') = settings_of (trace ?d))" for a
    using cred_answer[OF v(2) l(3)] unfolding pouch_prov_handle_cred_def cred_decodes[OF v(1)] e by simp
  from cred_exchange[OF s l this, of "cli_decode_cred_status_rsp (lib_cbor2 L)"] obtain s' where
    s': "exchange_msg L T PATH_CRED (Inr (toks_bytes (cred_req_toks ?v))) (cli_decode_cred_status_rsp (lib_cbor2 L)) s =
      Some (cli_decode_cred_status_rsp (lib_cbor2 L) (toks_bytes (cred_rsp_toks ?w)), s')" "open_session E dev s'"
    "blobs (dev (ps_world s')) = blobs ?d" "settings_of (trace (dev (ps_world s'))) = settings_of (trace ?d)" by blast
  have "cli_decode_cred_status_rsp (lib_cbor2 L) (toks_bytes (cred_rsp_toks ?w)) = Inr (map (\<lambda>(k, n). (k, uint n)) ?cs)"
    using cred_status_read[of 0 ?cs] kinds(1) by (simp add: on_ok_def status_ok_def comp_def del: cred_rsp_toks.simps)
  moreover have "uint (of_nat (pouch_prov_cred_received (CredKind_int k) ?d) :: u32) = int (pouch_prov_cred_received (CredKind_int k) ?d)" for k
    using unat_of_nat_small[of "pouch_prov_cred_received (CredKind_int k) ?d", where 'a = 32] received_bound[OF open_cred_inv[OF s], of k]
    by (simp add: uint_nat)
  then have "map (\<lambda>(k, n). (k, uint n)) ?cs = received_counts ?d" by (simp add: received_counts_def)
  ultimately show ?thesis using s' requests_match(9) by (auto simp: cred_status_def)
qed

text \<open>The end of the session: the device stops provisioning and keeps what it has stored.\<close>

lemma end_session_stops:
  assumes s: "open_session E dev s"
  shows "\<exists>s'. end_session L T s = Some (Inr (), s') \<and> ready_session E dev s' \<and> \<not> running (dev (ps_world s')) \<and> \<not> authorized (dev (ps_world s')) \<and>
    ended_of (trace (dev (ps_world s'))) \<and> blobs (dev (ps_world s')) = blobs (dev (ps_world s)) \<and>
    settings_of (trace (dev (ps_world s'))) = settings_of (trace (dev (ps_world s)))"
proof -
  let ?d = "dev (ps_world s)" and ?v = ctrl_req_ctrl_end_m and ?w = "\<lparr>ctrl_rsp_ctrl_op_m = of_nat (CtrlOp_int CtrlOp_END), ctrl_rsp_prov_status_m = 0\<rparr>"
  let ?m = "toks_bytes (ctrl_req_toks ?v)" and ?rsp = "toks_bytes (ctrl_rsp_toks ?w)"
  let ?Q = "\<lambda>d'. \<not> running d' \<and> \<not> authorized d' \<and> ended_of (trace d') \<and> blobs d' = blobs ?d \<and> settings_of (trace d') = settings_of (trace ?d)"
  have w: "list_all wf_tok (ctrl_req_toks ?v)" by simp
  have d: "cbor_decode_ctrl_req (zdec E) ?m = Some (?v, length ?m)"
    unfolding zcbor_decoder.cbor_decode_ctrl_req_ref[OF dec w] using dec_ctrl_req[OF w, of ?v "length ?m"] by simp
  have st: "status_ok 0" by (simp add: status_ok_def)
  have l: "length ?m \<le> POUCH_PROV_MSG_MAX" "?rsp \<noteq> []" "length ?rsp \<le> POUCH_PROV_MSG_MAX"
    by (simp_all add: POUCH_PROV_MSG_MAX_def length_cbor_head ctrl_rsp_toks_def)
  have e: "cbor_encode_ctrl_rsp (zenc E) POUCH_PROV_MSG_MAX ?w = Some ?rsp"
    using zcbor_encoder.cbor_encode_ctrl_rsp_ref[OF enc] enc_ctrl_rsp[of ?w POUCH_PROV_MSG_MAX] st l(3) by (simp add: ctrl_rsp_ok_def emit_toks_def)
  have "\<exists>d'. ep_handler (ctrl_ep E) ?m POUCH_PROV_MSG_MAX (?d\<lparr>active := a\<rparr>) = Some (Inr ?rsp, d') \<and> fifo_of (trace d') = [] \<and> ?Q d'"
    if inv: "device_inv E (?d\<lparr>active := a\<rparr>)" for a
  proof -
    from stop_effect[OF inv] s obtain d' where d': "pouch_prov_mgr_stop E (?d\<lparr>active := a\<rparr>) = Some (rc_ok, d')" "fifo_of (trace d') = []" "?Q d'"
      by (auto simp: open_session_def)
    have "pouch_prov_handle_ctrl E ?m POUCH_PROV_MSG_MAX (?d\<lparr>active := a\<rparr>) = Some (Inr ?rsp, d')"
      unfolding handle_ctrl_eq d using e d'(1) by (simp add: ctrl_applied_def ctrl_op_def pouch_prov_ctrl_end_requested_def Let_def)
    with d' show ?thesis by simp
  qed
  from exchange_served[OF _ _ _ ctrl_ep_sel(4) _ l, of s ?Q "\<lambda>rsp. cli_decode_ctrl_rsp (lib_cbor2 L) rsp CtrlOp_END"] this s obtain s' d' where
    s': "exchange_msg L T PATH_CTRL (Inr ?m) (\<lambda>rsp. cli_decode_ctrl_rsp (lib_cbor2 L) rsp CtrlOp_END) s = Some (cli_decode_ctrl_rsp (lib_cbor2 L) ?rsp CtrlOp_END, s')"
    "plain_session s'" "?Q d'" "answered d' (dev (ps_world s'))" "device_inv E (dev (ps_world s'))" by (auto simp: open_session_def ready_session_def)
  have "only_log d' (dev (ps_world s'))" using s'(4) by (simp add: answered_def)
  note o = only_logD(3,4,10)[OF this]
  have "end_session L T s = Some (Inr (), s')"
    using s'(1) requests_match(12) ctrl_rsp_read[OF st, of CtrlOp_END] by (simp add: end_session_def ctrl_flow_def on_ok_def)
  then show ?thesis using s' o by (intro exI[of _ s']) (simp add: ready_session_def answered_def)
qed

lemma provision_stores:
  assumes s: "ready_session E dev s" and run: "running (dev (ps_world s))" and K: "pop (config (dev (ps_world s))) \<noteq> Some []"
    and at: "attempts (auth (dev (ps_world s))) < 3"
    and cert: "der_spans cert" "length cert \<le> DEVICE_CERT_MAX" and key: "key \<noteq> []" "length key \<le> PRIVATE_KEY_MAX"
    and ca: "\<And>c. ca = Some c \<Longrightarrow> c \<noteq> [] \<and> length c \<le> CA_CERT_MAX"
  shows "\<exists>s'. provision L T (pop (config (dev (ps_world s)))) (Cred_files cert key ca) None password s = Some (Inr (), s') \<and>
    \<not> running (dev (ps_world s')) \<and> \<not> authorized (dev (ps_world s')) \<and> ended_of (trace (dev (ps_world s'))) \<and>
    (\<forall>k v. (k, Some v) \<in> {(0, Some cert), (1, Some key), (2, ca)} \<longrightarrow>
       pouch_prov_cred_get k (dev (ps_world s')) = Some v \<and> stored k (dev (ps_world s')) = Some v)"
proof -
  let ?K = "pop (config (dev (ps_world s)))"
  obtain s1 where s1: "get_version L T s = Some (Inr (VersionInfo_at E (dev (ps_world s))), s1)" "ready_session E dev s1" "auth_kept dev s s1"
    "auth (dev (ps_world s1)) = auth (dev (ps_world s))" using get_version_reads[OF s] by blast
  have d1: "config (dev (ps_world s1)) = config (dev (ps_world s))" "running (dev (ps_world s1))" using s1(3) run by (simp_all add: auth_kept_def Let_def)
  then have v: "VersionInfo_at E (dev (ps_world s1)) = VersionInfo_at E (dev (ps_world s))" by (simp add: VersionInfo_at_def ver_out_def ver_caps_def)
  obtain s2 where s2: "authorize_if_needed L T (VersionInfo_at E (dev (ps_world s))) ?K s1 = Some (Inr (), s2)" "open_session E dev s2"
    using authorize_opens[OF s1(2) d1(2)] K at s1(4) d1(1) v by auto
  obtain s3 where s3: "bootstrap_credentials L T cert key ca s2 = Some (Inr (), s3)" "open_session E dev s3"
    "\<forall>k v. (k, Some v) \<in> {(0, Some cert), (1, Some key), (2, ca)} \<longrightarrow> pouch_prov_cred_get k (dev (ps_world s3)) = Some v \<and> stored k (dev (ps_world s3)) = Some v"
    using bootstrap_stores[OF s2(2) cert key ca] by blast
  obtain s4 where s4: "cred_status L T s3 = Some (Inr (received_counts (dev (ps_world s3))), s4)" "open_session E dev s4"
    "blobs (dev (ps_world s4)) = blobs (dev (ps_world s3))" "settings_of (trace (dev (ps_world s4))) = settings_of (trace (dev (ps_world s3)))"
    using cred_status_reads[OF s3(2)] by blast
  obtain s5 where s5: "end_session L T s4 = Some (Inr (), s5)" "\<not> running (dev (ps_world s5))" "\<not> authorized (dev (ps_world s5))" "ended_of (trace (dev (ps_world s5)))"
    "blobs (dev (ps_world s5)) = blobs (dev (ps_world s4))" "settings_of (trace (dev (ps_world s5))) = settings_of (trace (dev (ps_world s4)))"
    using end_session_stops[OF s4(2)] by blast
  have "cert \<noteq> []" using cert(1) by (auto simp: der_spans_def)
  then have "provision L T ?K (Cred_files cert key ca) None password s = Some (Inr (), s5)"
    using s1(1) s2(1) s3(1) s4(1) s5(1) by (simp add: provision_def provision_creds_def abind_def)
  moreover have "pouch_prov_cred_get k (dev (ps_world s5)) = pouch_prov_cred_get k (dev (ps_world s3))" "stored k (dev (ps_world s5)) = stored k (dev (ps_world s3))" for k
    using s4(3,4) s5(5,6) by (simp_all add: pouch_prov_cred_get_def pouch_prov_cred_present_def kind_valid_def stored_def)
  ultimately show ?thesis using s3(3) s5(2-4) by (intro exI[of _ s5]) simp
qed

end

subsection \<open>A link of the model's own\<close>

text \<open>
  The link between the client's framing and the device model: a pouch is parsed and its entries are
  dispatched, the response queue is flushed into a pouch, as the transport of the client's tests
  does it (\<^verbatim>\<open>_process_request\<close> and \<^verbatim>\<open>_ul_open\<close> of \<^verbatim>\<open>transport/mock.py\<close>) with a handler in the device's place.
  A transfer that needs 256 fragments fails.
\<close>

definition ref_send :: "('e, 'd) env \<Rightarrow> nat \<Rightarrow> bytes \<Rightarrow> device \<times> int \<Rightarrow> unit exc \<times> device \<times> int" where
  "ref_send E n data w =
     (if 256 \<le> length (fragments (n - HEADER_LEN) data) then (Inl SarError, w)
      else case parse_pouch ref_cbor2 data of
             Inl e \<Rightarrow> (Inl e, w)
           | Inr (h, es) \<Rightarrow> (case deliver_entries E (\<lambda>bs. [bs]) es (fst w) of Some d \<Rightarrow> (Inr (), d, snd w) | None \<Rightarrow> (Inl SarError, w)))"

definition ref_receive :: "('e, 'd) env \<Rightarrow> device \<times> int \<Rightarrow> bytes exc \<times> device \<times> int" where
  "ref_receive E w =
     (case rpc_uplink_flush E (fst w) of
        Some d \<Rightarrow> (build_entry_pouch ref_cbor2 (Py_str (str_bytes ''device'')) (map rsp_entry (fifo_of (trace (fst w)))) (Py_int 1024), d, snd w)
      | None \<Rightarrow> (Inl SarError, w))"

definition ref_link :: "('e, 'd) env \<Rightarrow> (device \<times> int) link" where
  "ref_link E = \<lparr>link_send = ref_send E, link_receive = ref_receive E, link_token = (\<lambda>n w. (replicate n 5, w)),
     link_time = (\<lambda>w. (snd w, w)), link_sleep = (\<lambda>n w. (fst w, snd w + int n))\<rparr>"

definition ref_libs :: libs where
  "ref_libs = \<lparr>lib_cbor2 = ref_cbor2, lib_crypto = ref_crypto, lib_hmac = ref_hmac\<rparr>"

lemma ref_receive_one:
  assumes "fifo_of (trace (fst w)) = [r]" and "length (rsp_msg r) \<le> POUCH_PROV_MSG_MAX" and "length (rsp_path r) < 256" and "utf8_ok (str_bytes (rsp_path r))"
    and "rpc_uplink_flush E (fst w) = Some d"
  shows "\<exists>data. ref_receive E w = (Inr data, d, snd w) \<and>
    parse_pouch ref_cbor2 data = Inr (plain_PouchHeader (str_bytes ''device''), [rsp_entry r])"
proof -
  let ?n = "str_bytes ''device''"
  have n: "utf8_ok ?n" "length ?n < 18446744073709551616" by (simp_all add: str_bytes_def)
  obtain b where b: "Entry_encode (rsp_entry r) = Inr b" "length b \<le> 700"
    using assms(2,3) by (auto simp: Entry_encode_def rsp_entry_def pack_be_def CONTENT_TYPE_CBOR_def POUCH_PROV_MSG_MAX_def)
  then have p: "pack_entries ref_cbor2 (Py_int 1024) [] [] [rsp_entry r] = Inr ([], b)" by simp
  obtain k where "Block_encode \<lparr>payload = b, stream_id = BLOCK_ID_ENTRY, block_first = True, block_last = True\<rparr> = Inr k"
    using b(2) block_id_byte_entry(1,2)[of True True] by (auto simp: Block_encode_def pack_be_def)
  with p ref_cbor2.plain_header(1)[OF n] obtain data where d: "build_entry_pouch ref_cbor2 (Py_str ?n) [rsp_entry r] (Py_int 1024) = Inr data"
    by (auto simp: build_entry_pouch_def Pouch_encode_def)
  from ref_cbor2.pouch_roundtrip[OF d n] assms(4) have "parse_pouch ref_cbor2 data = Inr (plain_PouchHeader ?n, [rsp_entry r])"
    by (simp add: plain_PouchHeader_def rsp_entry_def)
  with d assms(1,5) show ?thesis by (simp add: ref_receive_def)
qed

lemma ref_device_link: "device_link ref_libs ref_env (ref_link ref_env) fst (\<lambda>bs. [bs])"
proof -
  have L: "lib_cbor2 ref_libs = ref_cbor2" "link_send (ref_link ref_env) = ref_send ref_env" "link_receive (ref_link ref_env) = ref_receive ref_env"
    by (simp_all add: ref_libs_def ref_link_def)
  have id: "id_ok (str_bytes ''device'')" by (simp add: id_ok_def str_bytes_def)
  show ?thesis
  proof (intro device_link.intro device_link_axioms.intro)
    show "cbor2_codec (lib_cbor2 ref_libs)" unfolding L by (rule ref_cbor2.cbor2_codec_axioms)
    show "kernel ref_env" by (rule ref_kernel.kernel_axioms)
  next
    fix data h es n d and w :: "device \<times> int"
    assume "parse_pouch (lib_cbor2 ref_libs) data = Inr (h, es)" "length (fragments (n - HEADER_LEN) data) < 256"
      "deliver_entries ref_env (\<lambda>bs. [bs]) es (fst w) = Some d"
    then show "\<exists>w'. link_send (ref_link ref_env) n data w = (Inr (), w') \<and> fst w' = d" unfolding L by (simp add: ref_send_def)
  next
    fix w :: "device \<times> int" and r d
    assume "fifo_of (trace (fst w)) = [r]" "length (rsp_msg r) \<le> POUCH_PROV_MSG_MAX" "length (rsp_path r) < 256" "utf8_ok (str_bytes (rsp_path r))"
      "rpc_uplink_flush ref_env (fst w) = Some d"
    from ref_receive_one[OF this] id show "\<exists>data w' did. link_receive (ref_link ref_env) w = (Inr data, w') \<and> fst w' = d \<and> id_ok did \<and>
        parse_pouch (lib_cbor2 ref_libs) data = Inr (plain_PouchHeader did, [rsp_entry r])" unfolding L by auto
  qed (simp_all add: ref_link_def ref_env_def)
qed

lemma ref_codec_link: "codec_link ref_libs ref_env (ref_link ref_env) fst (\<lambda>bs. [bs]) (=) (=)"
  using ref_device_link zref_enc.zcbor_encoder_axioms zref_dec.zcbor_decoder_axioms
  by (intro codec_link.intro codec_link_axioms.intro) (simp_all add: ref_env_def[THEN arg_cong[where f = zenc]] ref_env_def[THEN arg_cong[where f = zdec]])

interpretation ref_provision: provision_link ref_libs ref_env "ref_link ref_env" fst "\<lambda>bs. [bs]" "(=)" "(=)"
proof (intro provision_link.intro auth_link.intro cred_link.intro)
  show "psa_hmac_live ref_env (lib_hmac ref_libs)" using ref_psa.psa_hmac_live_axioms by (simp add: ref_libs_def)
  show "auth_link_axioms ref_env" "cred_link_axioms ref_env" "provision_link_axioms ref_env"
    by (simp_all add: auth_link_axioms_def cred_link_axioms_def provision_link_axioms_def ref_env_def)
qed (rule ref_codec_link)+

text \<open>The clock of this link, with which every command returns.\<close>

interpretation ref_clock: clocked_link "ref_link E" snd
  by unfold_locales (auto simp: ref_link_def ref_send_def ref_receive_def split: if_splits sum.splits option.splits)

end
