(* ===== verification/Client_Scan.thy ===== *)
theory Client_Scan
  imports Client_Provision
begin

text \<open>
  The client's collection of scan results against the cache of the device: the pages the client
  asks for, six results each, and the page that does not fit a response.
\<close>

text \<open>A device with the Wi-Fi endpoints.\<close>

locale scan_link = codec_link L E T dev split RE RD
  for L :: libs and E :: "('e, 'd) env" and T :: "'w link" and dev and split and RE RD +
  assumes wifi_config: "CONFIG_POUCH_PROV_WIFI E" and cache_config: "CONFIG_POUCH_PROV_SCAN_CACHE E < 2 ^ 32"

definition scan_ep :: "('e, 'd) env \<Rightarrow> pouch_prov_endpoint" where
  "scan_ep E = \<lparr>ep_path = POUCH_PROV_PATH_SCAN, ep_handler = pouch_prov_handle_scan E, ep_require_auth = True\<rparr>"

lemma scan_ep_sel [simp]: "ep_path (scan_ep E) = PATH_SCAN" "ep_handler (scan_ep E) = pouch_prov_handle_scan E" "ep_require_auth (scan_ep E)"
  by (simp_all add: scan_ep_def PATH_SCAN_def path_defs)

text \<open>The page of the cache at an offset, the response that carries it, and whether that response has room.\<close>

definition page_at :: "device \<Rightarrow> nat \<Rightarrow> scan_entry list" where
  "page_at d i = take 6 (drop i (cached d))"

definition page_rsp :: "device \<Rightarrow> nat \<Rightarrow> scan_rsp_r" where
  "page_rsp d i = scan_rsp_scan_results_rsp_m prov_status_status_ok_m_c (page_at d i)"

definition page_fits :: "device \<Rightarrow> nat \<Rightarrow> bool" where
  "page_fits d i \<longleftrightarrow> length (toks_bytes (scan_rsp_toks (page_rsp d i))) \<le> POUCH_PROV_MSG_MAX"

lemma page_at_sc: "sc d' = sc d \<Longrightarrow> cached d' = cached d \<and> page_at d' = page_at d \<and> page_rsp d' = page_rsp d \<and> page_fits d' = page_fits d"
  by (simp add: fun_eq_iff cached_def page_at_def page_rsp_def page_fits_def)

lemma page_rsp_ok: "scan_inv E d \<Longrightarrow> scan_rsp_ok (page_rsp d i)"
proof -
  assume "scan_inv E d"
  then have "\<forall>e\<in>set (take (sc_count (sc d)) (sc_entries (sc d))). ap_inv e" by (auto simp: scan_inv_def list_all_iff dest: in_set_takeD)
  then have "\<forall>v\<in>set (cached d). scan_entry_ok v" by (auto simp: cached_def scan_entry_ok_def scan_entry_of_def ap_inv_def)
  then show ?thesis by (auto simp: page_rsp_def page_at_def status_ok_def list_all_iff dest!: in_set_takeD in_set_dropD)
qed

lemma length_cached: "scan_inv E d \<Longrightarrow> length (cached d) = sc_count (sc d)"
  by (simp add: cached_def scan_inv_def)

lemma next_multiple: "6 dvd i \<Longrightarrow> 6 dvd j \<Longrightarrow> i \<le> j \<Longrightarrow> j = i \<or> i + 6 \<le> j" for i j :: nat
  by presburger

context scan_link begin

lemma scan_endpoint_listed: "scan_ep E \<in> set (endpoints E)"
  using wifi_config by (simp add: endpoints_def scan_ep_def)

lemma scan_decodes: "cbor_decode_scan_req (zdec E) (toks_bytes (scan_req_toks v)) = Some (v, length (toks_bytes (scan_req_toks v)))"
  by (rule requests_read(3)[OF dec])

lemma scan_encodes:
  "scan_rsp_ok v \<Longrightarrow> cbor_encode_scan_rsp (zenc E) n v = emit_toks n (scan_rsp_toks v)"
  using zcbor_encoder.cbor_encode_scan_rsp_ref[OF enc] enc_scan_rsp by simp

lemma open_scan_inv: "open_session E dev s \<Longrightarrow> scan_inv E (dev (ps_world s))"
  by (simp add: open_session_def ready_session_def device_inv_def)

text \<open>A query: the handler answers and leaves the device as it is.\<close>

lemma query_exchange:
  assumes s: "open_session E dev s" and m: "length m \<le> POUCH_PROV_MSG_MAX" and r: "rsp \<noteq> []" "length rsp \<le> POUCH_PROV_MSG_MAX"
    and h: "\<And>a. pouch_prov_handle_scan E m POUCH_PROV_MSG_MAX ((dev (ps_world s))\<lparr>active := a\<rparr>) = Some (Inr rsp, (dev (ps_world s))\<lparr>active := a\<rparr>)"
  shows "\<exists>s'. exchange_msg L T PATH_SCAN (Inr m) decode s = Some (decode rsp, s') \<and> open_session E dev s' \<and> sc (dev (ps_world s')) = sc (dev (ps_world s))"
proof -
  let ?Q = "\<lambda>d'. \<exists>a. d' = (dev (ps_world s))\<lparr>active := a\<rparr>"
  have f: "fifo_of (trace (dev (ps_world s))) = []" using s by (simp add: open_session_def ready_session_def)
  have "\<exists>d'. ep_handler (scan_ep E) m POUCH_PROV_MSG_MAX ((dev (ps_world s))\<lparr>active := a\<rparr>) = Some (Inr rsp, d') \<and> fifo_of (trace d') = [] \<and> ?Q d'" for a
    using h[of a] f by (intro exI[of _ "(dev (ps_world s))\<lparr>active := a\<rparr>"]) auto
  then obtain s' a where s': "exchange_msg L T PATH_SCAN (Inr m) decode s = Some (decode rsp, s')" "plain_session s'"
    "answered ((dev (ps_world s))\<lparr>active := a\<rparr>) (dev (ps_world s'))" "device_inv E (dev (ps_world s'))"
    using exchange_served[OF _ _ f scan_endpoint_listed _ m r, of ?Q decode] s by (auto simp: open_session_def ready_session_def)
  from this(3) have "only_log ((dev (ps_world s))\<lparr>active := a\<rparr>) (dev (ps_world s'))" by (simp add: answered_def)
  note only_logD[OF this]
  with s' s show ?thesis by (auto simp: open_session_def ready_session_def answered_def pouch_prov_session_authorized_def)
qed

lemma status_exchange:
  assumes s: "open_session E dev s"
  shows "\<exists>s'. exchange_msg L T PATH_SCAN (Inr (cli_encode_scan_get_status (lib_cbor2 L))) (cli_decode_scan_status_rsp (lib_cbor2 L)) s =
      Some (Inr (sc_finished (sc (dev (ps_world s))), int (length (cached (dev (ps_world s))))), s') \<and>
    open_session E dev s' \<and> sc (dev (ps_world s')) = sc (dev (ps_world s))"
proof -
  let ?d = "dev (ps_world s)" and ?v = scan_req_scan_get_status_m
  let ?w = "scan_rsp_scan_status_rsp_m 0 (sc_finished (sc ?d)) (of_nat (sc_count (sc ?d)))"
  have w: "scan_rsp_ok ?w" by (simp add: status_ok_def)
  have n: "sc_count (sc ?d) < 2 ^ 32" using open_scan_inv[OF s] cache_config by (simp add: scan_inv_def)
  then have u: "unat (of_nat (sc_count (sc ?d)) :: u32) = sc_count (sc ?d)" by (intro unat_of_nat_small) simp
  have l: "length (toks_bytes (scan_req_toks ?v)) \<le> POUCH_PROV_MSG_MAX" "toks_bytes (scan_rsp_toks ?w) \<noteq> []" "length (toks_bytes (scan_rsp_toks ?w)) \<le> POUCH_PROV_MSG_MAX"
    using u32_tok_size[of "of_nat (sc_count (sc ?d))"] by (simp_all add: POUCH_PROV_MSG_MAX_def length_cbor_head)
  have "pouch_prov_handle_scan E (toks_bytes (scan_req_toks ?v)) POUCH_PROV_MSG_MAX (?d\<lparr>active := a\<rparr>) = Some (Inr (toks_bytes (scan_rsp_toks ?w)), ?d\<lparr>active := a\<rparr>)" for a
    using scan_encodes[OF w, of POUCH_PROV_MSG_MAX] l(3) unfolding pouch_prov_handle_scan_def scan_decodes by (simp add: emit_toks_def)
  from query_exchange[OF s l this, of "cli_decode_scan_status_rsp (lib_cbor2 L)"] requests_match(6)
  show ?thesis using scan_rsp_read(2)[of 0 "sc_finished (sc ?d)" "of_nat (sc_count (sc ?d))"] length_cached[OF open_scan_inv[OF s]]
      u
    by (simp add: on_ok_def status_ok_def uint_nat)
qed

lemma results_request:
  assumes "i < 2 ^ 32"
  shows "cli_encode_scan_get_results (lib_cbor2 L) (int i) 6 = toks_bytes (scan_req_toks (scan_req_scan_get_results_m (of_nat i) 6))"
    and "unat (of_nat i :: u32) = i"
proof -
  show u: "unat (of_nat i :: u32) = i" using assms by (intro unat_of_nat_small) simp
  then have "uint (of_nat i :: u32) = int i" by (metis uint_nat)
  then show "cli_encode_scan_get_results (lib_cbor2 L) (int i) 6 = toks_bytes (scan_req_toks (scan_req_scan_get_results_m (of_nat i) 6))"
    using requests_match(7)[of "of_nat i" 6] by simp
qed

lemma handle_results:
  assumes "scan_inv E d" and "i < 2 ^ 32"
  shows "pouch_prov_handle_scan E (toks_bytes (scan_req_toks (scan_req_scan_get_results_m (of_nat i) 6))) POUCH_PROV_MSG_MAX d =
    Some (if page_fits d i then Inr (toks_bytes (scan_rsp_toks (page_rsp d i))) else Inl ENOMEM, d)"
proof -
  have p: "scan_page (sc d) 6 (of_nat i) 0 = page_at d i"
    using page_of_cache[OF assms(1) cache_config, of 6 "of_nat i"] results_request(2)[OF assms(2)] by (simp add: page_at_def PAGE_MAX_def)
  have "encode_results E (of_nat i) 6 POUCH_PROV_MSG_MAX d = (if page_fits d i then Inr (toks_bytes (scan_rsp_toks (page_rsp d i))) else Inl ENOMEM)"
    unfolding encode_results_def p page_rsp_def[symmetric] scan_encodes[OF page_rsp_ok[OF assms(1)]] emit_toks_def page_fits_def by simp
  then show ?thesis unfolding pouch_prov_handle_scan_def scan_decodes by simp
qed

lemma results_small: "length (toks_bytes (scan_req_toks (scan_req_scan_get_results_m i n))) \<le> POUCH_PROV_MSG_MAX"
  using u32_tok_size[of i] u32_tok_size[of n] by (simp add: POUCH_PROV_MSG_MAX_def length_cbor_head)

lemma page_exchange:
  assumes s: "open_session E dev s" and i: "i < 2 ^ 32" and fits: "page_fits (dev (ps_world s)) i"
  shows "\<exists>s'. exchange_msg L T PATH_SCAN (Inr (cli_encode_scan_get_results (lib_cbor2 L) (int i) 6)) (cli_decode_scan_results_rsp (lib_cbor2 L)) s =
      Some (Inr (map ScanEntry_of (page_at (dev (ps_world s)) i)), s') \<and> open_session E dev s' \<and> sc (dev (ps_world s')) = sc (dev (ps_world s))"
proof -
  let ?d = "dev (ps_world s)" and ?m = "toks_bytes (scan_req_toks (scan_req_scan_get_results_m (of_nat i) 6))"
  have sc: "scan_inv E (?d\<lparr>active := a\<rparr>)" for a using open_scan_inv[OF s] by (simp add: scan_inv_def)
  have pg: "page_rsp (?d\<lparr>active := a\<rparr>) = page_rsp ?d" "page_fits (?d\<lparr>active := a\<rparr>) = page_fits ?d" for a
    using page_at_sc[of "?d\<lparr>active := a\<rparr>" ?d] by simp_all
  have "pouch_prov_handle_scan E ?m POUCH_PROV_MSG_MAX (?d\<lparr>active := a\<rparr>) = Some (Inr (toks_bytes (scan_rsp_toks (page_rsp ?d i))), ?d\<lparr>active := a\<rparr>)" for a
    unfolding handle_results[OF sc i] pg using fits by simp
  moreover have "toks_bytes (scan_rsp_toks (page_rsp ?d i)) \<noteq> []" by (simp add: page_rsp_def length_cbor_head cbor_head_def)
  moreover have "length (toks_bytes (scan_rsp_toks (page_rsp ?d i))) \<le> POUCH_PROV_MSG_MAX" using fits by (simp add: page_fits_def)
  ultimately obtain s' where s': "exchange_msg L T PATH_SCAN (Inr ?m) (cli_decode_scan_results_rsp (lib_cbor2 L)) s =
      Some (cli_decode_scan_results_rsp (lib_cbor2 L) (toks_bytes (scan_rsp_toks (page_rsp ?d i))), s')"
    "open_session E dev s'" "sc (dev (ps_world s')) = sc ?d"
    using query_exchange[OF s results_small] by blast
  have "cli_decode_scan_results_rsp (lib_cbor2 L) (toks_bytes (scan_rsp_toks (page_rsp ?d i))) = Inr (map ScanEntry_of (page_at ?d i))"
    using scan_results_read[of prov_status_status_ok_m_c "page_at ?d i"] page_rsp_ok[OF open_scan_inv[OF s], of i]
    by (simp add: page_rsp_def on_ok_def del: scan_rsp_toks.simps scan_rsp_ok.simps)
  with s' show ?thesis unfolding results_request(1)[OF i] by auto
qed

lemma page_refused:
  assumes s: "open_session E dev s" and i: "i < 2 ^ 32" and fits: "\<not> page_fits (dev (ps_world s)) i"
  shows "\<exists>s'. exchange_msg L T PATH_SCAN (Inr (cli_encode_scan_get_results (lib_cbor2 L) (int i) 6)) (cli_decode_scan_results_rsp (lib_cbor2 L)) s =
      Some (Inl (ProvError INTERNAL_ERROR), s') \<and> open_session E dev s' \<and> sc (dev (ps_world s')) = sc (dev (ps_world s))"
proof -
  let ?d = "dev (ps_world s)" and ?m = "toks_bytes (scan_req_toks (scan_req_scan_get_results_m (of_nat i) 6))"
  have sc: "scan_inv E (?d\<lparr>active := a\<rparr>)" for a using open_scan_inv[OF s] by (simp add: scan_inv_def)
  have pg: "page_rsp (?d\<lparr>active := a\<rparr>) = page_rsp ?d" "page_fits (?d\<lparr>active := a\<rparr>) = page_fits ?d" for a
    using page_at_sc[of "?d\<lparr>active := a\<rparr>" ?d] by simp_all
  have h: "ep_handler (scan_ep E) ?m POUCH_PROV_MSG_MAX (?d\<lparr>active := a\<rparr>) = Some (Inl ENOMEM, ?d\<lparr>active := a\<rparr>)" for a
    unfolding scan_ep_sel handle_results[OF sc i] pg using fits by simp
  have op: "peek_op ?m (length ?m) = 2" by (simp add: peek_op_def cbor_head_def)
  have s0: "plain_session s" "device_inv E ?d" "fifo_of (trace ?d) = []" "ep_require_auth (scan_ep E) \<longrightarrow> pouch_prov_session_authorized ?d"
    using s by (simp_all add: open_session_def ready_session_def)
  obtain s' a where s': "exchange_msg L T PATH_SCAN (Inr ?m) (cli_decode_scan_results_rsp (lib_cbor2 L)) s =
      Some (cli_decode_scan_results_rsp (lib_cbor2 L) (status_bytes 2 3), s')" "plain_session s'"
    "answered (?d\<lparr>active := a\<rparr>) (dev (ps_world s'))" "device_inv E (dev (ps_world s'))"
    using exchange_refused[OF enc s0(1-3) scan_endpoint_listed s0(4) results_small _ _ h, of "cli_decode_scan_results_rsp (lib_cbor2 L)"]
    unfolding op scan_ep_sel by auto
  from s'(3) have "only_log (?d\<lparr>active := a\<rparr>) (dev (ps_world s'))" by (simp add: answered_def)
  note l = only_logD[OF this]
  have "cli_decode (lib_cbor2 L) (status_bytes 2 3) (int 2) = on_ok 3 [Py_int (int 2), u32_py 3]"
    unfolding status_bytes_toks[of 2 3, symmetric, simplified status_ok_def, simplified]
    by (rule decode_list) (simp_all add: status_ok_def ctrl_rsp_toks_def u32_tok_def)
  then have "cli_decode_scan_results_rsp (lib_cbor2 L) (status_bytes 2 3) = Inl (ProvError INTERNAL_ERROR)"
    by (simp add: cli_decode_scan_results_rsp_def on_ok_def Status_name_def)
  with s' l s show ?thesis unfolding results_request(1)[OF i]
    by (auto simp: open_session_def ready_session_def answered_def pouch_prov_session_authorized_def)
qed

text \<open>The pages from an offset on: the client has them all, or meets the first that does not fit.\<close>

lemma collect_from:
  assumes "open_session E dev s" and "sc (dev (ps_world s)) = sc d" and "6 dvd i"
  shows "\<exists>s'. scan_collect L T (int (length (cached d))) (map ScanEntry_of (take i (cached d))) s =
      Some (if \<forall>j<length (cached d). i \<le> j \<and> 6 dvd j \<longrightarrow> page_fits d j then Inr (map ScanEntry_of (cached d)) else Inl (ProvError INTERNAL_ERROR), s') \<and>
    open_session E dev s' \<and> sc (dev (ps_world s')) = sc d"
  using assms
proof (induction "length (cached d) - i" arbitrary: i s rule: less_induct)
  case less
  note open_s = less.prems(1) and pg = page_at_sc[OF less.prems(2)]
  let ?n = "length (cached d)"
  show ?case
  proof (cases "i < ?n")
    case False
    with less.prems show ?thesis by (subst scan_collect.simps) (auto intro!: exI[of _ s])
  next
    case True
    have "?n < 2 ^ 32" using open_scan_inv[OF open_s] length_cached[OF open_scan_inv[OF open_s]] cache_config pg by (simp add: scan_inv_def)
    with True have i: "i < 2 ^ 32" by simp
    show ?thesis
    proof (cases "page_fits d i")
      case False
      then obtain s' where "exchange_msg L T PATH_SCAN (Inr (cli_encode_scan_get_results (lib_cbor2 L) (int i) 6)) (cli_decode_scan_results_rsp (lib_cbor2 L)) s =
          Some (Inl (ProvError INTERNAL_ERROR), s')" "open_session E dev s'" "sc (dev (ps_world s')) = sc d"
        using page_refused[OF open_s i] pg less.prems(2) by auto
      with True False less.prems(3) show ?thesis by (subst scan_collect.simps) (auto simp: min_absorb2)
    next
      case fits: True
      then obtain t where t: "exchange_msg L T PATH_SCAN (Inr (cli_encode_scan_get_results (lib_cbor2 L) (int i) 6)) (cli_decode_scan_results_rsp (lib_cbor2 L)) s =
          Some (Inr (map ScanEntry_of (page_at d i)), t)" "open_session E dev t" "sc (dev (ps_world t)) = sc d"
        using page_exchange[OF open_s i] pg less.prems(2) by auto
      have next_pages: "(\<forall>j<?n. i \<le> j \<and> 6 dvd j \<longrightarrow> page_fits d j) \<longleftrightarrow> (\<forall>j<?n. i + 6 \<le> j \<and> 6 dvd j \<longrightarrow> page_fits d j)"
        using fits next_multiple[OF less.prems(3)] by (metis add_leD1)
      have "page_at d i \<noteq> []" using True by (simp add: page_at_def)
      moreover have "map ScanEntry_of (take i (cached d)) @ map ScanEntry_of (page_at d i) = map ScanEntry_of (take (i + 6) (cached d))"
        by (simp add: page_at_def take_add)
      ultimately have "scan_collect L T (int ?n) (map ScanEntry_of (take i (cached d))) s = scan_collect L T (int ?n) (map ScanEntry_of (take (i + 6) (cached d))) t"
        using True t(1) by (subst scan_collect.simps) (simp add: min_absorb2)
      with less.hyps[of "i + 6" t] t(2,3) True less.prems(3) show ?thesis unfolding next_pages by simp
    qed
  qed
qed

text \<open>The client of a device whose scan has ended reads the number of results and then all of them.\<close>

lemma collect_finished:
  assumes s: "open_session E dev s" and fin: "sc_finished (sc (dev (ps_world s)))"
  shows "\<exists>s'. abind (scan_wait L T deadline) (\<lambda>n. scan_collect L T n []) s =
      Some (if \<forall>j<length (cached (dev (ps_world s))). 6 dvd j \<longrightarrow> page_fits (dev (ps_world s)) j then Inr (map ScanEntry_of (cached (dev (ps_world s))))
            else Inl (ProvError INTERNAL_ERROR), s') \<and> open_session E dev s' \<and> sc (dev (ps_world s')) = sc (dev (ps_world s))"
proof -
  let ?d = "dev (ps_world s)"
  obtain t where t: "exchange_msg L T PATH_SCAN (Inr (cli_encode_scan_get_status (lib_cbor2 L))) (cli_decode_scan_status_rsp (lib_cbor2 L)) s =
      Some (Inr (True, int (length (cached ?d))), t)" "open_session E dev t" "sc (dev (ps_world t)) = sc ?d"
    using status_exchange[OF s] fin by auto
  have "scan_wait L T deadline s = Some (Inr (int (length (cached ?d))), t)" using t(1) by (subst scan_wait.simps) simp
  with collect_from[OF t(2,3), of 0] show ?thesis by (auto simp: abind_def)
qed

end

interpretation ref_scan: scan_link ref_libs ref_env "ref_link ref_env" fst "\<lambda>bs. [bs]" "(=)" "(=)"
  by (intro scan_link.intro scan_link_axioms.intro) (use ref_codec_link in \<open>simp_all add: ref_env_def[THEN arg_cong[where f = CONFIG_POUCH_PROV_WIFI]]
    ref_env_def[THEN arg_cong[where f = CONFIG_POUCH_PROV_SCAN_CACHE]]\<close>)

end
