(* ===== verification/Spec2Isabelle.thy ===== *)
theory Spec2Isabelle
  imports Codec_Rsp Fake_Wifi Samples Client_Scan
begin

text \<open>
  A verification of \<^verbatim>\<open>pouch-network-provisioning\<close>: the device library in C under \<^verbatim>\<open>src/src\<close>, with its samples
  and its simulated Wi-Fi driver, that lets a client with a proof of possession configure Wi-Fi and cloud
  credentials of a device over Bluetooth, and the command line client in Python under \<^verbatim>\<open>src/cli\<close>, alone and
  run against the device.

  \<^bold>\<open>The program.\<close> A client sends requests as entries of the pouch transport. The dispatcher
  (\<^verbatim>\<open>dispatch.c\<close>) reassembles an entry from its fragments, selects one of six endpoints by its path,
  checks that the session is authorized, and calls the endpoint's handler (\<^verbatim>\<open>handlers/*.c\<close>), which
  decodes the request and encodes a response with a generated CBOR codec (\<^verbatim>\<open>codec/*.c\<close>). Responses wait
  in a queue (\<^verbatim>\<open>rpc.c\<close>) until the transport asks for them. The handlers drive the credential store
  (\<^verbatim>\<open>cred_store.c\<close>), the Wi-Fi driver and the manager (\<^verbatim>\<open>manager.c\<close>), which initializes, starts, stops
  and wipes the service, restores the device's identity (\<^verbatim>\<open>identity.c\<close>) and advertises (\<^verbatim>\<open>adv.c\<close>). An
  application (\<^verbatim>\<open>samples/*/src/main.c\<close>) initializes and starts the manager and waits for its end. The
  client's commands (\<^verbatim>\<open>main.py\<close>, \<^verbatim>\<open>flows.py\<close>, \<^verbatim>\<open>auth.py\<close>) exchange messages (\<^verbatim>\<open>codec.py\<close>) in a session
  (\<^verbatim>\<open>session.py\<close>) that frames them as pouches (\<^verbatim>\<open>pouchlink/pouch.py\<close>), plain or encrypted
  (\<^verbatim>\<open>pouchlink/saead.py\<close>), cut into packets and put together again (\<^verbatim>\<open>pouchlink/sar.py\<close>).

  \<^bold>\<open>The model of the device.\<close> Each C function is one definition of the same name. The static variables of all
  files are the record \<^typ>\<open>device\<close>; every function takes and returns it. A result \<^term>\<open>None\<close> of an
  operation is undefined behaviour (an access outside a buffer, a null or dangling pointer), never an
  error: error codes are values (\<open>rc\<close>, or \<open>errno + 'a\<close>), so a theorem that an operation returns
  \<^term>\<open>Some\<close> is one about memory safety and termination. Integers off the wire and counters keep
  their width. Code outside the library (kernel objects, settings, Wi-Fi driver and credential store,
  Bluetooth, PSA crypto, X.509 writer, the CBOR library zcbor) is the environment \<open>E\<close>: an arbitrary
  answer to every call, which may depend on everything called before, kept in the log \<^const>\<open>trace\<close>.
  What a property needs of it is a named hypothesis.

  \<^bold>\<open>The model of the client.\<close> Each Python function is one definition; those whose names the C code also
  has carry the prefix \<open>cli_\<close>. A call returns a value or raises one of the exceptions \<^typ>\<open>py_exn\<close>; what came out of
  a CBOR message is a dynamic value \<^typ>\<open>py\<close>, so a missing key or a value of the wrong type raises as it
  does in Python. Integers are unbounded except in packed fields and in the sequence numbers of \<^verbatim>\<open>sar.py\<close>,
  which are bytes. A coroutine of a session is a function from the session to \<^term>\<open>Some\<close> outcome and session, or
  \<^term>\<open>None\<close> where a loop would not end. The packages \<^verbatim>\<open>cbor2\<close> and \<^verbatim>\<open>cryptography\<close>, \<^verbatim>\<open>hmac\<close>, and the transport
  with its clock and random source are parameters.

  \<^bold>\<open>The theories\<close>, in the order they build on each other.
  \<^item> \<open>Prov_Prelude\<close>: machine types, error codes, bounded memory access.
  \<^item> \<open>Prov_Types\<close>, \<open>Cbor_Tokens\<close>, \<open>Zcbor\<close>: message structures (\<^verbatim>\<open>prov_types.h\<close>), CBOR items and their
    bytes, and the interface of zcbor with its contracts \<^const>\<open>zcbor_encoder\<close> and \<^const>\<open>zcbor_decoder\<close>: every
    call simulates that of a reference machine over tokens.
  \<^item> \<open>Prov_Encode\<close>, \<open>Prov_Decode\<close>, \<open>Prov_Decode_Rsp\<close>: the generated codec, function by function.
  \<^item> \<open>Codec_Spec\<close>, \<open>Codec_Enc\<close>, \<open>Codec_Dec\<close>, \<open>Codec_Round\<close>, \<open>Codec_Rsp\<close>: the messages as token sequences; the
    encoders write exactly them, the request decoders accept exactly them, and both directions
    survive the wire.
  \<^item> \<open>Device\<close>, \<open>Env\<close>: static state, log and environment; the contracts \<^const>\<open>kernel\<close>, \<^const>\<open>psa_hmac\<close>,
    \<^const>\<open>settings_store\<close> and \<^const>\<open>wifi_store\<close>, and \<^const>\<open>ref_env\<close>, an environment that meets them all.
  \<^item> \<open>Rpc\<close>, \<open>Cred_Store\<close>, \<open>Auth\<close>, \<open>Wifi_Config\<close>, \<open>Wifi_Scan\<close>, \<open>Identity\<close>, \<open>Adv\<close>: one component each, with its
    operations, its invariant, what it may change, and its behaviour. \<open>Cred_Store\<close> has an abstract
    upload that the chunk buffer refines; \<open>Auth\<close> proves the handshake over an abstract HMAC.
  \<^item> \<open>Manager\<close>: the manager, the device invariant, and loading settings (\<open>settings_slot\<close>: a stored value
    reaches its place whatever the order of delivery).
  \<^item> \<open>Handlers\<close>: the remaining handlers, and \<open>endpoint_handler\<close>, what the dispatcher relies on, which
    all six handlers meet.
  \<^item> \<open>Dispatch\<close>: the endpoint table, reassembly, the gate, error responses.
  \<^item> \<open>Session\<close>: every entry point as an event, runs and reachable states, and where an
    authorization comes from.
  \<^item> \<open>Fake_Wifi\<close>: the simulated Wi-Fi driver (\<^verbatim>\<open>sim/wifi/fake_wifi.c\<close>) and its closed loop with the Wi-Fi
    handlers.
  \<^item> \<open>Samples\<close>: the sample applications, their runs interleaved with the events of \<open>Session\<close>, and
    \<open>sample_main\<close>, what a \<^verbatim>\<open>main\<close> has to keep to, which all three meet.
  \<^item> \<open>Client_Base\<close>, \<open>Client_Codec\<close>: exceptions and dynamic values of the client, the contract \<^const>\<open>cbor2_codec\<close> of
    its CBOR package, and its message codec with the agreement of the two sides' codecs.
  \<^item> \<open>Client_Pouch\<close>, \<open>Client_Saead\<close>, \<open>Client_Sar\<close>: framing of entries, the encrypted framing with its peer
    \<^verbatim>\<open>DeviceSaead\<close> of \<^verbatim>\<open>transport/mock.py\<close> under the contracts \<^const>\<open>aead_crypto\<close> and \<^const>\<open>ideal_crypto\<close>, and
    segmentation over a channel that loses, repeats and reorders (\<^const>\<open>sar_run\<close>) or delivers (\<^const>\<open>fifo_run\<close>).
  \<^item> \<open>Client_Session\<close>: sessions, authentication, the flows and the provisioning command, and
    \<open>clocked_link\<close>, under which they all return.
  \<^item> \<open>Client_Device\<close>, \<open>Client_Upload\<close>, \<open>Client_Provision\<close>, \<open>Client_Scan\<close>: the client's commands run against the device
    model. \<open>device_link\<close> says what the transport between them does (the device's dispatcher gets the entries
    of a pouch that was sent, the client gets a pouch with the queued response); \<open>codec_link\<close>, \<open>auth_link\<close>,
    \<open>cred_link\<close>, \<open>scan_link\<close> and \<open>provision_link\<close> add the contracts of the parts involved, and \<^const>\<open>ref_link\<close> is
    a link that meets them.

  \<^bold>\<open>What is shown.\<close> C1 to C3 are about whole runs of the device: authorization needs a valid proof, the invariant
  holds in every reachable state, and every event returns. C4 to C6 are about the dispatcher, C9,
  C10 and C37 about authentication, C11, C12, C14 and C15 about the credential store, C17 about the response
  queue, C19, C21, C22 and C30 about the manager and the identity, C8, C23, C24 and C26 about Wi-Fi
  configuration, C32, C33 and C40 about messages, C31 and C34 about the samples. C7, C13, C20 and C27 are about
  the client and the device together: authentication, a whole provisioning, a wrong secret, scan results;
  C16 is the return of every command. C28 and C35 are about the agreement of the two codecs, C18, C25 and
  C29 about segmentation, C36, C38 and C39 about encryption. Properties that hold and that one would not want
  (C10, C25, C26, C37, parts of C27 and C38) are proved as the code has them; theorems without a number
  are further behaviours of the components.

  \<^bold>\<open>Bounds.\<close> There is no fuel except in the lexer of \<open>Cbor_Tokens\<close>, whose fuel is the length of the
  input, which each token shortens, and in the loop of \<open>Fake_Wifi\<close>, for which the configured number of
  attempts is proved enough. The drain loops of \<open>Rpc\<close> and the polling loops of the client are partial
  functions, proved to return. Lengths of
  objects in memory are natural numbers: the code adds at most a request's 384 bytes to a buffer's
  length, far from the width of \<^verbatim>\<open>size_t\<close>; the DER check, which computes with untrusted lengths, is
  kept at 32 bits. A session against the device has packets of at least 20 bytes and blocks of at least 408,
  which is enough for the largest request in fewer than 256 fragments and one block.

  \<^bold>\<open>Not modelled.\<close>
  \<^item> Concurrency inside an entry point: each runs to completion, a timed wait answers at once, and
    the application's event callback does not call back into the library.
  \<^item> Logging, and the callbacks that only log (\<^verbatim>\<open>security_changed\<close>, \<^verbatim>\<open>pouch_event_handler\<close>).
  \<^item> The sequence of X.509 setters of \<^verbatim>\<open>identity.c\<close> is one call, since only its success matters here.
  \<^item> The connection of the samples to the cloud beyond the calls they make: the Golioth SDK is a
    parameter.
  \<^item> Declarations without code (\<^verbatim>\<open>prov_encode.h\<close>, \<^verbatim>\<open>prov_decode.h\<close>) and the registration of devices and
    callbacks by macros, whose effect is that the callbacks are events.
  \<^item> Of the client: the Bluetooth and simulated transports, certificates and their generation, the cloud API, files and
    trust on first use, argument parsing and printing. The encrypted framing is shown against its peer in
    the client's tests, the commands against the device in plain framing.
  \<^item> The tests, the generator scripts, and the clients in Kotlin and Swift, which are other programs.
\<close>

section \<open>Example states\<close>

text \<open>A device with a proof of possession, running, and a log of a full authentication.\<close>

definition demo_cfg :: pouch_prov_config where
  "demo_cfg = \<lparr>pop = Some (str_bytes ''pop''), device_id = Some (str_bytes ''dev''),
     wifi_conn_attempts = 3, event_cb = True\<rparr>"

definition demo :: device where
  "demo = (boot ref_env [])\<lparr>config := demo_cfg, initialized := True, running := True, adv_enabled := True\<rparr>"

definition demo_challenge :: bytes where
  "demo_challenge = [0x82, 0x00, 0x50] @ replicate 16 5"

definition demo_proof :: bytes where
  "demo_proof = [0x82, 0x01, 0x58, 0x20] @ ref_hmac (str_bytes ''pop'') (str_bytes ''cli'' @ replicate 16 7 @ replicate 16 5)"

definition demo_events :: "event list" where
  "demo_events = [E_init (Some demo_cfg), E_downlink_start 0 ''.prov/auth'' 60, E_downlink_data 0 demo_challenge True,
     E_downlink_start 0 ''.prov/auth'' 60, E_downlink_data 0 demo_proof True]"

definition demo_open :: device where
  "demo_open = demo\<lparr>active := (active demo)\<lparr>endpoint := Some 2\<rparr>\<rparr>"

definition demo_challenged :: device where
  "demo_challenged = demo\<lparr>auth := \<lparr>cli_nonce = replicate 16 5, dev_nonce = replicate 16 7, challenged = True, attempts = 0\<rparr>\<rparr>"

definition demo_bad_proof :: bytes where
  "demo_bad_proof = [0x82, 0x01, 0x58, 0x20] @ replicate 32 0"

definition demo_cert :: bytes where
  "demo_cert = [0x30, 0x03, 1, 2, 3]"

definition demo_staged :: device where
  "demo_staged = demo\<lparr>blobs := [\<lparr>buf = demo_cert @ replicate 2043 0, cap = 2048, len = 0, staged = 5, expected = 5\<rparr>,
     \<lparr>buf = 7 # replicate 511 0, cap = 512, len = 0, staged = 1, expected = 1\<rparr>, empty_blob CA_CERT_MAX]\<rparr>"

definition demo_stored :: device where
  "demo_stored = demo\<lparr>blobs := [\<lparr>buf = demo_cert @ replicate 2043 0, cap = 2048, len = 5, staged = 5, expected = 5\<rparr>,
     empty_blob PRIVATE_KEY_MAX, empty_blob CA_CERT_MAX]\<rparr>"

definition demo_net :: wifi_config where
  "demo_net = \<lparr>wifi_config_ssid = str_bytes ''home'', wifi_config_pass = Some (str_bytes ''secret''), wifi_config_bssid = None,
     wifi_config_ch = Some 11\<rparr>"

text \<open>A simulated driver with one access point on the air that lets \<open>demo_net\<close> in.\<close>

definition demo_ap :: fake_wifi_ap where
  "demo_ap = \<lparr>fap_ssid = str_bytes ''home'' @ replicate 29 0, fap_ssid_len = 4, fap_bssid = replicate 6 1, fap_channel = 11,
     fap_rssi = -40, fap_security = 2\<rparr>"

definition demo_fw :: fake_wifi_data where
  "demo_fw = \<lparr>fw_aps = [demo_ap], fw_ap_count = 1, fw_next_conn = CONN_OTHER 0, fw_next_sync_err = None, fw_creds_mode = True,
     fw_exp_ssid = str_bytes ''home'' @ replicate 29 0, fw_exp_ssid_len = 4,
     fw_exp_pass = str_bytes ''secret'' @ replicate 59 0, fw_exp_pass_len = 6,
     fw_conn_ssid = replicate 33 0, fw_conn_ssid_len = 0, fw_conn_channel = 0, fw_connected = False,
     fw_scan_work = False, fw_connect_work = False\<rparr>"

definition demo_code :: "conn_status \<Rightarrow> int" where
  "demo_code cs = (case cs of CONN_AP_NOT_FOUND \<Rightarrow> 4 | CONN_WRONG_PASSWORD \<Rightarrow> 2 | CONN_OTHER x \<Rightarrow> x)"

definition demo_result :: wifi_scan_result where
  "demo_result = \<lparr>r_ssid = replicate 40 97, r_mac = replicate 6 1, r_channel = 6, r_rssi = -50, r_security = 1\<rparr>"

lemma demo_inv: "device_inv ref_env demo"
proof -
  have "device_inv ref_env (boot ref_env [])" by (rule boot_inv) (simp add: no_leak_def)
  then show ?thesis by (simp add: demo_def demo_cfg_def inv_unfold)
qed

lemma run_foldM:
  assumes "list_all valid_event evs" and "foldM (step E) evs d' = Some d''" and "run E d pre d'"
  shows "run E d (pre @ evs) d''"
  using assms
proof (induction evs arbitrary: d' pre)
  case (Cons ev evs)
  then obtain d1 where d1: "step E ev d' = Some d1" "foldM (step E) evs d1 = Some d''"
    by (auto split: bind_splits)
  have "run E d (pre @ [ev]) d1" using run_snoc[OF Cons.prems(3) _ d1(1)] Cons.prems(1) by simp
  from Cons.IH[OF _ d1(2) this] Cons.prems(1) show ?case by simp
qed simp

lemma demo_run: "\<exists>d. run ref_env (boot ref_env []) demo_events d \<and> authorized d"
proof -
  have "map_option authorized (foldM (step ref_env) demo_events (boot ref_env [])) = Some True" by code_simp
  then obtain d where d: "foldM (step ref_env) demo_events (boot ref_env []) = Some d" "authorized d" by auto
  have "list_all valid_event demo_events" by (simp add: demo_events_def)
  from run_foldM[OF this d(1) run_nil] d(2) show ?thesis by auto
qed

lemma ref_zcbor: "zcbor_encoder (zenc ref_env) (=)" "zcbor_decoder (zdec ref_env) (=)"
  using zref_enc.zcbor_encoder_axioms zref_dec.zcbor_decoder_axioms by (simp_all add: ref_env_def)

section \<open>Sessions\<close>

text \<open>
  C1: a session is authorized only by a valid proof. In every run of the library from boot, if the
  session is authorized then some earlier event completed a request to \<^verbatim>\<open>.prov/auth\<close> with the HMAC
  of both nonces under the proof of possession, in a challenged session with attempts left, and
  since then the link was not dropped and the device not reset.
\<close>

theorem authorized_only_by_proof:
  assumes "platform E" and "psa_hmac E hmac" and "cold t" and "run E (boot E t) evs d" and "authorized d"
  shows "\<exists>pre ev post d1. evs = pre @ ev # post \<and> run E (boot E t) pre d1 \<and> proof_step E hmac ev d1 \<and>
    E_disconnected \<notin> set post \<and> E_reset \<notin> set post"
  by (rule authorized_origin[OF assms])

theorem authorized_only_by_proof_witness:
  "\<exists>d. run ref_env (boot ref_env []) demo_events d \<and> authorized d \<and>
     (\<exists>pre ev post d1. demo_events = pre @ ev # post \<and> run ref_env (boot ref_env []) pre d1 \<and>
        proof_step ref_env ref_hmac ev d1 \<and> E_disconnected \<notin> set post \<and> E_reset \<notin> set post)"
proof -
  obtain d where d: "run ref_env (boot ref_env []) demo_events d" "authorized d" using demo_run by blast
  have "cold []" by (simp add: cold_def)
  from authorized_only_by_proof[OF ref_platform.platform_axioms ref_psa.psa_hmac_axioms this d] d show ?thesis by blast
qed

text \<open>
  C2: the device invariant holds in every reachable state. In any order of events, every buffer
  keeps its size, every length stays within its buffer, the active endpoint is one of the table, an
  authorized session was challenged, the manager runs only when initialized and exactly while it
  advertises, and the allocated responses are exactly the queued ones.
\<close>

theorem reachable_device_inv:
  assumes "platform E" and "reachable E d"
  shows "device_inv E d \<and> (\<forall>i. endpoint (active d) = Some i \<longrightarrow> i < length (endpoints E))"
  using platform.reachable_inv[OF assms] by (simp add: dispatch_inv_def)

theorem reachable_device_inv_witness:
  "\<exists>d. reachable ref_env d \<and> authorized d \<and> device_inv ref_env d \<and> challenged (auth d)"
proof -
  obtain d where d: "run ref_env (boot ref_env []) demo_events d" "authorized d" using demo_run by blast
  have "reachable ref_env d" using run_reachable[OF d(1)] by (simp add: cold_def)
  with reachable_device_inv[OF ref_platform.platform_axioms this] d(2) show ?thesis
    by (auto simp: device_inv_def auth_inv_def)
qed

text \<open>
  C3: every event of the library terminates without undefined behaviour in every reachable state
  where a proof of possession is configured and the status query has no connected interface to
  report: no access outside a buffer, no null dereference, no unbounded loop.
\<close>

theorem every_event_returns:
  assumes "platform E" and "reachable E d" and "valid_event ev" and "pop (config d) \<noteq> None" and "\<not> status_dangles E d"
  shows "\<exists>d'. step E ev d = Some d' \<and> reachable E d'"
proof -
  have "request_safe E d" using assms(4,5) by (simp add: request_safe_def)
  from platform.step_total[OF assms(1) platform.reachable_inv[OF assms(1,2)] assms(3) this]
  show ?thesis using reach_step[OF assms(2,3)] by blast
qed

theorem every_event_returns_witness:
  "\<exists>d. reachable ref_env d \<and> authorized d \<and>
     (\<exists>d'. step ref_env (E_downlink_data 0 [0x81, 0x00] True) d = Some d' \<and> reachable ref_env d')"
proof -
  have "map_option (\<lambda>d. (authorized d, pop (config d), wc_sta_state (wc d)))
      (foldM (step ref_env) demo_events (boot ref_env [])) = Some (True, Some (str_bytes ''pop''), 2)" by code_simp
  then obtain d where d: "foldM (step ref_env) demo_events (boot ref_env []) = Some d" "authorized d"
    "pop (config d) \<noteq> None" "wc_sta_state (wc d) = 2" by auto
  have "list_all valid_event demo_events" by (simp add: demo_events_def)
  from run_reachable[OF run_foldM[OF this d(1) run_nil]] have r: "reachable ref_env d" by (simp add: cold_def)
  have "\<not> status_dangles ref_env d" using d(4) by (simp add: status_dangles_def)
  from every_event_returns[OF ref_platform.platform_axioms r _ d(3) this, of "E_downlink_data 0 [0x81, 0x00] True"] r d(2)
  show ?thesis by auto
qed

section \<open>The dispatcher\<close>

text \<open>
  C4: the gate. While the session is not authorized, a complete request to an endpoint that
  requires authorization changes nothing: the stores, the Wi-Fi, scan, authorization and manager
  state stay as they were, the only calls made are those of the response queue, and the queue gains
  at most the status \<^verbatim>\<open>unauthorized\<close> for that path.
\<close>

theorem unauthorized_request_changes_nothing:
  assumes "zcbor_encoder (zenc E) R" and "device_inv E d" and "endpoint (active d) = Some i"
    and "ep_require_auth (endpoints E ! i)" and "\<not> authorized d" and "pop (config d) \<noteq> None"
    and "\<not> overflow (active d)" and "active_len (active d) + length data \<le> POUCH_PROV_MSG_MAX"
  shows "\<exists>d' new. downlink_data E 0 data True d = Some d' \<and> untouched d d' \<and> trace d' = new @ trace d \<and>
    list_all queue_call new \<and>
    (\<exists>op. fifo_of (trace d') = fifo_of (trace d) \<or>
       fifo_of (trace d') = fifo_of (trace d) @ [\<lparr>rsp_path = ep_path (endpoints E ! i), rsp_msg = status_bytes op 4\<rparr>])"
proof -
  obtain op e where e: "downlink_data E 0 data True d = Some (respond_status E (ep_path (endpoints E ! i)) op
      prov_status_status_unauthorized_m_c e)" "untouched d e" "trace e = trace d"
    using gated_request[OF assms(2-8)] by blast
  have "status_ok 4" by (simp add: status_ok_def word_le_nat_alt)
  note r = respond_status_effect[OF assms(1) this, of "ep_path (endpoints E ! i)" op e]
  have "fifo_of (trace (respond_status E (ep_path (endpoints E ! i)) op prov_status_status_unauthorized_m_c e)) = fifo_of (trace d) \<or>
      fifo_of (trace (respond_status E (ep_path (endpoints E ! i)) op prov_status_status_unauthorized_m_c e)) =
      fifo_of (trace d) @ [\<lparr>rsp_path = ep_path (endpoints E ! i), rsp_msg = status_bytes op 4\<rparr>]"
    unfolding r using e(3) by (simp add: enqueue_fifo_cases)
  then show ?thesis using e respond_untouched[OF e(2)] respond_status_calls by metis
qed

text \<open>The control endpoint is number 2 of the reference table.\<close>

lemma demo_ctrl: "endpoints ref_env ! 2 =
  \<lparr>ep_path = POUCH_PROV_PATH_CTRL, ep_handler = pouch_prov_handle_ctrl ref_env, ep_require_auth = True\<rparr>"
  by (simp add: endpoints_def ref_env_def)

lemma demo_open_inv: "device_inv ref_env demo_open"
  using demo_inv by (simp add: demo_open_def inv_unfold)

lemma demo_open_sel: "endpoint (active demo_open) = Some 2" "\<not> authorized demo_open" "pop (config demo_open) = Some (str_bytes ''pop'')"
  "\<not> overflow (active demo_open)" "active_len (active demo_open) = 0" "fifo_of (trace demo_open) = []" "trace demo_open = []"
  "active_buf (active demo_open) = replicate 384 0"
  by (simp_all add: demo_open_def demo_def demo_cfg_def boot_def)

theorem unauthorized_request_changes_nothing_witness:
  "\<exists>d'. downlink_data ref_env 0 [0x81, 0x01] True demo_open = Some d' \<and> untouched demo_open d'"
  using unauthorized_request_changes_nothing[OF ref_zcbor(1) demo_open_inv demo_open_sel(1), of "[0x81, 0x01]"]
    demo_open_sel by (auto simp: demo_ctrl POUCH_PROV_MSG_MAX_def)

text \<open>
  C5: fragments do not matter. A request that fits the buffer is processed the same whether it
  arrives in one fragment or in many, for every endpoint and in every state.
\<close>

theorem fragmentation_irrelevant:
  assumes "device_inv E d" and "fs \<noteq> []" and "active_len (active d) + length (concat fs) \<le> POUCH_PROV_MSG_MAX"
  shows "downlink_fragments E s fs d = downlink_data E s (concat fs) True d"
  using assms by (intro reassembly) (simp_all add: device_inv_def active_inv_def)

theorem fragmentation_irrelevant_witness:
  "downlink_fragments ref_env 0 [[0x81], [], [0x01]] demo_open = downlink_data ref_env 0 [0x81, 0x01] True demo_open \<and>
   downlink_fragments ref_env 0 [[0x81], [], [0x01]] demo_open \<noteq> None"
  using fragmentation_irrelevant[OF demo_open_inv, of "[[0x81], [], [0x01]]" 0] demo_open_sel
    gated_request[OF demo_open_inv demo_open_sel(1), of "[0x81, 0x01]"]
  by (auto simp: POUCH_PROV_MSG_MAX_def demo_ctrl)

text \<open>
  C6: a request larger than the buffer never reaches a handler. Whatever its fragments, every field
  of the device but the request buffer is unchanged and the client gets \<^verbatim>\<open>invalid_argument\<close> for
  operation 0 on the path it used.
\<close>

theorem oversized_request_rejected:
  assumes "zcbor_encoder (zenc E) R" and "device_inv E d" and "endpoint (active d) = Some i" and "fs \<noteq> []"
    and "POUCH_PROV_MSG_MAX < active_len (active d) + length (concat fs)"
  shows "\<exists>a. downlink_fragments E 0 fs d =
    Some (snd (pouch_prov_rpc_enqueue E (ep_path (endpoints E ! i)) (status_bytes 0 2) (d\<lparr>active := a\<rparr>))) \<and> endpoint a = None"
proof -
  have a: "length (active_buf (active d)) = POUCH_PROV_MSG_MAX" "active_len (active d) \<le> POUCH_PROV_MSG_MAX"
    using assms(2) by (simp_all add: device_inv_def active_inv_def)
  have "status_ok 2" by (simp add: status_ok_def word_le_nat_alt)
  note r = respond_status_effect[OF assms(1) this, where op = 0]
  from fragments_overflow[OF assms(4) a(1) assms(3) a(2), of E] assms(5) obtain d' where
    "overflowed d d'" "downlink_fragments E 0 fs d = Some (respond_status E (ep_path (endpoints E ! i)) 0
      prov_status_status_invalid_argument_m_c d')" by blast
  then show ?thesis by (auto simp: overflowed_def r)
qed

theorem oversized_request_rejected_witness:
  "\<exists>a. downlink_fragments ref_env 0 [replicate 300 1, replicate 300 2] demo_open =
    Some (snd (pouch_prov_rpc_enqueue ref_env (ep_path (endpoints ref_env ! 2)) (status_bytes 0 2) (demo_open\<lparr>active := a\<rparr>)))
    \<and> endpoint a = None"
  using oversized_request_rejected[OF ref_zcbor(1) demo_open_inv demo_open_sel(1), of "[replicate 300 1, replicate 300 2]"]
    demo_open_sel by (simp add: POUCH_PROV_MSG_MAX_def)

text \<open>
  An error on an operation above 2 goes unanswered. The dispatcher encodes every status
  response as a control response, whose operation is at most 2, so a client without authorization
  that sends operation 3 to 23 gets nothing at all.
\<close>

theorem high_operation_unanswered:
  assumes "zcbor_encoder (zenc E) R" and "device_inv E d" and "endpoint (active d) = Some i"
    and "ep_require_auth (endpoints E ! i)" and "\<not> authorized d" and "pop (config d) \<noteq> None"
    and "\<not> overflow (active d)" and "active_len (active d) = 0" and "3 \<le> op" and "op \<le> 23" and "length rest \<le> 382"
  shows "\<exists>d'. downlink_data E 0 (0x82 # op # rest) True d = Some d' \<and> untouched d d' \<and> trace d' = trace d"
proof -
  let ?req = "0x82 # op # rest"
  have p: "peek_op ?req (length ?req) = ucast op" using assms(10) by (simp add: peek_op_def word_le_nat_alt)
  have h: "\<not> ucast op \<le> (2 :: u32)" using assms(9) unat_lt_u8[of op]
    by (simp add: word_le_nat_alt unsigned_ucast_eq take_bit_nat_eq_self)
  have fits: "active_len (active d) + length ?req \<le> POUCH_PROV_MSG_MAX"
    using assms(8,11) by (simp add: POUCH_PROV_MSG_MAX_def)
  have "status_ok 4" by (simp add: status_ok_def word_le_nat_alt)
  note r = respond_status_effect[OF assms(1) this]
  from gated_request[OF assms(2-7) fits] assms(8) p h show ?thesis by (auto simp: r)
qed

theorem high_operation_unanswered_witness:
  "\<exists>d'. downlink_data ref_env 0 [0x82, 5] True demo_open = Some d' \<and> untouched demo_open d' \<and> trace d' = []"
  using high_operation_unanswered[OF ref_zcbor(1) demo_open_inv demo_open_sel(1), of 5 "[]"] demo_open_sel
  by (simp add: demo_ctrl)

section \<open>Authentication\<close>

text \<open>
  C9: in a challenged session with attempts left, a proof is accepted exactly when it is the HMAC
  of \<^verbatim>\<open>"cli"\<close>, the device nonce and the client nonce under the proof of possession: the right
  one is answered \<^verbatim>\<open>ok\<close> and authorizes, any other 32 bytes are answered \<^verbatim>\<open>unauthorized\<close>, count
  one attempt and leave the authorization as it was.
\<close>

theorem proof_accepted_iff_hmac:
  assumes "psa_hmac_live E hmac" and "cbor_decode_auth_req (zdec E) req = Some (auth_req_auth_proof_m p, c)"
    and "challenged (auth d)" and "length p = 32" and "pop (config d) = Some K" and "attempts (auth d) < 3"
  shows "\<exists>d'. if p = hmac K (str_bytes ''cli'' @ dev_nonce (auth d) @ cli_nonce (auth d))
     then pouch_prov_handle_auth E req n d = Some (auth_respond_status E prov_status_status_ok_m_c n, d') \<and> authorized d'
     else pouch_prov_handle_auth E req n d = Some (auth_respond_status E prov_status_status_unauthorized_m_c n, d') \<and>
       authorized d' = authorized d \<and> attempts (auth d') = attempts (auth d) + 1"
proof -
  have "unat (attempts (auth d)) < 3" using assms(6) by (simp add: word_less_nat_alt)
  then have "attempts (auth d) + 1 \<le> MAX_ATTEMPTS" by (simp add: MAX_ATTEMPTS_def word_le_nat_alt unat_word_ariths)
  from psa_hmac_live.good_proof_authorizes[OF assms(1,2,3) this assms(5)]
    psa_hmac_live.bad_proof_rejected[OF assms(1-5)]
  show ?thesis by auto
qed

text \<open>A challenged device, and the wire form of a proof.\<close>

lemma demo_proof_decodes: "cbor_decode_auth_req (zdec ref_env) demo_proof =
    Some (auth_req_auth_proof_m (ref_hmac (str_bytes ''pop'') (str_bytes ''cli'' @ replicate 16 7 @ replicate 16 5)), 36)"
  by code_simp

lemma demo_challenged_sel: "challenged (auth demo_challenged)" "pop (config demo_challenged) = Some (str_bytes ''pop'')"
  "attempts (auth demo_challenged) = 0" "dev_nonce (auth demo_challenged) = replicate 16 7" "cli_nonce (auth demo_challenged) = replicate 16 5"
  by (simp_all add: demo_challenged_def demo_def demo_cfg_def)

theorem proof_accepted_iff_hmac_witness:
  "\<exists>d'. pouch_prov_handle_auth ref_env demo_proof 384 demo_challenged =
      Some (auth_respond_status ref_env prov_status_status_ok_m_c 384, d') \<and> authorized d'"
  using proof_accepted_iff_hmac[OF ref_psa.psa_hmac_live_axioms demo_proof_decodes demo_challenged_sel(1) ref_hmac_length
      demo_challenged_sel(2), of 384] demo_challenged_sel by simp

text \<open>
  C10: the attempt counter is eight bits wide and wraps. After 256 wrong proofs, none of which
  authorizes, it is back to 0, and a right proof is then accepted in the same session: the limit of
  three attempts does not bound the number of guesses.
\<close>

theorem attempt_limit_wraps:
  assumes "psa_hmac_live E hmac" and "challenged (auth d)" and "pop (config d) = Some K" and "attempts (auth d) = 0"
    and "cbor_decode_auth_req (zdec E) bad = Some (auth_req_auth_proof_m p, c)" and "length p = 32"
    and "p \<noteq> hmac K (str_bytes ''cli'' @ dev_nonce (auth d) @ cli_nonce (auth d))"
    and "cbor_decode_auth_req (zdec E) good =
      Some (auth_req_auth_proof_m (hmac K (str_bytes ''cli'' @ dev_nonce (auth d) @ cli_nonce (auth d))), c')"
  shows "\<exists>d1 d2. submit_proofs E bad n 256 d = Some d1 \<and> authorized d1 = authorized d \<and>
    pouch_prov_handle_auth E good n d1 = Some (auth_respond_status E prov_status_status_ok_m_c n, d2) \<and> authorized d2"
proof -
  obtain d1 where d1: "submit_proofs E bad n 256 d = Some d1" "attempts (auth d1) = attempts (auth d) + of_nat 256"
    "dev_nonce (auth d1) = dev_nonce (auth d)" "cli_nonce (auth d1) = cli_nonce (auth d)" "challenged (auth d1)"
    "config d1 = config d" "authorized d1 = authorized d"
    using submit_wrong_proofs[OF assms(1,5,6,2,3,7)] by metis
  have "attempts (auth d1) + 1 \<le> MAX_ATTEMPTS" using d1(2) assms(4) by (simp add: MAX_ATTEMPTS_def)
  from psa_hmac_live.good_proof_authorizes[OF assms(1,8) d1(5) this, of K n] d1 assms(3) show ?thesis by auto
qed

lemma demo_bad_proof_decodes: "cbor_decode_auth_req (zdec ref_env) demo_bad_proof = Some (auth_req_auth_proof_m (replicate 32 0), 36)"
  by code_simp

lemma demo_bad_proof_bad: "replicate 32 0 \<noteq> ref_hmac (str_bytes ''pop'') (str_bytes ''cli'' @ replicate 16 7 @ replicate 16 5)"
  by code_simp

theorem attempt_limit_wraps_witness:
  "\<exists>d1 d2. submit_proofs ref_env demo_bad_proof 384 256 demo_challenged = Some d1 \<and> authorized d1 = authorized demo_challenged \<and>
    pouch_prov_handle_auth ref_env demo_proof 384 d1 = Some (auth_respond_status ref_env prov_status_status_ok_m_c 384, d2) \<and> authorized d2"
  using attempt_limit_wraps[OF ref_psa.psa_hmac_live_axioms demo_challenged_sel(1,2,3) demo_bad_proof_decodes, of demo_proof 36 384]
    demo_bad_proof_bad demo_proof_decodes demo_challenged_sel by simp

section \<open>The credential store\<close>



text \<open>
  C12: the chunk buffer implements the abstract upload. For every offset, total and data, staging a
  chunk stays inside the buffer, touches only the addressed blob, and does to it what the
  specification \<^const>\<open>up_write\<close> does to the list of bytes received: restart at offset 0, append at the
  end, reject a total above the capacity, a gap, an overlap or an overrun.
\<close>

theorem stage_refines_upload:
  assumes "cred_inv d" and "k < 3"
  shows "\<exists>r b'. pouch_prov_cred_stage k off tot data d = Some (r, d\<lparr>blobs := (blobs d)[k := b']\<rparr>) \<and> blob_inv b' \<and>
    len b' = len (blobs d ! k) \<and>
    up_write (cap (blobs d ! k)) (unat off) (unat tot) data (upload_of (blobs d ! k)) = (r, upload_of b')"
  using stage_refines[OF assms] by metis

lemma demo_cred: "cred_inv demo"
  using demo_inv by (simp add: device_inv_def)

lemma demo_blobs: "blobs demo = init_blobs"
  by (simp add: demo_def boot_def boot_wc_def)

theorem stage_refines_upload_witness:
  "\<exists>r b'. pouch_prov_cred_stage 0 0 5 demo_cert demo = Some (r, demo\<lparr>blobs := (blobs demo)[0 := b']\<rparr>) \<and>
    r = Inr 5 \<and> upload_of b' = \<lparr>up_expected = 5, up_data = demo_cert\<rparr>"
proof -
  have "up_write (cap (blobs demo ! 0)) (unat (0 :: u32)) (unat (5 :: u32)) demo_cert (upload_of (blobs demo ! 0)) =
      (Inr 5, \<lparr>up_expected = 5, up_data = demo_cert\<rparr>)"
    by (simp add: demo_blobs init_blobs_def empty_blob_def up_write_def demo_cert_def DEVICE_CERT_MAX_def)
  then show ?thesis using stage_refines_upload[OF demo_cred, of 0 0 5 demo_cert] by auto
qed

text \<open>
  An upload in order is reassembled. From any state of the store, chunks at consecutive
  offsets, the first at 0, that add up to the announced total are all accepted, and the blob is then
  complete and holds their concatenation.
\<close>

theorem upload_reassembled:
  assumes "cred_inv d" and "k < 3" and "c \<noteq> []" and "length (concat (c # cs)) \<le> cap (blobs d ! k)"
  shows "\<exists>d'. foldM (stage_chunk k (length (concat (c # cs)))) (chunks 0 (c # cs)) d = Some d' \<and> cred_inv d' \<and>
    ready (blobs d' ! k) \<and> staged_data (blobs d' ! k) = concat (c # cs)"
proof -
  let ?n = "length (concat (c # cs))"
  obtain d1 where d1: "stage_chunk k ?n (0, c) d = Some d1" "cred_inv d1" "cap (blobs d1 ! k) = cap (blobs d ! k)"
    "upload_of (blobs d1 ! k) = \<lparr>up_expected = ?n, up_data = c\<rparr>"
    using stage_chunk_ok[OF assms(1,2,4), of 0 c "[]"] by auto
  from stage_chunks_from[OF d1(2) assms(2) _ d1(4) assms(3), of cs] assms(4) d1(3) obtain d2 where
    d2: "foldM (stage_chunk k ?n) (chunks (length c) cs) d1 = Some d2" "cred_inv d2"
    "upload_of (blobs d2 ! k) = \<lparr>up_expected = ?n, up_data = c @ concat cs\<rparr>" by auto
  have b: "blob_inv (blobs d2 ! k)" using cred_inv_nth[OF d2(2) assms(2)] .
  have u: "expected (blobs d2 ! k) = ?n" "staged_data (blobs d2 ! k) = concat (c # cs)"
    using d2(3) by (simp_all add: upload_of_def staged_data_def)
  have "length (staged_data (blobs d2 ! k)) = staged (blobs d2 ! k)" using b by (simp add: staged_data_def blob_inv_def)
  then have "staged (blobs d2 ! k) = ?n" unfolding u(2) by simp
  with u assms(3) d1(1) d2 show ?thesis by (auto simp: ready_def)
qed

theorem upload_reassembled_witness:
  "\<exists>d'. foldM (stage_chunk 0 5) (chunks 0 [[0x30, 0x03], [1], [2, 3]]) demo = Some d' \<and> ready (blobs d' ! 0) \<and>
    staged_data (blobs d' ! 0) = demo_cert"
  using upload_reassembled[OF demo_cred, of 0 "[0x30, 0x03]" "[[1], [2, 3]]"]
  by (auto simp: demo_blobs init_blobs_def empty_blob_def DEVICE_CERT_MAX_def demo_cert_def eval_nat_numeral)


lemma demo_staged_inv: "cred_inv demo_staged"
  by (simp add: demo_staged_def cred_inv_def blob_inv_def empty_blob_def demo_cert_def DEVICE_CERT_MAX_def
      PRIVATE_KEY_MAX_def CA_CERT_MAX_def)

lemma demo_staged_blobs: "ready (blobs demo_staged ! 0)" "ready (blobs demo_staged ! 1)"
  "staged_data (blobs demo_staged ! 0) = demo_cert" "der_spans demo_cert"
  by (simp_all add: demo_staged_def ready_def staged_data_def demo_cert_def der_spans_def)

lemma demo_finalize: "\<exists>d'. pouch_prov_cred_finalize ref_env demo_staged = Some (rc_ok, d')"
proof -
  have "map_option fst (pouch_prov_cred_finalize ref_env demo_staged) = Some rc_ok" by code_simp
  then show ?thesis by auto
qed


text \<open>
  C15: credentials survive a reboot. After a finalize that succeeded, on a device that boots with
  the same settings, loading them, in whatever order they are delivered and whatever else is
  stored, gives back every uploaded credential byte for byte.
\<close>

theorem credentials_survive_reboot:
  assumes "settings_store E" and "CONFIG_POUCH_PROV_CRED E" and "cred_inv d"
    and "pouch_prov_cred_finalize E d = Some (rc_ok, d')" and "k < 3" and "ready (blobs d ! k)"
    and "settings_of t = settings_of (trace d')" and "sub = '''' \<or> sub = ''pnp''"
  shows "\<exists>r d''. settings_load E sub (boot E t) = Some (r, d'') \<and>
    pouch_prov_cred_get k d'' = Some (staged_data (blobs d ! k))"
proof -
  have c: "cred_inv (boot E t)" "id_inv (boot E t)" "trace (boot E t) = t" by (simp_all add: boot_def cred_inv_init id_inv_def)
  obtain r d'' where ld: "settings_load E sub (boot E t) = Some (r, d'')" using load_total[OF c(1,2)] by blast
  note st = finalized_stored[OF assms(3-6)]
  from load_credential[OF assms(1,2) c(1,2) assms(5) _ st(2,3) assms(8) ld] st(1) assms(7) c(3) ld show ?thesis by simp
qed

theorem credentials_survive_reboot_witness:
  "\<exists>t r d''. settings_load ref_env ''pnp'' (boot ref_env t) = Some (r, d'') \<and> pouch_prov_cred_get 0 d'' = Some demo_cert"
proof -
  obtain d' where d': "pouch_prov_cred_finalize ref_env demo_staged = Some (rc_ok, d')" using demo_finalize by blast
  have "CONFIG_POUCH_PROV_CRED ref_env" by (simp add: ref_env_def)
  from credentials_survive_reboot[OF ref_settings.settings_store_axioms this demo_staged_inv d' _ demo_staged_blobs(1) refl, of "''pnp''"]
  show ?thesis unfolding demo_staged_blobs(3) by auto
qed

text \<open>
  Uploads are staged in the buffer the application reads. The first accepted chunk of a new
  upload changes what \<^verbatim>\<open>pouch_prov_cred_get\<close> returns before anything is finalized: the start of the
  new credential followed by the rest of the old one.
\<close>

theorem staging_tears_credential:
  assumes "cred_inv d" and "k < 3" and "pouch_prov_cred_get k d = Some old"
    and "pouch_prov_cred_stage k 0 tot data d = Some (Inr n, d')" and "length data \<le> length old"
  shows "pouch_prov_cred_get k d' = Some (data @ drop (length data) old)"
  by (rule stage_overwrites[OF assms])

theorem staging_tears_credential_witness:
  "\<exists>d'. pouch_prov_cred_stage 0 0 5 [9, 9] demo_stored = Some (Inr 2, d') \<and>
     pouch_prov_cred_get 0 demo_stored = Some demo_cert \<and> pouch_prov_cred_get 0 d' = Some [9, 9, 1, 2, 3]"
proof -
  have i: "cred_inv demo_stored"
    by (simp add: demo_stored_def cred_inv_def blob_inv_def empty_blob_def demo_cert_def DEVICE_CERT_MAX_def
        PRIVATE_KEY_MAX_def CA_CERT_MAX_def)
  have g: "pouch_prov_cred_get 0 demo_stored = Some demo_cert"
    by (simp add: demo_stored_def pouch_prov_cred_get_def pouch_prov_cred_present_def kind_valid_def demo_cert_def)
  have "map_option fst (pouch_prov_cred_stage 0 0 5 [9, 9] demo_stored) = Some (Inr 2)" by code_simp
  then obtain d' where d': "pouch_prov_cred_stage 0 0 5 [9, 9] demo_stored = Some (Inr 2, d')" by auto
  from staging_tears_credential[OF i _ g d'] g d' show ?thesis by (auto simp: demo_cert_def)
qed

section \<open>The response queue\<close>

text \<open>
  C17: responses are delivered once and in order. A flush ends, hands every queued response to the
  uplink in the order it was queued, after those of earlier flushes, leaves the queue empty and
  every response freed, and touches nothing else.
\<close>

theorem flush_delivers_in_order:
  assumes "kernel E" and "no_leak (trace d)"
  shows "\<exists>d'. rpc_uplink_flush E d = Some d' \<and> uplinks_of (trace d') = uplinks_of (trace d) @ fifo_of (trace d) \<and>
    fifo_of (trace d') = [] \<and> live_of (trace d') = 0 \<and> only_log d d'"
  using kernel.flush_drains[OF assms(1), of d] assms(2) by (fastforce simp: drained_def no_leak_def)

theorem flush_delivers_in_order_witness:
  "\<exists>d'. rpc_uplink_flush ref_env (snd (pouch_prov_rpc_enqueue ref_env ''b'' [2] (snd (pouch_prov_rpc_enqueue ref_env ''a'' [1] demo)))) = Some d' \<and>
     uplinks_of (trace d') = [\<lparr>rsp_path = ''a'', rsp_msg = [1]\<rparr>, \<lparr>rsp_path = ''b'', rsp_msg = [2]\<rparr>] \<and> live_of (trace d') = 0"
proof -
  let ?d = "snd (pouch_prov_rpc_enqueue ref_env ''b'' [2] (snd (pouch_prov_rpc_enqueue ref_env ''a'' [1] demo)))"
  have f: "fifo_of (trace ?d) = [\<lparr>rsp_path = ''a'', rsp_msg = [1]\<rparr>, \<lparr>rsp_path = ''b'', rsp_msg = [2]\<rparr>]" "uplinks_of (trace ?d) = []"
    by code_simp+
  have "no_leak (trace ?d)" using demo_inv by (intro enqueue_no_leak) (simp add: device_inv_def)
  from flush_delivers_in_order[OF ref_kernel.kernel_axioms this] f show ?thesis by auto
qed

text \<open>
  The wait for a response can be skipped. Queueing a response gives the semaphore and flushing
  a queue that is not empty does not take it, so the next flush of an empty queue finds it already
  given and returns without waiting for the response it was to wait for.
\<close>

theorem stale_semaphore_skips_wait:
  assumes "kernel E" and "length msg \<le> POUCH_PROV_MSG_MAX" and "\<forall>n t. k_malloc E n t"
  shows "\<exists>d1 d2. rpc_uplink_flush E (snd (pouch_prov_rpc_enqueue E path msg d)) = Some d1 \<and> fifo_of (trace d1) = [] \<and>
    k_sem_take E (trace d1) = rc_ok \<and> rpc_uplink_flush E d1 = Some d2 \<and> uplinks_of (trace d2) = uplinks_of (trace d1)"
proof -
  let ?e = "snd (pouch_prov_rpc_enqueue E path msg d)"
  have e: "fifo_of (trace ?e) \<noteq> []" "sem_of (trace ?e) = 1"
    using assms(2,3) by (simp_all add: pouch_prov_rpc_enqueue_def Let_def)
  obtain d1 where d1: "rpc_uplink_flush E ?e = Some d1" "fifo_of (trace d1) = []" "sem_of (trace d1) = 1"
    using kernel.flush_keeps_sem[OF assms(1) e(1)] e(2) by auto
  obtain d2 where d2: "rpc_uplink_flush E d1 = Some d2" "uplinks_of (trace d2) = uplinks_of (trace d1) @ fifo_of (trace d1)"
    using kernel.flush_drains[OF assms(1), of d1] by blast
  have "k_sem_take E (trace d1) = rc_ok" using kernel.sem_take[OF assms(1), of "trace d1"] d1(3) by simp
  with d1 d2 show ?thesis by auto
qed

theorem stale_semaphore_skips_wait_witness:
  "\<exists>d1. rpc_uplink_flush ref_env (snd (pouch_prov_rpc_enqueue ref_env ''a'' [1] demo)) = Some d1 \<and> fifo_of (trace d1) = [] \<and>
    k_sem_take ref_env (trace d1) = rc_ok"
proof -
  have "\<forall>n t. k_malloc ref_env n t" by (simp add: ref_env_def)
  from stale_semaphore_skips_wait[OF ref_kernel.kernel_axioms _ this, of "[1]" "''a''" demo] show ?thesis
    by (auto simp: POUCH_PROV_MSG_MAX_def)
qed
section \<open>The manager\<close>

text \<open>
  C19: stopping. In every state that runs, stop succeeds and leaves the device not running, not
  advertising, without authorization, with an empty response queue and the end event posted, so a
  waiting application returns; the credentials and the stored networks stay.
\<close>

theorem stop_ends_provisioning:
  assumes "kernel E" and "device_inv E d" and "running d"
  shows "\<exists>d'. pouch_prov_mgr_stop E d = Some (rc_ok, d') \<and> \<not> running d' \<and> \<not> adv_enabled d' \<and> \<not> authorized d' \<and>
    fifo_of (trace d') = [] \<and> fst (pouch_prov_mgr_wait E d') = rc_ok \<and> blobs d' = blobs d \<and>
    settings_of (trace d') = settings_of (trace d) \<and> wifi_creds_of (trace d') = wifi_creds_of (trace d)"
  using kernel.stop_effect[OF assms] kernel.event_wait[OF assms(1)]
  by (fastforce simp: pouch_prov_mgr_wait_def Let_def)

theorem stop_ends_provisioning_witness:
  "\<exists>d'. pouch_prov_mgr_stop ref_env demo = Some (rc_ok, d') \<and> \<not> running d' \<and> fst (pouch_prov_mgr_wait ref_env d') = rc_ok"
  using stop_ends_provisioning[OF ref_kernel.kernel_axioms demo_inv] by (auto simp: demo_def)

text \<open>
  Starting. Start returns in every state; it succeeds at most when the manager is initialized
  and not running, and then the device runs and advertises with a fresh session: no authorization,
  no queued response, no end event. In every other case whether it runs is unchanged.
\<close>

theorem start_opens_fresh_session:
  assumes "kernel E" and "device_inv E d"
  shows "\<exists>r d'. pouch_prov_mgr_start E d = Some (r, d') \<and> (running d' \<longleftrightarrow> running d \<or> r = rc_ok) \<and>
    (\<not> initialized d \<longrightarrow> r = rc_err EINVAL) \<and> (initialized d \<and> running d \<longrightarrow> r = rc_err EALREADY) \<and>
    (r = rc_ok \<longrightarrow> initialized d \<and> \<not> running d \<and> adv_enabled d' \<and> \<not> authorized d' \<and> fifo_of (trace d') = [] \<and>
       fst (pouch_prov_mgr_wait E d') = rc_err EAGAIN)"
proof -
  obtain r d' where s: "pouch_prov_mgr_start E d = Some (r, d')" "running d' \<longleftrightarrow> running d \<or> r = rc_ok"
    "r = rc_ok \<longrightarrow> initialized d \<and> \<not> running d \<and> adv_enabled d' \<and> \<not> authorized d' \<and> fifo_of (trace d') = [] \<and>
       \<not> ended_of (trace d')" using kernel.start_effect[OF assms] by blast
  have "\<not> ended_of (trace d') \<Longrightarrow> fst (pouch_prov_mgr_wait E d') = rc_err EAGAIN"
    using kernel.event_wait[OF assms(1), of "trace d'"] by (simp add: pouch_prov_mgr_wait_def Let_def)
  moreover have "\<not> initialized d \<longrightarrow> r = rc_err EINVAL" "initialized d \<and> running d \<longrightarrow> r = rc_err EALREADY"
    using s(1) by (auto simp: pouch_prov_mgr_start_def)
  ultimately show ?thesis using s by blast
qed

theorem start_opens_fresh_session_witness:
  "\<exists>r d'. pouch_prov_mgr_start ref_env demo = Some (r, d') \<and> r = rc_err EALREADY"
  using start_opens_fresh_session[OF ref_kernel.kernel_axioms demo_inv] by (auto simp: demo_def)


lemma demo_staged_device_inv: "device_inv ref_env demo_staged"
  by (rule cred_only_inv[OF _ demo_staged_inv demo_inv]) (simp add: cred_only_def demo_staged_def)


text \<open>
  C22: the answer to the end request survives the stop. An authorized end request on the control
  endpoint stops the manager before its response is queued; the stop empties the queue, dropping
  every response that was waiting, and the response to the end request is then the only one in it.
\<close>

theorem end_request_answered:
  assumes "kernel E" and "zcbor_encoder (zenc E) R" and "zcbor_decoder (zdec E) R'" and "device_inv E d" and "running d"
    and "authorized d" and "endpoint (active d) = Some i" and "i < length (endpoints E)"
    and "ep_path (endpoints E ! i) = POUCH_PROV_PATH_CTRL" and "\<not> overflow (active d)" and "active_len (active d) = 0"
    and "\<forall>n t. k_malloc E n t"
  shows "\<exists>d'. downlink_data E 0 [0x81, 0x02] True d = Some d' \<and> \<not> running d' \<and> \<not> authorized d' \<and> ended_of (trace d') \<and>
    fifo_of (trace d') = [\<lparr>rsp_path = POUCH_PROV_PATH_CTRL, rsp_msg = [0x82, 0x02, 0x00]\<rparr>]"
proof -
  let ?e = "(appended [0x81, 0x02] d)\<lparr>active := (active (appended [0x81, 0x02] d))\<lparr>endpoint := None\<rparr>\<rparr>"
  let ?c = "endpoints E ! i"
  have ie: "device_inv E ?e" using end_request_inv[OF appended_inv[OF assms(4)]] .
  have a: "length (active_buf (active d)) = 384" using assms(4) by (simp add: device_inv_def active_inv_def POUCH_PROV_MSG_MAX_def)
  have b: "active_buf (active ?e) = [0x81, 0x02] @ drop 2 (active_buf (active d))" "active_len (active ?e) = 2"
    "\<not> overflow (active ?e)" "authorized ?e" "running ?e"
    using assms(5,6,10,11) by (simp_all add: appended_def Let_def POUCH_PROV_MSG_MAX_def numeral_2_eq_2)
  have ep: "?c = \<lparr>ep_path = POUCH_PROV_PATH_CTRL, ep_handler = pouch_prov_handle_ctrl E, ep_require_auth = True\<rparr>"
    using nth_mem[OF assms(8)] assms(9) by (auto simp: endpoints_def path_defs split: if_splits)
  have w: "list_all wf_tok (ctrl_req_toks ctrl_req_ctrl_end_m)" by simp
  have t: "toks_bytes (ctrl_req_toks ctrl_req_ctrl_end_m) = [0x81, 0x02]" by (simp add: toks_bytes_def cbor_head_def)
  have dec: "cbor_decode_ctrl_req (zdec E) [0x81, 0x02] = Some (ctrl_req_ctrl_end_m, 2)"
    using zcbor_decoder.cbor_decode_ctrl_req_ref[OF assms(3) w, unfolded t] dec_ctrl_req[OF w, of ctrl_req_ctrl_end_m 2, unfolded t]
    by simp
  have "status_ok 0" by (simp add: status_ok_def)
  have enc: "cbor_encode_ctrl_rsp (zenc E) POUCH_PROV_MSG_MAX \<lparr>ctrl_rsp_ctrl_op_m = 2, ctrl_rsp_prov_status_m = 0\<rparr> = Some [0x82, 0x02, 0x00]"
    using zcbor_encoder.cbor_encode_ctrl_rsp_ref[OF assms(2)] enc_ctrl_rsp[of "\<lparr>ctrl_rsp_ctrl_op_m = 2, ctrl_rsp_prov_status_m = 0\<rparr>" POUCH_PROV_MSG_MAX]
      status_bytes_toks[of 2 0] \<open>status_ok 0\<close> by (simp add: ctrl_rsp_ok_def emit_toks_def status_bytes_def POUCH_PROV_MSG_MAX_def)
  obtain d1 where d1: "pouch_prov_mgr_stop E ?e = Some (rc_ok, d1)" "\<not> running d1" "\<not> authorized d1" "fifo_of (trace d1) = []"
    "ended_of (trace d1)" using kernel.stop_effect[OF assms(1) ie b(5)] by blast
  have h: "pouch_prov_handle_ctrl E [0x81, 0x02] POUCH_PROV_MSG_MAX ?e = Some (Inr [0x82, 0x02, 0x00], d1)"
    using d1(1) by (simp add: handle_ctrl_eq dec enc ctrl_applied_def ctrl_op_def pouch_prov_ctrl_end_requested_def Let_def)
  have "downlink_complete E ?c ?e = Some (snd (pouch_prov_rpc_enqueue E POUCH_PROV_PATH_CTRL [0x82, 0x02, 0x00] d1))"
    using b h a by (simp add: downlink_complete_def ep pouch_prov_session_authorized_def mem_read_def)
  moreover have "fifo_of (trace (snd (pouch_prov_rpc_enqueue E POUCH_PROV_PATH_CTRL [0x82, 0x02, 0x00] d1))) =
      [\<lparr>rsp_path = POUCH_PROV_PATH_CTRL, rsp_msg = [0x82, 0x02, 0x00]\<rparr>]"
    using d1(4) assms(12) by (simp add: pouch_prov_rpc_enqueue_def POUCH_PROV_MSG_MAX_def Let_def)
  ultimately show ?thesis using downlink_data_eq[OF assms(4), of 0 "[0x81, 0x02]" True] assms(7) d1 by simp
qed

theorem end_request_answered_witness:
  "\<exists>d'. downlink_data ref_env 0 [0x81, 0x02] True (demo_open\<lparr>authorized := True, auth := auth demo_challenged\<rparr>) = Some d' \<and>
    \<not> running d' \<and> fifo_of (trace d') = [\<lparr>rsp_path = POUCH_PROV_PATH_CTRL, rsp_msg = [0x82, 0x02, 0x00]\<rparr>]"
proof -
  let ?d = "demo_open\<lparr>authorized := True, auth := auth demo_challenged\<rparr>"
  have i: "device_inv ref_env ?d" using demo_open_inv by (simp add: inv_unfold demo_challenged_def) (simp add: ref_env_def)
  have s: "running ?d" "endpoint (active ?d) = Some 2" "\<not> overflow (active ?d)" "active_len (active ?d) = 0"
    by (simp_all add: demo_open_def demo_def boot_def)
  have "\<forall>n t. k_malloc ref_env n t" "2 < length (endpoints ref_env)" by (simp_all add: ref_env_def endpoints_def)
  with end_request_answered[OF ref_kernel.kernel_axioms ref_zcbor i s(1) _ s(2)] s demo_ctrl show ?thesis by auto
qed
section \<open>Wi-Fi configuration\<close>

text \<open>
  C23: applying connects to the network that was set. After an accepted configuration, apply stores
  exactly that network, with its security, password, address and channel, leaves the other stored
  networks, and asks the driver to connect with exactly those parameters.
\<close>

theorem apply_connects_as_configured:
  assumes "config_accepted cfg" and "has_iface E" and "\<forall>c t. wifi_credentials_set_personal E c t = rc_ok"
    and "\<forall>p t. net_mgmt_wifi_connect E p t = rc_ok"
  shows "\<exists>d1 d2. do_set cfg d = Some (prov_status_status_ok_m_c, d1) \<and> do_apply E d1 = (prov_status_status_ok_m_c, d2) \<and>
    wifi_creds_of (trace d2) = (wifi_creds_of (trace d))(wifi_config_ssid cfg \<mapsto> cfg_cred cfg) \<and>
    hd (trace d2) = X_wifi_connect (cfg_params cfg) rc_ok \<and> connects_of (trace d2) = connects_of (trace d) + 1 \<and>
    attempting (cfg_params cfg) (unat (wc_attempts_max (wc d))) 0 d2"
  by (rule apply_effect[OF assms])

lemma ref_wifi: "has_iface ref_env" "\<forall>c t. wifi_credentials_set_personal ref_env c t = rc_ok"
  "\<forall>p t. net_mgmt_wifi_connect ref_env p t = rc_ok"
  by (simp_all add: has_iface_def ref_env_def)

lemma demo_net_ok: "config_accepted demo_net"
  by (simp add: config_accepted_def demo_net_def str_bytes_def)

theorem apply_connects_as_configured_witness:
  "\<exists>d1 d2. do_set demo_net demo = Some (prov_status_status_ok_m_c, d1) \<and> do_apply ref_env d1 = (prov_status_status_ok_m_c, d2) \<and>
    hd (trace d2) = X_wifi_connect (cfg_params demo_net) rc_ok"
  using apply_connects_as_configured[OF demo_net_ok ref_wifi, of demo] by blast

text \<open>
  C24: exactly the configured number of attempts. With \<open>m\<close> attempts configured and every one
  failing, the device makes \<open>m - 1\<close> retries, all with the parameters of the first attempt, and only
  then reports failure: the reason follows the last result, the network is deleted from the store,
  nothing is in flight, and every later result or retry is ignored.
\<close>

theorem retries_exactly_configured:
  assumes "attempting p m 0 d" and "m = length css + 1" and "has_iface E" and "\<forall>t. net_mgmt_wifi_connect E p t = rc_ok"
  shows "let d' = on_connect_result E 1 cs (fold (fail_round E) css d) in
    connects_of (trace d') = connects_of (trace d) + (m - 1) \<and> wc_sta_state (wc d') = sta_state_sta_failed_m_c \<and>
    wc_fail_reason (wc d') = (if cs = CONN_AP_NOT_FOUND then fail_reason_fail_network_not_found_m_c else fail_reason_fail_auth_error_m_c) \<and>
    wifi_creds_of (trace d') = (wifi_creds_of (trace d))(params_ssid p := None) \<and>
    on_connect_result E st cs' d' = d' \<and> retry_work_handler E d' = d'"
proof -
  let ?e = "fold (fail_round E) css d"
  have f: "attempting p m (length css) ?e" "connects_of (trace ?e) = connects_of (trace d) + length css"
    "wifi_creds_of (trace ?e) = wifi_creds_of (trace d)"
    using fail_rounds[OF assms(1), of css E] assms(2-4) by simp_all
  have s: "take (wc_inflight_ssid_len (wc ?e)) (wc_inflight_ssid (wc ?e)) = params_ssid p"
    using f(1) by (auto simp: attempting_def inflight_params_def)
  from last_failure[OF f(1), of 1 E cs] assms(2) have l: "on_connect_result E 1 cs ?e = final_failure E (?e\<lparr>wc := (wc ?e)\<lparr>
    wc_last_conn_status := cs, wc_attempts_completed := wc_attempts_completed (wc ?e) + 1\<rparr>\<rparr>)" by simp
  show ?thesis unfolding l Let_def
    using f s assms(2) by (simp add: final_failure_effect on_connect_result_def retry_work_handler_def)
qed

theorem retries_exactly_configured_witness:
  "\<exists>d. attempting (cfg_params demo_net) 3 0 d \<and>
     (let d' = on_connect_result ref_env 1 CONN_WRONG_PASSWORD (fold (fail_round ref_env) [CONN_OTHER 2, CONN_OTHER 3] d)
      in connects_of (trace d') = connects_of (trace d) + 2 \<and> wc_sta_state (wc d') = sta_state_sta_failed_m_c)"
proof -
  let ?d0 = "demo\<lparr>wc := (wc demo)\<lparr>wc_attempts_max := 3\<rparr>\<rparr>"
  obtain d where d: "attempting (cfg_params demo_net) 3 0 d"
    using apply_effect[OF demo_net_ok ref_wifi, of ?d0] by auto
  have "\<forall>t. net_mgmt_wifi_connect ref_env (cfg_params demo_net) t = rc_ok" using ref_wifi(3) by blast
  from retries_exactly_configured[OF d, of "[CONN_OTHER 2, CONN_OTHER 3]" ref_env CONN_WRONG_PASSWORD] ref_wifi(1) this d
  show ?thesis by (auto simp: Let_def)
qed

text \<open>
  C8: against the simulated driver, the credentials decide the outcome. Set and applied, a network
  on the air with the expected passphrase ends connected after one attempt, stored, and reported by
  the driver; any other is tried the configured number of times and ends failed and deleted, the
  reason telling a network that is not on the air from a wrong passphrase. The loop of device and
  driver ends within that many results.
\<close>

theorem credentials_decide_outcome:
  assumes "config_accepted cfg" and "has_iface E" and "\<forall>c t. wifi_credentials_set_personal E c t = rc_ok"
    and "\<forall>p t. net_mgmt_wifi_connect E p t = rc_ok" and "fw_inv k fw" and "fw_creds_mode fw" and "fw_next_sync_err fw = None"
    and "code (CONN_OTHER 0) = 0" and "code CONN_AP_NOT_FOUND \<noteq> 0" and "code CONN_WRONG_PASSWORD \<noteq> 0"
    and "m = max 1 (unat (wc_attempts_max (wc d)))" and "m \<le> n" and "ssid = wifi_config_ssid cfg"
  shows "\<exists>d1 d' fw'. do_set cfg d = Some (prov_status_status_ok_m_c, d1) \<and>
    sim_apply E code n d1 fw = Some (prov_status_status_ok_m_c, d', fw') \<and>
    (if ssid \<in> on_air fw \<and> (ssid, cfg_pass cfg) = fw_expects fw
     then wc_sta_state (wc d') = sta_state_sta_connected_m_c \<and> connects_of (trace d') = connects_of (trace d) + 1 \<and>
       wifi_creds_of (trace d') = (wifi_creds_of (trace d))(ssid \<mapsto> cfg_cred cfg) \<and>
       (\<forall>st. map_option ifs_ssid (fake_iface_status fw' st) = Some ssid) \<and> fw_connected fw'
     else wc_sta_state (wc d') = sta_state_sta_failed_m_c \<and> connects_of (trace d') = connects_of (trace d) + m \<and>
       wifi_creds_of (trace d') = (wifi_creds_of (trace d))(ssid := None) \<and> \<not> fw_connected fw' \<and>
       wc_fail_reason (wc d') = (if ssid \<in> on_air fw then fail_reason_fail_auth_error_m_c else fail_reason_fail_network_not_found_m_c))"
proof -
  let ?p = "cfg_params cfg"
  have a: "asks ?p = (ssid, cfg_pass cfg)" "params_ssid ?p = ssid" using assms(13) by (simp_all add: asks_def cfg_params_def)
  have "matching k fw" using assms(5-7) by (simp add: matching_def)
  from sim_apply_outcome[OF assms(1-4) this assms(8-12)] obtain d1 d2 d' fw' where
    d: "do_set cfg d = Some (prov_status_status_ok_m_c, d1)" "sim_apply E code n d1 fw = Some (prov_status_status_ok_m_c, d', fw')"
    "wifi_creds_of (trace d2) = (wifi_creds_of (trace d))(ssid \<mapsto> cfg_cred cfg)" "connects_of (trace d2) = connects_of (trace d) + 1"
    and o: "if outcome fw ?p = CONN_OTHER 0 then joined ?p d2 d' fw' else refused ?p (outcome fw ?p) (m - 1) d2 d' fw'"
    using assms(13) by blast
  show ?thesis
  proof (intro exI conjI)
    show "do_set cfg d = Some (prov_status_status_ok_m_c, d1)" "sim_apply E code n d1 fw = Some (prov_status_status_ok_m_c, d', fw')"
      using d by simp_all
  next
    have "0 < m" using assms(11) by simp
    with o d(3,4) a show "if ssid \<in> on_air fw \<and> (ssid, cfg_pass cfg) = fw_expects fw
     then wc_sta_state (wc d') = sta_state_sta_connected_m_c \<and> connects_of (trace d') = connects_of (trace d) + 1 \<and>
       wifi_creds_of (trace d') = (wifi_creds_of (trace d))(ssid \<mapsto> cfg_cred cfg) \<and>
       (\<forall>st. map_option ifs_ssid (fake_iface_status fw' st) = Some ssid) \<and> fw_connected fw'
     else wc_sta_state (wc d') = sta_state_sta_failed_m_c \<and> connects_of (trace d') = connects_of (trace d) + m \<and>
       wifi_creds_of (trace d') = (wifi_creds_of (trace d))(ssid := None) \<and> \<not> fw_connected fw' \<and>
       wc_fail_reason (wc d') = (if ssid \<in> on_air fw then fail_reason_fail_auth_error_m_c else fail_reason_fail_network_not_found_m_c)"
      by (auto simp: outcome_def joined_def refused_def fake_iface_status_def split: if_splits)
  qed
qed

lemma demo_fw_ok: "fw_inv 1 demo_fw" "fw_creds_mode demo_fw" "fw_next_sync_err demo_fw = None"
  "on_air demo_fw = {str_bytes ''home''}" "fw_expects demo_fw = (str_bytes ''home'', str_bytes ''secret'')"
  by (simp_all add: demo_fw_def demo_ap_def fw_inv_def fap_inv_def on_air_def fw_expects_def str_bytes_def)

text \<open>Both outcomes: the network of the driver, and one that is not on the air.\<close>

theorem credentials_decide_outcome_witness:
  "(\<exists>d1 d' fw'. do_set demo_net demo = Some (prov_status_status_ok_m_c, d1) \<and>
     sim_apply ref_env demo_code 1 d1 demo_fw = Some (prov_status_status_ok_m_c, d', fw') \<and>
     wc_sta_state (wc d') = sta_state_sta_connected_m_c \<and> fw_connected fw') \<and>
   (\<exists>d1 d' fw'. do_set (demo_net\<lparr>wifi_config_ssid := [1]\<rparr>) demo = Some (prov_status_status_ok_m_c, d1) \<and>
     sim_apply ref_env demo_code 1 d1 demo_fw = Some (prov_status_status_ok_m_c, d', fw') \<and>
     wc_fail_reason (wc d') = fail_reason_fail_network_not_found_m_c \<and> \<not> fw_connected fw')"
proof
  have m: "1 = max 1 (unat (wc_attempts_max (wc demo)))" by (simp add: demo_def boot_def boot_wc_def)
  have c: "demo_code (CONN_OTHER 0) = 0" "demo_code CONN_AP_NOT_FOUND \<noteq> 0" "demo_code CONN_WRONG_PASSWORD \<noteq> 0"
    by (simp_all add: demo_code_def)
  note th = credentials_decide_outcome[OF _ ref_wifi demo_fw_ok(1-3) c m le_refl refl]
  show "\<exists>d1 d' fw'. do_set demo_net demo = Some (prov_status_status_ok_m_c, d1) \<and>
     sim_apply ref_env demo_code 1 d1 demo_fw = Some (prov_status_status_ok_m_c, d', fw') \<and>
     wc_sta_state (wc d') = sta_state_sta_connected_m_c \<and> fw_connected fw'"
    using th[OF demo_net_ok] by (auto simp: demo_fw_ok demo_net_def cfg_pass_def cong: conj_cong)
  let ?n = "demo_net\<lparr>wifi_config_ssid := [1]\<rparr>"
  have "config_accepted ?n" by (simp add: config_accepted_def demo_net_def str_bytes_def)
  moreover have "wifi_config_ssid ?n \<notin> on_air demo_fw" by (simp add: demo_fw_ok str_bytes_def)
  ultimately show "\<exists>d1 d' fw'. do_set ?n demo = Some (prov_status_status_ok_m_c, d1) \<and>
     sim_apply ref_env demo_code 1 d1 demo_fw = Some (prov_status_status_ok_m_c, d', fw') \<and>
     wc_fail_reason (wc d') = fail_reason_fail_network_not_found_m_c \<and> \<not> fw_connected fw'"
    using th[of ?n] by auto
qed

text \<open>
  A superseded network stays stored. When a second network is applied before the first
  connected and then fails, only the second is deleted: the first stays in the store although it
  never connected, and the device reports itself provisioned.
\<close>

theorem superseded_network_stays:
  assumes "wifi_store E" and "CONFIG_POUCH_PROV_WIFI E" and "config_accepted a" and "config_accepted b"
    and "wifi_config_ssid a \<noteq> wifi_config_ssid b" and "has_iface E" and "\<forall>c t. wifi_credentials_set_personal E c t = rc_ok"
    and "\<forall>p t. net_mgmt_wifi_connect E p t = rc_ok" and "wc_attempts_max (wc d) = 0"
  shows "\<exists>d1 d2 d3 d4. do_set a d = Some (0, d1) \<and> do_apply E d1 = (0, d2) \<and> do_set b d2 = Some (0, d3) \<and> do_apply E d3 = (0, d4) \<and>
    wc_sta_state (wc (on_connect_result E 1 cs d4)) = sta_state_sta_failed_m_c \<and>
    wifi_creds_of (trace (on_connect_result E 1 cs d4)) (wifi_config_ssid a) = Some (cfg_cred a) \<and>
    pouch_prov_mgr_is_provisioned E (on_connect_result E 1 cs d4)"
proof -
  from apply_effect[OF assms(3,6,7,8), of d] obtain d1 d2 where 1: "do_set a d = Some (0, d1)" "do_apply E d1 = (0, d2)"
    "wifi_creds_of (trace d2) = (wifi_creds_of (trace d))(wifi_config_ssid a \<mapsto> cfg_cred a)"
    "attempting (cfg_params a) (unat (wc_attempts_max (wc d))) 0 d2" by blast
  from apply_effect[OF assms(4,6,7,8), of d2] obtain d3 d4 where 2: "do_set b d2 = Some (0, d3)" "do_apply E d3 = (0, d4)"
    "wifi_creds_of (trace d4) = (wifi_creds_of (trace d2))(wifi_config_ssid b \<mapsto> cfg_cred b)"
    "attempting (cfg_params b) (unat (wc_attempts_max (wc d2))) 0 d4" by blast
  have m: "unat (wc_attempts_max (wc d2)) = 0" using 1(4) assms(9) by (simp add: attempting_def)
  have s: "take (wc_inflight_ssid_len (wc d4)) (wc_inflight_ssid (wc d4)) = wifi_config_ssid b"
    using 2(4) by (auto simp: attempting_def inflight_params_def cfg_params_def)
  from last_failure[OF 2(4), of 1 E cs] m have l: "on_connect_result E 1 cs d4 = final_failure E (d4\<lparr>wc := (wc d4)\<lparr>
    wc_last_conn_status := cs, wc_attempts_completed := wc_attempts_completed (wc d4)\<rparr>\<rparr>)" by simp
  have w: "wifi_creds_of (trace (on_connect_result E 1 cs d4)) (wifi_config_ssid a) = Some (cfg_cred a)"
    unfolding l using s 1(3) 2(3) assms(5) by (simp add: final_failure_effect)
  then have "pouch_prov_mgr_is_provisioned E (on_connect_result E 1 cs d4)"
    using wifi_store.is_empty[OF assms(1)] assms(2)
    by (auto simp: pouch_prov_mgr_is_provisioned_def pouch_prov_wifi_is_provisioned_def)
  with 1 2 w show ?thesis by (auto simp: l final_failure_effect)
qed

theorem superseded_network_stays_witness:
  "\<exists>d4. wc_sta_state (wc (on_connect_result ref_env 1 CONN_WRONG_PASSWORD d4)) = sta_state_sta_failed_m_c \<and>
     pouch_prov_mgr_is_provisioned ref_env (on_connect_result ref_env 1 CONN_WRONG_PASSWORD d4)"
proof -
  let ?b = "demo_net\<lparr>wifi_config_ssid := str_bytes ''work''\<rparr>"
  have "CONFIG_POUCH_PROV_WIFI ref_env" "config_accepted ?b" "wc_attempts_max (wc demo) = 0"
    "wifi_config_ssid demo_net \<noteq> wifi_config_ssid ?b"
    by (simp_all add: ref_env_def config_accepted_def demo_net_def str_bytes_def demo_def boot_def boot_wc_def)
  from superseded_network_stays[OF ref_wifi_store.wifi_store_axioms this(1) demo_net_ok this(2,4) ref_wifi this(3)]
  show ?thesis by blast
qed



section \<open>Wi-Fi scan\<close>

text \<open>
  The scan cache. Whatever results the driver delivers, the cache never overruns, and it holds
  the first results in the order they came, up to its capacity, with the SSID cut at 32 bytes.
\<close>

theorem cache_holds_first_results:
  assumes "scan_inv E d" and "list_all (\<lambda>r. length (r_mac r) = 6) rs"
  shows "\<exists>d'. foldM (on_result E) rs d = Some d' \<and> scan_inv E d' \<and>
    cached d' = take (CONFIG_POUCH_PROV_SCAN_CACHE E) (cached d @ map entry_of_result rs)"
  using results_effect[OF assms] by blast

lemma demo_scan: "scan_inv ref_env demo"
  using demo_inv by (simp add: device_inv_def)

theorem cache_holds_first_results_witness:
  "\<exists>d'. foldM (on_result ref_env) (replicate 20 demo_result) demo = Some d' \<and> length (cached d') = 16"
proof -
  have "list_all (\<lambda>r. length (r_mac r) = 6) (replicate 20 demo_result)" by (simp add: list_all_iff demo_result_def)
  from cache_holds_first_results[OF demo_scan this] obtain d' where
    d': "foldM (on_result ref_env) (replicate 20 demo_result) demo = Some d'"
    "cached d' = take (CONFIG_POUCH_PROV_SCAN_CACHE ref_env) (cached demo @ map entry_of_result (replicate 20 demo_result))" by blast
  have "CONFIG_POUCH_PROV_SCAN_CACHE ref_env = 16" by (simp add: ref_env_def)
  then have "length (cached d') = 16" using d'(2) by (simp add: cached_def demo_def boot_def)
  with d'(1) show ?thesis by blast
qed

text \<open>
  Paging. A page is the requested slice of the cache, at most six entries, for every start
  and count, and reading consecutive pages gives the whole cache in order.
\<close>

theorem pages_cover_cache:
  assumes "scan_inv E d" and "CONFIG_POUCH_PROV_SCAN_CACHE E < 2 ^ 32"
  shows "scan_page (sc d) want start 0 = take (min (unat want) 6) (drop (unat start) (cached d)) \<and>
    (sc_count (sc d) \<le> 6 * n \<longrightarrow> 6 * n < 2 ^ 32 \<longrightarrow>
      concat (map (\<lambda>i. scan_page (sc d) 6 (of_nat (6 * i)) 0) [0..<n]) = cached d)"
proof -
  have "length (cached d) = sc_count (sc d)" using assms(1) by (simp add: cached_def scan_inv_def)
  then show ?thesis
    using page_of_cache[OF assms, of want start] pages_concat[OF assms, of n] by (auto simp: PAGE_MAX_def)
qed

theorem pages_cover_cache_witness:
  "\<exists>d. length (cached d) = 8 \<and> concat (map (\<lambda>i. scan_page (sc d) 6 (of_nat (6 * i)) 0) [0..<2]) = cached d"
proof -
  have "list_all (\<lambda>r. length (r_mac r) = 6) (replicate 8 demo_result)" by (simp add: list_all_iff demo_result_def)
  from results_effect[OF demo_scan this] obtain d where d: "scan_inv ref_env d"
    "cached d = take (CONFIG_POUCH_PROV_SCAN_CACHE ref_env) (cached demo @ map entry_of_result (replicate 8 demo_result))" by blast
  have c: "CONFIG_POUCH_PROV_SCAN_CACHE ref_env = 16" by (simp add: ref_env_def)
  have l: "length (cached d) = 8" using d(2) c by (simp add: cached_def demo_def boot_def)
  moreover have "length (cached d) = sc_count (sc d)" using d(1) by (simp add: cached_def scan_inv_def)
  ultimately show ?thesis using pages_cover_cache[OF d(1), of 6 0 2] c by auto
qed

text \<open>
  Six full entries do not fit a response. A page of up to five entries is always encoded, but
  a page of six networks with 32-byte names exceeds the 384 bytes of a response, the request fails
  with \<^verbatim>\<open>ENOMEM\<close>, and the client cannot read those six results.
\<close>

theorem page_size_limit:
  assumes "zcbor_encoder (zenc E) R" and "scan_inv E d" and "CONFIG_POUCH_PROV_SCAN_CACHE E < 2 ^ 32"
    and "page = take (min (unat want) 6) (drop (unat start) (take (sc_count (sc d)) (sc_entries (sc d))))"
  shows "(length page \<le> 5 \<longrightarrow> (\<exists>rsp. encode_results E start want POUCH_PROV_MSG_MAX d = Inr rsp)) \<and>
    (length page = 6 \<and> list_all (\<lambda>e. ap_ssid_len e = 32) page \<longrightarrow> encode_results E start want POUCH_PROV_MSG_MAX d = Inl ENOMEM)"
proof -
  let ?v = "scan_rsp_scan_results_rsp_m prov_status_status_ok_m_c (map scan_entry_of page)"
  have pg: "scan_page (sc d) want start 0 = map scan_entry_of page"
    using page_of_cache[OF assms(2,3)] by (simp add: assms(4) cached_def PAGE_MAX_def take_map drop_map)
  have len6: "length page \<le> 6" by (simp add: assms(4))
  have "set page \<subseteq> set (sc_entries (sc d))" unfolding assms(4) by (meson set_drop_subset set_take_subset subset_trans)
  then have inv: "\<forall>e\<in>set page. ap_inv e" using assms(2) by (auto simp: scan_inv_def list_all_iff)
  have ok: "scan_rsp_ok ?v" using len6 inv
    by (auto simp: status_ok_def list_all_iff scan_entry_ok_def scan_entry_of_def ap_inv_def)
  have enc: "encode_results E start want POUCH_PROV_MSG_MAX d =
      (case emit_toks POUCH_PROV_MSG_MAX (scan_rsp_toks ?v) of Some rsp \<Rightarrow> Inr rsp | None \<Rightarrow> Inl ENOMEM)"
    using zcbor_encoder.cbor_encode_scan_rsp_ref[OF assms(1)] enc_scan_rsp[OF ok] pg by (simp add: encode_results_def)
  have sz: "length (toks_bytes (scan_rsp_toks ?v)) = 4 + (\<Sum>e\<leftarrow>page. length (toks_bytes (scan_entry_toks (scan_entry_of e))))"
    using len6 by (subst toks_bytes_results) (simp add: toks_bytes_def length_cbor_head)
  have up: "(\<Sum>e\<leftarrow>page. length (toks_bytes (scan_entry_toks (scan_entry_of e)))) \<le> 75 * length page"
    using inv entry_size(1) by (induction page) fastforce+
  have lo: "list_all (\<lambda>e. ap_ssid_len e = 32) page \<Longrightarrow>
      69 * length page \<le> (\<Sum>e\<leftarrow>page. length (toks_bytes (scan_entry_toks (scan_entry_of e))))"
    using inv entry_size(2) by (induction page) fastforce+
  show ?thesis unfolding enc[unfolded emit_toks_def sz] using up lo by (auto simp: POUCH_PROV_MSG_MAX_def)
qed

theorem page_size_limit_witness:
  "\<exists>d. encode_results ref_env 0 6 POUCH_PROV_MSG_MAX d = Inl ENOMEM \<and> (\<exists>rsp. encode_results ref_env 0 5 POUCH_PROV_MSG_MAX d = Inr rsp)"
proof -
  let ?e = "\<lparr>ap_ssid = replicate 32 97, ap_ssid_len = 32, ap_bssid = replicate 6 1, ap_channel = 6, ap_rssi = -50, ap_auth = 1\<rparr>"
  let ?d = "demo\<lparr>sc := (sc demo)\<lparr>sc_entries := replicate 16 ?e, sc_count := 6\<rparr>\<rparr>"
  have c: "CONFIG_POUCH_PROV_SCAN_CACHE ref_env = 16" by (simp add: ref_env_def)
  have i: "scan_inv ref_env ?d" by (simp add: scan_inv_def c ap_inv_def list_all_iff)
  show ?thesis
    using page_size_limit[OF ref_zcbor(1) i _ refl, of 6 0] page_size_limit[OF ref_zcbor(1) i _ refl, of 5 0]
    by (auto simp: c list_all_iff intro!: exI[of _ ?d])
qed

text \<open>
  C30: the identity survives a reboot. The key and certificate that the first boot generated are
  the ones every later boot uses: on a device that boots with the settings the first boot left,
  initialization imports the same key, hands the same certificate to pouch, and generates and
  builds nothing.
\<close>

theorem identity_survives_reboot:
  assumes "settings_store E" and "\<not> CONFIG_POUCH_ENCRYPTION_NONE E" and "CONFIG_SETTINGS E" and "identity_bounds E"
    and "id_inv d" and "priv_raw_len (identity d) = 0" and "pouch_prov_identity_ensure E d = Some (Inr (cert, k), d')"
    and "priv_bytes d' \<noteq> []" and "cert \<noteq> []" and "settings_of t = settings_of (trace d')" and "device_id c = Some i"
    and "\<forall>t. psa_crypto_init E t" and "\<forall>t. psa_import_key E (priv_bytes d') t \<noteq> None" and "\<forall>pc t. pouch_init E pc t = rc_ok"
  shows "\<exists>d'' k' r cbs. pouch_prov_mgr_init E (Some c) (boot E t) = Some (rc_ok, d'') \<and>
    trace d'' = cbs @ [X_pouch_init (pouch_identity cert (Some k')) rc_ok, X_psa_import (priv_bytes d') (Some k'),
      X_psa_crypto_init True, X_settings_load ''pnp'' r, X_settings_subsys_init] @ t \<and>
    list_all (\<lambda>x. \<exists>s. x = X_net_add_callback s) cbs"
proof -
  let ?b = "boot E t"
  have b: "cred_inv ?b" "id_inv ?b" "\<not> initialized ?b" "trace ?b = t"
    by (simp_all add: boot_def cred_inv_init id_inv_def)
  note p = ensure_first_boot[OF assms(6,7)]
  have "id_inv d'" using ensure_total[OF assms(5,4)] assms(7) by auto
  then have l: "length (priv_bytes d') \<le> 32" by (simp add: id_inv_def priv_bytes_def)
  have "length cert \<le> 640" using ensure_cert_bound[OF assms(5,4,7)] .
  from init_restores_identity[OF assms(1-3) b(1-3) assms(11) _ assms(8) l _ assms(9) this assms(12-14)] p(1,2) assms(10) b(4)
  show ?thesis by simp
qed

theorem identity_survives_reboot_witness:
  "\<exists>cert k d' d'' k' r cbs. pouch_prov_identity_ensure ref_env_id (boot ref_env_id []) = Some (Inr (cert, k), d') \<and>
    pouch_prov_mgr_init ref_env_id (Some demo_cfg) (boot ref_env_id (trace d')) = Some (rc_ok, d'') \<and>
    trace d'' = cbs @ [X_pouch_init (pouch_identity cert (Some k')) rc_ok, X_psa_import (priv_bytes d') (Some k'),
      X_psa_crypto_init True, X_settings_load ''pnp'' r, X_settings_subsys_init] @ trace d'"
proof -
  have "case pouch_prov_identity_ensure ref_env_id (boot ref_env_id []) of
      Some (Inr (cert, k), d') \<Rightarrow> cert \<noteq> [] \<and> priv_bytes d' \<noteq> [] | _ \<Rightarrow> False" by code_simp
  then obtain r d' where rd: "pouch_prov_identity_ensure ref_env_id (boot ref_env_id []) = Some (r, d')"
    "case r of Inr (cert, k) \<Rightarrow> cert \<noteq> [] \<and> priv_bytes d' \<noteq> [] | _ \<Rightarrow> False"
    by (cases "pouch_prov_identity_ensure ref_env_id (boot ref_env_id [])") auto
  then obtain cert k where e: "pouch_prov_identity_ensure ref_env_id (boot ref_env_id []) = Some (Inr (cert, k), d')"
    "cert \<noteq> []" "priv_bytes d' \<noteq> []" by (cases r) auto
  have f: "\<not> CONFIG_POUCH_ENCRYPTION_NONE ref_env_id" "CONFIG_SETTINGS ref_env_id" "identity_bounds ref_env_id"
    "\<forall>t. psa_crypto_init ref_env_id t" "\<forall>t. psa_import_key ref_env_id v t \<noteq> None" "\<forall>pc t. pouch_init ref_env_id pc t = rc_ok" for v
    by (simp_all add: ref_env_id_def ref_env_def identity_bounds_def)
  have b: "id_inv (boot ref_env_id [])" "priv_raw_len (identity (boot ref_env_id [])) = 0" "device_id demo_cfg = Some (str_bytes ''dev'')"
    by (simp_all add: boot_def id_inv_def demo_cfg_def)
  from identity_survives_reboot[OF ref_id_settings.settings_store_axioms f(1-3) b(1,2) e(1,3,2) refl b(3) f(4-6)] e(1)
  show ?thesis by blast
qed

section \<open>Messages\<close>





text \<open>
  The challenge. The device answers a challenge with its fresh nonce and the HMAC of
  \<^verbatim>\<open>"dev"\<close>, the client nonce and its own under the proof of possession, so that the client can
  verify the device; it remembers both nonces, keeps the number of attempts made and does not
  change the authorization.
\<close>

theorem challenge_proves_device:
  assumes "psa_hmac_live E hmac" and "zcbor_encoder (zenc E) R"
    and "cbor_decode_auth_req (zdec E) req = Some (auth_req_auth_challenge_m nonce, c)" and "length nonce = 16"
    and "pop (config d) = Some K" and "r = map (sys_rand_byte E (trace d)) [0..<16]"
  shows "\<exists>d'. pouch_prov_handle_auth E req POUCH_PROV_MSG_MAX d =
      Some (Inr (toks_bytes [T_list 4, T_uint 0, T_uint 0, T_bstr r, T_bstr (hmac K (str_bytes ''dev'' @ nonce @ r))]), d') \<and>
    auth d' = \<lparr>cli_nonce = nonce, dev_nonce = r, challenged = True, attempts = attempts (auth d)\<rparr> \<and> authorized d' = authorized d"
  using psa_hmac_live.challenge_answered[OF assms(1-5) _ assms(6), of POUCH_PROV_MSG_MAX]
  by (simp add: POUCH_PROV_MSG_MAX_def u32_tok_def)

lemma demo_challenge_decodes:
  "cbor_decode_auth_req (zdec ref_env) demo_challenge = Some (auth_req_auth_challenge_m (replicate 16 5), 19)"
  by code_simp

theorem challenge_proves_device_witness:
  "\<exists>d'. pouch_prov_handle_auth ref_env demo_challenge POUCH_PROV_MSG_MAX demo =
      Some (Inr (toks_bytes [T_list 4, T_uint 0, T_uint 0, T_bstr (replicate 16 7),
        T_bstr (ref_hmac (str_bytes ''pop'') (str_bytes ''dev'' @ replicate 16 5 @ replicate 16 7))]), d') \<and> challenged (auth d')"
proof -
  have r: "replicate 16 7 = map (sys_rand_byte ref_env (trace demo)) [0..<16]" by code_simp
  have k: "pop (config demo) = Some (str_bytes ''pop'')" by (simp add: demo_def demo_cfg_def)
  from challenge_proves_device[OF ref_psa.psa_hmac_live_axioms ref_zcbor(1) demo_challenge_decodes _ k r] show ?thesis by auto
qed

text \<open>
  C37: authentication without a proof of possession. The authentication endpoint is always there,
  but its handler is undefined, a read through a null pointer, exactly when no proof of possession
  is configured and the request gets as far as the HMAC: any challenge does.
\<close>

theorem auth_undefined_iff:
  "pouch_prov_handle_auth E req n d = None \<longleftrightarrow> pop (config d) = None \<and>
     (\<exists>i c. cbor_decode_auth_req (zdec E) req = Some (i, c) \<and>
       (case i of auth_req_auth_challenge_m nonce \<Rightarrow> length nonce = 16
        | auth_req_auth_proof_m p \<Rightarrow> challenged (auth d) \<and> length p = 32 \<and> attempts (auth d) + 1 \<le> 3))"
  by (rule handle_auth_undefined)

text \<open>
  A build without authentication locks out a device with a proof of possession. No reachable
  state is authorized, so every other endpoint but the version answers \<^verbatim>\<open>unauthorized\<close> for ever, while
  the version response says that no proof is asked for.
\<close>

theorem auth_disabled_locks_out:
  assumes "platform E" and "\<not> CONFIG_POUCH_PROV_AUTH E" and "reachable E d" and "pop (config d) \<noteq> None"
  shows "\<not> pouch_prov_session_authorized d \<and> ver_info_pop (ver_rsp_ver_info_m (ver_out E d)) = Some False \<and>
    (\<forall>i < length (endpoints E). ep_require_auth (endpoints E ! i) \<longleftrightarrow> ep_path (endpoints E ! i) \<noteq> POUCH_PROV_PATH_VER)"
proof -
  have "\<not> pouch_prov_session_authorized d" "ver_info_pop (ver_rsp_ver_info_m (ver_out E d)) = Some False"
    using never_authorized[OF assms(1-3)] assms(2,4) by (simp_all add: pouch_prov_session_authorized_def ver_out_def)
  moreover have "ep \<in> set (endpoints E) \<Longrightarrow> ep_require_auth ep \<longleftrightarrow> ep_path ep \<noteq> POUCH_PROV_PATH_VER" for ep
    using assms(2) by (auto simp: endpoints_def path_defs split: if_splits)
  ultimately show ?thesis using nth_mem by blast
qed

theorem auth_disabled_locks_out_witness:
  "\<exists>d. reachable ref_env_noauth d \<and> pop (config d) \<noteq> None \<and> \<not> pouch_prov_session_authorized d"
proof -
  have "case pouch_prov_mgr_init ref_env_noauth (Some demo_cfg) (boot ref_env_noauth []) of
      Some (r, d) \<Rightarrow> pop (config d) \<noteq> None | None \<Rightarrow> False" by code_simp
  then obtain r d where d: "pouch_prov_mgr_init ref_env_noauth (Some demo_cfg) (boot ref_env_noauth []) = Some (r, d)"
    "pop (config d) \<noteq> None" by (auto split: option.splits)
  have "reachable ref_env_noauth (boot ref_env_noauth [])" by (rule reach_boot) (simp add: cold_def)
  from reach_step[OF this, of "E_init (Some demo_cfg)" d] d(1) have r: "reachable ref_env_noauth d" by simp
  have a: "\<not> CONFIG_POUCH_PROV_AUTH ref_env_noauth" by (simp add: ref_env_noauth_def)
  from auth_disabled_locks_out[OF ref_noauth_platform.platform_axioms a r d(2)] r d(2) show ?thesis by blast
qed

text \<open>
  Which requests are served. A stream is taken exactly when it is stream 0, its content type
  is CBOR and its path is one of the table, and then by the endpoint of that path; any other stream
  is dropped. Nothing but the request in progress changes.
\<close>

theorem stream_selects_endpoint:
  "(endpoint (active (downlink_start E s path ct d)) = Some i \<longleftrightarrow>
      s = 0 \<and> ct = POUCH_CONTENT_TYPE_CBOR E \<and> i < length (endpoints E) \<and> ep_path (endpoints E ! i) = path) \<and>
   (\<exists>a. downlink_start E s path ct d = d\<lparr>active := a\<rparr> \<and> active_len a = 0 \<and> \<not> overflow a \<and> active_buf a = active_buf (active d))"
proof -
  have "\<exists>a. downlink_start E s path ct d = d\<lparr>active := a\<rparr> \<and> active_len a = 0 \<and> \<not> overflow a \<and> active_buf a = active_buf (active d)"
    by (auto simp: downlink_start_def Let_def split: option.split)
  then show ?thesis using start_selects by blast
qed

text \<open>
  C40: responses survive the wire. Whatever response the device encodes, if it fits, a client's
  decoder reads back the same response, for every endpoint and over any two CBOR libraries that meet
  the contract.
\<close>

theorem responses_roundtrip:
  assumes "zcbor_encoder Z R" and "zcbor_decoder Z' R'" and "n < 2 ^ 64"
  shows "(ver_rsp_ok v \<and> cbor_encode_ver_rsp Z n v = Some bs \<longrightarrow> cbor_decode_ver_rsp Z' bs = Some (v, length bs)) \<and>
    (auth_rsp_ok a \<and> cbor_encode_auth_rsp Z n a = Some bs \<longrightarrow> cbor_decode_auth_rsp Z' bs = Some (a, length bs)) \<and>
    (config_rsp_ok w \<and> cbor_encode_config_rsp Z n w = Some bs \<longrightarrow> cbor_decode_config_rsp Z' bs = Some (w, length bs)) \<and>
    (scan_rsp_ok s \<and> cbor_encode_scan_rsp Z n s = Some bs \<longrightarrow> cbor_decode_scan_rsp Z' bs = Some (s, length bs)) \<and>
    (cred_rsp_ok c \<and> cbor_encode_cred_rsp Z n c = Some bs \<longrightarrow> cbor_decode_cred_rsp Z' bs = Some (c, length bs)) \<and>
    (ctrl_rsp_ok x \<and> cbor_encode_ctrl_rsp Z n x = Some bs \<longrightarrow> cbor_decode_ctrl_rsp Z' bs = Some (x, length bs))"
proof -
  have n: "n < 18446744073709551616" using assms(3) by simp
  show ?thesis
    using round_ver_rsp[OF assms(1,2) _ n] round_auth_rsp[OF assms(1,2)] round_config_rsp[OF assms(1,2)] round_scan_rsp[OF assms(1,2)]
      round_cred_rsp[OF assms(1,2) _ n] round_ctrl_rsp[OF assms(1,2)] by blast
qed

theorem responses_roundtrip_witness:
  "\<exists>bs. cbor_encode_scan_rsp zref_enc 384 (scan_rsp_scan_results_rsp_m 0 [entry_of_result demo_result]) = Some bs \<and>
    cbor_decode_scan_rsp zref_dec bs = Some (scan_rsp_scan_results_rsp_m 0 [entry_of_result demo_result], length bs)"
proof -
  have "cbor_encode_scan_rsp zref_enc 384 (scan_rsp_scan_results_rsp_m 0 [entry_of_result demo_result]) \<noteq> None" by code_simp
  then obtain bs where bs: "cbor_encode_scan_rsp zref_enc 384 (scan_rsp_scan_results_rsp_m 0 [entry_of_result demo_result]) = Some bs"
    by auto
  have ok: "scan_rsp_ok (scan_rsp_scan_results_rsp_m 0 [entry_of_result demo_result])" by code_simp
  have "(384::nat) < 2 ^ 64" by simp
  from responses_roundtrip[OF zref_enc.zcbor_encoder_axioms zref_dec.zcbor_decoder_axioms this,
      where s = "scan_rsp_scan_results_rsp_m 0 [entry_of_result demo_result]" and bs = bs] ok bs
  show ?thesis by blast
qed

section \<open>Applications\<close>

text \<open>
  C31: the samples go on only after provisioning. In every run of a sample, in any order of its \<^verbatim>\<open>main\<close>, the
  events of the library and those of the network, the device invariant holds, and where \<^verbatim>\<open>main\<close> has not started
  yet, is past \<^verbatim>\<open>pouch_prov_mgr_wait\<close> or never got there, the manager does not run and does not advertise; while it
  waits, the wait does not return before the manager has stopped.
\<close>

theorem main_resumes_after_end:
  assumes "platform E" and "cold t" and "S = basic_main E p \<or> S = cred_only_main E p \<or> S = golioth_main E G p"
    and "app_run E S (app_boot E t) (pc, a)"
  shows "dispatch_inv E (app_dev a) \<and> (pc \<noteq> At_wait \<longrightarrow> \<not> running (app_dev a) \<and> \<not> adv_enabled (app_dev a)) \<and>
    (pc = At_wait \<and> fst (pouch_prov_mgr_wait E (app_dev a)) = rc_ok \<longrightarrow> \<not> running (app_dev a))"
proof -
  have "sample_main E S" using assms(1,3) basic_sample cred_only_sample golioth_sample by blast
  from sample_main.app_run_inv[OF this assms(4,2)] have i: "sample_inv E (pc, a)" .
  have "kernel E" using assms(1) by (simp add: platform_def)
  from kernel.event_wait[OF this] i show ?thesis
    by (auto simp: sample_inv_def pouch_prov_mgr_wait_def dispatch_inv_def device_inv_def mgr_inv_def Let_def)
qed

text \<open>The Golioth client of the examples: it connects.\<close>

definition demo_sdk :: golioth_sdk where
  "demo_sdk = \<lparr>golioth_client_create = (\<lambda>c. Some 0), golioth_client_wait_for_connect = (\<lambda>c n. True)\<rparr>"

definition demo_started :: app where
  "demo_started = (case on_start (golioth_main ref_env demo_sdk (str_bytes ''pop'')) (snd (app_boot ref_env [])) of
     Some (pc, a) \<Rightarrow> a | None \<Rightarrow> snd (app_boot ref_env []))"

definition demo_blank :: app where
  "demo_blank = demo_started\<lparr>app_dev := (case step ref_env E_autostop (app_dev demo_started) of Some d \<Rightarrow> d | None \<Rightarrow> app_dev demo_started)\<rparr>"

lemma demo_blank_run: "app_run ref_env (golioth_main ref_env demo_sdk (str_bytes ''pop'')) (app_boot ref_env []) (At_wait, demo_blank)"
proof -
  let ?S = "golioth_main ref_env demo_sdk (str_bytes ''pop'')" and ?a = "snd (app_boot ref_env [])"
  have "map_option fst (on_start ?S ?a) = Some At_wait" by code_simp
  then have s: "on_start ?S ?a = Some (At_wait, demo_started)" by (auto simp: demo_started_def)
  have "step ref_env E_autostop (app_dev demo_started) \<noteq> None" by code_simp
  then obtain d where d: "step ref_env E_autostop (app_dev demo_started) = Some d" by blast
  have "app_step ref_env ?S (At_start, ?a) (At_wait, demo_started)" by (rule main_start[OF s])
  moreover have "app_step ref_env ?S (At_wait, demo_started) (At_wait, demo_blank)"
    using library[OF _ _ d, of ?S At_wait] d by (simp add: demo_blank_def)
  moreover have "app_boot ref_env [] = (At_start, ?a)" by (simp add: app_boot_def)
  ultimately show ?thesis by (metis app_nil app_snoc)
qed

lemma demo_blank_state: "ended_of (trace (app_dev demo_blank))" "pouch_prov_cred_get 0 (app_dev demo_blank) = None"
  by code_simp+

theorem main_resumes_after_end_witness:
  "pouch_prov_mgr_wait ref_env (app_dev demo_blank) = (rc_ok, log (X_event_wait True) (app_dev demo_blank)) \<and> \<not> running (app_dev demo_blank)"
proof -
  have w: "pouch_prov_mgr_wait ref_env (app_dev demo_blank) = (rc_ok, log (X_event_wait True) (app_dev demo_blank))"
    using demo_blank_state(1) ref_kernel.event_wait by (simp add: pouch_prov_mgr_wait_def)
  have "cold []" by (simp add: cold_def)
  from main_resumes_after_end[OF ref_platform.platform_axioms this disjI2[OF disjI2[OF refl]] demo_blank_run] w show ?thesis by simp
qed

text \<open>
  C34: zero-touch enrolment. A device that boots with the credentials of a successful finalize and
  a stored network does not provision again: \<^verbatim>\<open>main\<close> of the Golioth sample leaves the manager
  stopped, asks for a connection to the stored network, and once the network is up hands the uploaded
  certificate, key and CA certificate to the client byte for byte.
\<close>

theorem provisioned_boot_enrols:
  assumes "settings_store E" and "wifi_store E" and "CONFIG_POUCH_PROV_CRED E" and "CONFIG_POUCH_PROV_WIFI E"
    and "\<not> CONFIG_POUCH_ENCRYPTION_NONE E" and "CONFIG_SETTINGS E" and "platform E" and "cold t"
    and "cred_inv d" and "pouch_prov_cred_finalize E d = Some (rc_ok, d')" and "settings_of t = settings_of (trace d')"
    and "wifi_creds_of t \<noteq> Map.empty" and "\<forall>t. net_if_get_first_wifi E t \<noteq> None"
    and "pouch_prov_mgr_init E (Some (golioth_config p)) (log (X_net_add_callback ''main'') (boot E t)) = Some (rc_ok, d'')"
  shows "\<exists>a ca. on_start (golioth_main E G p) (snd (app_boot E t)) = Some (At_wifi, a) \<and> \<not> running (app_dev a) \<and> connect_stored a = 1 \<and>
    (ready (blobs d ! 2) \<longrightarrow> ca = Some (staged_data (blobs d ! 2))) \<and>
    on_wifi (golioth_main E G p) a = Some (At_exit (case golioth_client_create G \<lparr>public_cert = staged_data (blobs d ! 0),
        private_key = staged_data (blobs d ! 1), ca_cert = ca\<rparr> of
      None \<Rightarrow> rc_err ENOMEM | Some c \<Rightarrow> if golioth_client_wait_for_connect G c 30000 then rc_ok else rc_err ETIMEDOUT), a)"
proof -
  let ?b = "log (X_net_add_callback ''main'') (boot E t)"
  have "cred_inv (boot E t)" "id_inv (boot E t)" "trace (boot E t) = t" by (simp_all add: boot_def cred_inv_init id_inv_def)
  then have b: "cred_inv ?b" "id_inv ?b" "settings_of (trace ?b) = settings_of (trace d')" "wifi_creds_of (trace ?b) = wifi_creds_of t"
    using assms(11) by (simp_all add: id_inv_def cred_inv_def)
  note ld = init_loads_credentials[OF assms(1,3,5,6) platform.bounds[OF assms(7)] b(1,2) assms(14)]
  have get: "pouch_prov_cred_get k d'' = Some (staged_data (blobs d ! k))" if "k < 3" "ready (blobs d ! k)" for k
    using ld(2)[OF that(1) _ finalized_stored(2,3)[OF assms(9,10) that]] finalized_stored(1)[OF assms(9,10) that] b(3) by simp
  note c = get[OF _ finalized_ready(1)[OF assms(9,10)]] get[OF _ finalized_ready(2)[OF assms(9,10)]]
  have "pouch_prov_mgr_is_provisioned E d''" using assms(4,12) ld(1) b(4) wifi_store.is_empty[OF assms(2)]
    by (simp add: pouch_prov_mgr_is_provisioned_def pouch_prov_wifi_is_provisioned_def)
  then have g: "golioth_ready E d''" using c by (simp add: golioth_ready_def present_iff_get)
  let ?a = "(snd (app_boot E t))\<lparr>app_dev := d'', connect_stored := 1\<rparr>"
  have s: "on_start (golioth_main E G p) (snd (app_boot E t)) = Some (At_wifi, ?a)"
    using golioth_start_ready[OF _ g, of p "snd (app_boot E t)" G] assms(13,14) by (simp add: app_boot_def)
  have "app_run E (golioth_main E G p) (app_boot E t) (At_wifi, ?a)"
    using app_snoc[OF app_nil main_start[OF s]] by (simp add: app_boot_def)
  from sample_main.app_run_inv[OF golioth_sample[OF assms(7)] this assms(8)] have "\<not> running d''" by (simp add: sample_inv_def)
  moreover have "on_wifi (golioth_main E G p) ?a = Some (At_exit (case golioth_client_create G \<lparr>public_cert = staged_data (blobs d ! 0),
        private_key = staged_data (blobs d ! 1), ca_cert = pouch_prov_cred_get 2 d''\<rparr> of
      None \<Rightarrow> rc_err ENOMEM | Some c \<Rightarrow> if golioth_client_wait_for_connect G c 30000 then rc_ok else rc_err ETIMEDOUT), ?a)"
    using c by (simp add: golioth_main_def connect_to_golioth_def split: option.split)
  ultimately show ?thesis using s get[of 2] by (intro exI[of _ ?a] exI[of _ "pouch_prov_cred_get 2 d''"]) simp
qed

text \<open>The settings and the network of \<open>demo_staged\<close> after its credentials were finalized.\<close>

definition demo_reboot :: trace where
  "demo_reboot = (case pouch_prov_cred_finalize ref_env_id demo_staged of
     Some (r, d) \<Rightarrow> X_wifi_cred_set (cfg_cred demo_net) rc_ok # trace d | None \<Rightarrow> [])"

lemma demo_reboot_finalized: "\<exists>d'. pouch_prov_cred_finalize ref_env_id demo_staged = Some (rc_ok, d') \<and>
  settings_of demo_reboot = settings_of (trace d') \<and> cold demo_reboot \<and> wifi_creds_of demo_reboot \<noteq> Map.empty"
proof -
  have "case pouch_prov_cred_finalize ref_env_id demo_staged of Some (r, d) \<Rightarrow> r = rc_ok \<and> fifo_of (trace d) = [] \<and> live_of (trace d) = 0 | None \<Rightarrow> False"
    by code_simp
  then show ?thesis by (auto simp: demo_reboot_def cold_def split: option.splits)
qed

lemma demo_reboot_init: "\<exists>d''. pouch_prov_mgr_init ref_env_id (Some (golioth_config (str_bytes ''pop'')))
  (log (X_net_add_callback ''main'') (boot ref_env_id demo_reboot)) = Some (rc_ok, d'')"
proof -
  have "map_option fst (pouch_prov_mgr_init ref_env_id (Some (golioth_config (str_bytes ''pop'')))
    (log (X_net_add_callback ''main'') (boot ref_env_id demo_reboot))) = Some rc_ok" by code_simp
  then show ?thesis by auto
qed

theorem provisioned_boot_enrols_witness:
  "\<exists>a. on_start (golioth_main ref_env_id demo_sdk (str_bytes ''pop'')) (snd (app_boot ref_env_id demo_reboot)) = Some (At_wifi, a) \<and>
    \<not> running (app_dev a) \<and> on_wifi (golioth_main ref_env_id demo_sdk (str_bytes ''pop'')) a = Some (At_exit rc_ok, a)"
proof -
  obtain d' where d': "pouch_prov_cred_finalize ref_env_id demo_staged = Some (rc_ok, d')" "settings_of demo_reboot = settings_of (trace d')"
    "cold demo_reboot" "wifi_creds_of demo_reboot \<noteq> Map.empty" using demo_reboot_finalized by blast
  obtain d'' where i: "pouch_prov_mgr_init ref_env_id (Some (golioth_config (str_bytes ''pop'')))
    (log (X_net_add_callback ''main'') (boot ref_env_id demo_reboot)) = Some (rc_ok, d'')" using demo_reboot_init by blast
  have c: "CONFIG_POUCH_PROV_CRED ref_env_id" "CONFIG_POUCH_PROV_WIFI ref_env_id" "\<not> CONFIG_POUCH_ENCRYPTION_NONE ref_env_id"
    "CONFIG_SETTINGS ref_env_id" "\<forall>t. net_if_get_first_wifi ref_env_id t \<noteq> None" by (simp_all add: ref_env_id_def ref_env_def)
  from provisioned_boot_enrols[OF ref_id_settings.settings_store_axioms ref_id_wifi_store.wifi_store_axioms c(1-4)
      ref_id_platform.platform_axioms d'(3) demo_staged_inv d'(1,2,4) c(5) i, of demo_sdk]
  show ?thesis by (auto simp: demo_sdk_def)
qed

text \<open>
  The Golioth sample does not check that provisioning delivered credentials. Whenever the manager
  has ended without a certificate or without a key, \<^verbatim>\<open>main\<close> goes on, and when the network comes
  up \<^verbatim>\<open>connect_to_golioth\<close> reads a length that was never set.
\<close>

theorem golioth_reads_unset_length:
  assumes "platform E" and "app_run E (golioth_main E G p) (app_boot E t) (At_wait, a)" and "ended_of (trace (app_dev a))"
    and "pouch_prov_cred_get 0 (app_dev a) = None \<or> pouch_prov_cred_get 1 (app_dev a) = None"
  shows "\<exists>a'. app_run E (golioth_main E G p) (app_boot E t) (At_wifi, a') \<and> wifi_up a' \<and> blobs (app_dev a') = blobs (app_dev a) \<and>
    on_wifi (golioth_main E G p) (a'\<lparr>wifi_up := False\<rparr>) = None"
  using golioth_ends_blank[OF _ assms(2-4)] assms(1) by (simp add: platform_def)

theorem golioth_reads_unset_length_witness:
  "\<exists>a'. app_run ref_env (golioth_main ref_env demo_sdk (str_bytes ''pop'')) (app_boot ref_env []) (At_wifi, a') \<and> wifi_up a' \<and>
    connect_to_golioth demo_sdk (app_dev a') = None"
  using golioth_reads_unset_length[OF ref_platform.platform_axioms demo_blank_run demo_blank_state(1)] demo_blank_state(2)
  by (auto simp: golioth_main_def split: bind_splits)

section \<open>Client and device\<close>

text \<open>A session of the client with the example device, over the reference link at time 0.\<close>

definition demo_session :: "device \<Rightarrow> (device \<times> int) ProvSession" where
  "demo_session d = ProvSession_init (str_bytes ''client'') 20 None (d, 0)"

lemma demo_ready: "device_inv ref_env d \<Longrightarrow> fifo_of (trace d) = [] \<Longrightarrow> ready_session ref_env fst (demo_session d)"
  by (simp add: ready_session_def plain_session_def demo_session_def ProvSession_init_def id_ok_def str_bytes_def)

lemma demo_world [simp]: "fst (ps_world (demo_session d)) = d"
  by (simp add: demo_session_def ProvSession_init_def)

text \<open>
  C7: client and device authenticate each other. Over any link that delivers, a client that has the
  proof of possession of the device checks the device's proof, sends its own, and leaves the device
  authorized, with everything else about the device as it was.
\<close>

theorem client_authorizes:
  assumes "auth_link L E T dev split RE RD" and "ready_session E dev s"
    and "pop (config (dev (ps_world s))) = Some K" and "attempts (auth (dev (ps_world s))) < 3"
  shows "\<exists>s'. authorize L T K s = Some (Inr (), s') \<and> ready_session E dev s' \<and> authorized (dev (ps_world s')) \<and> auth_kept dev s s'"
  using auth_link.authorize_succeeds[OF assms] by blast

theorem client_authorizes_witness:
  "\<exists>s'. authorize ref_libs (ref_link ref_env) (str_bytes ''pop'') (demo_session demo) = Some (Inr (), s') \<and> authorized (fst (ps_world s'))"
proof -
  have d: "fifo_of (trace demo) = []" "pop (config demo) = Some (str_bytes ''pop'')" "attempts (auth demo) < 3"
    by (simp_all add: demo_def demo_cfg_def boot_def)
  from client_authorizes[OF ref_provision.auth_link_axioms demo_ready[OF demo_inv d(1)]] d(2,3) show ?thesis by fastforce
qed

text \<open>
  C20: a client with another secret stops before it sends a proof. If no nonce of the device makes the
  two secrets agree on the device's proof for the nonce the client has drawn, the client raises
  \<^verbatim>\<open>AuthError\<close>, the device's authorization is as before, and no attempt has been counted.
\<close>

theorem client_refuses_other_secret:
  assumes "auth_link L E T dev split RE RD" and "ready_session E dev s" and "pop (config (dev (ps_world s))) = Some K"
    and "n = fst (link_token T 16 (ps_world s))"
    and "\<And>q. length q = 16 \<Longrightarrow> lib_hmac L K (str_bytes ''dev'' @ n @ q) \<noteq> lib_hmac L secret (str_bytes ''dev'' @ n @ q)"
  shows "\<exists>s'. authorize L T secret s = Some (Inl AuthError, s') \<and> ready_session E dev s' \<and> auth_kept dev s s' \<and>
    authorized (dev (ps_world s')) = authorized (dev (ps_world s)) \<and> attempts (auth (dev (ps_world s'))) = attempts (auth (dev (ps_world s)))"
  using auth_link.authorize_wrong_secret[OF assms(1-4)] assms(5) by blast

theorem client_refuses_other_secret_witness:
  "\<exists>s'. authorize ref_libs (ref_link ref_env) (str_bytes ''pup'') (demo_session demo) = Some (Inl AuthError, s') \<and> \<not> authorized (fst (ps_world s'))"
proof -
  have d: "fifo_of (trace demo) = []" "pop (config demo) = Some (str_bytes ''pop'')" "\<not> authorized demo"
    by (simp_all add: demo_def demo_cfg_def boot_def)
  have "lib_hmac ref_libs (str_bytes ''pop'') m \<noteq> lib_hmac ref_libs (str_bytes ''pup'') m" for m
    by (simp add: ref_libs_def ref_hmac_def str_bytes_def)
  with client_refuses_other_secret[OF ref_provision.auth_link_axioms demo_ready[OF demo_inv d(1)] _ refl, of "str_bytes ''pop''" "str_bytes ''pup''"] d(2,3)
  show ?thesis by fastforce
qed

text \<open>
  C13: the provisioning command provisions. Against a running device whose settings can be written,
  \<^verbatim>\<open>provision\<close> with the device's proof of possession and credentials that fit the store succeeds: it
  reads the version, authenticates, uploads every credential in chunks, finalizes, and ends the
  session. The device then no longer runs, is not authorized, has posted the end event, and has
  each credential, as it was given, both in the store and in its settings.
\<close>

theorem client_provisions_device:
  assumes "provision_link L E T dev split RE RD" and "ready_session E dev s" and "running (dev (ps_world s))"
    and "pop (config (dev (ps_world s))) \<noteq> Some []" and "attempts (auth (dev (ps_world s))) < 3"
    and "der_spans cert" and "length cert \<le> DEVICE_CERT_MAX" and "key \<noteq> []" and "length key \<le> PRIVATE_KEY_MAX"
    and "\<And>c. ca = Some c \<Longrightarrow> c \<noteq> [] \<and> length c \<le> CA_CERT_MAX"
  shows "\<exists>s'. provision L T (pop (config (dev (ps_world s)))) (Cred_files cert key ca) None password s = Some (Inr (), s') \<and>
    \<not> running (dev (ps_world s')) \<and> \<not> authorized (dev (ps_world s')) \<and> ended_of (trace (dev (ps_world s'))) \<and>
    (\<forall>k v. (k, Some v) \<in> {(0, Some cert), (1, Some key), (2, ca)} \<longrightarrow>
       pouch_prov_cred_get k (dev (ps_world s')) = Some v \<and> stored k (dev (ps_world s')) = Some v)"
  by (rule provision_link.provision_stores[OF assms])

theorem client_provisions_device_witness:
  "\<exists>s'. provision ref_libs (ref_link ref_env) (Some (str_bytes ''pop'')) (Cred_files demo_cert [7] None) None None (demo_session demo) = Some (Inr (), s') \<and>
    pouch_prov_cred_get 0 (fst (ps_world s')) = Some demo_cert \<and> stored 1 (fst (ps_world s')) = Some [7]"
proof -
  have d: "fifo_of (trace demo) = []" "running demo" "pop (config demo) = Some (str_bytes ''pop'')" "attempts (auth demo) < 3"
    by (simp_all add: demo_def demo_cfg_def boot_def)
  have c: "der_spans demo_cert" "length demo_cert \<le> DEVICE_CERT_MAX" "length [7 :: u8] \<le> PRIVATE_KEY_MAX" by (code_simp, simp_all add: demo_cert_def DEVICE_CERT_MAX_def PRIVATE_KEY_MAX_def)
  have p: "pop (config (fst (ps_world (demo_session demo)))) \<noteq> Some []" using d(3) by (simp add: str_bytes_def)
  from client_provisions_device[OF ref_provision.provision_link_axioms demo_ready[OF demo_inv d(1)] _ p _ c(1,2) _ c(3), of None None] d(2,3,4)
  show ?thesis by fastforce
qed



text \<open>
  C27: the client reads the scan results. Against a device whose scan has ended, the client collects
  exactly the results in the cache, in order, if every page of six fits a response; otherwise it gets
  none of them and raises \<^verbatim>\<open>ProvError\<close> with an internal error, however often it tries.
\<close>

theorem client_collects_scan:
  assumes "scan_link L E T dev split RE RD" and "open_session E dev s" and "sc_finished (sc (dev (ps_world s)))"
  shows "\<exists>s'. abind (scan_wait L T deadline) (\<lambda>n. scan_collect L T n []) s =
      Some (if \<forall>j<length (cached (dev (ps_world s))). 6 dvd j \<longrightarrow> page_fits (dev (ps_world s)) j then Inr (map ScanEntry_of (cached (dev (ps_world s))))
            else Inl (ProvError INTERNAL_ERROR), s') \<and> open_session E dev s' \<and> sc (dev (ps_world s')) = sc (dev (ps_world s))"
  by (rule scan_link.collect_finished[OF assms])

definition demo_found :: ap_entry where
  "demo_found = \<lparr>ap_ssid = replicate 32 97, ap_ssid_len = 32, ap_bssid = replicate 6 1, ap_channel = 6, ap_rssi = -50, ap_auth = 1\<rparr>"

definition demo_scanned :: "nat \<Rightarrow> device" where
  "demo_scanned n = demo\<lparr>config := demo_cfg\<lparr>pop := None\<rparr>,
     sc := (sc demo)\<lparr>sc_entries := replicate 16 demo_found, sc_count := n, sc_finished := True\<rparr>\<rparr>"

lemma demo_found_inv: "ap_inv demo_found"
  by (simp add: ap_inv_def demo_found_def)

lemma demo_page_fits:
  assumes "n \<le> 6"
  shows "page_fits (demo_scanned n) 0 \<longleftrightarrow> n \<le> 5" and "length (cached (demo_scanned n)) = n"
proof -
  let ?k = "length (toks_bytes (scan_entry_toks (scan_entry_of demo_found)))"
  have k: "69 \<le> ?k" "?k \<le> 75" using entry_size[OF demo_found_inv] by (simp_all add: demo_found_def)
  have c: "cached (demo_scanned n) = map scan_entry_of (replicate n demo_found)" using assms by (simp add: cached_def demo_scanned_def)
  then have "page_rsp (demo_scanned n) 0 = scan_rsp_scan_results_rsp_m prov_status_status_ok_m_c (map scan_entry_of (replicate n demo_found))"
    using assms by (simp add: page_rsp_def page_at_def)
  then have "length (toks_bytes (scan_rsp_toks (page_rsp (demo_scanned n) 0))) = 4 + n * ?k"
    using assms by (simp only: toks_bytes_results) (simp add: length_cbor_head sum_list_replicate)
  moreover have "n \<le> 5 \<Longrightarrow> n * ?k \<le> 5 * 75" using k(2) by (intro mult_le_mono) simp_all
  moreover have "\<not> n \<le> 5 \<Longrightarrow> 6 * 69 \<le> n * ?k" using k(1) by (intro mult_le_mono) simp_all
  ultimately show "page_fits (demo_scanned n) 0 \<longleftrightarrow> n \<le> 5" by (cases "n \<le> 5") (simp_all add: page_fits_def POUCH_PROV_MSG_MAX_def)
  show "length (cached (demo_scanned n)) = n" by (simp add: c)
qed

lemma demo_scanned_open:
  assumes "n \<le> 16"
  shows "open_session ref_env fst (demo_session (demo_scanned n))"
proof -
  have "CONFIG_POUCH_PROV_SCAN_CACHE ref_env = 16" by (simp add: ref_env_def)
  with demo_inv assms have "device_inv ref_env (demo_scanned n)" using demo_found_inv by (simp add: demo_scanned_def demo_cfg_def inv_unfold list_all_iff)
  moreover have "fifo_of (trace (demo_scanned n)) = []" "running (demo_scanned n)" "pouch_prov_session_authorized (demo_scanned n)"
    by (simp_all add: demo_scanned_def demo_def boot_def pouch_prov_session_authorized_def)
  ultimately show ?thesis using demo_ready by (simp add: open_session_def)
qed

theorem client_collects_scan_witness:
  "(\<exists>s'. abind (scan_wait ref_libs (ref_link ref_env) 0) (\<lambda>n. scan_collect ref_libs (ref_link ref_env) n []) (demo_session (demo_scanned 2)) =
      Some (Inr (map ScanEntry_of (cached (demo_scanned 2))), s')) \<and>
   (\<exists>s'. abind (scan_wait ref_libs (ref_link ref_env) 0) (\<lambda>n. scan_collect ref_libs (ref_link ref_env) n []) (demo_session (demo_scanned 6)) =
      Some (Inl (ProvError INTERNAL_ERROR), s'))"
proof -
  have f: "sc_finished (sc (demo_scanned n))" for n by (simp add: demo_scanned_def)
  have "j < n \<Longrightarrow> 6 dvd j \<Longrightarrow> n \<le> 6 \<Longrightarrow> j = 0" for j n :: nat by presburger
  then have p: "(\<forall>j<length (cached (demo_scanned n)). 6 dvd j \<longrightarrow> page_fits (demo_scanned n) j) \<longleftrightarrow> n \<le> 5" if "n \<le> 6" "0 < n" for n
    using demo_page_fits[OF that(1)] that by (metis dvd_0_right)
  note w = client_collects_scan[OF ref_scan.scan_link_axioms demo_scanned_open, unfolded demo_world, OF _ f, of _ 0]
  show ?thesis using w[of 2] w[of 6] p[of 2] p[of 6] by auto
qed

end
